(* ===== verification/Prelude.thy ===== *)
theory Prelude
  imports Complex_Main "HOL-Library.Word" "HOL-Library.List_Lexorder" "HOL-Library.Char_ord"
    "HOL-Library.AList" "HOL-Library.Multiset"
begin

text \<open>
  Shared vocabulary of the development: the types the Go code takes from the language, its
  standard library and its identifier format (strings as byte lists, instants, durations,
  UUIDs), the error values, and the generic lemmas on sorting, association lists and
  prefixes that the component theories use.

  Strings are Go strings: lists of bytes, compared bytewise (\<open>List_Lexorder\<close> over
  \<open>Char_ord\<close>), so that \<open>sort\<close> is \<^verbatim>\<open>sort.Strings\<close>. An instant (\<^verbatim>\<open>time.Time\<close>) is the
  number of nanoseconds since Go's zero time (January 1, year 1, UTC); its location is not
  modelled, so \<^verbatim>\<open>t.UTC()\<close> is the identity. A UUID is its 16 bytes read as one big-endian
  128-bit word, so that \<^verbatim>\<open>bytes.Compare\<close> on two UUIDs is the unsigned order on words.
\<close>

named_theorems lot_simps \<open>equations of position lots\<close>
named_theorems store_simps \<open>effect of a store operation on a table\<close>

section \<open>Types of the language and its library\<close>

type_synonym uuid = "128 word"
type_synonym time = int
type_synonym duration = int

definition uuid_nil :: uuid where
  "uuid_nil = 0"

definition uuid_bytes :: "uuid \<Rightarrow> 8 word list" where
  "uuid_bytes u = map (\<lambda>i. ucast (drop_bit (8 * (15 - i)) u)) [0..<16]"

text \<open>\<^verbatim>\<open>time.Time.Sub\<close> and \<^verbatim>\<open>time.Since\<close> saturate at the bounds of a 64-bit duration.\<close>

definition max_duration :: duration where
  "max_duration = 2 ^ 63 - 1"

definition min_duration :: duration where
  "min_duration = - (2 ^ 63)"

definition time_sub :: "time \<Rightarrow> time \<Rightarrow> duration" where
  "time_sub t u = max min_duration (min max_duration (t - u))"

definition millisecond :: duration where
  "millisecond = 1000000"

definition second :: duration where
  "second = 1000000000"

section \<open>Errors\<close>

text \<open>
  A Go error is identified by the sentinel that \<^verbatim>\<open>errors.Is\<close> finds in it
  (\<^verbatim>\<open>internal/domain/errors.go\<close>), with the text the program adds after it. Errors without a
  domain sentinel are \<open>EOther\<close>; a failed call to the database is \<open>EStore\<close>; \<open>EPanic\<close> is a Go
  panic, which no caller handles. Error texts of the standard library that the code only
  appends with \<^verbatim>\<open>%v\<close> are left out.
\<close>

datatype err =
    EValidation string
  | EPositionUnderflow
  | EInvalidPayload string
  | EDuplicateEvent string
  | EOutOfOrderEvent string
  | EInvalidEvent string
  | EUnknownType string
  | EStore string
  | EOther string
  | EPanic string

type_synonym 'a res = "err + 'a"

section \<open>Generic lemmas\<close>

lemma sort_map_fst_distinct:
  assumes "distinct (map fst xs)"
  shows "sorted_wrt (\<lambda>p q. fst p < fst q) (sort_key fst xs)"
proof -
  have "sorted (map fst (sort_key fst xs))" by simp
  moreover have "distinct (map fst (sort_key fst xs))"
    using assms by (metis distinct_map distinct_sort inj_on_def set_sort)
  ultimately have "sorted_wrt (<) (map fst (sort_key fst xs))"
    by (simp add: strict_sorted_iff)
  then show ?thesis by (simp add: sorted_wrt_map)
qed

lemma takeWhile_is_prefix_filter:
  assumes "sorted (map f xs)"
  shows "takeWhile (\<lambda>x. f x \<le> c) xs = filter (\<lambda>x. f x \<le> c) xs"
  using assms
proof (induction xs)
  case (Cons x xs)
  show ?case
  proof (cases "f x \<le> c")
    case True
    with Cons show ?thesis by simp
  next
    case False
    with Cons.prems have "\<forall>y\<in>set xs. \<not> f y \<le> c" by fastforce
    with False show ?thesis by (simp add: filter_empty_conv)
  qed
qed simp

lemma sum_list_mset_cong:
  fixes f :: "'a \<Rightarrow> rat"
  assumes "mset xs = mset ys"
  shows "sum_list (map f xs) = sum_list (map f ys)"
proof -
  have "sum_list (map f zs) = sum_mset (image_mset f (mset zs))" for zs
    by (induction zs) simp_all
  then show ?thesis using assms by simp
qed

lemma fold_perm:
  assumes "mset xs = mset ys" and "\<And>x y s. f x (f y s) = f y (f x s)"
  shows "fold f xs s = fold f ys s"
proof -
  have "fold f xs = fold f ys"
    using assms by (intro fold_multiset_equiv) (auto simp: fun_eq_iff)
  then show ?thesis by simp
qed

lemma fold_invariant_list:
  assumes "P s" and "\<And>x s. x \<in> set xs \<Longrightarrow> P s \<Longrightarrow> P (f x s)"
  shows "P (fold f xs s)"
  using assms by (induction xs arbitrary: s) auto

end
