(* ===== verification/Decimal.thy ===== *)
theory Decimal
  imports Prelude
begin

text \<open>
  The interface to \<^verbatim>\<open>github.com/shopspring/decimal\<close>, a third-party package: its type is a type
  parameter \<open>'d\<close> and its operations are the fields of a record \<open>decimal_api\<close> that every
  definition using decimals takes as an argument. What the code relies on is the locale
  \<open>decimal_laws\<close>, stated with the number \<open>val d\<close> a decimal stands for: addition,
  subtraction and multiplication are exact, \<^verbatim>\<open>Div\<close> rounds to 16 decimal places and panics
  on a zero divisor, \<^verbatim>\<open>StringFixed n\<close> rounds half away from zero, and \<^verbatim>\<open>NewFromString\<close> reads
  back what \<^verbatim>\<open>String\<close> and \<^verbatim>\<open>StringFixed\<close> print.

  The laws are proved for a reference decimal (a coefficient and a scale, with its printer and
  its parser) in the theory \<open>Decimal_Ref\<close>.
\<close>

section \<open>The package as a parameter\<close>

record 'd decimal_api =
  d_zero :: 'd
  d_of_int :: "int \<Rightarrow> 'd"
  d_add :: "'d \<Rightarrow> 'd \<Rightarrow> 'd"
  d_sub :: "'d \<Rightarrow> 'd \<Rightarrow> 'd"
  d_mul :: "'d \<Rightarrow> 'd \<Rightarrow> 'd"
  d_div :: "'d \<Rightarrow> 'd \<Rightarrow> 'd option"
  d_abs :: "'d \<Rightarrow> 'd"
  d_less :: "'d \<Rightarrow> 'd \<Rightarrow> bool"
  d_equal :: "'d \<Rightarrow> 'd \<Rightarrow> bool"
  d_is_zero :: "'d \<Rightarrow> bool"
  d_is_positive :: "'d \<Rightarrow> bool"
  d_string :: "'d \<Rightarrow> string"
  d_string_fixed :: "'d \<Rightarrow> nat \<Rightarrow> string"
  d_parse :: "string \<Rightarrow> 'd option"

definition round_away :: "nat \<Rightarrow> rat \<Rightarrow> rat" where
  "round_away n x = sgn x * of_int \<lfloor>\<bar>x\<bar> * 10 ^ n + 1 / 2\<rfloor> / 10 ^ n"

definition div_eps :: rat where
  "div_eps = 1 / (2 * 10 ^ 16)"

text \<open>Digits, for the law on reading a plain decimal text.\<close>

definition is_digit :: "char \<Rightarrow> bool" where
  "is_digit c \<longleftrightarrow> 48 \<le> (of_char c :: nat) \<and> (of_char c :: nat) \<le> 57"

definition char_digit :: "char \<Rightarrow> nat" where
  "char_digit c = of_char c - 48"

definition digits_value :: "string \<Rightarrow> nat" where
  "digits_value s = foldl (\<lambda>v c. 10 * v + char_digit c) 0 s"

locale decimal_laws =
  fixes D :: "'d decimal_api" and val :: "'d \<Rightarrow> rat"
  assumes val_zero: "val (d_zero D) = 0"
    and val_of_int: "val (d_of_int D i) = of_int i"
    and val_add: "val (d_add D a b) = val a + val b"
    and val_sub: "val (d_sub D a b) = val a - val b"
    and val_mul: "val (d_mul D a b) = val a * val b"
    and val_abs: "val (d_abs D a) = \<bar>val a\<bar>"
    and div_zero: "val b = 0 \<Longrightarrow> d_div D a b = None"
    and div_some: "val b \<noteq> 0 \<Longrightarrow>
      \<exists>q. d_div D a b = Some q \<and> val q = round_away 16 (val a / val b)"
    and less_iff: "d_less D a b \<longleftrightarrow> val a < val b"
    and equal_iff: "d_equal D a b \<longleftrightarrow> val a = val b"
    and is_zero_iff: "d_is_zero D a \<longleftrightarrow> val a = 0"
    and is_positive_iff: "d_is_positive D a \<longleftrightarrow> 0 < val a"
    and parse_string: "\<exists>e. d_parse D (d_string D a) = Some e \<and> val e = val a"
    and string_eq: "val a = val b \<Longrightarrow> d_string D a = d_string D b"
    and parse_fixed: "\<exists>e. d_parse D (d_string_fixed D a n) = Some e \<and>
      val e = round_away n (val a)"
    and parse_decimal: "ip \<noteq> [] \<Longrightarrow> fp \<noteq> [] \<Longrightarrow> \<forall>c\<in>set (ip @ fp). is_digit c \<Longrightarrow>
      \<exists>e. d_parse D (ip @ CHR ''.'' # fp) = Some e \<and>
        val e = of_nat (digits_value (ip @ fp)) / 10 ^ length fp"
begin

lemmas vals = val_zero val_of_int val_add val_sub val_mul val_abs less_iff equal_iff
  is_zero_iff is_positive_iff

end

section \<open>Rounding\<close>

lemma round_away_0 [simp]: "round_away n 0 = 0"
  by (simp add: round_away_def)

lemma round_away_minus: "round_away n (- x) = - round_away n x"
  by (simp add: round_away_def sgn_minus)

lemma round_away_nonneg_eq: "0 \<le> x \<Longrightarrow> round_away n x = of_int \<lfloor>x * 10 ^ n + 1 / 2\<rfloor> / 10 ^ n"
proof -
  assume "0 \<le> x"
  moreover have "\<lfloor>1 / 2 :: rat\<rfloor> = 0" by linarith
  ultimately show ?thesis by (cases "x = 0") (auto simp: round_away_def)
qed

lemma round_away_nonneg: "0 \<le> x \<Longrightarrow> 0 \<le> round_away n x"
  by (simp add: round_away_nonneg_eq)

lemma round_away_error_nonneg:
  assumes "0 \<le> x"
  shows "\<bar>round_away n x - x\<bar> \<le> 1 / (2 * 10 ^ n)"
proof -
  let ?k = "(10::rat) ^ n"
  define m where "m = \<lfloor>x * ?k + 1 / 2\<rfloor>"
  have k: "0 < ?k" by simp
  have "of_int m \<le> x * ?k + 1 / 2" and "x * ?k + 1 / 2 < of_int m + 1"
    unfolding m_def by linarith+
  then have "\<bar>of_int m - x * ?k\<bar> \<le> 1 / 2" by linarith
  moreover have "of_int m / ?k - x = (of_int m - x * ?k) / ?k"
    using k by (simp add: diff_divide_distrib)
  then have "\<bar>of_int m / ?k - x\<bar> = \<bar>of_int m - x * ?k\<bar> / ?k"
    using k by (simp only: abs_divide abs_of_pos)
  ultimately have "\<bar>of_int m / ?k - x\<bar> \<le> (1 / 2) / ?k"
    using k by (metis divide_right_mono less_imp_le)
  then show ?thesis
    using assms by (simp add: round_away_nonneg_eq m_def)
qed

lemma round_away_error: "\<bar>round_away n x - x\<bar> \<le> 1 / (2 * 10 ^ n)"
proof (cases "0 \<le> x")
  case True
  then show ?thesis by (rule round_away_error_nonneg)
next
  case False
  then have "\<bar>round_away n (- x) - (- x)\<bar> \<le> 1 / (2 * 10 ^ n)"
    by (intro round_away_error_nonneg) simp
  then show ?thesis by (simp add: round_away_minus abs_minus_commute)
qed

lemma round_away_exact_nonneg:
  assumes "0 \<le> x" and "x = of_int c / 10 ^ n"
  shows "round_away n x = x"
proof -
  have "x * 10 ^ n = of_int c" using assms by simp
  moreover have "\<lfloor>of_int c + (1 / 2 :: rat)\<rfloor> = c" by linarith
  ultimately show ?thesis using assms by (simp add: round_away_nonneg_eq)
qed

lemma round_away_exact:
  assumes "x = of_int c / 10 ^ n"
  shows "round_away n x = x"
proof (cases "0 \<le> x")
  case True
  then show ?thesis using assms by (rule round_away_exact_nonneg)
next
  case False
  then have "round_away n (- x) = - x"
    using assms by (intro round_away_exact_nonneg [where c = "- c"]) auto
  then show ?thesis by (simp add: round_away_minus)
qed

lemma round_away_int: "\<exists>c. round_away n x = of_int c / 10 ^ n"
proof (cases "0 \<le> x")
  case True
  then show ?thesis by (auto simp: round_away_nonneg_eq)
next
  case False
  then have "round_away n x = of_int (- \<lfloor>(- x) * 10 ^ n + 1 / 2\<rfloor>) / 10 ^ n"
    using round_away_nonneg_eq [of "- x" n] by (simp add: round_away_minus)
  then show ?thesis by blast
qed

lemma round_away_idem [simp]: "round_away n (round_away n x) = round_away n x"
  using round_away_int [of n x] round_away_exact by blast

end
