(* ===== verification/Decimal_Ref.thy ===== *)
theory Decimal_Ref
  imports Decimal
begin

text \<open>
  A reference decimal: a coefficient and a scale (\<open>RDec c n\<close> is \<open>c / 10 ^ n\<close>), with exact
  addition and multiplication, division and rounding to a fixed number of places, and the
  printer and the parser of the decimal notation. It satisfies every law of
  \<open>decimal_laws\<close>, so it instantiates the decimal parameter wherever a concrete run of the
  model is needed.
\<close>

section \<open>Decimal notation\<close>

definition digit_char :: "nat \<Rightarrow> char" where
  "digit_char d = char_of (48 + d)"

fun nat_string :: "nat \<Rightarrow> string" where
  "nat_string m = (if m < 10 then [digit_char m]
     else nat_string (m div 10) @ [digit_char (m mod 10)])"

declare nat_string.simps [simp del]

fun pad_string :: "nat \<Rightarrow> nat \<Rightarrow> string" where
  "pad_string 0 m = []"
| "pad_string (Suc n) m = pad_string n (m div 10) @ [digit_char (m mod 10)]"

lemma digit_char_digit: "d < 10 \<Longrightarrow> is_digit (digit_char d) \<and> char_digit (digit_char d) = d"
  by (simp add: digit_char_def is_digit_def char_digit_def)

lemma foldl_digits_value:
  "foldl (\<lambda>v c. 10 * v + char_digit c) a s = a * 10 ^ length s + digits_value s"
proof (induction s arbitrary: a)
  case (Cons c s)
  have "digits_value (c # s) = char_digit c * 10 ^ length s + digits_value s"
    using Cons.IH [of "char_digit c"] by (simp add: digits_value_def)
  with Cons.IH [of "10 * a + char_digit c"] show ?case by (simp add: algebra_simps)
qed (simp add: digits_value_def)

lemma digits_value_append:
  "digits_value (s @ t) = digits_value s * 10 ^ length t + digits_value t"
  using foldl_digits_value [of "digits_value s" t] by (simp add: digits_value_def)

lemma digits_value_single [simp]: "digits_value [c] = char_digit c"
  by (simp add: digits_value_def)

lemma digits_value_Nil [simp]: "digits_value [] = 0"
  by (simp add: digits_value_def)

lemma nat_string_digits: "(\<forall>c\<in>set (nat_string m). is_digit c) \<and> nat_string m \<noteq> []"
proof (induction m rule: nat_string.induct)
  case (1 m)
  then show ?case by (subst (1 2) nat_string.simps) (auto simp: digit_char_digit)
qed

lemma digits_value_nat_string [simp]: "digits_value (nat_string m) = m"
proof (induction m rule: nat_string.induct)
  case (1 m)
  then show ?case
    by (subst nat_string.simps) (auto simp: digits_value_append digit_char_digit)
qed

lemma length_pad_string [simp]: "length (pad_string n m) = n"
  by (induction n m rule: pad_string.induct) auto

lemma pad_string_digits: "\<forall>c\<in>set (pad_string n m). is_digit c"
  by (induction n m rule: pad_string.induct) (auto simp: digit_char_digit)

lemma digits_value_pad_string [simp]: "digits_value (pad_string n m) = m mod 10 ^ n"
proof (induction n m rule: pad_string.induct)
  case (2 n m)
  have "m mod 10 ^ Suc n = 10 * ((m div 10) mod 10 ^ n) + m mod 10"
    by (simp add: mod_mult2_eq)
  with 2 show ?case by (simp add: digits_value_append digit_char_digit)
qed simp

section \<open>Printer and parser\<close>

datatype rdec = RDec (coeff: int) (scale: nat)

definition rval :: "rdec \<Rightarrow> rat" where
  "rval a = of_int (coeff a) / 10 ^ scale a"

definition fixed_string :: "rdec \<Rightarrow> string" where
  "fixed_string a = (let m = nat \<bar>coeff a\<bar>; n = scale a in
     (if coeff a < 0 then ''-'' else []) @ nat_string (m div 10 ^ n) @
     (if n = 0 then [] else CHR ''.'' # pad_string n m))"

definition parse_unsigned :: "string \<Rightarrow> rdec option" where
  "parse_unsigned s = (let ip = takeWhile is_digit s; r = dropWhile is_digit s in
     if ip = [] then None
     else (case r of [] \<Rightarrow> Some (RDec (int (digits_value ip)) 0)
       | c # fp \<Rightarrow> if c = CHR ''.'' \<and> fp \<noteq> [] \<and> (\<forall>d\<in>set fp. is_digit d)
           then Some (RDec (int (digits_value (ip @ fp))) (length fp)) else None))"

fun rparse :: "string \<Rightarrow> rdec option" where
  "rparse [] = None"
| "rparse (c # s) = (if c = CHR ''-''
     then map_option (\<lambda>a. RDec (- coeff a) (scale a)) (parse_unsigned s)
     else parse_unsigned (c # s))"

lemma not_digit [simp]: "\<not> is_digit (CHR ''.'')" "\<not> is_digit (CHR ''-'')"
  by (simp_all add: is_digit_def)

lemma parse_unsigned_print:
  "parse_unsigned (nat_string (m div 10 ^ n) @ (if n = 0 then [] else CHR ''.'' # pad_string n m))
     = Some (RDec (int m) n)"
proof -
  let ?ip = "nat_string (m div 10 ^ n)"
  have ip: "\<forall>c\<in>set ?ip. is_digit c" "?ip \<noteq> []" using nat_string_digits by auto
  have fp: "\<forall>c\<in>set (pad_string n m). is_digit c" by (rule pad_string_digits)
  have v: "m div 10 ^ n * 10 ^ n + m mod 10 ^ n = m" by (rule div_mult_mod_eq)
  show ?thesis
  proof (cases n)
    case 0
    moreover have "takeWhile is_digit ?ip = ?ip" "dropWhile is_digit ?ip = []"
      using ip by (auto simp: takeWhile_eq_all_conv)
    ultimately show ?thesis using ip
      by (simp add: parse_unsigned_def Let_def del: takeWhile_eq_all_conv dropWhile_eq_Nil_conv)
  next
    case (Suc k)
    have "pad_string n m \<noteq> []" using Suc length_pad_string [of n m] by fastforce
    then show ?thesis using ip fp Suc v
      by (simp add: parse_unsigned_def takeWhile_append2 dropWhile_append2
          digits_value_append del: pad_string.simps)
  qed
qed

lemma rparse_fixed_string: "rparse (fixed_string a) = Some a"
proof -
  define m n where "m = nat \<bar>coeff a\<bar>" and "n = scale a"
  define body where "body = nat_string (m div 10 ^ n) @
    (if n = 0 then [] else CHR ''.'' # pad_string n m)"
  have p: "parse_unsigned body = Some (RDec (int m) n)"
    unfolding body_def by (rule parse_unsigned_print)
  obtain d r where body: "body = d # r" and d: "is_digit d"
    using nat_string_digits [of "m div 10 ^ n"] unfolding body_def
    by (cases "nat_string (m div 10 ^ n)") auto
  have fs: "fixed_string a = (if coeff a < 0 then ''-'' else []) @ body"
    unfolding fixed_string_def body_def m_def n_def by (simp add: Let_def)
  show ?thesis
  proof (cases "coeff a < 0")
    case True
    then show ?thesis using fs p by (cases a) (simp add: m_def n_def)
  next
    case False
    moreover have "d \<noteq> CHR ''-''" using d by auto
    ultimately show ?thesis using fs p body by (cases a) (simp add: m_def n_def)
  qed
qed

lemma rparse_decimal_text:
  assumes "ip \<noteq> []" "fp \<noteq> []" "\<forall>c\<in>set (ip @ fp). is_digit c"
  shows "\<exists>e. rparse (ip @ CHR ''.'' # fp) = Some e \<and>
    rval e = of_nat (digits_value (ip @ fp)) / 10 ^ length fp"
proof -
  obtain c r where ip: "ip = c # r" using assms(1) by (cases ip) auto
  have "c \<noteq> CHR ''-''" using assms(3) ip by auto
  then have "rparse (ip @ CHR ''.'' # fp) = parse_unsigned (ip @ CHR ''.'' # fp)" using ip by simp
  also have "\<dots> = Some (RDec (int (digits_value (ip @ fp))) (length fp))"
    using assms by (simp add: parse_unsigned_def takeWhile_append2 dropWhile_append2)
  finally show ?thesis by (simp add: rval_def)
qed

section \<open>Normal form, rounding, division\<close>

fun rnorm :: "int \<Rightarrow> nat \<Rightarrow> rdec" where
  "rnorm c 0 = RDec c 0"
| "rnorm c (Suc n) = (if c mod 10 = 0 then rnorm (c div 10) n else RDec c (Suc n))"

definition rquot :: "nat \<Rightarrow> int \<Rightarrow> int \<Rightarrow> rdec" where
  "rquot k p q = RDec (sgn p * ((2 * \<bar>p\<bar> * 10 ^ k + q) div (2 * q))) k"

lemma rval_rquot:
  assumes "0 < q"
  shows "rval (rquot k p q) = round_away k (of_int p / of_int q)"
proof -
  have "\<bar>of_int p / of_int q\<bar> * 10 ^ k + 1 / (2::rat)
      = of_int (2 * \<bar>p\<bar> * 10 ^ k + q) / of_int (2 * q)"
    using assms by (simp add: field_simps abs_divide)
  then have "\<lfloor>\<bar>of_int p / of_int q\<bar> * 10 ^ k + 1 / (2::rat)\<rfloor> = (2 * \<bar>p\<bar> * 10 ^ k + q) div (2 * q)"
    by (simp only: floor_divide_of_int_eq)
  moreover have "sgn (of_int p / of_int q :: rat) = of_int (sgn p)"
    using assms by (auto simp: sgn_if divide_less_0_iff zero_less_divide_iff)
  ultimately show ?thesis
    by (simp add: rval_def rquot_def round_away_def)
qed

definition rround :: "nat \<Rightarrow> rdec \<Rightarrow> rdec" where
  "rround k a = rquot k (coeff a) (10 ^ scale a)"

lemma rval_rround: "rval (rround k a) = round_away k (rval a)"
  by (simp add: rround_def rval_rquot) (simp add: rval_def)

definition rdiv :: "rdec \<Rightarrow> rdec \<Rightarrow> rdec option" where
  "rdiv a b = (if coeff b = 0 then None
     else Some (rquot 16 (sgn (coeff b) * coeff a * 10 ^ scale b) (\<bar>coeff b\<bar> * 10 ^ scale a)))"

lemma rdiv_value:
  assumes "rval b \<noteq> 0"
  shows "\<exists>q. rdiv a b = Some q \<and> rval q = round_away 16 (rval a / rval b)"
proof -
  have b: "coeff b \<noteq> 0" using assms by (auto simp: rval_def)
  have "rval a / rval b
      = of_int (sgn (coeff b) * coeff a * 10 ^ scale b) / of_int (\<bar>coeff b\<bar> * 10 ^ scale a)"
    using b by (simp add: rval_def sgn_if abs_if)
  then show ?thesis using b by (simp add: rdiv_def rval_rquot)
qed

lemma rval_rnorm: "rval (rnorm c n) = of_int c / 10 ^ n"
proof (induction c n rule: rnorm.induct)
  case (2 c n)
  show ?case
  proof (cases "c mod 10 = 0")
    case True
    then have "of_int c = (10::rat) * of_int (c div 10)"
      by (metis dvd_eq_mod_eq_0 dvd_mult_div_cancel of_int_mult of_int_numeral)
    with True "2.IH" show ?thesis by simp
  next
    case False
    then show ?thesis by (simp add: rval_def)
  qed
qed (simp add: rval_def)

lemma rnorm_normal: "scale (rnorm c n) = 0 \<or> coeff (rnorm c n) mod 10 \<noteq> 0"
  by (induction c n rule: rnorm.induct) auto

lemma normal_unique_aux:
  assumes v: "rval a = rval b" and b: "scale b = 0 \<or> coeff b mod 10 \<noteq> 0"
    and le: "scale a \<le> scale b"
  shows "a = b"
proof -
  define k where "k = scale b - scale a"
  have "(10::rat) ^ scale b = 10 ^ k * 10 ^ scale a"
    using le by (simp add: k_def flip: power_add)
  then have "(of_int (coeff b) :: rat) = of_int (coeff a * 10 ^ k)"
    using v by (simp add: rval_def field_simps)
  then have c: "coeff b = coeff a * 10 ^ k" by (simp only: of_int_eq_iff)
  have "k = 0"
  proof (rule ccontr)
    assume "k \<noteq> 0"
    then have "coeff b mod 10 = 0" using c by (cases k) auto
    moreover have "scale b \<noteq> 0" using \<open>k \<noteq> 0\<close> by (auto simp: k_def)
    ultimately show False using b by simp
  qed
  with c le show ?thesis by (cases a, cases b) (simp add: k_def)
qed

definition rstring :: "rdec \<Rightarrow> string" where
  "rstring a = fixed_string (rnorm (coeff a) (scale a))"

lemma rstring_eq:
  assumes "rval a = rval b"
  shows "rstring a = rstring b"
proof -
  let ?a = "rnorm (coeff a) (scale a)" and ?b = "rnorm (coeff b) (scale b)"
  have v: "rval ?a = rval ?b" using assms by (simp add: rval_rnorm) (simp add: rval_def)
  have "?a = ?b"
  proof (cases "scale ?a \<le> scale ?b")
    case True
    show ?thesis by (rule normal_unique_aux [OF v rnorm_normal True])
  next
    case False
    then have "scale ?b \<le> scale ?a" by simp
    then have "?b = ?a" by (rule normal_unique_aux [OF v [symmetric] rnorm_normal])
    then show ?thesis ..
  qed
  then show ?thesis by (simp add: rstring_def)
qed

section \<open>The instance\<close>

definition ref_dec :: "rdec decimal_api" where
  "ref_dec = \<lparr> d_zero = RDec 0 0, d_of_int = (\<lambda>i. RDec i 0),
     d_add = (\<lambda>a b. RDec (coeff a * 10 ^ scale b + coeff b * 10 ^ scale a) (scale a + scale b)),
     d_sub = (\<lambda>a b. RDec (coeff a * 10 ^ scale b - coeff b * 10 ^ scale a) (scale a + scale b)),
     d_mul = (\<lambda>a b. RDec (coeff a * coeff b) (scale a + scale b)),
     d_div = rdiv,
     d_abs = (\<lambda>a. RDec \<bar>coeff a\<bar> (scale a)),
     d_less = (\<lambda>a b. coeff a * 10 ^ scale b < coeff b * 10 ^ scale a),
     d_equal = (\<lambda>a b. coeff a * 10 ^ scale b = coeff b * 10 ^ scale a),
     d_is_zero = (\<lambda>a. coeff a = 0),
     d_is_positive = (\<lambda>a. 0 < coeff a),
     d_string = rstring,
     d_string_fixed = (\<lambda>a n. fixed_string (rround n a)),
     d_parse = rparse \<rparr>"

lemma rval_less_iff: "coeff a * 10 ^ scale b < coeff b * 10 ^ scale a \<longleftrightarrow> rval a < rval b"
proof -
  have "rval a < rval b \<longleftrightarrow> (of_int (coeff a * 10 ^ scale b) :: rat) < of_int (coeff b * 10 ^ scale a)"
    by (simp add: rval_def field_simps)
  then show ?thesis by (simp only: of_int_less_iff)
qed

lemma rval_eq_iff: "coeff a * 10 ^ scale b = coeff b * 10 ^ scale a \<longleftrightarrow> rval a = rval b"
  using rval_less_iff [of a b] rval_less_iff [of b a] by (auto simp: not_less_iff_gr_or_eq)

lemma rval_RDec: "rval (RDec c n) = of_int c / 10 ^ n"
  by (simp add: rval_def)

lemma rval_sum:
  "rval (RDec (coeff a * 10 ^ scale b + coeff b * 10 ^ scale a) (scale a + scale b)) = rval a + rval b"
  "rval (RDec (coeff a * 10 ^ scale b - coeff b * 10 ^ scale a) (scale a + scale b)) = rval a - rval b"
  by (simp_all add: rval_def power_add add_divide_distrib diff_divide_distrib)

interpretation ref: decimal_laws ref_dec rval
proof
  fix a b :: rdec and n :: nat and i :: int
  show "rval (d_zero ref_dec) = 0" "rval (d_of_int ref_dec i) = of_int i"
    by (simp_all add: ref_dec_def rval_RDec)
  show "rval (d_add ref_dec a b) = rval a + rval b" "rval (d_sub ref_dec a b) = rval a - rval b"
    by (simp_all add: ref_dec_def rval_sum)
  show "rval (d_mul ref_dec a b) = rval a * rval b" "rval (d_abs ref_dec a) = \<bar>rval a\<bar>"
    by (simp_all add: ref_dec_def rval_def power_add abs_divide)
  show "rval b = 0 \<Longrightarrow> d_div ref_dec a b = None" by (simp add: ref_dec_def rdiv_def rval_def)
  show "rval b \<noteq> 0 \<Longrightarrow>
      \<exists>q. d_div ref_dec a b = Some q \<and> rval q = round_away 16 (rval a / rval b)"
    by (simp add: ref_dec_def rdiv_value)
  show "d_less ref_dec a b \<longleftrightarrow> rval a < rval b" by (simp add: ref_dec_def rval_less_iff)
  show "d_equal ref_dec a b \<longleftrightarrow> rval a = rval b" by (simp add: ref_dec_def rval_eq_iff)
  show "d_is_zero ref_dec a \<longleftrightarrow> rval a = 0" "d_is_positive ref_dec a \<longleftrightarrow> 0 < rval a"
    by (simp_all add: ref_dec_def rval_def zero_less_divide_iff)
  have "rval (rnorm (coeff a) (scale a)) = rval a"
    by (simp only: rval_rnorm rval_def [of a])
  then show "\<exists>e. d_parse ref_dec (d_string ref_dec a) = Some e \<and> rval e = rval a"
    by (simp add: ref_dec_def rstring_def rparse_fixed_string)
  show "rval a = rval b \<Longrightarrow> d_string ref_dec a = d_string ref_dec b"
    by (simp add: ref_dec_def) (rule rstring_eq)
  show "\<exists>e. d_parse ref_dec (ip @ CHR ''.'' # fp) = Some e \<and>
      rval e = of_nat (digits_value (ip @ fp)) / 10 ^ length fp"
    if "ip \<noteq> []" "fp \<noteq> []" "\<forall>c\<in>set (ip @ fp). is_digit c" for ip fp
    using rparse_decimal_text [OF that] by (simp add: ref_dec_def)
  show "\<exists>e. d_parse ref_dec (d_string_fixed ref_dec a n) = Some e \<and>
      rval e = round_away n (rval a)"
    by (simp add: ref_dec_def rparse_fixed_string rval_rround)
qed

end
