(* ===== verification/Domain_Model.thy ===== *)
theory Domain_Model
  imports Decimal
begin

text \<open>
  \<^verbatim>\<open>internal/domain\<close>: event envelopes, trade and price payloads, their JSON form, and the
  validation rules that run before an event is stored (\<^verbatim>\<open>types.go\<close>, \<^verbatim>\<open>events.go\<close>,
  \<^verbatim>\<open>payloads.go\<close>, \<^verbatim>\<open>validation.go\<close>).

  A \<^verbatim>\<open>json.RawMessage\<close> is modelled by what the JSON scanner makes of it: no bytes, bytes that
  are not a JSON document, or a document with its syntax tree. Decoding into a struct is
  \<^verbatim>\<open>encoding/json\<close>: members are visited in order, a member name selects a field exactly or
  else up to case folding, \<^verbatim>\<open>null\<close> leaves a field alone, and a value of the wrong type makes the
  whole call fail. The two methods of the decimal package that take part in it
  (\<^verbatim>\<open>MarshalJSON\<close>, \<^verbatim>\<open>UnmarshalJSON\<close>) are a parameter, \<open>json_api\<close>; what is used of them
  (\<open>decimal_json\<close>) is that a decimal is written as a string of ASCII characters and that the
  value is read back.
\<close>

section \<open>JSON documents\<close>

datatype json =
    JNull
  | JBool bool
  | JNum string
  | JStr string
  | JArr "json list"
  | JObj "(string \<times> json) list"

datatype raw_message = RawEmpty | RawMalformed | RawDoc json

record 'd json_api =
  d_marshal :: "'d \<Rightarrow> json"
  d_unmarshal :: "json \<Rightarrow> 'd \<Rightarrow> 'd option"

locale decimal_json = decimal_laws D val
  for D :: "'d decimal_api" and val :: "'d \<Rightarrow> rat" +
  fixes J :: "'d json_api"
  assumes unmarshal_marshal: "\<exists>e. d_unmarshal J (d_marshal J a) old = Some e \<and> val e = val a"
    and marshal_ascii: "\<exists>s. d_marshal J a = JStr s \<and> (\<forall>c\<in>set s. 0 < (of_char c :: nat) \<and> (of_char c :: nat) < 128)"

text \<open>
  The folding of a member name for the case-insensitive match: ASCII letters to upper case,
  and the two characters outside ASCII that fold to an ASCII letter (U+017F to \<^verbatim>\<open>S\<close>, U+212A
  to \<^verbatim>\<open>K\<close>, in UTF-8).
\<close>

definition ascii_upper :: "char \<Rightarrow> char" where
  "ascii_upper c = (let n = (of_char c :: nat) in if 97 \<le> n \<and> n \<le> 122 then char_of (n - 32) else c)"

fun fold_name :: "string \<Rightarrow> string" where
  "fold_name (a # b # c # s) =
     (if (of_char a :: nat) = 197 \<and> (of_char b :: nat) = 191 then CHR ''S'' # fold_name (c # s)
      else if (of_char a :: nat) = 226 \<and> (of_char b :: nat) = 132 \<and> (of_char c :: nat) = 170
        then CHR ''K'' # fold_name s
      else ascii_upper a # fold_name (b # c # s))"
| "fold_name [a, b] =
     (if (of_char a :: nat) = 197 \<and> (of_char b :: nat) = 191 then ''S'' else [ascii_upper a, ascii_upper b])"
| "fold_name [a] = [ascii_upper a]"
| "fold_name [] = []"

definition field_match :: "string list \<Rightarrow> string \<Rightarrow> string option" where
  "field_match names k = (if k \<in> set names then Some k
     else find (\<lambda>f. fold_name f = fold_name k) names)"

fun decode_string :: "json \<Rightarrow> string \<Rightarrow> string option" where
  "decode_string JNull old = Some old"
| "decode_string (JStr s) old = Some s"
| "decode_string _ old = None"

text \<open>An integer literal into an \<^verbatim>\<open>int64\<close> field: no fraction, no exponent, in range.\<close>

definition parse_int_literal :: "string \<Rightarrow> int option" where
  "parse_int_literal s =
     (let ds = (if s \<noteq> [] \<and> hd s = CHR ''-'' then tl s else s);
          v = foldl (\<lambda>v c. 10 * v + (int (of_char c) - 48)) 0 ds;
          i = (if s \<noteq> [] \<and> hd s = CHR ''-'' then - v else v)
      in if ds \<noteq> [] \<and> (\<forall>c\<in>set ds. 48 \<le> (of_char c :: nat) \<and> (of_char c :: nat) \<le> 57)
            \<and> - (2 ^ 63) \<le> i \<and> i < 2 ^ 63
         then Some i else None)"

fun decode_int64 :: "json \<Rightarrow> int \<Rightarrow> int option" where
  "decode_int64 JNull old = Some old"
| "decode_int64 (JNum s) old = parse_int_literal s"
| "decode_int64 _ old = None"

section \<open>Payloads and envelopes\<close>

record 'd trade_payload =
  trade_id :: string
  symbol :: string
  side :: string
  quantity :: 'd
  price :: 'd
  currency :: string

record 'd price_payload =
  p_symbol :: string
  p_price :: 'd
  p_currency :: string
  source_sequence :: int

record event_envelope =
  event_id :: uuid
  event_type :: string
  event_time :: time
  processing_time :: time
  source :: string
  portfolio_id :: string
  idempotency_key :: string
  payload :: raw_message

definition side_buy :: string where "side_buy = ''BUY''"
definition side_sell :: string where "side_sell = ''SELL''"
definition event_type_trade_executed :: string where
  "event_type_trade_executed = ''TradeExecuted''"
definition event_type_price_updated :: string where
  "event_type_price_updated = ''PriceUpdated''"

section \<open>JSON form of the payloads\<close>

definition trade_fields :: "string list" where
  "trade_fields = [''trade_id'', ''symbol'', ''side'', ''quantity'', ''price'', ''currency'']"

definition decode_trade_member ::
  "'d json_api \<Rightarrow> string \<times> json \<Rightarrow> 'd trade_payload option \<Rightarrow> 'd trade_payload option" where
  "decode_trade_member J m acc = (case acc of None \<Rightarrow> None | Some t \<Rightarrow>
     (case field_match trade_fields (fst m) of None \<Rightarrow> Some t
      | Some f \<Rightarrow>
        (if f = ''trade_id'' then map_option (\<lambda>v. t\<lparr>trade_id := v\<rparr>) (decode_string (snd m) (trade_id t))
         else if f = ''symbol'' then map_option (\<lambda>v. t\<lparr>symbol := v\<rparr>) (decode_string (snd m) (symbol t))
         else if f = ''side'' then map_option (\<lambda>v. t\<lparr>side := v\<rparr>) (decode_string (snd m) (side t))
         else if f = ''quantity'' then map_option (\<lambda>v. t\<lparr>quantity := v\<rparr>) (d_unmarshal J (snd m) (quantity t))
         else if f = ''price'' then map_option (\<lambda>v. t\<lparr>price := v\<rparr>) (d_unmarshal J (snd m) (price t))
         else map_option (\<lambda>v. t\<lparr>currency := v\<rparr>) (decode_string (snd m) (currency t)))))"

definition zero_trade :: "'d decimal_api \<Rightarrow> 'd trade_payload" where
  "zero_trade D = \<lparr>trade_id = [], symbol = [], side = [], quantity = d_zero D, price = d_zero D,
     currency = []\<rparr>"

fun decode_trade :: "'d decimal_api \<Rightarrow> 'd json_api \<Rightarrow> raw_message \<Rightarrow> 'd trade_payload option" where
  "decode_trade D J (RawDoc (JObj ms)) = fold (decode_trade_member J) ms (Some (zero_trade D))"
| "decode_trade D J (RawDoc JNull) = Some (zero_trade D)"
| "decode_trade D J _ = None"

definition encode_trade :: "'d json_api \<Rightarrow> 'd trade_payload \<Rightarrow> raw_message" where
  "encode_trade J t = RawDoc (JObj [(''trade_id'', JStr (trade_id t)), (''symbol'', JStr (symbol t)),
     (''side'', JStr (side t)), (''quantity'', d_marshal J (quantity t)),
     (''price'', d_marshal J (price t)), (''currency'', JStr (currency t))])"

definition price_fields :: "string list" where
  "price_fields = [''symbol'', ''price'', ''currency'', ''source_sequence'']"

definition decode_price_member ::
  "'d json_api \<Rightarrow> string \<times> json \<Rightarrow> 'd price_payload option \<Rightarrow> 'd price_payload option" where
  "decode_price_member J m acc = (case acc of None \<Rightarrow> None | Some p \<Rightarrow>
     (case field_match price_fields (fst m) of None \<Rightarrow> Some p
      | Some f \<Rightarrow>
        (if f = ''symbol'' then map_option (\<lambda>v. p\<lparr>p_symbol := v\<rparr>) (decode_string (snd m) (p_symbol p))
         else if f = ''price'' then map_option (\<lambda>v. p\<lparr>p_price := v\<rparr>) (d_unmarshal J (snd m) (p_price p))
         else if f = ''currency'' then map_option (\<lambda>v. p\<lparr>p_currency := v\<rparr>) (decode_string (snd m) (p_currency p))
         else map_option (\<lambda>v. p\<lparr>source_sequence := v\<rparr>) (decode_int64 (snd m) (source_sequence p)))))"

definition zero_price :: "'d decimal_api \<Rightarrow> 'd price_payload" where
  "zero_price D = \<lparr>p_symbol = [], p_price = d_zero D, p_currency = [], source_sequence = 0\<rparr>"

fun decode_price :: "'d decimal_api \<Rightarrow> 'd json_api \<Rightarrow> raw_message \<Rightarrow> 'd price_payload option" where
  "decode_price D J (RawDoc (JObj ms)) = fold (decode_price_member J) ms (Some (zero_price D))"
| "decode_price D J (RawDoc JNull) = Some (zero_price D)"
| "decode_price D J _ = None"

section \<open>Validation\<close>

definition symbol_char :: "char \<Rightarrow> bool" where
  "symbol_char c \<longleftrightarrow> (let n = (of_char c :: nat) in
     65 \<le> n \<and> n \<le> 90 \<or> 48 \<le> n \<and> n \<le> 57 \<or> n = 46 \<or> n = 95 \<or> n = 45)"

definition is_valid_symbol :: "string \<Rightarrow> bool" where
  "is_valid_symbol s \<longleftrightarrow> list_all symbol_char s \<and> 1 \<le> length s \<and> length s \<le> 32"

definition is_valid_side :: "string \<Rightarrow> bool" where
  "is_valid_side s \<longleftrightarrow> s = side_buy \<or> s = side_sell"

definition validate_symbol :: "string \<Rightarrow> unit res" where
  "validate_symbol s = (if \<not> is_valid_symbol s then Inl (EValidation ''invalid symbol'') else Inr ())"

definition validate_quantity :: "'d decimal_api \<Rightarrow> 'd \<Rightarrow> unit res" where
  "validate_quantity D q =
     (if \<not> d_is_positive D q then Inl (EValidation ''quantity must be > 0'') else Inr ())"

definition validate_price :: "'d decimal_api \<Rightarrow> 'd \<Rightarrow> unit res" where
  "validate_price D p =
     (if \<not> d_is_positive D p then Inl (EValidation ''price must be > 0'') else Inr ())"

definition validate_side :: "string \<Rightarrow> unit res" where
  "validate_side s = (if \<not> is_valid_side s then Inl (EValidation ''invalid side'') else Inr ())"

definition validate_trade_payload :: "'d decimal_api \<Rightarrow> 'd trade_payload \<Rightarrow> unit res" where
  "validate_trade_payload D t =
     (if trade_id t = [] then Inl (EValidation ''trade_id required'')
      else case validate_symbol (symbol t) of Inl e \<Rightarrow> Inl e | Inr _ \<Rightarrow>
        (case validate_side (side t) of Inl e \<Rightarrow> Inl e | Inr _ \<Rightarrow>
          (case validate_quantity D (quantity t) of Inl e \<Rightarrow> Inl e | Inr _ \<Rightarrow>
            (case validate_price D (price t) of Inl e \<Rightarrow> Inl e | Inr _ \<Rightarrow>
              (if currency t = [] then Inl (EValidation ''currency required'') else Inr ())))))"

definition validate_price_payload :: "'d decimal_api \<Rightarrow> 'd price_payload \<Rightarrow> unit res" where
  "validate_price_payload D p =
     (case validate_symbol (p_symbol p) of Inl e \<Rightarrow> Inl e | Inr _ \<Rightarrow>
       (case validate_price D (p_price p) of Inl e \<Rightarrow> Inl e | Inr _ \<Rightarrow>
         (if p_currency p = [] then Inl (EValidation ''currency required'') else Inr ())))"

definition validate_event_envelope :: "event_envelope \<Rightarrow> unit res" where
  "validate_event_envelope e =
     (if event_id e = uuid_nil then Inl (EValidation ''event_id required'')
      else if event_time e = 0 then Inl (EValidation ''event_time required'')
      else if portfolio_id e = [] then Inl (EValidation ''portfolio_id required'')
      else if idempotency_key e = [] then Inl (EValidation ''idempotency_key required'')
      else if source e = [] then Inl (EValidation ''source required'')
      else if payload e = RawEmpty then Inl (EValidation ''payload required'')
      else if event_type e \<noteq> event_type_trade_executed \<and> event_type e \<noteq> event_type_price_updated
        then Inl (EValidation ''invalid event_type'')
      else if payload e = RawMalformed then Inl (EValidation ''payload must be valid JSON'')
      else Inr ())"

section \<open>What validation accepts\<close>

lemma validate_symbol_ok [simp]: "validate_symbol s = Inr () \<longleftrightarrow> is_valid_symbol s"
  by (simp add: validate_symbol_def)

lemma validate_side_ok [simp]: "validate_side s = Inr () \<longleftrightarrow> is_valid_side s"
  by (simp add: validate_side_def)

lemma validate_quantity_ok [simp]: "validate_quantity D q = Inr () \<longleftrightarrow> d_is_positive D q"
  by (simp add: validate_quantity_def)

lemma validate_price_ok [simp]: "validate_price D q = Inr () \<longleftrightarrow> d_is_positive D q"
  by (simp add: validate_price_def)

definition good_trade :: "'d decimal_api \<Rightarrow> 'd trade_payload \<Rightarrow> bool" where
  "good_trade D t \<longleftrightarrow> trade_id t \<noteq> [] \<and> is_valid_symbol (symbol t) \<and> is_valid_side (side t) \<and>
     d_is_positive D (quantity t) \<and> d_is_positive D (price t) \<and> currency t \<noteq> []"

definition good_price :: "'d decimal_api \<Rightarrow> 'd price_payload \<Rightarrow> bool" where
  "good_price D p \<longleftrightarrow> is_valid_symbol (p_symbol p) \<and> d_is_positive D (p_price p) \<and> p_currency p \<noteq> []"

lemma validate_trade_payload_ok: "validate_trade_payload D t = Inr () \<longleftrightarrow> good_trade D t"
  by (auto simp: validate_trade_payload_def good_trade_def validate_symbol_def validate_side_def
      validate_quantity_def validate_price_def)

lemma validate_price_payload_ok: "validate_price_payload D p = Inr () \<longleftrightarrow> good_price D p"
  by (auto simp: validate_price_payload_def good_price_def validate_symbol_def validate_price_def)

text \<open>Every failure of validation carries the validation sentinel.\<close>

lemma validate_trade_payload_error:
  "validate_trade_payload D t = Inl e \<Longrightarrow> \<exists>m. e = EValidation m"
  by (auto simp: validate_trade_payload_def validate_symbol_def validate_side_def
      validate_quantity_def validate_price_def split: if_splits)

lemma validate_event_envelope_error:
  "validate_event_envelope e = Inl x \<Longrightarrow> \<exists>m. x = EValidation m"
  by (auto simp: validate_event_envelope_def split: if_splits)

section \<open>Decoding what was encoded\<close>

lemma field_match_self: "f \<in> set fs \<Longrightarrow> field_match fs f = Some f"
  by (simp add: field_match_def)

context decimal_json begin

lemma decode_encode_trade:
  "\<exists>t'. decode_trade D J (encode_trade J t) = Some t' \<and> trade_id t' = trade_id t \<and>
     symbol t' = symbol t \<and> side t' = side t \<and> currency t' = currency t \<and>
     val (quantity t') = val (quantity t) \<and> val (price t') = val (price t)"
proof -
  obtain q where q: "d_unmarshal J (d_marshal J (quantity t)) (d_zero D) = Some q"
    "val q = val (quantity t)" using unmarshal_marshal by blast
  obtain p where p: "d_unmarshal J (d_marshal J (price t)) (d_zero D) = Some p"
    "val p = val (price t)" using unmarshal_marshal by blast
  have m: "\<And>f. f \<in> set trade_fields \<Longrightarrow> field_match trade_fields f = Some f"
    by (rule field_match_self)
  show ?thesis using q p
    by (simp add: encode_trade_def zero_trade_def decode_trade_member_def m trade_fields_def
        field_match_def)
qed

end

end
