(* ===== verification/Positions.thy ===== *)
theory Positions
  imports Domain_Model Decimal_Ref
begin

text \<open>
  \<^verbatim>\<open>internal/domain/positions.go\<close> and \<^verbatim>\<open>positions_iterate.go\<close>: long-only position lots per
  symbol with weighted average cost and realized PnL. The Go map is an association list with
  distinct keys (\<open>positions_wf\<close>), read with \<open>map_of\<close>; \<^verbatim>\<open>ApplyTrade\<close> is \<open>apply_trade\<close>, whose
  error branches leave the state as it was and whose \<open>EPanic\<close> branch is the division by zero
  of the decimal package. \<open>spec_trade\<close> is the accounting rule of the design document over
  rational numbers; \<open>apply_trade\<close> refines it, and the balance of the books is proved from it.
\<close>

section \<open>Lots and operations\<close>

record 'd position_lot =
  lot_quantity :: 'd
  average_cost :: 'd
  realized_pnl :: 'd

type_synonym 'd positions = "(string \<times> 'd position_lot) list"

definition zero_lot :: "'d decimal_api \<Rightarrow> 'd position_lot" where
  "zero_lot D = \<lparr>lot_quantity = d_zero D, average_cost = d_zero D, realized_pnl = d_zero D\<rparr>"

definition new_positions :: "'d positions" where
  "new_positions = []"

definition positions_from_quantities :: "'d decimal_api \<Rightarrow> (string \<times> 'd) list \<Rightarrow> 'd positions" where
  "positions_from_quantities D qs =
     fold (\<lambda>(k, v) ps. AList.update k ((zero_lot D)\<lparr>lot_quantity := v\<rparr>) ps) qs []"

definition positions_from_lots :: "(string \<times> 'd position_lot) list \<Rightarrow> 'd positions" where
  "positions_from_lots lots = fold (\<lambda>(k, v) ps. AList.update k v ps) lots []"

definition lot_of :: "'d decimal_api \<Rightarrow> 'd positions \<Rightarrow> string \<Rightarrow> 'd position_lot" where
  "lot_of D ps s = (case map_of ps s of None \<Rightarrow> zero_lot D | Some l \<Rightarrow> l)"

definition quantity_of :: "'d decimal_api \<Rightarrow> 'd positions \<Rightarrow> string \<Rightarrow> 'd" where
  "quantity_of D ps s = lot_quantity (lot_of D ps s)"

definition apply_trade :: "'d decimal_api \<Rightarrow> 'd positions \<Rightarrow> 'd trade_payload \<Rightarrow> 'd positions res" where
  "apply_trade D ps t =
     (if side t = side_buy then
        (let cur = lot_of D ps (symbol t);
             old_qty = lot_quantity cur; old_avg = average_cost cur; old_real = realized_pnl cur;
             new_qty = d_add D old_qty (quantity t);
             numer = d_add D (d_mul D old_qty old_avg) (d_mul D (quantity t) (price t))
         in case d_div D numer new_qty of
              None \<Rightarrow> Inl (EPanic ''decimal division by 0'')
            | Some new_avg \<Rightarrow> Inr (AList.update (symbol t)
                \<lparr>lot_quantity = new_qty, average_cost = new_avg, realized_pnl = old_real\<rparr> ps))
      else if side t = side_sell then
        (let cur = lot_of D ps (symbol t)
         in if d_less D (lot_quantity cur) (quantity t) then Inl EPositionUnderflow
            else
              (let pnl = d_mul D (d_sub D (price t) (average_cost cur)) (quantity t);
                   new_real = d_add D (realized_pnl cur) pnl;
                   new_qty = d_sub D (lot_quantity cur) (quantity t)
               in if d_is_zero D new_qty then
                    (if d_is_zero D new_real then Inr (AList.delete (symbol t) ps)
                     else Inr (AList.update (symbol t)
                       \<lparr>lot_quantity = d_zero D, average_cost = d_zero D, realized_pnl = new_real\<rparr> ps))
                  else Inr (AList.update (symbol t)
                    \<lparr>lot_quantity = new_qty, average_cost = average_cost cur, realized_pnl = new_real\<rparr> ps)))
      else Inl (EValidation ''invalid side''))"

definition sorted_symbol_lots :: "'d positions \<Rightarrow> (string \<times> 'd position_lot) list" where
  "sorted_symbol_lots ps = sort_key fst ps"

text \<open>A run of trades that stops at the first one that is refused.\<close>

fun apply_trades :: "'d decimal_api \<Rightarrow> 'd positions \<Rightarrow> 'd trade_payload list \<Rightarrow> 'd positions res" where
  "apply_trades D ps [] = Inr ps"
| "apply_trades D ps (t # ts) =
     (case apply_trade D ps t of Inl e \<Rightarrow> Inl e | Inr ps' \<Rightarrow> apply_trades D ps' ts)"

lemma apply_trades_append:
  "apply_trades D ps (ts @ us) =
     (case apply_trades D ps ts of Inl e \<Rightarrow> Inl e | Inr ps' \<Rightarrow> apply_trades D ps' us)"
  by (induction ts arbitrary: ps) (auto split: sum.splits)

lemma side_distinct [simp]: "side_buy \<noteq> side_sell" "side_sell \<noteq> side_buy"
  by (simp_all add: side_buy_def side_sell_def)

section \<open>Frame and map facts\<close>

lemma apply_trade_cases [consumes 1, case_names Updated Deleted]:
  assumes "apply_trade D ps t = Inr ps'"
  obtains l where "ps' = AList.update (symbol t) l ps"
  | "ps' = AList.delete (symbol t) ps"
  using assms by (auto simp: apply_trade_def Let_def split: if_splits option.splits)

lemma apply_trade_other:
  assumes "apply_trade D ps t = Inr ps'" and "s \<noteq> symbol t"
  shows "map_of ps' s = map_of ps s"
  using assms by (cases rule: apply_trade_cases) (auto simp: update_conv' delete_conv')

lemma apply_trade_keys:
  assumes "apply_trade D ps t = Inr ps'" and "distinct (map fst ps)"
  shows "distinct (map fst ps')"
  using assms by (cases rule: apply_trade_cases) (auto simp: distinct_update distinct_delete)

lemma lot_of_other:
  "apply_trade D ps t = Inr ps' \<Longrightarrow> s \<noteq> symbol t \<Longrightarrow> lot_of D ps' s = lot_of D ps s"
  by (simp add: lot_of_def apply_trade_other)

lemma lot_of_update [lot_simps]:
  "lot_of D (AList.update k l ps) s = (if s = k then l else lot_of D ps s)"
  by (auto simp: lot_of_def update_conv')

lemma lot_of_delete [lot_simps]:
  "lot_of D (AList.delete k ps) s = (if s = k then zero_lot D else lot_of D ps s)"
  by (auto simp: lot_of_def delete_conv')

lemma map_of_positions_from_lots:
  assumes "distinct (map fst ls)"
  shows "map_of (positions_from_lots ls) = map_of ls"
proof -
  have "map_of (fold (\<lambda>(k, v) ps. AList.update k v ps) ls ps) = map_of ps ++ map_of ls"
    for ps
    using assms
  proof (induction ls arbitrary: ps)
    case (Cons x ls)
    obtain k v where x: "x = (k, v)" by (cases x)
    have "k \<notin> dom (map_of ls)" using Cons.prems x by (simp add: dom_map_of_conv_image_fst)
    then show ?case using Cons x
      by (auto simp: update_conv' fun_eq_iff map_add_def split: option.splits)
  qed simp
  from this [of "[]"] show ?thesis by (simp add: positions_from_lots_def)
qed

lemma sorted_symbol_lots_map_of:
  assumes "distinct (map fst ps)"
  shows "map_of (sorted_symbol_lots ps) = map_of ps"
proof -
  have "distinct (map fst (sorted_symbol_lots ps))"
    using sort_map_fst_distinct [OF assms]
    by (simp add: sorted_symbol_lots_def strict_sorted_iff flip: sorted_wrt_map)
  then show ?thesis using assms
    by (intro map_of_inject_set [THEN iffD2]) (auto simp: sorted_symbol_lots_def)
qed

section \<open>The accounting rule over rationals\<close>

text \<open>
  The design document's rule for one symbol, on (quantity, average cost, realized PnL), with
  the average rounded to 16 places as the decimal division does. A refused sell is \<open>None\<close>.
\<close>

type_synonym book = "rat \<times> rat \<times> rat"

definition spec_buy :: "rat \<Rightarrow> rat \<Rightarrow> book \<Rightarrow> book" where
  "spec_buy q p b = (case b of (Q, A, R) \<Rightarrow>
     (Q + q, round_away 16 ((Q * A + q * p) / (Q + q)), R))"

definition spec_sell :: "rat \<Rightarrow> rat \<Rightarrow> book \<Rightarrow> book option" where
  "spec_sell q p b = (case b of (Q, A, R) \<Rightarrow>
     if Q < q then None
     else if Q = q then Some (0, 0, R + (p - A) * q)
     else Some (Q - q, A, R + (p - A) * q))"

definition spec_trade :: "bool \<Rightarrow> rat \<Rightarrow> rat \<Rightarrow> book \<Rightarrow> book option" where
  "spec_trade buy q p b = (if buy then Some (spec_buy q p b) else spec_sell q p b)"

definition book_of :: "'d decimal_api \<Rightarrow> ('d \<Rightarrow> rat) \<Rightarrow> 'd positions \<Rightarrow> string \<Rightarrow> book" where
  "book_of D val ps s = (let l = lot_of D ps s in
     (val (lot_quantity l), val (average_cost l), val (realized_pnl l)))"

definition books_ok :: "(string \<Rightarrow> book) \<Rightarrow> bool" where
  "books_ok b \<longleftrightarrow> (\<forall>s. case b s of (Q, A, R) \<Rightarrow> 0 \<le> Q \<and> 0 \<le> A \<and> (Q = 0 \<longrightarrow> A = 0))"

text \<open>
  What every reachable state satisfies: one lot per symbol, no negative quantity or cost, and
  a lot that is kept although flat has a realized PnL to report.
\<close>

definition lot_wf :: "('d \<Rightarrow> rat) \<Rightarrow> 'd position_lot \<Rightarrow> bool" where
  "lot_wf val l \<longleftrightarrow> 0 \<le> val (lot_quantity l) \<and> 0 \<le> val (average_cost l) \<and>
     (val (lot_quantity l) = 0 \<longrightarrow> val (average_cost l) = 0 \<and> val (realized_pnl l) \<noteq> 0)"

definition positions_wf :: "('d \<Rightarrow> rat) \<Rightarrow> 'd positions \<Rightarrow> bool" where
  "positions_wf val ps \<longleftrightarrow> distinct (map fst ps) \<and> (\<forall>p\<in>set ps. lot_wf val (snd p))"

lemma positions_wf_Nil [simp]: "positions_wf val []"
  by (simp add: positions_wf_def)

context decimal_laws begin

lemma zero_lot_vals [lot_simps]:
  "val (lot_quantity (zero_lot D)) = 0" "val (average_cost (zero_lot D)) = 0"
  "val (realized_pnl (zero_lot D)) = 0"
  by (simp_all add: zero_lot_def vals)

lemma positions_wf_lot:
  assumes "positions_wf val ps"
  shows "lot_of D ps s = zero_lot D \<or> lot_wf val (lot_of D ps s)"
  using assms by (auto simp: positions_wf_def lot_of_def split: option.splits dest!: map_of_SomeD)

lemma positions_wf_vals:
  assumes "positions_wf val ps"
  shows "0 \<le> val (lot_quantity (lot_of D ps s))" "0 \<le> val (average_cost (lot_of D ps s))"
    "val (lot_quantity (lot_of D ps s)) = 0 \<Longrightarrow> val (average_cost (lot_of D ps s)) = 0"
  using positions_wf_lot [OF assms, of s] by (auto simp: lot_wf_def lot_simps)

lemma books_ok_wf: "positions_wf val ps \<Longrightarrow> books_ok (book_of D val ps)"
  using positions_wf_vals by (auto simp: books_ok_def book_of_def Let_def)

lemma positions_wf_update:
  assumes "positions_wf val ps" and "lot_wf val l"
  shows "positions_wf val (AList.update k l ps)"
proof -
  have d: "distinct (map fst (AList.update k l ps))"
    using assms(1) by (simp add: positions_wf_def distinct_update)
  have "lot_wf val (snd p)" if "p \<in> set (AList.update k l ps)" for p
  proof -
    have "map_of (AList.update k l ps) (fst p) = Some (snd p)" using that d by simp
    then have "snd p = l \<or> p \<in> set ps"
      by (cases p) (auto simp: update_conv' split: if_splits dest: map_of_SomeD)
    then show ?thesis using assms by (auto simp: positions_wf_def)
  qed
  with d show ?thesis by (simp add: positions_wf_def)
qed

lemma positions_wf_delete:
  "positions_wf val ps \<Longrightarrow> positions_wf val (AList.delete k ps)"
  by (simp add: positions_wf_def distinct_delete) (auto simp: AList.delete_eq)

subsection \<open>Buying\<close>

lemma apply_buy:
  assumes "side t = side_buy"
    and "val (lot_quantity (lot_of D ps (symbol t))) + val (quantity t) \<noteq> 0"
  obtains l where "apply_trade D ps t = Inr (AList.update (symbol t) l ps)"
    "(val (lot_quantity l), val (average_cost l), val (realized_pnl l)) =
       spec_buy (val (quantity t)) (val (price t)) (book_of D val ps (symbol t))"
proof -
  let ?c = "lot_of D ps (symbol t)"
  let ?q = "d_add D (lot_quantity ?c) (quantity t)"
  let ?n = "d_add D (d_mul D (lot_quantity ?c) (average_cost ?c)) (d_mul D (quantity t) (price t))"
  have "val ?q \<noteq> 0" using assms(2) by (simp add: vals)
  then obtain a where a: "d_div D ?n ?q = Some a" "val a = round_away 16 (val ?n / val ?q)"
    using div_some by blast
  show thesis
  proof
    show "apply_trade D ps t = Inr (AList.update (symbol t)
        \<lparr>lot_quantity = ?q, average_cost = a, realized_pnl = realized_pnl ?c\<rparr> ps)"
      using assms(1) a(1) by (simp add: apply_trade_def Let_def)
  qed (simp add: a(2) spec_buy_def book_of_def Let_def vals)
qed

lemma apply_buy_panic:
  assumes "side t = side_buy"
    and "val (lot_quantity (lot_of D ps (symbol t))) + val (quantity t) = 0"
  shows "apply_trade D ps t = Inl (EPanic ''decimal division by 0'')"
  using assms by (simp add: apply_trade_def Let_def div_zero vals)

subsection \<open>Selling\<close>

lemma apply_sell_underflow:
  assumes "side t = side_sell"
  shows "apply_trade D ps t = Inl EPositionUnderflow \<longleftrightarrow>
    val (lot_quantity (lot_of D ps (symbol t))) < val (quantity t)"
  using assms by (simp add: apply_trade_def Let_def vals)

lemma apply_sell:
  assumes "side t = side_sell"
    and "\<not> val (lot_quantity (lot_of D ps (symbol t))) < val (quantity t)"
  obtains ps' where "apply_trade D ps t = Inr ps'"
    "Some (book_of D val ps' (symbol t)) =
       spec_sell (val (quantity t)) (val (price t)) (book_of D val ps (symbol t))"
    "positions_wf val ps \<Longrightarrow> 0 < val (quantity t) \<Longrightarrow> positions_wf val ps'"
proof -
  let ?c = "lot_of D ps (symbol t)"
  let ?r = "d_add D (realized_pnl ?c) (d_mul D (d_sub D (price t) (average_cost ?c)) (quantity t))"
  let ?q = "d_sub D (lot_quantity ?c) (quantity t)"
  have r: "val ?r = val (realized_pnl ?c) + (val (price t) - val (average_cost ?c)) * val (quantity t)"
    by (simp add: vals)
  consider (gone) "val ?q = 0" "val ?r = 0" | (flat) "val ?q = 0" "val ?r \<noteq> 0" | (rest) "val ?q \<noteq> 0"
    by blast
  then show thesis
  proof cases
    case gone
    with r show ?thesis
      by (intro that [of "AList.delete (symbol t) ps"]) (use assms in \<open>auto simp: apply_trade_def
        Let_def vals book_of_def spec_sell_def lot_simps positions_wf_delete\<close>)
  next
    case flat
    with r show ?thesis
      by (intro that [of "AList.update (symbol t) \<lparr>lot_quantity = d_zero D,
          average_cost = d_zero D, realized_pnl = ?r\<rparr> ps"])
        (use assms in \<open>auto simp: apply_trade_def Let_def vals book_of_def spec_sell_def lot_simps
          intro!: positions_wf_update simp: lot_wf_def\<close>)
  next
    case rest
    with r show ?thesis
      by (intro that [of "AList.update (symbol t) \<lparr>lot_quantity = ?q,
          average_cost = average_cost ?c, realized_pnl = ?r\<rparr> ps"])
        (use assms positions_wf_vals [of ps] in \<open>auto simp: apply_trade_def Let_def vals book_of_def
          spec_sell_def lot_simps lot_wf_def intro!: positions_wf_update\<close>)
  qed
qed

subsection \<open>Every good trade\<close>

lemma good_trade_vals:
  assumes "good_trade D t"
  shows "0 < val (quantity t)" "0 < val (price t)" "side t = side_buy \<or> side t = side_sell"
  using assms by (auto simp: good_trade_def vals is_valid_side_def)

lemma book_of_apply_other:
  "apply_trade D ps t = Inr ps' \<Longrightarrow> s \<noteq> symbol t \<Longrightarrow> book_of D val ps' s = book_of D val ps s"
  by (simp add: book_of_def lot_of_other)

lemma apply_trade_buy_wf:
  assumes "positions_wf val ps" and "good_trade D t" and "side t = side_buy"
  obtains ps' where "apply_trade D ps t = Inr ps'" "positions_wf val ps'"
    "book_of D val ps' (symbol t) =
       spec_buy (val (quantity t)) (val (price t)) (book_of D val ps (symbol t))"
proof -
  note t = good_trade_vals [OF assms(2)] and w = positions_wf_vals [OF assms(1), of "symbol t"]
  from t w have pos: "0 < val (lot_quantity (lot_of D ps (symbol t))) + val (quantity t)" by simp
  then obtain l where l: "apply_trade D ps t = Inr (AList.update (symbol t) l ps)"
    "(val (lot_quantity l), val (average_cost l), val (realized_pnl l)) =
       spec_buy (val (quantity t)) (val (price t)) (book_of D val ps (symbol t))"
    using apply_buy [OF assms(3), of ps] by (metis less_irrefl)
  have "lot_wf val l"
    using l(2) pos t w by (auto simp: lot_wf_def spec_buy_def book_of_def Let_def
        intro!: round_away_nonneg)
  then show thesis
    using l assms(1) that [of "AList.update (symbol t) l ps"]
    by (simp add: positions_wf_update book_of_def lot_simps Let_def)
qed

lemma apply_trade_good:
  assumes "positions_wf val ps" and "good_trade D t"
  shows "case spec_trade (side t = side_buy) (val (quantity t)) (val (price t)) (book_of D val ps (symbol t))
    of None \<Rightarrow> apply_trade D ps t = Inl EPositionUnderflow
     | Some b \<Rightarrow> (\<exists>ps'. apply_trade D ps t = Inr ps' \<and> positions_wf val ps' \<and>
         book_of D val ps' = (book_of D val ps)(symbol t := b))"
proof (cases "side t = side_buy")
  case True
  then obtain ps' where "apply_trade D ps t = Inr ps'" "positions_wf val ps'"
    "book_of D val ps' (symbol t) =
       spec_buy (val (quantity t)) (val (price t)) (book_of D val ps (symbol t))"
    using apply_trade_buy_wf assms by blast
  with True show ?thesis
    by (auto simp: spec_trade_def fun_eq_iff book_of_apply_other)
next
  case False
  then have s: "side t = side_sell" using good_trade_vals [OF assms(2)] by blast
  show ?thesis
  proof (cases "val (lot_quantity (lot_of D ps (symbol t))) < val (quantity t)")
    case True
    then show ?thesis using False apply_sell_underflow [OF s]
      by (simp add: spec_trade_def spec_sell_def book_of_def Let_def)
  next
    case nu: False
    from apply_sell [OF s nu] good_trade_vals [OF assms(2)] assms(1)
    obtain ps' where ps': "apply_trade D ps t = Inr ps'" "positions_wf val ps'"
      and b: "spec_sell (val (quantity t)) (val (price t)) (book_of D val ps (symbol t)) =
        Some (book_of D val ps' (symbol t))" by metis
    have "book_of D val ps' = (book_of D val ps)(symbol t := book_of D val ps' (symbol t))"
      using ps'(1) by (auto simp: fun_eq_iff book_of_apply_other)
    with False ps' b show ?thesis by (simp add: spec_trade_def)
  qed
qed

lemma apply_trade_wf:
  assumes "apply_trade D ps t = Inr ps'" and "positions_wf val ps" and "good_trade D t"
  shows "positions_wf val ps'"
  using apply_trade_good [OF assms(2,3)] assms(1) by (auto split: option.splits)

lemma apply_trade_book:
  assumes "apply_trade D ps t = Inr ps'" and "positions_wf val ps" and "good_trade D t"
  shows "spec_trade (side t = side_buy) (val (quantity t)) (val (price t))
    (book_of D val ps (symbol t)) = Some (book_of D val ps' (symbol t))"
  using apply_trade_good [OF assms(2,3)] assms(1) by (auto split: option.splits)

lemma apply_trades_wf:
  assumes "apply_trades D ps ts = Inr ps'" and "positions_wf val ps"
    and "\<forall>t\<in>set ts. good_trade D t"
  shows "positions_wf val ps'"
  using assms
  by (induction ts arbitrary: ps) (auto split: sum.splits dest: apply_trade_wf)

end

section \<open>Balance of the books\<close>

text \<open>Totals of a run for one symbol: shares bought and sold, cash out and in, number of buys.\<close>

definition shares :: "('d \<Rightarrow> rat) \<Rightarrow> string \<Rightarrow> string \<Rightarrow> 'd trade_payload list \<Rightarrow> rat" where
  "shares val sd s ts = (\<Sum>t\<leftarrow>ts. if symbol t = s \<and> side t = sd then val (quantity t) else 0)"

definition cash :: "('d \<Rightarrow> rat) \<Rightarrow> string \<Rightarrow> string \<Rightarrow> 'd trade_payload list \<Rightarrow> rat" where
  "cash val sd s ts =
     (\<Sum>t\<leftarrow>ts. if symbol t = s \<and> side t = sd then val (quantity t) * val (price t) else 0)"

definition buys :: "string \<Rightarrow> 'd trade_payload list \<Rightarrow> nat" where
  "buys s ts = length (filter (\<lambda>t. symbol t = s \<and> side t = side_buy) ts)"

lemma shares_snoc [simp]: "shares val sd s (ts @ [t]) =
    shares val sd s ts + (if symbol t = s \<and> side t = sd then val (quantity t) else 0)"
  by (simp add: shares_def)

lemma cash_snoc [simp]: "cash val sd s (ts @ [t]) =
    cash val sd s ts + (if symbol t = s \<and> side t = sd then val (quantity t) * val (price t) else 0)"
  by (simp add: cash_def)

lemma buys_snoc [simp]:
  "buys s (ts @ [t]) = buys s ts + (if symbol t = s \<and> side t = side_buy then 1 else 0)"
  by (simp add: buys_def)

lemma totals_Nil [simp]: "shares val sd s [] = 0" "cash val sd s [] = 0" "buys s [] = 0"
  by (simp_all add: shares_def cash_def buys_def)

lemma shares_nonneg: "\<forall>t\<in>set ts. 0 < val (quantity t) \<Longrightarrow> 0 \<le> shares val sd s ts"
  by (induction ts rule: rev_induct) auto

lemma spec_buy_cost:
  assumes "0 < Q + q" and "spec_buy q p (Q, A, R) = (Q', A', R')"
  shows "Q' = Q + q \<and> R' = R \<and> \<bar>Q' * A' - (Q * A + q * p)\<bar> \<le> div_eps * Q'"
proof -
  from assms(2) have e: "Q' = Q + q" "R' = R" "A' = round_away 16 ((Q * A + q * p) / Q')"
    by (auto simp: spec_buy_def)
  have pos: "0 < Q'" using assms(1) e by simp
  have "\<bar>A' - (Q * A + q * p) / Q'\<bar> \<le> div_eps"
    using round_away_error [of 16] by (simp add: e(3) div_eps_def)
  then have "\<bar>A' - (Q * A + q * p) / Q'\<bar> * Q' \<le> div_eps * Q'"
    using pos by (intro mult_right_mono) auto
  moreover have "\<bar>A' - (Q * A + q * p) / Q'\<bar> * Q' = \<bar>Q' * A' - (Q * A + q * p)\<bar>"
  proof -
    have "Q' * A' - (Q * A + q * p) = (A' - (Q * A + q * p) / Q') * Q'"
      using pos by (simp add: field_simps)
    then show ?thesis using pos by (simp add: abs_mult)
  qed
  ultimately show ?thesis using e by simp
qed

lemma spec_sell_cost:
  assumes "spec_sell q p (Q, A, R) = Some (Q', A', R')"
  shows "Q' = Q - q \<and> Q' * A' - R' = Q * A - R - q * p"
  using assms by (auto simp: spec_sell_def algebra_simps split: if_splits)

context decimal_laws begin

lemma quantity_balance:
  assumes "apply_trades D [] ts = Inr ps" and "\<forall>t\<in>set ts. good_trade D t"
  shows "val (quantity_of D ps s) = shares val side_buy s ts - shares val side_sell s ts"
  using assms
proof (induction ts arbitrary: ps rule: rev_induct)
  case Nil
  then show ?case by (simp add: quantity_of_def lot_of_def lot_simps)
next
  case (snoc t ts)
  then obtain ps0 where ps0: "apply_trades D [] ts = Inr ps0" and st: "apply_trade D ps0 t = Inr ps"
    by (auto simp: apply_trades_append split: sum.splits)
  have wf: "positions_wf val ps0" and gt: "good_trade D t"
    using apply_trades_wf [OF ps0] snoc.prems by auto
  have IH: "val (quantity_of D ps0 s) = shares val side_buy s ts - shares val side_sell s ts"
    using snoc.IH ps0 snoc.prems by simp
  show ?case
  proof (cases "s = symbol t")
    case True
    then show ?thesis
      using apply_trade_book [OF st wf gt] IH good_trade_vals [OF gt]
      by (auto simp: spec_trade_def spec_buy_def spec_sell_def book_of_def quantity_of_def Let_def
          split: if_splits)
  next
    case False
    then show ?thesis using IH lot_of_other [OF st] by (simp add: quantity_of_def)
  qed
qed

lemma book_balance:
  assumes "apply_trades D [] ts = Inr ps" and "\<forall>t\<in>set ts. good_trade D t"
    and "book_of D val ps s = (Q, A, R)"
  shows "\<bar>Q * A - R - (cash val side_buy s ts - cash val side_sell s ts)\<bar>
    \<le> div_eps * of_nat (buys s ts) * shares val side_buy s ts"
  using assms
proof (induction ts arbitrary: ps Q A R rule: rev_induct)
  case Nil
  then show ?case by (auto simp: book_of_def lot_of_def lot_simps Let_def)
next
  case (snoc t ts)
  then obtain ps0 where ps0: "apply_trades D [] ts = Inr ps0" and st: "apply_trade D ps0 t = Inr ps"
    by (auto simp: apply_trades_append split: sum.splits)
  have wf: "positions_wf val ps0" and gt: "good_trade D t"
    using apply_trades_wf [OF ps0] snoc.prems by auto
  obtain Q0 A0 R0 where b0: "book_of D val ps0 s = (Q0, A0, R0)" by (cases "book_of D val ps0 s") auto
  have IH: "\<bar>Q0 * A0 - R0 - (cash val side_buy s ts - cash val side_sell s ts)\<bar>
      \<le> div_eps * of_nat (buys s ts) * shares val side_buy s ts"
    using snoc.IH [OF ps0 _ b0] snoc.prems by simp
  have gts: "\<forall>t\<in>set ts. 0 < val (quantity t)" using snoc.prems good_trade_vals by auto
  consider (other) "s \<noteq> symbol t" | (sell) "s = symbol t" "side t = side_sell"
    | (buy) "s = symbol t" "side t = side_buy"
    using good_trade_vals(3) [OF gt] by blast
  then show ?case
  proof cases
    case other
    then show ?thesis using IH book_of_apply_other [OF st] b0 snoc.prems(3) by auto
  next
    case sell
    then have "spec_sell (val (quantity t)) (val (price t)) (Q0, A0, R0) = Some (Q, A, R)"
      using apply_trade_book [OF st wf gt] b0 snoc.prems(3) by (simp add: spec_trade_def)
    then have "Q * A - R = Q0 * A0 - R0 - val (quantity t) * val (price t)"
      by (rule spec_sell_cost [THEN conjunct2])
    then show ?thesis using IH sell by (simp add: algebra_simps)
  next
    case buy
    have q: "0 < val (quantity t)" using good_trade_vals [OF gt] by simp
    have "0 \<le> Q0" using positions_wf_vals(1) [OF wf, of s] b0 by (simp add: book_of_def Let_def)
    then have c: "Q = Q0 + val (quantity t)" "R = R0"
      "\<bar>Q * A - (Q0 * A0 + val (quantity t) * val (price t))\<bar> \<le> div_eps * Q"
      using buy apply_trade_book [OF st wf gt] b0 snoc.prems(3) q
        spec_buy_cost [of Q0 "val (quantity t)" "val (price t)" A0 R0 Q A R]
      by (auto simp: spec_trade_def)
    have bt: "shares val side_buy s (ts @ [t]) = shares val side_buy s ts + val (quantity t)"
      using buy by simp
    have "Q \<le> shares val side_buy s (ts @ [t])"
      using quantity_balance [OF snoc.prems(1,2), of s] snoc.prems(3)
        shares_nonneg [of "ts @ [t]" val side_sell s] gts q
      by (auto simp: quantity_of_def book_of_def Let_def)
    then have "div_eps * Q \<le> div_eps * shares val side_buy s (ts @ [t])"
      by (intro mult_left_mono) (auto simp: div_eps_def)
    moreover have "div_eps * of_nat (buys s ts) * shares val side_buy s ts
        \<le> div_eps * of_nat (buys s ts) * shares val side_buy s (ts @ [t])"
      using q bt by (intro mult_left_mono) (auto simp: div_eps_def)
    moreover have "of_nat (buys s (ts @ [t])) = (of_nat (buys s ts) + 1 :: rat)"
      using buy by simp
    moreover have "cash val side_buy s (ts @ [t])
        = cash val side_buy s ts + val (quantity t) * val (price t)"
      "cash val side_sell s (ts @ [t]) = cash val side_sell s ts"
      using buy by simp_all
    ultimately show ?thesis using IH c by (simp add: algebra_simps)
  qed
qed

end

section \<open>Properties\<close>

text \<open>A concrete run used by the witnesses: two buys and a sell of one symbol, and one buy of another.\<close>

definition ex_trade :: "string \<Rightarrow> string \<Rightarrow> int \<Rightarrow> int \<Rightarrow> rdec trade_payload" where
  "ex_trade s sd q p = \<lparr>trade_id = ''t1'', symbol = s, side = sd, quantity = RDec q 0,
     price = RDec p 2, currency = ''USD''\<rparr>"

definition ex_trades :: "rdec trade_payload list" where
  "ex_trades = [ex_trade ''AAPL'' side_buy 10 15000, ex_trade ''AAPL'' side_buy 5 16000,
     ex_trade ''MSFT'' side_buy 1 100, ex_trade ''AAPL'' side_sell 4 17000]"

lemma ex_trades_good: "\<forall>t\<in>set ex_trades. good_trade ref_dec t"
  by (simp add: ex_trades_def ex_trade_def good_trade_def ref_dec_def is_valid_side_def
      is_valid_symbol_def symbol_char_def)

lemma ex_trades_run: "\<exists>ps. apply_trades ref_dec [] ex_trades = Inr ps"
  by (simp add: ex_trades_def ex_trade_def apply_trade_def lot_of_def zero_lot_def ref_dec_def
      rdiv_def rquot_def Let_def)

text \<open>
  (C15) Refinement: on a well-formed state and a trade that passed validation,
  \<^verbatim>\<open>Positions.ApplyTrade\<close> computes exactly the accounting rule of the design document (weighted
  average cost rounded to 16 places, realized PnL on sells, nothing else touched), keeps the
  state well formed, and fails with the underflow error precisely when the rule refuses the
  sell; it never panics.
\<close>

theorem apply_trade_refines_accounting_rule:
  assumes "decimal_laws D val" and "positions_wf val ps" and "good_trade D t"
  shows "case spec_trade (side t = side_buy) (val (quantity t)) (val (price t))
      (book_of D val ps (symbol t))
    of None \<Rightarrow> apply_trade D ps t = Inl EPositionUnderflow
     | Some b \<Rightarrow> (\<exists>ps'. apply_trade D ps t = Inr ps' \<and> positions_wf val ps' \<and>
         book_of D val ps' = (book_of D val ps)(symbol t := b))"
  using assms by (rule decimal_laws.apply_trade_good)

theorem apply_trade_refines_accounting_rule_witness:
  "\<exists>ps'. apply_trade ref_dec [] (ex_trade ''AAPL'' side_buy 10 15000) = Inr ps' \<and>
     positions_wf rval ps' \<and> book_of ref_dec rval ps' ''AAPL'' = (10, 150, 0)"
proof -
  have g: "good_trade ref_dec (ex_trade ''AAPL'' side_buy 10 15000)"
    using ex_trades_good by (simp add: ex_trades_def)
  have b: "book_of ref_dec rval [] ''AAPL'' = (0, 0, 0)"
    by (simp add: book_of_def lot_of_def zero_lot_def ref_dec_def rval_def)
  have "round_away 16 (150::rat) = 150" by (rule round_away_exact [of _ "150 * 10 ^ 16"]) simp
  then show ?thesis
    using apply_trade_refines_accounting_rule [OF ref.decimal_laws_axioms positions_wf_Nil g]
    by (simp add: ex_trade_def b spec_trade_def spec_buy_def rval_def) (auto simp: fun_eq_iff)
qed

text \<open>
  (C16) No shorting: after any run of validated trades from an empty portfolio that
  \<^verbatim>\<open>ApplyTrade\<close> accepted, there is one lot per symbol, no lot has a negative quantity or a
  negative average cost, and a flat lot has average cost zero and a non-zero realized PnL
  (a flat lot without one has been removed).
\<close>

theorem apply_trades_never_short:
  assumes "decimal_laws D val" and "\<forall>t\<in>set ts. good_trade D t"
    and "apply_trades D new_positions ts = Inr ps"
  shows "positions_wf val ps"
  using decimal_laws.apply_trades_wf [OF assms(1,3)] assms(2) by (simp add: new_positions_def)

theorem apply_trades_never_short_witness:
  "\<exists>ps. apply_trades ref_dec new_positions ex_trades = Inr ps \<and> positions_wf rval ps"
  using ex_trades_run apply_trades_never_short [OF ref.decimal_laws_axioms ex_trades_good]
  by (auto simp: new_positions_def)

text \<open>
  (C17) Conservation of shares: the quantity held of a symbol is exactly the shares bought minus
  the shares sold over the run.
\<close>

theorem apply_trades_conserves_shares:
  assumes "decimal_laws D val" and "\<forall>t\<in>set ts. good_trade D t"
    and "apply_trades D new_positions ts = Inr ps"
  shows "val (quantity_of D ps s) = shares val side_buy s ts - shares val side_sell s ts"
  using assms unfolding new_positions_def by (intro decimal_laws.quantity_balance)

theorem apply_trades_conserves_shares_witness:
  "\<exists>ps. apply_trades ref_dec new_positions ex_trades = Inr ps \<and>
     rval (quantity_of ref_dec ps ''AAPL'') = 11"
proof -
  obtain ps where ps: "apply_trades ref_dec new_positions ex_trades = Inr ps"
    using ex_trades_run by (auto simp: new_positions_def)
  show ?thesis
    using ps apply_trades_conserves_shares [OF ref.decimal_laws_axioms ex_trades_good ps]
    by (simp add: ex_trades_def ex_trade_def shares_def rval_def)
qed

text \<open>
  (C18) The books balance: for every symbol, cost of the shares held minus realized PnL equals
  the cash paid for buys minus the cash received for sells, up to half a unit in the 16th
  decimal place for each buy and share bought (the only rounding is that of the average cost).
\<close>

theorem apply_trades_books_balance:
  assumes "decimal_laws D val" and "\<forall>t\<in>set ts. good_trade D t"
    and "apply_trades D new_positions ts = Inr ps"
  shows "\<bar>val (quantity_of D ps s) * val (average_cost (lot_of D ps s))
      - val (realized_pnl (lot_of D ps s)) - (cash val side_buy s ts - cash val side_sell s ts)\<bar>
    \<le> div_eps * of_nat (buys s ts) * shares val side_buy s ts"
  using decimal_laws.book_balance [OF assms(1) assms(3) [unfolded new_positions_def] assms(2), of s]
  by (simp add: book_of_def quantity_of_def Let_def)

theorem apply_trades_books_balance_witness:
  "\<exists>ps. apply_trades ref_dec new_positions ex_trades = Inr ps \<and>
     \<bar>rval (quantity_of ref_dec ps ''AAPL'') * rval (average_cost (lot_of ref_dec ps ''AAPL''))
       - rval (realized_pnl (lot_of ref_dec ps ''AAPL'')) - (2300 - 680)\<bar> \<le> 30 * div_eps"
proof -
  obtain ps where ps: "apply_trades ref_dec new_positions ex_trades = Inr ps"
    using ex_trades_run by (auto simp: new_positions_def)
  show ?thesis
    using ps apply_trades_books_balance [OF ref.decimal_laws_axioms ex_trades_good ps, of "''AAPL''"]
    by (simp add: ex_trades_def ex_trade_def shares_def cash_def buys_def rval_def)
qed

lemma apply_trade_lot_only:
  assumes "lot_of D ps (symbol t) = lot_of D ps' (symbol t)"
  shows "map_sum id (\<lambda>q. lot_of D q (symbol t)) (apply_trade D ps t) =
    map_sum id (\<lambda>q. lot_of D q (symbol t)) (apply_trade D ps' t)"
  using assms by (auto simp: apply_trade_def Let_def lot_simps split: option.splits)

lemma apply_trade_order_half:
  assumes "symbol t \<noteq> symbol u" and "apply_trades D ps [t, u] = Inr ps1"
  shows "\<exists>ps2. apply_trades D ps [u, t] = Inr ps2 \<and> (\<forall>s. lot_of D ps2 s = lot_of D ps1 s)"
proof -
  obtain a where a: "apply_trade D ps t = Inr a" and b: "apply_trade D a u = Inr ps1"
    using assms(2) by (auto split: sum.splits)
  have "lot_of D a (symbol u) = lot_of D ps (symbol u)" using lot_of_other [OF a] assms(1) by simp
  from apply_trade_lot_only [OF this] b obtain c where c: "apply_trade D ps u = Inr c"
    "lot_of D c (symbol u) = lot_of D ps1 (symbol u)" by (cases "apply_trade D ps u") auto
  have "lot_of D c (symbol t) = lot_of D ps (symbol t)" using lot_of_other [OF c(1)] assms(1) by simp
  from apply_trade_lot_only [OF this] a obtain d where d: "apply_trade D c t = Inr d"
    "lot_of D d (symbol t) = lot_of D a (symbol t)" by (cases "apply_trade D c t") auto
  have "lot_of D d s = lot_of D ps1 s" for s
    using d(2) c(2) lot_of_other [OF a, of s] lot_of_other [OF b, of s]
      lot_of_other [OF c(1), of s] lot_of_other [OF d(1), of s] assms(1)
    by (cases "s = symbol t"; cases "s = symbol u") auto
  with c d show ?thesis by simp
qed

text \<open>
  (C19) Trades of different symbols commute: applied in either order they are accepted or
  refused alike, and leave the same lot for every symbol.
\<close>

theorem apply_trade_symbols_commute:
  assumes "symbol t \<noteq> symbol u"
  shows "case (apply_trades D ps [t, u], apply_trades D ps [u, t]) of
      (Inr ps1, Inr ps2) \<Rightarrow> (\<forall>s. lot_of D ps1 s = lot_of D ps2 s)
    | (Inl _, Inl _) \<Rightarrow> True
    | _ \<Rightarrow> False"
  using apply_trade_order_half [OF assms, of D ps] apply_trade_order_half [OF assms [symmetric], of D ps]
  by (auto simp del: apply_trades.simps split: sum.splits)

theorem apply_trade_symbols_commute_witness:
  "\<exists>ps1 ps2. apply_trades ref_dec [] [ex_trade ''AAPL'' side_buy 10 15000, ex_trade ''MSFT'' side_buy 1 100]
       = Inr ps1 \<and>
     apply_trades ref_dec [] [ex_trade ''MSFT'' side_buy 1 100, ex_trade ''AAPL'' side_buy 10 15000]
       = Inr ps2 \<and> (\<forall>s. lot_of ref_dec ps1 s = lot_of ref_dec ps2 s)"
proof -
  have "\<exists>ps. apply_trades ref_dec [] [ex_trade ''AAPL'' side_buy 10 15000,
      ex_trade ''MSFT'' side_buy 1 100] = Inr ps"
    by (simp add: ex_trade_def apply_trade_def lot_of_def zero_lot_def ref_dec_def rdiv_def rquot_def
        Let_def)
  then show ?thesis
    using apply_trade_symbols_commute [of "ex_trade ''AAPL'' side_buy 10 15000"
      "ex_trade ''MSFT'' side_buy 1 100" ref_dec "[]"]
    by (auto simp: ex_trade_def simp del: apply_trades.simps split: sum.splits)
qed

end
