(* ===== verification/Cursor.thy ===== *)
theory Cursor
  imports Domain_Model
begin

text \<open>
  \<^verbatim>\<open>internal/events/cursor.go\<close>: the ordering key (event time, event id) of incremental apply.
  \<^verbatim>\<open>CompareCursors\<close> compares the identifiers with \<^verbatim>\<open>bytes.Compare\<close>; the SQL queries compare
  the columns \<^verbatim>\<open>(event_time, event_id)\<close>. \<open>cursor\<close> is made a linear order that stands for the
  SQL order, and \<open>compare_cursors_order\<close> shows that the Go function decides that order.
\<close>

datatype cursor = Cursor (cur_time: time) (cur_id: uuid)

definition zero_cursor :: cursor where
  "zero_cursor = Cursor 0 uuid_nil"

definition cursor_from_event :: "event_envelope \<Rightarrow> cursor" where
  "cursor_from_event ev = Cursor (event_time ev) (event_id ev)"

definition cursor_is_zero :: "cursor \<Rightarrow> bool" where
  "cursor_is_zero c \<longleftrightarrow> cur_id c = uuid_nil \<and> cur_time c = 0"

fun bytes_compare :: "8 word list \<Rightarrow> 8 word list \<Rightarrow> int" where
  "bytes_compare [] [] = 0"
| "bytes_compare [] (b # t) = -1"
| "bytes_compare (a # s) [] = 1"
| "bytes_compare (a # s) (b # t) = (if a < b then -1 else if b < a then 1 else bytes_compare s t)"

definition compare_cursors :: "cursor \<Rightarrow> cursor \<Rightarrow> int" where
  "compare_cursors a b =
     (if cur_time a < cur_time b then -1
      else if cur_time b < cur_time a then 1
      else bytes_compare (uuid_bytes (cur_id a)) (uuid_bytes (cur_id b)))"

lemma cursor_is_zero_iff [simp]: "cursor_is_zero c \<longleftrightarrow> c = zero_cursor"
  by (cases c) (auto simp: cursor_is_zero_def zero_cursor_def)

section \<open>Big-endian bytes\<close>

definition bytes_value :: "8 word list \<Rightarrow> int" where
  "bytes_value bs = foldl (\<lambda>v b. 256 * v + uint b) 0 bs"

lemma foldl_bytes_value:
  "foldl (\<lambda>v b. 256 * v + uint b) a bs = a * 256 ^ length bs + bytes_value bs"
proof (induction bs arbitrary: a)
  case (Cons b bs)
  have "bytes_value (b # bs) = uint b * 256 ^ length bs + bytes_value bs"
    using Cons.IH [of "uint b"] by (simp add: bytes_value_def)
  with Cons.IH [of "256 * a + uint b"] show ?case by (simp add: algebra_simps)
qed (simp add: bytes_value_def)

lemma bytes_value_Cons: "bytes_value (b # bs) = uint b * 256 ^ length bs + bytes_value bs"
  using foldl_bytes_value [of "uint b" bs] by (simp add: bytes_value_def)

lemma byte_bound: "0 \<le> uint (b :: 8 word)" "uint b \<le> 255"
  using uint_range_size [of b] by (simp_all add: word_size)

lemma bytes_value_bounds: "0 \<le> bytes_value bs \<and> bytes_value bs < 256 ^ length bs"
proof (induction bs)
  case (Cons b bs)
  have "uint b * 256 ^ length bs \<le> 255 * 256 ^ length bs"
    using byte_bound(2) by (intro mult_right_mono) auto
  moreover have "0 \<le> uint b * 256 ^ length bs" using byte_bound(1) by simp
  moreover have "(256::int) ^ length (b # bs) = 255 * 256 ^ length bs + 256 ^ length bs" by simp
  ultimately show ?case using Cons unfolding bytes_value_Cons by linarith
qed (simp add: bytes_value_def)

lemma bytes_compare_value:
  "length s = length t \<Longrightarrow> bytes_compare s t = sgn (bytes_value s - bytes_value t)"
proof (induction s t rule: bytes_compare.induct)
  case (4 a s b t)
  have step: "uint x * 256 ^ length s + bytes_value u < uint y * 256 ^ length s + bytes_value v"
    if "x < y" "length u = length s" "length v = length s" for x y :: "8 word" and u v
  proof -
    have "(uint x + 1) * 256 ^ length s \<le> uint y * 256 ^ length s"
      using that(1) by (intro mult_right_mono) (auto simp: word_less_def)
    then show ?thesis
      using bytes_value_bounds [of u] bytes_value_bounds [of v] that
      by (simp add: algebra_simps)
  qed
  consider "a < b" | "b < a" | "a = b" by (metis linorder_less_linear)
  then show ?case
    using step [of a b s t] step [of b a t s] 4
    by cases (auto simp: bytes_value_Cons)
qed (simp_all add: bytes_value_def)

lemma bytes_value_append:
  "bytes_value (s @ [b]) = 256 * bytes_value s + uint b"
  by (simp add: bytes_value_def)

lemma bytes_value_digits:
  "bytes_value (map (\<lambda>i. word_of_int (u div 256 ^ (n - 1 - i))) [0..<n]) = u mod 256 ^ n"
proof (induction n arbitrary: u)
  case (Suc n)
  have eq: "map (\<lambda>i. word_of_int (u div 256 ^ (Suc n - 1 - i)) :: 8 word) [0..<n]
      = map (\<lambda>i. word_of_int ((u div 256) div 256 ^ (n - 1 - i))) [0..<n]"
  proof (rule map_cong)
    fix i
    assume "i \<in> set [0..<n]"
    then have "(256::int) ^ (Suc n - 1 - i) = 256 * 256 ^ (n - 1 - i)"
      by (simp flip: power_Suc add: Suc_diff_Suc)
    then show "word_of_int (u div 256 ^ (Suc n - 1 - i)) =
        (word_of_int ((u div 256) div 256 ^ (n - 1 - i)) :: 8 word)"
      by (simp add: zdiv_zmult2_eq)
  qed simp
  have "u mod 256 ^ Suc n = 256 * ((u div 256) mod 256 ^ n) + u mod 256"
    by (simp add: zmod_zmult2_eq)
  have "map (\<lambda>i. word_of_int (u div 256 ^ (Suc n - 1 - i)) :: 8 word) [0..<Suc n]
      = map (\<lambda>i. word_of_int ((u div 256) div 256 ^ (n - 1 - i))) [0..<n] @ [word_of_int u]"
    using eq by simp
  then show ?case using Suc [of "u div 256"] \<open>u mod 256 ^ Suc n = _\<close>
    by (simp only: bytes_value_append) (simp add: uint_word_of_int)
qed (simp add: bytes_value_def)

lemma bytes_value_uuid: "bytes_value (uuid_bytes u) = uint u"
proof -
  have "uuid_bytes u = map (\<lambda>i. word_of_int (uint u div 256 ^ (16 - 1 - i))) [0..<16]"
    unfolding uuid_bytes_def
  proof (rule map_cong)
    fix i
    assume "i \<in> set [0..<(16::nat)]"
    have p: "(2::int) ^ (8 * (15 - i)) = 256 ^ (15 - i)"
      using power_mult [of "2::int" 8 "15 - i"] by simp
    have "ucast (drop_bit (8 * (15 - i)) u) = (word_of_int (uint (drop_bit (8 * (15 - i)) u)) :: 8 word)"
      by (rule ucast_eq)
    also have "uint (drop_bit (8 * (15 - i)) u) = drop_bit (8 * (15 - i)) (uint u)"
      using uint_range_size [of u]
      by (simp add: unsigned_drop_bit_eq word_size take_bit_int_eq_self)
    also have "\<dots> = uint u div 256 ^ (16 - 1 - i)" by (simp add: drop_bit_eq_div p)
    finally show "ucast (drop_bit (8 * (15 - i)) u)
        = (word_of_int (uint u div 256 ^ (16 - 1 - i)) :: 8 word)" .
  qed simp
  then have "bytes_value (uuid_bytes u) = uint u mod 256 ^ 16"
    by (simp only: bytes_value_digits)
  also have "\<dots> = uint u"
    using uint_range_size [of u] by (simp add: word_size)
  finally show ?thesis .
qed

section \<open>The order\<close>

instantiation cursor :: linorder
begin

definition less_eq_cursor :: "cursor \<Rightarrow> cursor \<Rightarrow> bool" where
  "less_eq_cursor a b \<longleftrightarrow> cur_time a < cur_time b \<or> (cur_time a = cur_time b \<and> cur_id a \<le> cur_id b)"

definition less_cursor :: "cursor \<Rightarrow> cursor \<Rightarrow> bool" where
  "less_cursor a b \<longleftrightarrow> cur_time a < cur_time b \<or> (cur_time a = cur_time b \<and> cur_id a < cur_id b)"

instance
  by standard (auto simp: less_eq_cursor_def less_cursor_def cursor.expand)

end

lemma compare_cursors_order:
  "compare_cursors a b = (if a < b then -1 else if a = b then 0 else 1)"
proof -
  have "bytes_compare (uuid_bytes x) (uuid_bytes y) = sgn (uint x - uint y)" for x y
    by (subst bytes_compare_value) (simp add: uuid_bytes_def, simp add: bytes_value_uuid)
  then show ?thesis
    by (cases a; cases b) (auto simp: compare_cursors_def less_cursor_def word_less_def sgn_if word_uint_eq_iff)
qed

lemma compare_cursors_zero [simp]: "compare_cursors a b = 0 \<longleftrightarrow> a = b"
  by (simp add: compare_cursors_order)

text \<open>
  (C20) The Go comparison of cursors is the order of the SQL queries: it returns -1, 0 or 1
  exactly as the pair (time, identifier), identifiers as unsigned 128-bit numbers, is smaller,
  equal or greater.
\<close>

theorem compare_cursors_is_sql_order:
  "compare_cursors (Cursor t u) (Cursor t' u') =
     (if t < t' \<or> t = t' \<and> u < u' then -1 else if t = t' \<and> u = u' then 0 else 1)"
  by (simp add: compare_cursors_order less_cursor_def)

end
