(* ===== verification/Uuid.thy ===== *)
theory Uuid
  imports Cursor
begin

text \<open>
  The interface to \<^verbatim>\<open>github.com/google/uuid\<close>, a third-party package: \<^verbatim>\<open>String\<close> and \<^verbatim>\<open>Parse\<close>
  are the fields of a record \<open>uuid_api\<close>; what the code relies on is that \<^verbatim>\<open>Parse\<close> reads back
  what \<^verbatim>\<open>String\<close> prints (\<open>uuid_laws\<close>). \<open>ref_uuid\<close> is an instance: the canonical form, 32
  hexadecimal digits in groups of 8, 4, 4, 4 and 12.
\<close>

record uuid_api =
  uuid_str :: "uuid \<Rightarrow> string"
  uuid_parse :: "string \<Rightarrow> uuid option"

locale uuid_laws =
  fixes U :: uuid_api
  assumes parse_str: "uuid_parse U (uuid_str U u) = Some u"
begin

lemma str_inject [simp]: "uuid_str U u = uuid_str U v \<longleftrightarrow> u = v"
  using parse_str by (metis option.inject)

end

section \<open>The canonical form\<close>

definition hex_char :: "nat \<Rightarrow> char" where
  "hex_char d = (if d < 10 then char_of (48 + d) else char_of (87 + d))"

definition hex_value :: "char \<Rightarrow> nat" where
  "hex_value c = (let n = of_char c in if n < 58 then n - 48 else n - 87)"

fun hex_digits :: "nat \<Rightarrow> nat \<Rightarrow> string" where
  "hex_digits 0 m = []"
| "hex_digits (Suc n) m = hex_digits n (m div 16) @ [hex_char (m mod 16)]"

definition hex_number :: "string \<Rightarrow> nat" where
  "hex_number s = foldl (\<lambda>v c. 16 * v + hex_value c) 0 s"

definition canonical_form :: "string \<Rightarrow> string" where
  "canonical_form h = take 8 h @ ''-'' @ take 4 (drop 8 h) @ ''-'' @ take 4 (drop 12 h) @ ''-'' @
     take 4 (drop 16 h) @ ''-'' @ drop 20 h"

definition ref_uuid_str :: "uuid \<Rightarrow> string" where
  "ref_uuid_str u = canonical_form (hex_digits 32 (unat u))"

definition ref_uuid_parse :: "string \<Rightarrow> uuid option" where
  "ref_uuid_parse s = (let u = word_of_nat (hex_number (filter (\<lambda>c. c \<noteq> CHR ''-'') s))
     in if ref_uuid_str u = s then Some u else None)"

definition ref_uuid :: uuid_api where
  "ref_uuid = \<lparr>uuid_str = ref_uuid_str, uuid_parse = ref_uuid_parse\<rparr>"

lemma hex_value_char: "d < 16 \<Longrightarrow> hex_value (hex_char d) = d"
  by (auto simp: hex_value_def hex_char_def Let_def)

lemma hex_char_no_dash: "d < 16 \<Longrightarrow> hex_char d \<noteq> CHR ''-''"
proof
  assume "d < 16" "hex_char d = CHR ''-''"
  then have "(of_char (hex_char d) :: nat) = of_char (CHR ''-'')" by simp
  with \<open>d < 16\<close> show False by (auto simp: hex_char_def split: if_splits)
qed

lemma length_hex_digits [simp]: "length (hex_digits n m) = n"
  by (induction n m rule: hex_digits.induct) auto

lemma hex_digits_no_dash: "\<forall>c\<in>set (hex_digits n m). c \<noteq> CHR ''-''"
  by (induction n m rule: hex_digits.induct) (auto simp: hex_char_no_dash)

lemma hex_number_digits: "hex_number (hex_digits n m) = m mod 16 ^ n"
proof (induction n m rule: hex_digits.induct)
  case (2 n m)
  have "m mod 16 ^ Suc n = 16 * ((m div 16) mod 16 ^ n) + m mod 16"
    by (simp add: mod_mult2_eq)
  with 2 show ?case by (simp add: hex_number_def hex_value_char)
qed (simp add: hex_number_def)

lemma canonical_form_digits:
  assumes "\<forall>c\<in>set h. c \<noteq> CHR ''-''"
  shows "filter (\<lambda>c. c \<noteq> CHR ''-'') (canonical_form h) = h"
proof -
  have "filter (\<lambda>c. c \<noteq> CHR ''-'') (take n (drop k h)) = take n (drop k h)"
    "filter (\<lambda>c. c \<noteq> CHR ''-'') (drop k h) = drop k h"
    "filter (\<lambda>c. c \<noteq> CHR ''-'') (take n h) = take n h" for n k
    using assms by (auto simp: filter_id_conv dest: in_set_takeD in_set_dropD)
  moreover have "take 8 h @ take 4 (drop 8 h) @ take 4 (drop 12 h) @ take 4 (drop 16 h) @ drop 20 h = h"
  proof -
    have "take 4 (drop 16 h) @ drop 20 h = drop 16 h"
      using append_take_drop_id [of 4 "drop 16 h"] by simp
    moreover have "take 4 (drop 12 h) @ drop 16 h = drop 12 h"
      using append_take_drop_id [of 4 "drop 12 h"] by simp
    moreover have "take 4 (drop 8 h) @ drop 12 h = drop 8 h"
      using append_take_drop_id [of 4 "drop 8 h"] by simp
    ultimately show ?thesis by simp
  qed
  ultimately show ?thesis by (simp add: canonical_form_def)
qed

interpretation refu: uuid_laws ref_uuid
proof
  fix u :: uuid
  have "unat u < 2 ^ 128" using unsigned_less [of u, where ?'a = nat] by simp
  then have "hex_number (filter (\<lambda>c. c \<noteq> CHR ''-'') (ref_uuid_str u)) = unat u"
    unfolding ref_uuid_str_def canonical_form_digits [OF hex_digits_no_dash] hex_number_digits
    by simp
  then show "uuid_parse ref_uuid (uuid_str ref_uuid u) = Some u"
    by (simp add: ref_uuid_def ref_uuid_parse_def)
qed

end
