(* ===== verification/Aggregate.thy ===== *)
theory Aggregate
  imports Positions
begin

text \<open>
  \<^verbatim>\<open>internal/portfolio/aggregate.go\<close> and \<^verbatim>\<open>snapshot.go\<close>: the in-memory positions per portfolio
  key that an apply worker keeps, and the checkpoint document
  \<^verbatim>\<open>rtpre_trade_positions_v1\<close> written for it. The Go map from keys to positions is an
  association list; \<^verbatim>\<open>positionsFor\<close> adds an empty entry for a key it does not find, so the
  operations that call it return the new aggregate, on errors too.
\<close>

section \<open>The aggregate\<close>

type_synonym 'd aggregate = "(string \<times> 'd positions) list"

definition new_aggregate :: "'d aggregate" where
  "new_aggregate = []"

definition aggregate_reset :: "'d aggregate \<Rightarrow> 'd aggregate" where
  "aggregate_reset a = []"

definition positions_for :: "'d aggregate \<Rightarrow> string \<Rightarrow> 'd positions \<times> 'd aggregate" where
  "positions_for a pid = (case map_of a pid of
       Some ps \<Rightarrow> (ps, a)
     | None \<Rightarrow> (new_positions, AList.update pid new_positions a))"

definition aggregate_quantity :: "'d decimal_api \<Rightarrow> 'd aggregate \<Rightarrow> string \<Rightarrow> string \<Rightarrow> 'd \<times> 'd aggregate" where
  "aggregate_quantity D a pid s = (case positions_for a pid of (ps, a') \<Rightarrow> (quantity_of D ps s, a'))"

definition aggregate_lot :: "'d decimal_api \<Rightarrow> 'd aggregate \<Rightarrow> string \<Rightarrow> string \<Rightarrow> 'd position_lot \<times> 'd aggregate" where
  "aggregate_lot D a pid s = (case positions_for a pid of (ps, a') \<Rightarrow> (lot_of D ps s, a'))"

definition set_portfolio_positions :: "'d aggregate \<Rightarrow> string \<Rightarrow> 'd positions option \<Rightarrow> 'd aggregate" where
  "set_portfolio_positions a pid p = (case p of
       None \<Rightarrow> AList.delete pid a
     | Some ps \<Rightarrow> AList.update pid ps a)"

definition apply_event ::
  "'d decimal_api \<Rightarrow> 'd json_api \<Rightarrow> 'd aggregate \<Rightarrow> string \<Rightarrow> event_envelope \<Rightarrow> unit res \<times> 'd aggregate" where
  "apply_event D J a pid ev =
     (if event_type ev = event_type_trade_executed then
        (case decode_trade D J (payload ev) of
           None \<Rightarrow> (Inl (EInvalidPayload ''trade payload''), a)
         | Some t \<Rightarrow> (case positions_for a pid of (ps, a') \<Rightarrow>
             (case apply_trade D ps t of
                Inl e \<Rightarrow> (Inl e, a')
              | Inr ps' \<Rightarrow> (Inr (), AList.update pid ps' a'))))
      else if event_type ev = event_type_price_updated then (Inr (), a)
      else (Inr (), a))"

text \<open>The positions an aggregate holds for a key, without the entry that reading adds.\<close>

definition positions_at :: "'d aggregate \<Rightarrow> string \<Rightarrow> 'd positions" where
  "positions_at a pid = (case map_of a pid of None \<Rightarrow> [] | Some ps \<Rightarrow> ps)"

lemma positions_for_fst [simp]: "fst (positions_for a pid) = positions_at a pid"
  by (simp add: positions_for_def positions_at_def new_positions_def split: option.splits)

lemma positions_at_snd [simp]: "positions_at (snd (positions_for a pid)) k = positions_at a k"
  by (auto simp: positions_for_def positions_at_def new_positions_def update_conv' split: option.splits)

lemma positions_at_update [simp]:
  "positions_at (AList.update pid ps a) k = (if k = pid then ps else positions_at a k)"
  by (auto simp: positions_at_def update_conv')

lemma positions_at_new [simp]: "positions_at new_aggregate k = []"
  by (simp add: positions_at_def new_aggregate_def)

lemma positions_at_set [simp]:
  "positions_at (set_portfolio_positions a pid (Some ps)) k = (if k = pid then ps else positions_at a k)"
  by (simp add: set_portfolio_positions_def)

lemma aggregate_lot_fst [simp]: "fst (aggregate_lot D a pid s) = lot_of D (positions_at a pid) s"
  using positions_for_fst [of a pid] by (simp add: aggregate_lot_def split_beta)

lemma aggregate_lot_snd [simp]: "positions_at (snd (aggregate_lot D a pid s)) k = positions_at a k"
  using positions_at_snd [of a pid k] by (simp add: aggregate_lot_def split_beta)

text \<open>
  What one event does to the positions of the key it is applied to, with the error. Other keys
  keep their positions (\<open>apply_event_other\<close>).
\<close>

definition event_effect ::
  "'d decimal_api \<Rightarrow> 'd json_api \<Rightarrow> event_envelope \<Rightarrow> 'd positions \<Rightarrow> 'd positions res" where
  "event_effect D J ev ps =
     (if event_type ev = event_type_trade_executed then
        (case decode_trade D J (payload ev) of
           None \<Rightarrow> Inl (EInvalidPayload ''trade payload'')
         | Some t \<Rightarrow> apply_trade D ps t)
      else Inr ps)"

lemma apply_event_effect:
  "apply_event D J a pid ev =
     (case event_effect D J ev (positions_at a pid) of
        Inl e \<Rightarrow> (Inl e, snd (apply_event D J a pid ev))
      | Inr ps \<Rightarrow> (Inr (), snd (apply_event D J a pid ev)))"
  using positions_for_fst [of a pid]
  by (auto simp: apply_event_def event_effect_def split_beta split: option.splits sum.splits)

lemma apply_event_positions:
  "positions_at (snd (apply_event D J a pid ev)) pid =
     (case event_effect D J ev (positions_at a pid) of
        Inl e \<Rightarrow> positions_at a pid
      | Inr ps \<Rightarrow> ps)"
  using positions_for_fst [of a pid]
  by (auto simp: apply_event_def event_effect_def split_beta split: option.splits sum.splits)

lemma apply_event_other:
  "k \<noteq> pid \<Longrightarrow> positions_at (snd (apply_event D J a pid ev)) k = positions_at a k"
  by (auto simp: apply_event_def split_beta split: option.splits sum.splits)

lemma apply_event_fst:
  "fst (apply_event D J a pid ev) =
     (case event_effect D J ev (positions_at a pid) of Inl e \<Rightarrow> Inl e | Inr ps \<Rightarrow> Inr ())"
  by (subst apply_event_effect) (simp split: sum.splits)

section \<open>The checkpoint document\<close>

record snapshot_row =
  row_symbol :: string
  row_quantity :: string
  row_average_cost :: string
  row_realized_pnl :: string

record snapshot_doc =
  snap_format :: string
  snap_positions :: "snapshot_row list"

definition trade_positions_snapshot_format_v1 :: string where
  "trade_positions_snapshot_format_v1 = ''rtpre_trade_positions_v1''"

definition snapshot_rows :: "'d decimal_api \<Rightarrow> 'd positions \<Rightarrow> snapshot_row list" where
  "snapshot_rows D ps = map (\<lambda>(s, l). \<lparr>row_symbol = s,
     row_quantity = d_string_fixed D (lot_quantity l) 8,
     row_average_cost = d_string_fixed D (average_cost l) 8,
     row_realized_pnl = d_string_fixed D (realized_pnl l) 8\<rparr>) (sorted_symbol_lots ps)"

text \<open>
  \<^verbatim>\<open>json.Marshal\<close> replaces bytes that are not UTF-8. The symbols here are ASCII, because they have passed
  \<^verbatim>\<open>ValidateSymbol\<close> on their way into the event table.
\<close>

definition encode_snapshot_row :: "snapshot_row \<Rightarrow> json" where
  "encode_snapshot_row r = JObj [(''symbol'', JStr (row_symbol r)), (''quantity'', JStr (row_quantity r)),
     (''average_cost'', JStr (row_average_cost r)), (''realized_pnl'', JStr (row_realized_pnl r))]"

definition encode_snapshot :: "snapshot_doc \<Rightarrow> json" where
  "encode_snapshot d = JObj [(''format'', JStr (snap_format d)),
     (''positions'', JArr (map encode_snapshot_row (snap_positions d)))]"

definition marshal_trade_positions_snapshot_v1 ::
  "'d decimal_api \<Rightarrow> 'd aggregate option \<Rightarrow> string \<Rightarrow> raw_message res" where
  "marshal_trade_positions_snapshot_v1 D a pid = (case a of
       None \<Rightarrow> Inl (EOther ''aggregate required'')
     | Some agg \<Rightarrow>
         (let entries = (case map_of agg pid of None \<Rightarrow> [] | Some ps \<Rightarrow> ps)
          in Inr (RawDoc (encode_snapshot \<lparr>snap_format = trade_positions_snapshot_format_v1,
               snap_positions = snapshot_rows D entries\<rparr>))))"

definition row_fields :: "string list" where
  "row_fields = [''symbol'', ''quantity'', ''average_cost'', ''realized_pnl'']"

definition decode_row_member :: "string \<times> json \<Rightarrow> snapshot_row option \<Rightarrow> snapshot_row option" where
  "decode_row_member m acc = (case acc of None \<Rightarrow> None | Some r \<Rightarrow>
     (case field_match row_fields (fst m) of None \<Rightarrow> Some r
      | Some f \<Rightarrow>
        (if f = ''symbol'' then map_option (\<lambda>v. r\<lparr>row_symbol := v\<rparr>) (decode_string (snd m) (row_symbol r))
         else if f = ''quantity'' then map_option (\<lambda>v. r\<lparr>row_quantity := v\<rparr>) (decode_string (snd m) (row_quantity r))
         else if f = ''average_cost'' then
           map_option (\<lambda>v. r\<lparr>row_average_cost := v\<rparr>) (decode_string (snd m) (row_average_cost r))
         else map_option (\<lambda>v. r\<lparr>row_realized_pnl := v\<rparr>) (decode_string (snd m) (row_realized_pnl r)))))"

definition zero_row :: snapshot_row where
  "zero_row = \<lparr>row_symbol = [], row_quantity = [], row_average_cost = [], row_realized_pnl = []\<rparr>"

fun decode_row :: "json \<Rightarrow> snapshot_row \<Rightarrow> snapshot_row option" where
  "decode_row (JObj ms) old = fold decode_row_member ms (Some old)"
| "decode_row JNull old = Some old"
| "decode_row _ old = None"

text \<open>
  An array decoded into a slice writes element by element over the elements that are already
  there (a member that occurs twice), and past them from the zero value.
\<close>

fun decode_rows :: "json list \<Rightarrow> snapshot_row list \<Rightarrow> snapshot_row list option" where
  "decode_rows [] old = Some []"
| "decode_rows (j # js) old =
     (case decode_row j (case old of [] \<Rightarrow> zero_row | r # _ \<Rightarrow> r) of
        None \<Rightarrow> None
      | Some r \<Rightarrow> map_option (Cons r) (decode_rows js (drop 1 old)))"

definition decode_snapshot_member :: "string \<times> json \<Rightarrow> snapshot_doc option \<Rightarrow> snapshot_doc option" where
  "decode_snapshot_member m acc = (case acc of None \<Rightarrow> None | Some d \<Rightarrow>
     (case field_match [''format'', ''positions''] (fst m) of None \<Rightarrow> Some d
      | Some f \<Rightarrow>
        (if f = ''format'' then map_option (\<lambda>v. d\<lparr>snap_format := v\<rparr>) (decode_string (snd m) (snap_format d))
         else (case snd m of
             JNull \<Rightarrow> Some (d\<lparr>snap_positions := []\<rparr>)
           | JArr js \<Rightarrow> map_option (\<lambda>v. d\<lparr>snap_positions := v\<rparr>) (decode_rows js (snap_positions d))
           | _ \<Rightarrow> None))))"

fun decode_snapshot :: "raw_message \<Rightarrow> snapshot_doc option" where
  "decode_snapshot (RawDoc (JObj ms)) =
     fold decode_snapshot_member ms (Some \<lparr>snap_format = [], snap_positions = []\<rparr>)"
| "decode_snapshot (RawDoc JNull) = Some \<lparr>snap_format = [], snap_positions = []\<rparr>"
| "decode_snapshot _ = None"

fun parse_snapshot_rows ::
  "'d decimal_api \<Rightarrow> snapshot_row list \<Rightarrow> (string \<times> 'd position_lot) list \<Rightarrow> (string \<times> 'd position_lot) list res" where
  "parse_snapshot_rows D [] lots = Inr lots"
| "parse_snapshot_rows D (r # rs) lots =
     (if row_symbol r = [] then Inl (EInvalidPayload ''empty symbol'')
      else case d_parse D (row_quantity r) of
        None \<Rightarrow> Inl (EOther ''snapshot quantity'')
      | Some q \<Rightarrow> (case d_parse D (row_average_cost r) of
          None \<Rightarrow> Inl (EOther ''snapshot average_cost'')
        | Some av \<Rightarrow> (case d_parse D (row_realized_pnl r) of
            None \<Rightarrow> Inl (EOther ''snapshot realized_pnl'')
          | Some rp \<Rightarrow> parse_snapshot_rows D rs (AList.update (row_symbol r)
              \<lparr>lot_quantity = q, average_cost = av, realized_pnl = rp\<rparr> lots))))"

definition parse_trade_positions_snapshot_v1 :: "'d decimal_api \<Rightarrow> raw_message \<Rightarrow> 'd positions res" where
  "parse_trade_positions_snapshot_v1 D data =
     (if data = RawEmpty then Inr new_positions
      else case decode_snapshot data of
        None \<Rightarrow> Inl (EOther ''snapshot json'')
      | Some d \<Rightarrow>
          (if snap_format d \<noteq> trade_positions_snapshot_format_v1
           then Inl (EOther ''unsupported portfolio snapshot format'')
           else (case parse_snapshot_rows D (snap_positions d) [] of
               Inl e \<Rightarrow> Inl e
             | Inr lots \<Rightarrow> Inr (positions_from_lots lots))))"

section \<open>The document round-trips\<close>

lemma decode_encode_row: "decode_row (encode_snapshot_row r) old = Some r"
  by (simp add: encode_snapshot_row_def decode_row_member_def field_match_def row_fields_def)

lemma decode_encode_rows: "decode_rows (map encode_snapshot_row rs) old = Some rs"
  by (induction rs arbitrary: old) (simp_all add: decode_encode_row)

lemma decode_encode_snapshot: "decode_snapshot (RawDoc (encode_snapshot d)) = Some d"
  by (simp add: encode_snapshot_def decode_snapshot_member_def field_match_def decode_encode_rows)

definition lot_rounded :: "('d \<Rightarrow> rat) \<Rightarrow> nat \<Rightarrow> 'd position_lot \<Rightarrow> 'd position_lot \<Rightarrow> bool" where
  "lot_rounded val n l l' \<longleftrightarrow> val (lot_quantity l') = round_away n (val (lot_quantity l)) \<and>
     val (average_cost l') = round_away n (val (average_cost l)) \<and>
     val (realized_pnl l') = round_away n (val (realized_pnl l))"

context decimal_laws begin

lemma lot_rounded_zero [simp]: "lot_rounded val n (zero_lot D) (zero_lot D)"
  by (simp add: lot_rounded_def lot_simps)

lemma parse_snapshot_rows_rounded:
  assumes "\<forall>p\<in>set es. fst p \<noteq> []" and "distinct (map fst (rev acc @ es))"
  shows "\<exists>ls. parse_snapshot_rows D (map (\<lambda>(s, l). \<lparr>row_symbol = s,
       row_quantity = d_string_fixed D (lot_quantity l) 8,
       row_average_cost = d_string_fixed D (average_cost l) 8,
       row_realized_pnl = d_string_fixed D (realized_pnl l) 8\<rparr>) es) acc = Inr (acc @ ls)
     \<and> list_all2 (\<lambda>(s, l) (s', l'). s' = s \<and> lot_rounded val 8 l l') es ls"
  using assms
proof (induction es arbitrary: acc)
  case (Cons e es)
  obtain s l where e: "e = (s, l)" by (cases e)
  obtain q where q: "d_parse D (d_string_fixed D (lot_quantity l) 8) = Some q"
    "val q = round_away 8 (val (lot_quantity l))" using parse_fixed by blast
  obtain av where av: "d_parse D (d_string_fixed D (average_cost l) 8) = Some av"
    "val av = round_away 8 (val (average_cost l))" using parse_fixed by blast
  obtain rp where rp: "d_parse D (d_string_fixed D (realized_pnl l) 8) = Some rp"
    "val rp = round_away 8 (val (realized_pnl l))" using parse_fixed by blast
  let ?l = "\<lparr>lot_quantity = q, average_cost = av, realized_pnl = rp\<rparr>"
  have "s \<notin> fst ` set acc" using Cons.prems(2) e by auto
  then have upd: "AList.update s ?l acc = acc @ [(s, ?l)]"
    by (induction acc) auto
  obtain ls where "parse_snapshot_rows D (map (\<lambda>(s, l). \<lparr>row_symbol = s,
       row_quantity = d_string_fixed D (lot_quantity l) 8,
       row_average_cost = d_string_fixed D (average_cost l) 8,
       row_realized_pnl = d_string_fixed D (realized_pnl l) 8\<rparr>) es) (acc @ [(s, ?l)])
      = Inr ((acc @ [(s, ?l)]) @ ls)"
    "list_all2 (\<lambda>(s, l) (s', l'). s' = s \<and> lot_rounded val 8 l l') es ls"
    using Cons.IH [of "acc @ [(s, ?l)]"] Cons.prems e by auto
  then show ?case using Cons.prems e q av rp upd
    by (intro exI [of _ "(s, ?l) # ls"]) (simp add: lot_rounded_def)
qed simp

lemma lot_of_list_all2:
  assumes "list_all2 (\<lambda>(s, l) (s', l'). s' = s \<and> lot_rounded val n l l') es ls"
  shows "lot_rounded val n (lot_of D es s) (lot_of D ls s)"
  using assms
proof (induction es ls rule: list_all2_induct)
  case (Cons x xs y ys)
  then show ?case by (auto simp: lot_of_def split: if_splits)
qed (simp add: lot_of_def)

lemma snapshot_roundtrip:
  assumes "distinct (map fst (positions_at a pid))" and "\<forall>p\<in>set (positions_at a pid). fst p \<noteq> []"
    and "marshal_trade_positions_snapshot_v1 D (Some a) pid = Inr raw"
  obtains ps where "parse_trade_positions_snapshot_v1 D raw = Inr ps"
    "\<And>s. lot_rounded val 8 (lot_of D (positions_at a pid) s) (lot_of D ps s)"
    "sorted_wrt (<) (map fst ps)"
proof -
  let ?es = "sorted_symbol_lots (positions_at a pid)"
  have raw: "raw = RawDoc (encode_snapshot \<lparr>snap_format = trade_positions_snapshot_format_v1,
      snap_positions = snapshot_rows D (positions_at a pid)\<rparr>)"
    using assms(3) by (simp add: marshal_trade_positions_snapshot_v1_def positions_at_def Let_def)
  have srt: "sorted_wrt (<) (map fst ?es)"
    using sort_map_fst_distinct [OF assms(1)] by (simp add: sorted_symbol_lots_def sorted_wrt_map)
  then have d: "distinct (map fst ?es)" by (simp add: strict_sorted_iff)
  have ne: "\<forall>p\<in>set ?es. fst p \<noteq> []" using assms(2) by (simp add: sorted_symbol_lots_def)
  obtain ls where ls: "parse_snapshot_rows D (snapshot_rows D (positions_at a pid)) [] = Inr ls"
    "list_all2 (\<lambda>(s, l) (s', l'). s' = s \<and> lot_rounded val 8 l l') ?es ls"
    using parse_snapshot_rows_rounded [OF ne, of "[]"] d by (auto simp: snapshot_rows_def)
  have fs: "map fst ls = map fst ?es"
    using ls(2) by (induction rule: list_all2_induct) auto
  have dl: "distinct (map fst ls)" using d fs by simp
  have "positions_from_lots ls = ls"
  proof -
    have "fold (\<lambda>(k, v) ps. AList.update k v ps) zs ys = ys @ zs"
      if "distinct (map fst (ys @ zs))" for ys zs :: "(string \<times> 'd position_lot) list"
      using that
    proof (induction zs arbitrary: ys)
      case (Cons z zs)
      obtain k v where z: "z = (k, v)" by (cases z)
      have "k \<notin> fst ` set ys" using Cons.prems z by auto
      then have "AList.update k v ys = ys @ [(k, v)]" by (induction ys) auto
      then show ?case using Cons z by simp
    qed simp
    from this [of "[]" ls] dl show ?thesis by (simp add: positions_from_lots_def)
  qed
  then have p: "parse_trade_positions_snapshot_v1 D raw = Inr ls"
    by (simp add: raw parse_trade_positions_snapshot_v1_def decode_encode_snapshot ls(1))
  have "lot_of D (positions_at a pid) = lot_of D ?es"
    using sorted_symbol_lots_map_of [OF assms(1)] by (simp add: lot_of_def fun_eq_iff)
  then show thesis using that [OF p] lot_of_list_all2 [OF ls(2)] srt fs by simp
qed

end

text \<open>
  (C21) Checkpoint round trip: parsing the document \<^verbatim>\<open>MarshalTradePositionsSnapshotV1\<close> writes for a
  portfolio always succeeds and gives back, for every symbol, the lot rounded half away from
  zero to 8 decimal places; the symbols come out in strictly ascending order.
\<close>

theorem snapshot_document_roundtrip:
  assumes "decimal_laws D val" and "distinct (map fst (positions_at a pid))"
    and "\<forall>p\<in>set (positions_at a pid). fst p \<noteq> []"
    and "marshal_trade_positions_snapshot_v1 D (Some a) pid = Inr raw"
  shows "\<exists>ps. parse_trade_positions_snapshot_v1 D raw = Inr ps \<and> sorted_wrt (<) (map fst ps) \<and>
    (\<forall>s. lot_rounded val 8 (lot_of D (positions_at a pid) s) (lot_of D ps s))"
  using decimal_laws.snapshot_roundtrip [OF assms(1-4)] by blast

definition ex_aggregate :: "rdec aggregate" where
  "ex_aggregate = [(''p'', [(''MSFT'', \<lparr>lot_quantity = RDec 3 0, average_cost = RDec 1 9, realized_pnl = RDec 0 0\<rparr>),
     (''AAPL'', \<lparr>lot_quantity = RDec 2 0, average_cost = RDec 15 9, realized_pnl = RDec 0 0\<rparr>)])]"

theorem snapshot_document_roundtrip_witness:
  "\<exists>raw ps. marshal_trade_positions_snapshot_v1 ref_dec (Some ex_aggregate) ''p'' = Inr raw \<and>
     parse_trade_positions_snapshot_v1 ref_dec raw = Inr ps \<and>
     rval (average_cost (lot_of ref_dec ps ''AAPL'')) = 2 / 10 ^ 8 \<and>
     rval (average_cost (lot_of ref_dec ps ''MSFT'')) = 0"
proof -
  have at: "positions_at ex_aggregate ''p'' = [(''MSFT'', \<lparr>lot_quantity = RDec 3 0,
      average_cost = RDec 1 9, realized_pnl = RDec 0 0\<rparr>),
      (''AAPL'', \<lparr>lot_quantity = RDec 2 0, average_cost = RDec 15 9, realized_pnl = RDec 0 0\<rparr>)]"
    by (simp add: ex_aggregate_def positions_at_def)
  obtain raw where raw: "marshal_trade_positions_snapshot_v1 ref_dec (Some ex_aggregate) ''p'' = Inr raw"
    by (simp add: marshal_trade_positions_snapshot_v1_def Let_def)
  have r: "round_away 8 (15 / 10 ^ 9) = (2 / 10 ^ 8 :: rat)" "round_away 8 (1 / 10 ^ 9) = (0 :: rat)"
    by (simp_all add: round_away_def floor_eq_iff)
  have "distinct (map fst (positions_at ex_aggregate ''p''))"
    "\<forall>p\<in>set (positions_at ex_aggregate ''p''). fst p \<noteq> []" by (simp_all add: at)
  from snapshot_document_roundtrip [OF ref.decimal_laws_axioms this raw]
  obtain ps where ps: "parse_trade_positions_snapshot_v1 ref_dec raw = Inr ps"
    "\<And>s. lot_rounded rval 8 (lot_of ref_dec (positions_at ex_aggregate ''p'') s) (lot_of ref_dec ps s)"
    by blast
  show ?thesis
  proof (intro exI conjI)
    show "rval (average_cost (lot_of ref_dec ps ''AAPL'')) = 2 / 10 ^ 8"
      using ps(2) [of "''AAPL''"] r(1) by (simp add: at lot_of_def [of _ "[_, _]"] lot_rounded_def rval_RDec)
    show "rval (average_cost (lot_of ref_dec ps ''MSFT'')) = 0"
      using ps(2) [of "''MSFT''"] r(2) by (simp add: at lot_of_def [of _ "[_, _]"] lot_rounded_def rval_RDec)
  qed (use raw ps in simp_all)
qed

end
