(* ===== verification/Portfolio_View.thy ===== *)
theory Portfolio_View
  imports Uuid Aggregate
begin

text \<open>
  \<^verbatim>\<open>internal/portfolio/view.go\<close>: marking projection rows to market, the totals, and the
  assembly of the response of \<^verbatim>\<open>GET /v1/portfolios/{id}\<close> from projection rows, price marks and
  the trade cursor. The Go map of price marks is an association list with distinct keys; the
  loops that range over it visit the list in its order, and
  \<open>assemble_portfolio_view_order_independent\<close> shows that the order does not matter. A pointer
  that may be \<^verbatim>\<open>nil\<close> is an option.
\<close>

section \<open>Data\<close>

record 'd projection_row =
  pr_symbol :: string
  pr_quantity :: 'd
  pr_average_cost :: 'd
  pr_realized_pnl :: 'd

record 'd mark_to_market_row =
  mr_row :: "'d projection_row"
  mr_last_price :: 'd
  mr_has_price :: bool
  mr_market_value :: 'd
  mr_unrealized_pnl :: 'd

record 'd portfolio_totals =
  total_market_value :: 'd
  total_unrealized_pnl :: 'd
  total_realized_pnl :: 'd

record apply_cursor_meta =
  am_event_id :: uuid
  am_event_time :: time
  am_processing_time :: time

record 'd price_mark_input =
  pm_price :: 'd
  pm_as_of_event_id :: uuid
  pm_as_of_event_time :: time
  pm_processing_time :: time

record 'd portfolio_assembler_input =
  in_portfolio_id :: uuid
  in_positions :: "'d projection_row list"
  in_price_by_symbol :: "(string \<times> 'd price_mark_input) list"
  in_trade_apply :: "apply_cursor_meta option"

record portfolio_position =
  pp_symbol :: string
  pp_quantity :: string
  pp_average_cost :: string
  pp_realized_pnl :: string
  pp_last_price :: string
  pp_market_value :: string
  pp_unrealized_pnl :: string

record portfolio_totals_view =
  tv_market_value :: string
  tv_realized_pnl :: string
  tv_unrealized_pnl :: string

record read_as_of_ref =
  ra_event_id :: uuid
  ra_event_time :: time
  ra_processing_time :: "time option"

record price_mark_as_of =
  pa_symbol :: string
  pa_event_id :: uuid
  pa_event_time :: time
  pa_processing_time :: "time option"

record portfolio_view =
  pv_portfolio_id :: string
  pv_positions :: "portfolio_position list"
  pv_unpriced_symbols :: "string list"
  pv_totals :: portfolio_totals_view
  pv_driving_event_ids :: "uuid list"
  pv_as_of_positions :: "read_as_of_ref option"
  pv_as_of_prices :: "price_mark_as_of list"
  pv_as_of_event_id :: "uuid option"
  pv_as_of_event_time :: "time option"
  pv_as_of_processing_time :: "time option"

section \<open>Marking to market\<close>

definition mark_to_market ::
  "'d decimal_api \<Rightarrow> 'd projection_row \<Rightarrow> 'd \<Rightarrow> bool \<Rightarrow> 'd mark_to_market_row" where
  "mark_to_market D row last_price has_price =
     (let out = \<lparr>mr_row = row, mr_last_price = last_price, mr_has_price = has_price,
                 mr_market_value = d_zero D, mr_unrealized_pnl = d_zero D\<rparr>
      in if \<not> has_price \<or> d_is_zero D (pr_quantity row) then out
         else out\<lparr>mr_market_value := d_mul D last_price (pr_quantity row),
                  mr_unrealized_pnl :=
                    d_mul D (d_sub D last_price (pr_average_cost row)) (pr_quantity row)\<rparr>)"

definition sum_step ::
  "'d decimal_api \<Rightarrow> 'd mark_to_market_row \<Rightarrow> 'd portfolio_totals \<Rightarrow> 'd portfolio_totals" where
  "sum_step D r t =
     (let t1 = t\<lparr>total_realized_pnl := d_add D (total_realized_pnl t) (pr_realized_pnl (mr_row r))\<rparr>
      in if mr_has_price r \<and> \<not> d_is_zero D (pr_quantity (mr_row r)) then
           t1\<lparr>total_market_value := d_add D (total_market_value t1) (mr_market_value r),
              total_unrealized_pnl := d_add D (total_unrealized_pnl t1) (mr_unrealized_pnl r)\<rparr>
         else t1)"

definition sum_totals :: "'d decimal_api \<Rightarrow> 'd mark_to_market_row list \<Rightarrow> 'd portfolio_totals" where
  "sum_totals D rows = fold (sum_step D) rows
     \<lparr>total_market_value = d_zero D, total_unrealized_pnl = d_zero D, total_realized_pnl = d_zero D\<rparr>"

section \<open>Lineage\<close>

definition apply_meta_less :: "uuid_api \<Rightarrow> apply_cursor_meta \<Rightarrow> apply_cursor_meta \<Rightarrow> bool" where
  "apply_meta_less U a b =
     (if am_event_time a \<noteq> am_event_time b then am_event_time a < am_event_time b
      else uuid_str U (am_event_id a) < uuid_str U (am_event_id b))"

definition merge_step ::
  "uuid_api \<Rightarrow> 'd price_mark_input \<Rightarrow> apply_cursor_meta option \<Rightarrow> apply_cursor_meta option" where
  "merge_step U p best =
     (if pm_as_of_event_id p = uuid_nil then best
      else (let cand = \<lparr>am_event_id = pm_as_of_event_id p, am_event_time = pm_as_of_event_time p,
                        am_processing_time = pm_processing_time p\<rparr>
        in case best of None \<Rightarrow> Some cand
           | Some b \<Rightarrow> if apply_meta_less U b cand then Some cand else Some b))"

definition merge_as_of_cursor ::
  "uuid_api \<Rightarrow> apply_cursor_meta option \<Rightarrow> (string \<times> 'd price_mark_input) list \<Rightarrow> uuid \<times> time" where
  "merge_as_of_cursor U trade prices =
     (let start = (case trade of None \<Rightarrow> None
                   | Some m \<Rightarrow> if am_event_id m \<noteq> uuid_nil then Some m else None)
      in case fold (merge_step U) (map snd prices) start of
           None \<Rightarrow> (uuid_nil, 0)
         | Some b \<Rightarrow> (am_event_id b, am_event_time b))"

definition collect_driving_event_ids ::
  "uuid_api \<Rightarrow> apply_cursor_meta option \<Rightarrow> (string \<times> 'd price_mark_input) list \<Rightarrow> uuid list" where
  "collect_driving_event_ids U trade prices =
     (let from_trade = (case trade of None \<Rightarrow> []
                        | Some m \<Rightarrow> if am_event_id m \<noteq> uuid_nil then [am_event_id m] else []);
          from_prices = filter (\<lambda>i. i \<noteq> uuid_nil) (map (\<lambda>p. pm_as_of_event_id (snd p)) prices)
      in sort_key (uuid_str U) (remdups (from_trade @ from_prices)))"

definition latest_step :: "'d price_mark_input \<Rightarrow> time option \<Rightarrow> time option" where
  "latest_step p latest =
     (if pm_processing_time p = 0 then latest
      else case latest of None \<Rightarrow> Some (pm_processing_time p)
           | Some l \<Rightarrow> if l < pm_processing_time p then Some (pm_processing_time p) else Some l)"

definition merge_latest_processing_time ::
  "apply_cursor_meta option \<Rightarrow> (string \<times> 'd price_mark_input) list \<Rightarrow> time option" where
  "merge_latest_processing_time trade prices =
     fold latest_step (map snd prices)
       (case trade of None \<Rightarrow> None
        | Some m \<Rightarrow> if am_processing_time m \<noteq> 0 then Some (am_processing_time m) else None)"

section \<open>Assembly\<close>

definition price_of :: "(string \<times> 'd price_mark_input) list \<Rightarrow> 'd decimal_api \<Rightarrow> string \<Rightarrow> 'd \<times> bool" where
  "price_of prices D s = (case map_of prices s of
       None \<Rightarrow> (d_zero D, False)
     | Some pm \<Rightarrow> (pm_price pm, \<not> d_is_zero D (pm_price pm)))"

definition mtm_row ::
  "'d decimal_api \<Rightarrow> (string \<times> 'd price_mark_input) list \<Rightarrow> 'd projection_row \<Rightarrow> 'd mark_to_market_row" where
  "mtm_row D prices row =
     (case price_of prices D (pr_symbol row) of (p, has_price) \<Rightarrow> mark_to_market D row p has_price)"

definition position_view ::
  "'d decimal_api \<Rightarrow> (string \<times> 'd price_mark_input) list \<Rightarrow> 'd projection_row \<Rightarrow> portfolio_position" where
  "position_view D prices row =
     (case price_of prices D (pr_symbol row) of (p, has_price) \<Rightarrow>
       (let mr = mark_to_market D row p has_price;
            marked = mr_has_price mr \<and> \<not> d_is_zero D (pr_quantity row)
        in \<lparr>pp_symbol = pr_symbol row, pp_quantity = d_string D (pr_quantity row),
            pp_average_cost = d_string D (pr_average_cost row),
            pp_realized_pnl = d_string D (pr_realized_pnl row),
            pp_last_price = (if has_price then d_string D p else []),
            pp_market_value = (if marked then d_string D (mr_market_value mr) else []),
            pp_unrealized_pnl = (if marked then d_string D (mr_unrealized_pnl mr) else [])\<rparr>))"

definition as_of_positions_ref :: "apply_cursor_meta option \<Rightarrow> read_as_of_ref option" where
  "as_of_positions_ref trade = (case trade of None \<Rightarrow> None
     | Some m \<Rightarrow> if am_event_id m \<noteq> uuid_nil then
         Some \<lparr>ra_event_id = am_event_id m, ra_event_time = am_event_time m,
           ra_processing_time = (if am_processing_time m \<noteq> 0 then Some (am_processing_time m) else None)\<rparr>
         else None)"

definition as_of_prices_list :: "(string \<times> 'd price_mark_input) list \<Rightarrow> price_mark_as_of list" where
  "as_of_prices_list prices =
     map (\<lambda>(s, pm). \<lparr>pa_symbol = s, pa_event_id = pm_as_of_event_id pm,
         pa_event_time = pm_as_of_event_time pm,
         pa_processing_time = (if pm_processing_time pm \<noteq> 0 then Some (pm_processing_time pm) else None)\<rparr>)
       (filter (\<lambda>(s, pm). pm_as_of_event_id pm \<noteq> uuid_nil) (sort_key fst prices))"

text \<open>The error of a duplicate stands for its sentinel \<^verbatim>\<open>ErrAssemblerDuplicatePositionSymbol\<close>, without the symbol.\<close>

definition has_duplicate_symbol :: "'d projection_row list \<Rightarrow> bool" where
  "has_duplicate_symbol rows \<longleftrightarrow> \<not> distinct (map pr_symbol rows)"

definition assemble_portfolio_view ::
  "'d decimal_api \<Rightarrow> uuid_api \<Rightarrow> 'd portfolio_assembler_input \<Rightarrow> portfolio_view res" where
  "assemble_portfolio_view D U i =
     (if in_portfolio_id i = uuid_nil then Inl (EOther ''portfolio: portfolio_id is required'')
      else if has_duplicate_symbol (in_positions i)
        then Inl (EOther ''portfolio: duplicate position symbol'')
      else
        (let prices = in_price_by_symbol i;
             positions = sort_key pr_symbol (in_positions i);
             mtm = map (mtm_row D prices) positions;
             unpriced = map pr_symbol (filter (\<lambda>row. \<not> d_is_zero D (pr_quantity row) \<and>
               \<not> snd (price_of prices D (pr_symbol row))) positions);
             tot = sum_totals D mtm;
             as_pos = as_of_positions_ref (in_trade_apply i);
             as_prices = as_of_prices_list prices;
             merged = merge_as_of_cursor U None prices;
             (as_id, as_time, as_proc) =
               (case as_pos of
                  Some r \<Rightarrow> if as_prices \<noteq> [] then (None, None, None)
                    else (Some (ra_event_id r), Some (ra_event_time r), ra_processing_time r)
                | None \<Rightarrow> if as_prices = [] then (None, None, None)
                    else (if fst merged \<noteq> uuid_nil then Some (fst merged) else None,
                          if snd merged \<noteq> 0 then Some (snd merged) else None,
                          merge_latest_processing_time None prices))
         in Inr \<lparr>pv_portfolio_id = uuid_str U (in_portfolio_id i),
             pv_positions = map (position_view D prices) positions,
             pv_unpriced_symbols = unpriced,
             pv_totals = \<lparr>tv_market_value = d_string D (total_market_value tot),
               tv_realized_pnl = d_string D (total_realized_pnl tot),
               tv_unrealized_pnl = d_string D (total_unrealized_pnl tot)\<rparr>,
             pv_driving_event_ids = collect_driving_event_ids U (in_trade_apply i) prices,
             pv_as_of_positions = as_pos, pv_as_of_prices = as_prices,
             pv_as_of_event_id = as_id, pv_as_of_event_time = as_time,
             pv_as_of_processing_time = as_proc\<rparr>))"

section \<open>Totals\<close>

text \<open>The positions that have a market value: open, with a mark that is not zero.\<close>

definition marked_open :: "'d decimal_api \<Rightarrow> (string \<times> 'd price_mark_input) list \<Rightarrow> 'd projection_row \<Rightarrow> bool" where
  "marked_open D prices r \<longleftrightarrow> snd (price_of prices D (pr_symbol r)) \<and> \<not> d_is_zero D (pr_quantity r)"

definition mark_value :: "'d decimal_api \<Rightarrow> ('d \<Rightarrow> rat) \<Rightarrow> (string \<times> 'd price_mark_input) list \<Rightarrow> string \<Rightarrow> rat" where
  "mark_value D val prices s = val (fst (price_of prices D s))"

definition market_value_of ::
  "'d decimal_api \<Rightarrow> ('d \<Rightarrow> rat) \<Rightarrow> (string \<times> 'd price_mark_input) list \<Rightarrow> 'd projection_row list \<Rightarrow> rat" where
  "market_value_of D val prices rows = sum_list (map (\<lambda>r. mark_value D val prices (pr_symbol r) *
     val (pr_quantity r)) (filter (marked_open D prices) rows))"

definition unrealized_of ::
  "'d decimal_api \<Rightarrow> ('d \<Rightarrow> rat) \<Rightarrow> (string \<times> 'd price_mark_input) list \<Rightarrow> 'd projection_row list \<Rightarrow> rat" where
  "unrealized_of D val prices rows = sum_list (map (\<lambda>r. (mark_value D val prices (pr_symbol r) -
     val (pr_average_cost r)) * val (pr_quantity r)) (filter (marked_open D prices) rows))"

definition realized_of :: "('d \<Rightarrow> rat) \<Rightarrow> 'd projection_row list \<Rightarrow> rat" where
  "realized_of val rows = sum_list (map (\<lambda>r. val (pr_realized_pnl r)) rows)"

lemma market_value_of_perm:
  "mset rows = mset rows' \<Longrightarrow> market_value_of D val prices rows = market_value_of D val prices rows'"
  unfolding market_value_of_def by (intro sum_list_mset_cong) simp

lemma unrealized_of_perm:
  "mset rows = mset rows' \<Longrightarrow> unrealized_of D val prices rows = unrealized_of D val prices rows'"
  unfolding unrealized_of_def by (intro sum_list_mset_cong) simp

lemma realized_of_perm:
  "mset rows = mset rows' \<Longrightarrow> realized_of val rows = realized_of val rows'"
  unfolding realized_of_def by (intro sum_list_mset_cong) simp

context decimal_laws begin

lemma sum_step_vals:
  "val (total_market_value (sum_step D (mtm_row D prices r) t)) = val (total_market_value t) +
     (if marked_open D prices r then mark_value D val prices (pr_symbol r) * val (pr_quantity r) else 0)"
  "val (total_unrealized_pnl (sum_step D (mtm_row D prices r) t)) = val (total_unrealized_pnl t) +
     (if marked_open D prices r then (mark_value D val prices (pr_symbol r) -
        val (pr_average_cost r)) * val (pr_quantity r) else 0)"
  "val (total_realized_pnl (sum_step D (mtm_row D prices r) t)) =
     val (total_realized_pnl t) + val (pr_realized_pnl r)"
  by (auto simp: sum_step_def mtm_row_def mark_to_market_def Let_def marked_open_def mark_value_def
      vals split: prod.splits)

lemma sum_totals_fold:
  "val (total_market_value (fold (sum_step D) (map (mtm_row D prices) rows) t)) =
     val (total_market_value t) + market_value_of D val prices rows"
  "val (total_unrealized_pnl (fold (sum_step D) (map (mtm_row D prices) rows) t)) =
     val (total_unrealized_pnl t) + unrealized_of D val prices rows"
  "val (total_realized_pnl (fold (sum_step D) (map (mtm_row D prices) rows) t)) =
     val (total_realized_pnl t) + realized_of val rows"
  by (induction rows arbitrary: t)
    (simp_all add: sum_step_vals market_value_of_def unrealized_of_def realized_of_def)

lemma sum_totals_vals:
  "val (total_market_value (sum_totals D (map (mtm_row D prices) rows))) = market_value_of D val prices rows"
  "val (total_unrealized_pnl (sum_totals D (map (mtm_row D prices) rows))) = unrealized_of D val prices rows"
  "val (total_realized_pnl (sum_totals D (map (mtm_row D prices) rows))) = realized_of val rows"
  by (simp_all add: sum_totals_def sum_totals_fold vals)

lemma price_of_perm: "map_of ps = map_of qs \<Longrightarrow> price_of ps D = price_of qs D"
  by (auto simp: price_of_def fun_eq_iff)

end

section \<open>Independence of the map order\<close>

lemma map_of_perm:
  assumes "distinct (map fst xs)" and "mset xs = mset ys"
  shows "map_of xs = map_of ys"
proof -
  have "distinct (map fst ys)"
    using assms by (metis distinct_map inj_on_def mset_eq_imp_distinct_iff mset_eq_setD)
  then show ?thesis
    using assms by (subst map_of_inject_set) (auto dest: mset_eq_setD)
qed

lemma sort_key_perm:
  assumes "mset xs = mset ys" and "inj_on f (set xs)"
  shows "sort_key f xs = sort_key f ys"
proof (rule properties_for_sort_key)
  show "mset (sort_key f ys) = mset xs" using assms(1) by simp
  show "sorted (map f (sort_key f ys))" by simp
  fix k
  assume "k \<in> set (sort_key f ys)"
  then have k: "k \<in> set xs" using assms(1) by (metis mset_eq_setD set_sort)
  have "filter (\<lambda>x. f k = f x) zs = replicate (count (mset zs) k) k" if "set zs = set xs" for zs
  proof -
    have "filter (\<lambda>x. f k = f x) zs = filter (\<lambda>x. x = k) zs"
      by (rule filter_cong) (use that k assms(2) in \<open>auto dest: inj_onD\<close>)
    also have "\<dots> = replicate (count (mset zs) k) k"
      by (induction zs) auto
    finally show ?thesis .
  qed
  from this [of "sort_key f ys"] this [of xs]
  show "filter (\<lambda>x. f k = f x) (sort_key f ys) = filter (\<lambda>x. f k = f x) xs"
    using assms(1) by (metis mset_eq_setD mset_sort set_sort)
qed

lemma sort_key_set_perm:
  assumes "set xs = set ys" and "inj_on f (set xs)"
  shows "sort_key f (remdups xs) = sort_key f (remdups ys)"
  using assms by (intro sort_key_perm) (auto simp: set_eq_iff_mset_eq_distinct [symmetric])

definition meta_pair :: "apply_cursor_meta \<Rightarrow> uuid \<times> time" where
  "meta_pair m = (am_event_id m, am_event_time m)"

definition pair_step :: "uuid_api \<Rightarrow> 'd price_mark_input \<Rightarrow> (uuid \<times> time) option \<Rightarrow> (uuid \<times> time) option" where
  "pair_step U p best =
     (if pm_as_of_event_id p = uuid_nil then best
      else case best of None \<Rightarrow> Some (pm_as_of_event_id p, pm_as_of_event_time p)
        | Some (i, s) \<Rightarrow> if s < pm_as_of_event_time p \<or>
              s = pm_as_of_event_time p \<and> uuid_str U i < uuid_str U (pm_as_of_event_id p)
            then Some (pm_as_of_event_id p, pm_as_of_event_time p) else Some (i, s))"

lemma merge_step_pair:
  "map_option meta_pair (fold (merge_step U) ps b) = fold (pair_step U) ps (map_option meta_pair b)"
proof (induction ps arbitrary: b)
  case (Cons p ps)
  have "map_option meta_pair (merge_step U p b) = pair_step U p (map_option meta_pair b)"
    by (auto simp: merge_step_def pair_step_def meta_pair_def apply_meta_less_def Let_def
        split: option.splits)
  with Cons show ?case by simp
qed simp

context uuid_laws begin

lemma pair_step_commute: "pair_step U p (pair_step U q b) = pair_step U q (pair_step U p b)"
proof (cases "pm_as_of_event_id p = uuid_nil \<or> pm_as_of_event_id q = uuid_nil")
  case True
  then show ?thesis by (auto simp: pair_step_def)
next
  case False
  show ?thesis
  proof (cases b)
    case None
    consider "pm_as_of_event_time p < pm_as_of_event_time q"
      | "pm_as_of_event_time q < pm_as_of_event_time p"
      | "pm_as_of_event_time p = pm_as_of_event_time q" by linarith
    then show ?thesis
    proof cases
      case 3
      show ?thesis
        using 3 False None less_linear [of "uuid_str U (pm_as_of_event_id p)" "uuid_str U (pm_as_of_event_id q)"]
        by (auto simp: pair_step_def)
    qed (use False None in \<open>auto simp: pair_step_def\<close>)
  next
    case (Some x)
    obtain i s where x: "x = (i, s)" by (cases x)
    show ?thesis
      using False Some x
        less_linear [of "pm_as_of_event_time p" "pm_as_of_event_time q"]
        less_linear [of "uuid_str U (pm_as_of_event_id p)" "uuid_str U (pm_as_of_event_id q)"]
      by (auto simp: pair_step_def)
  qed
qed

lemma merge_as_of_perm:
  assumes "mset ps = mset qs"
  shows "merge_as_of_cursor U None ps = merge_as_of_cursor U None qs"
proof -
  have "fold (pair_step U) (map snd ps) None = fold (pair_step U) (map snd qs) None"
    using assms by (intro fold_perm pair_step_commute) simp
  then have "map_option meta_pair (fold (merge_step U) (map snd ps) None)
      = map_option meta_pair (fold (merge_step U) (map snd qs) None)"
    by (simp add: merge_step_pair)
  then show ?thesis
    by (auto simp: merge_as_of_cursor_def meta_pair_def split: option.splits)
qed

end

lemma merge_latest_perm:
  assumes "mset ps = mset qs"
  shows "merge_latest_processing_time None ps = merge_latest_processing_time None qs"
proof -
  have "latest_step p (latest_step q b) = latest_step q (latest_step p b)" for p q :: "'a price_mark_input" and b
    by (auto simp: latest_step_def split: option.splits)
  then show ?thesis using assms
    unfolding merge_latest_processing_time_def by (intro fold_perm) simp_all
qed

lemma inj_on_symbols: "distinct (map pr_symbol rows) \<Longrightarrow> inj_on pr_symbol (set rows)"
  by (simp add: distinct_map)

context uuid_laws begin

lemma assemble_perm:
  assumes "mset (in_positions i) = mset (in_positions j)"
    and "mset (in_price_by_symbol i) = mset (in_price_by_symbol j)"
    and "distinct (map fst (in_price_by_symbol i))"
    and "in_portfolio_id i = in_portfolio_id j" "in_trade_apply i = in_trade_apply j"
  shows "assemble_portfolio_view D U i = assemble_portfolio_view D U j"
proof -
  have "mset (map pr_symbol (in_positions i)) = mset (map pr_symbol (in_positions j))"
    using assms(1) by simp
  then have dup: "has_duplicate_symbol (in_positions i) = has_duplicate_symbol (in_positions j)"
    unfolding has_duplicate_symbol_def using mset_eq_imp_distinct_iff by blast
  have pos: "sort_key pr_symbol (in_positions i) = sort_key pr_symbol (in_positions j)"
    if "\<not> has_duplicate_symbol (in_positions i)"
    using that assms(1) by (intro sort_key_perm inj_on_symbols) (simp_all add: has_duplicate_symbol_def)
  have price: "price_of (in_price_by_symbol i) = price_of (in_price_by_symbol j)"
    using map_of_perm [OF assms(3,2)] by (auto simp: price_of_def fun_eq_iff)
  have mtm: "mtm_row D (in_price_by_symbol i) = mtm_row D (in_price_by_symbol j)"
    "position_view D (in_price_by_symbol i) = position_view D (in_price_by_symbol j)"
    by (simp_all add: mtm_row_def position_view_def price fun_eq_iff)
  have "inj_on fst (set (in_price_by_symbol i))" using assms(3) by (simp add: distinct_map)
  then have prices: "as_of_prices_list (in_price_by_symbol i) = as_of_prices_list (in_price_by_symbol j)"
    unfolding as_of_prices_list_def using assms(2) by (simp only: sort_key_perm)
  have driving: "collect_driving_event_ids U t (in_price_by_symbol i)
      = collect_driving_event_ids U t (in_price_by_symbol j)" for t
    unfolding collect_driving_event_ids_def Let_def
    by (intro sort_key_set_perm) (simp_all add: mset_eq_setD [OF assms(2)] inj_on_def)
  show ?thesis
  proof (cases "has_duplicate_symbol (in_positions j)")
    case True
    then show ?thesis by (simp add: assemble_portfolio_view_def dup assms(4))
  next
    case False
    show ?thesis
      unfolding assemble_portfolio_view_def Let_def merge_latest_perm [OF assms(2)]
        merge_as_of_perm [OF assms(2)] assms(4,5) dup price mtm prices driving pos [unfolded dup, OF False] ..
  qed
qed

end

lemma assemble_total:
  assumes "in_portfolio_id i \<noteq> uuid_nil" and "distinct (map pr_symbol (in_positions i))"
  shows "\<exists>v. assemble_portfolio_view D U i = Inr v"
  unfolding assemble_portfolio_view_def Let_def
  using assms by (simp only: has_duplicate_symbol_def simp_thms if_False split_beta) blast

lemma assemble_positions:
  assumes "assemble_portfolio_view D U i = Inr v"
  shows "pv_positions v = map (position_view D (in_price_by_symbol i)) (sort_key pr_symbol (in_positions i))"
    and "pv_unpriced_symbols v = map pr_symbol (filter (\<lambda>row. \<not> d_is_zero D (pr_quantity row) \<and>
      \<not> snd (price_of (in_price_by_symbol i) D (pr_symbol row))) (sort_key pr_symbol (in_positions i)))"
    and "distinct (map pr_symbol (in_positions i))" and "in_portfolio_id i \<noteq> uuid_nil"
  using assms by (auto simp: assemble_portfolio_view_def Let_def has_duplicate_symbol_def
      split: if_splits prod.splits)

lemma assemble_totals:
  assumes "assemble_portfolio_view D U i = Inr v"
  shows "pv_totals v = (let tot = sum_totals D (map (mtm_row D (in_price_by_symbol i))
      (sort_key pr_symbol (in_positions i))) in \<lparr>tv_market_value = d_string D (total_market_value tot),
        tv_realized_pnl = d_string D (total_realized_pnl tot),
        tv_unrealized_pnl = d_string D (total_unrealized_pnl tot)\<rparr>)"
  using assms by (auto simp: assemble_portfolio_view_def Let_def split: if_splits prod.splits)

lemma assemble_lineage:
  assumes "assemble_portfolio_view D U i = Inr v"
  shows "pv_as_of_positions v = as_of_positions_ref (in_trade_apply i)"
    and "pv_as_of_prices v = as_of_prices_list (in_price_by_symbol i)"
    and "pv_driving_event_ids v = collect_driving_event_ids U (in_trade_apply i) (in_price_by_symbol i)"
    and "pv_as_of_positions v \<noteq> None \<Longrightarrow> pv_as_of_prices v \<noteq> [] \<Longrightarrow> pv_as_of_event_id v = None"
    and "pv_as_of_positions v = Some r \<Longrightarrow> pv_as_of_prices v = [] \<Longrightarrow> pv_as_of_event_id v = Some (ra_event_id r)"
  using assms by (auto simp: assemble_portfolio_view_def Let_def split: if_splits prod.splits option.splits)

lemma position_view_symbol [simp]: "pp_symbol (position_view D prices row) = pr_symbol row"
  by (simp add: position_view_def Let_def split_beta)

lemma assemble_totals_values:
  assumes "decimal_laws D val" and "assemble_portfolio_view D U i = Inr v"
  shows "\<exists>mv un re.
    pv_totals v = \<lparr>tv_market_value = d_string D mv, tv_realized_pnl = d_string D re,
      tv_unrealized_pnl = d_string D un\<rparr> \<and>
    val mv = market_value_of D val (in_price_by_symbol i) (in_positions i) \<and>
    val un = unrealized_of D val (in_price_by_symbol i) (in_positions i) \<and>
    val re = realized_of val (in_positions i)"
proof -
  let ?s = "sort_key pr_symbol (in_positions i)"
  let ?t = "sum_totals D (map (mtm_row D (in_price_by_symbol i)) ?s)"
  have "market_value_of D val (in_price_by_symbol i) ?s = market_value_of D val (in_price_by_symbol i) (in_positions i)"
    "unrealized_of D val (in_price_by_symbol i) ?s = unrealized_of D val (in_price_by_symbol i) (in_positions i)"
    "realized_of val ?s = realized_of val (in_positions i)"
    by (intro market_value_of_perm unrealized_of_perm realized_of_perm, simp)+
  then show ?thesis
    using assemble_totals [OF assms(2)] decimal_laws.sum_totals_vals [OF assms(1)]
    by (intro exI [of _ "total_market_value ?t"] exI [of _ "total_unrealized_pnl ?t"]
        exI [of _ "total_realized_pnl ?t"]) (simp add: Let_def)
qed

section \<open>Properties\<close>

definition ex_input :: "rdec portfolio_assembler_input" where
  "ex_input = \<lparr>in_portfolio_id = 7, in_positions =
      [\<lparr>pr_symbol = ''MSFT'', pr_quantity = RDec 4 0, pr_average_cost = RDec 300 0, pr_realized_pnl = RDec 5 0\<rparr>,
       \<lparr>pr_symbol = ''AAPL'', pr_quantity = RDec 10 0, pr_average_cost = RDec 150 0, pr_realized_pnl = RDec 7 0\<rparr>,
       \<lparr>pr_symbol = ''TSLA'', pr_quantity = RDec 1 0, pr_average_cost = RDec 200 0, pr_realized_pnl = RDec 0 0\<rparr>],
     in_price_by_symbol =
      [(''MSFT'', \<lparr>pm_price = RDec 310 0, pm_as_of_event_id = 12, pm_as_of_event_time = 5, pm_processing_time = 0\<rparr>),
       (''AAPL'', \<lparr>pm_price = RDec 160 0, pm_as_of_event_id = 11, pm_as_of_event_time = 5, pm_processing_time = 9\<rparr>)],
     in_trade_apply = None\<rparr>"

lemma ex_input_assembles: "\<exists>v. assemble_portfolio_view D U ex_input = Inr v"
  by (rule assemble_total) (simp_all add: ex_input_def uuid_nil_def)

text \<open>
  (C22) Totals of the portfolio view: the market value is the sum of mark times quantity and the
  unrealized PnL the sum of (mark - average cost) times quantity over the open positions that
  have a non-zero mark, the realized PnL the sum over all positions; each is printed with
  \<^verbatim>\<open>Decimal.String\<close>.
\<close>

theorem portfolio_view_totals:
  assumes "decimal_laws D val" and "assemble_portfolio_view D U i = Inr v"
  shows "\<exists>mv un re.
    pv_totals v = \<lparr>tv_market_value = d_string D mv, tv_realized_pnl = d_string D re,
      tv_unrealized_pnl = d_string D un\<rparr> \<and>
    val mv = market_value_of D val (in_price_by_symbol i) (in_positions i) \<and>
    val un = unrealized_of D val (in_price_by_symbol i) (in_positions i) \<and>
    val re = realized_of val (in_positions i)"
  using assms by (rule assemble_totals_values)

theorem portfolio_view_totals_witness:
  "\<exists>v mv. assemble_portfolio_view ref_dec ref_uuid ex_input = Inr v \<and>
     tv_market_value (pv_totals v) = d_string ref_dec mv \<and> rval mv = 2840"
proof -
  obtain v where v: "assemble_portfolio_view ref_dec ref_uuid ex_input = Inr v"
    using ex_input_assembles by blast
  have "market_value_of ref_dec rval (in_price_by_symbol ex_input) (in_positions ex_input) = 2840"
    by (simp add: market_value_of_def ex_input_def marked_open_def mark_value_def price_of_def
        ref_dec_def rval_def)
  then show ?thesis using v portfolio_view_totals [OF ref.decimal_laws_axioms v] by auto
qed

text \<open>
  (C23) Determinism: the assembled view does not depend on the order in which Go ranges over the
  map of price marks, nor on the order of the projection rows read from the database.
\<close>

theorem assemble_portfolio_view_order_independent:
  assumes "uuid_laws U"
    and "mset (in_positions i) = mset (in_positions j)"
    and "mset (in_price_by_symbol i) = mset (in_price_by_symbol j)"
    and "distinct (map fst (in_price_by_symbol i))"
    and "in_portfolio_id i = in_portfolio_id j" and "in_trade_apply i = in_trade_apply j"
  shows "assemble_portfolio_view D U i = assemble_portfolio_view D U j"
  using assms by (rule uuid_laws.assemble_perm)

theorem assemble_portfolio_view_order_independent_witness:
  "assemble_portfolio_view ref_dec ref_uuid ex_input =
   assemble_portfolio_view ref_dec ref_uuid (ex_input\<lparr>in_positions := rev (in_positions ex_input),
     in_price_by_symbol := rev (in_price_by_symbol ex_input)\<rparr>)"
  by (rule assemble_portfolio_view_order_independent [OF refu.uuid_laws_axioms])
    (simp_all add: ex_input_def)

text \<open>
  (C24) Rows of the view: exactly one row per position, in strictly ascending symbol order; the
  unpriced list holds, in that order, exactly the open positions without a non-zero mark.
\<close>

theorem portfolio_view_rows:
  assumes "assemble_portfolio_view D U i = Inr v"
  shows "sorted_wrt (<) (map pp_symbol (pv_positions v)) \<and>
    set (map pp_symbol (pv_positions v)) = pr_symbol ` set (in_positions i) \<and>
    sorted_wrt (<) (pv_unpriced_symbols v) \<and>
    set (pv_unpriced_symbols v) = pr_symbol ` set (filter (\<lambda>r. \<not> d_is_zero D (pr_quantity r) \<and>
      \<not> snd (price_of (in_price_by_symbol i) D (pr_symbol r))) (in_positions i))"
proof -
  let ?s = "sort_key pr_symbol (in_positions i)"
  have "distinct (map pr_symbol ?s)"
  proof -
    have "mset (map pr_symbol ?s) = mset (map pr_symbol (in_positions i))" by simp
    then show ?thesis using assemble_positions(3) [OF assms] by (metis mset_eq_imp_distinct_iff)
  qed
  then have s: "sorted_wrt (<) (map pr_symbol ?s)" by (simp add: strict_sorted_iff)
  then have "sorted_wrt (<) (map pr_symbol (filter P ?s))" for P
    by (simp add: sorted_wrt_map sorted_wrt_filter)
  with s show ?thesis
    unfolding assemble_positions(1,2) [OF assms] by (auto simp: comp_def)
qed

theorem portfolio_view_rows_witness:
  "\<exists>v. assemble_portfolio_view ref_dec ref_uuid ex_input = Inr v \<and>
     ''TSLA'' \<in> set (pv_unpriced_symbols v) \<and> ''AAPL'' \<notin> set (pv_unpriced_symbols v)"
proof -
  obtain v where v: "assemble_portfolio_view ref_dec ref_uuid ex_input = Inr v"
    using ex_input_assembles by blast
  have u: "set (pv_unpriced_symbols v) = pr_symbol ` set (filter (\<lambda>r. \<not> d_is_zero ref_dec (pr_quantity r) \<and>
      \<not> snd (price_of (in_price_by_symbol ex_input) ref_dec (pr_symbol r))) (in_positions ex_input))"
    using portfolio_view_rows [OF v] by blast
  have "''TSLA'' \<in> set (pv_unpriced_symbols v)" "''AAPL'' \<notin> set (pv_unpriced_symbols v)"
    unfolding u by (simp_all add: ex_input_def price_of_def ref_dec_def)
  then show ?thesis using v by blast
qed

text \<open>
  (C25) Honest lineage: when both the trade cursor and a price mark contributed, the view names no
  single event as its state; otherwise a view with a trade cursor names that cursor's event.
  The driving event ids are exactly the non-nil identifiers of the trade cursor and the marks.
\<close>

theorem portfolio_view_lineage:
  assumes "assemble_portfolio_view D U i = Inr v"
  shows "(pv_as_of_positions v \<noteq> None \<and> pv_as_of_prices v \<noteq> [] \<longrightarrow> pv_as_of_event_id v = None) \<and>
    (\<forall>r. pv_as_of_positions v = Some r \<and> pv_as_of_prices v = [] \<longrightarrow> pv_as_of_event_id v = Some (ra_event_id r)) \<and>
    set (pv_driving_event_ids v) = ({am_event_id m | m. in_trade_apply i = Some m} \<union>
      (\<lambda>p. pm_as_of_event_id (snd p)) ` set (in_price_by_symbol i)) - {uuid_nil}"
proof -
  have "set (pv_driving_event_ids v) = ({am_event_id m | m. in_trade_apply i = Some m} \<union>
      (\<lambda>p. pm_as_of_event_id (snd p)) ` set (in_price_by_symbol i)) - {uuid_nil}"
    unfolding assemble_lineage(3) [OF assms] collect_driving_event_ids_def Let_def
    by (cases "in_trade_apply i") auto
  then show ?thesis using assemble_lineage(4,5) [OF assms] by blast
qed

theorem portfolio_view_lineage_witness:
  "\<exists>v. assemble_portfolio_view ref_dec ref_uuid
      (ex_input\<lparr>in_trade_apply := Some \<lparr>am_event_id = 3, am_event_time = 4, am_processing_time = 0\<rparr>\<rparr>) = Inr v \<and>
    pv_as_of_event_id v = None \<and> set (pv_driving_event_ids v) = {3, 11, 12}"
proof -
  let ?i = "ex_input\<lparr>in_trade_apply := Some \<lparr>am_event_id = 3, am_event_time = 4, am_processing_time = 0\<rparr>\<rparr>"
  obtain v where v: "assemble_portfolio_view ref_dec ref_uuid ?i = Inr v"
    using assemble_total [of ?i ref_dec ref_uuid] by (auto simp: ex_input_def uuid_nil_def)
  have "pv_as_of_positions v \<noteq> None" "pv_as_of_prices v \<noteq> []"
    using assemble_lineage(1,2) [OF v]
    by (simp_all add: as_of_positions_ref_def as_of_prices_list_def ex_input_def uuid_nil_def)
  then show ?thesis using v portfolio_view_lineage [OF v]
    by (auto simp: ex_input_def uuid_nil_def)
qed

end
