(* ===== verification/Scenario.thy ===== *)
theory Scenario
  imports Portfolio_View
begin

text \<open>
  \<^verbatim>\<open>internal/scenario/core.go\<close>: what-if evaluation. Percentage shocks scale a copy of the price
  marks, and the shocked input is assembled by the same code as the live portfolio view.
  \<open>shocked\<close> is the Go result of \<^verbatim>\<open>ShockedPortfolioInput\<close> without an error: a list of symbols
  without a mark, or the input to assemble.
\<close>

record 'd shock =
  sh_symbol :: string
  sh_type :: string
  sh_value :: 'd

datatype 'a shocked = MissingMarks "string list" | Shocked 'a

definition shock_type_pct :: string where
  "shock_type_pct = ''PCT''"

definition clone_price_by_symbol ::
  "(string \<times> 'd price_mark_input) list \<Rightarrow> (string \<times> 'd price_mark_input) list" where
  "clone_price_by_symbol ps = fold (\<lambda>(k, v) out. AList.update k v out) ps []"

text \<open>
  The errors are the sentinels, which is what the endpoint asks for (\<^verbatim>\<open>errors.Is\<close>); the index and the symbol that
  are put around them reach nobody and are left out.
\<close>

fun validate_shock_list :: "'d shock list \<Rightarrow> string list \<Rightarrow> unit res" where
  "validate_shock_list [] seen = Inr ()"
| "validate_shock_list (sh # shs) seen =
     (if sh_symbol sh = [] then Inl (EOther ''scenario: shock symbol is required'')
      else if sh_type sh \<noteq> shock_type_pct then Inl (EOther ''scenario: shock type must be PCT'')
      else if sh_symbol sh \<in> set seen then Inl (EOther ''scenario: duplicate shock symbol'')
      else validate_shock_list shs (sh_symbol sh # seen))"

definition validate_shocks :: "'d shock list \<Rightarrow> unit res" where
  "validate_shocks shocks =
     (if shocks = [] then Inl (EOther ''scenario: shocks must include at least one item'')
      else validate_shock_list shocks [])"

definition shock_step ::
  "'d decimal_api \<Rightarrow> 'd shock \<Rightarrow> (string \<times> 'd price_mark_input) list \<times> string list \<Rightarrow>
     (string \<times> 'd price_mark_input) list \<times> string list" where
  "shock_step D sh st = (case st of (prices, missing) \<Rightarrow>
     (case map_of prices (sh_symbol sh) of
        None \<Rightarrow> (prices, missing @ [sh_symbol sh])
      | Some pm \<Rightarrow> if d_is_zero D (pm_price pm) then (prices, missing @ [sh_symbol sh])
          else (AList.update (sh_symbol sh)
              (pm\<lparr>pm_price := d_mul D (pm_price pm) (d_add D (d_of_int D 1) (sh_value sh))\<rparr>) prices,
            missing)))"

definition shocked_portfolio_input ::
  "'d decimal_api \<Rightarrow> 'd portfolio_assembler_input \<Rightarrow> 'd shock list \<Rightarrow> 'd portfolio_assembler_input shocked res" where
  "shocked_portfolio_input D base shocks =
     (case validate_shocks shocks of Inl e \<Rightarrow> Inl e
      | Inr _ \<Rightarrow>
        (if in_portfolio_id base = uuid_nil
         then Inl (EOther ''scenario: portfolio_id is required for shocked assembly'')
         else (case fold (shock_step D) shocks (clone_price_by_symbol (in_price_by_symbol base), []) of
             (prices, missing) \<Rightarrow>
               if missing \<noteq> [] then Inr (MissingMarks missing)
               else Inr (Shocked \<lparr>in_portfolio_id = in_portfolio_id base, in_positions = in_positions base,
                 in_price_by_symbol = prices, in_trade_apply = in_trade_apply base\<rparr>))))"

definition scenario_eval ::
  "'d decimal_api \<Rightarrow> uuid_api \<Rightarrow> 'd portfolio_assembler_input \<Rightarrow> 'd shock list \<Rightarrow> portfolio_view shocked res" where
  "scenario_eval D U base shocks =
     (case shocked_portfolio_input D base shocks of
        Inl e \<Rightarrow> Inl e
      | Inr (MissingMarks ms) \<Rightarrow> Inr (MissingMarks ms)
      | Inr (Shocked i) \<Rightarrow> (case assemble_portfolio_view D U i of
            Inl e \<Rightarrow> Inl e
          | Inr v \<Rightarrow> Inr (Shocked v)))"

section \<open>Validation and cloning\<close>

lemma clone_distinct:
  assumes "distinct (map fst ps)"
  shows "clone_price_by_symbol ps = ps"
proof -
  have "fold (\<lambda>(k, v) out. AList.update k v out) ps acc = acc @ ps"
    if "distinct (map fst (acc @ ps))" for acc
    using that
  proof (induction ps arbitrary: acc)
    case (Cons p ps)
    obtain k v where p: "p = (k, v)" by (cases p)
    have "k \<notin> fst ` set acc" using Cons.prems p by auto
    then have "AList.update k v acc = acc @ [(k, v)]" by (induction acc) auto
    then show ?case using Cons p by simp
  qed simp
  from this [of "[]"] assms show ?thesis by (simp add: clone_price_by_symbol_def)
qed

lemma validate_shock_list_ok:
  "validate_shock_list shs seen = Inr () \<longleftrightarrow>
     (\<forall>sh\<in>set shs. sh_symbol sh \<noteq> [] \<and> sh_type sh = shock_type_pct) \<and>
     distinct (map sh_symbol shs) \<and> set seen \<inter> sh_symbol ` set shs = {}"
  by (induction shs arbitrary: seen) auto

lemma validate_shocks_ok:
  "validate_shocks shs = Inr () \<longleftrightarrow> shs \<noteq> [] \<and>
     (\<forall>sh\<in>set shs. sh_symbol sh \<noteq> [] \<and> sh_type sh = shock_type_pct) \<and> distinct (map sh_symbol shs)"
  by (simp add: validate_shocks_def validate_shock_list_ok)

section \<open>What the shocks do to the marks\<close>

text \<open>The factor a list of shocks applies to the mark of a symbol.\<close>

definition shock_factor :: "('d \<Rightarrow> rat) \<Rightarrow> 'd shock list \<Rightarrow> string \<Rightarrow> rat" where
  "shock_factor val shs s = (case find (\<lambda>sh. sh_symbol sh = s) shs of
     None \<Rightarrow> 1 | Some sh \<Rightarrow> 1 + val (sh_value sh))"

definition unmarked :: "'d decimal_api \<Rightarrow> (string \<times> 'd price_mark_input) list \<Rightarrow> string \<Rightarrow> bool" where
  "unmarked D prices s \<longleftrightarrow> \<not> snd (price_of prices D s)"

lemma shock_step_unmarked:
  "shock_step D sh (prices, missing) = (if unmarked D prices (sh_symbol sh)
     then (prices, missing @ [sh_symbol sh])
     else (AList.update (sh_symbol sh) ((the (map_of prices (sh_symbol sh)))
       \<lparr>pm_price := d_mul D (fst (price_of prices D (sh_symbol sh))) (d_add D (d_of_int D 1) (sh_value sh))\<rparr>)
       prices, missing))"
  by (auto simp: shock_step_def unmarked_def price_of_def split: option.splits)

lemma unmarked_update: "s \<noteq> k \<Longrightarrow> unmarked D (AList.update k v prices) s = unmarked D prices s"
  by (simp add: unmarked_def price_of_def update_conv')

lemma shock_fold_other:
  "s \<notin> sh_symbol ` set shs \<Longrightarrow> map_of (fst (fold (shock_step D) shs (prices, missing))) s = map_of prices s"
proof (induction shs arbitrary: prices missing)
  case (Cons sh shs)
  then show ?case
    by (cases "unmarked D prices (sh_symbol sh)") (auto simp: shock_step_unmarked update_conv')
qed simp

lemma shock_fold_missing:
  "distinct (map sh_symbol shs) \<Longrightarrow>
   snd (fold (shock_step D) shs (prices, missing)) =
     missing @ filter (unmarked D prices) (map sh_symbol shs)"
proof (induction shs arbitrary: prices missing)
  case (Cons sh shs)
  have "unmarked D (AList.update (sh_symbol sh) pm prices) s = unmarked D prices s"
    if "s \<in> sh_symbol ` set shs" for s pm
    using that Cons.prems by (intro unmarked_update) (metis distinct.simps(2) list.simps(9) set_map)
  then have "filter (unmarked D (AList.update (sh_symbol sh) pm prices)) (map sh_symbol shs)
      = filter (unmarked D prices) (map sh_symbol shs)" for pm
    by (intro filter_cong) auto
  with Cons show ?case by (simp add: shock_step_unmarked)
qed simp

context decimal_laws begin

lemma shock_fold_price:
  assumes "distinct (map sh_symbol shs)" and "\<forall>s\<in>sh_symbol ` set shs. \<not> unmarked D prices s"
  shows "(map_of (fst (fold (shock_step D) shs (prices, missing))) s = None \<longleftrightarrow> map_of prices s = None) \<and>
    mark_value D val (fst (fold (shock_step D) shs (prices, missing))) s =
      mark_value D val prices s * shock_factor val shs s"
  using assms
proof (induction shs arbitrary: prices missing)
  case Nil
  then show ?case by (simp add: shock_factor_def)
next
  case (Cons sh shs)
  let ?pm = "(the (map_of prices (sh_symbol sh)))\<lparr>pm_price :=
    d_mul D (fst (price_of prices D (sh_symbol sh))) (d_add D (d_of_int D 1) (sh_value sh))\<rparr>"
  let ?ps = "AList.update (sh_symbol sh) ?pm prices"
  have step: "fold (shock_step D) (sh # shs) (prices, missing) = fold (shock_step D) shs (?ps, missing)"
    using Cons.prems by (simp add: shock_step_unmarked)
  have um: "\<forall>s\<in>sh_symbol ` set shs. \<not> unmarked D ?ps s"
  proof
    fix s
    assume s: "s \<in> sh_symbol ` set shs"
    then have "s \<noteq> sh_symbol sh" using Cons.prems(1) by (metis distinct.simps(2) list.simps(9) set_map)
    then have "unmarked D ?ps s = unmarked D prices s" by (rule unmarked_update)
    with s Cons.prems(2) show "\<not> unmarked D ?ps s" by auto
  qed
  have "map_of prices (sh_symbol sh) \<noteq> None"
    using Cons.prems by (auto simp: unmarked_def price_of_def split: option.splits)
  then have keys: "map_of ?ps s = None \<longleftrightarrow> map_of prices s = None"
    by (auto simp: update_conv')
  show ?case
  proof (cases "s = sh_symbol sh")
    case True
    then have "s \<notin> sh_symbol ` set shs" using Cons.prems by auto
    then have "map_of (fst (fold (shock_step D) shs (?ps, missing))) s = map_of ?ps s"
      by (rule shock_fold_other)
    with True step keys show ?thesis
      by (simp add: mark_value_def price_of_def update_conv' vals shock_factor_def)
  next
    case False
    have "mark_value D val ?ps s = mark_value D val prices s"
      using False by (simp add: mark_value_def price_of_def update_conv')
    moreover have "shock_factor val (sh # shs) s = shock_factor val shs s"
      using False by (simp add: shock_factor_def)
    moreover note Cons.IH [of ?ps missing] um Cons.prems(1) keys
    ultimately show ?thesis unfolding step by simp
  qed
qed

lemma shocked_input:
  assumes "shocked_portfolio_input D base shs = Inr (Shocked i)"
    and "distinct (map fst (in_price_by_symbol base))"
  shows "in_positions i = in_positions base" "in_trade_apply i = in_trade_apply base"
    "in_portfolio_id i = in_portfolio_id base"
    "map_of (in_price_by_symbol i) s = None \<longleftrightarrow> map_of (in_price_by_symbol base) s = None"
    "mark_value D val (in_price_by_symbol i) s =
      mark_value D val (in_price_by_symbol base) s * shock_factor val shs s"
proof -
  obtain ps where v: "validate_shocks shs = Inr ()"
    and f: "fold (shock_step D) shs (in_price_by_symbol base, []) = (ps, [])"
    and i: "i = \<lparr>in_portfolio_id = in_portfolio_id base, in_positions = in_positions base,
       in_price_by_symbol = ps, in_trade_apply = in_trade_apply base\<rparr>"
    using assms by (auto simp: shocked_portfolio_input_def clone_distinct
        split: sum.splits if_splits prod.splits)
  have d: "distinct (map sh_symbol shs)" using v by (simp add: validate_shocks_ok)
  have "\<forall>s\<in>sh_symbol ` set shs. \<not> unmarked D (in_price_by_symbol base) s"
    using shock_fold_missing [OF d, of D "in_price_by_symbol base" "[]"] f
    by (metis append_Nil filter_empty_conv image_set snd_conv)
  from shock_fold_price [OF d this, of "[]" s] f i
  show "in_positions i = in_positions base" "in_trade_apply i = in_trade_apply base"
    "in_portfolio_id i = in_portfolio_id base"
    "map_of (in_price_by_symbol i) s = None \<longleftrightarrow> map_of (in_price_by_symbol base) s = None"
    "mark_value D val (in_price_by_symbol i) s =
      mark_value D val (in_price_by_symbol base) s * shock_factor val shs s"
    by simp_all
qed

lemma price_of_marked:
  "snd (price_of prices D s) \<longleftrightarrow> map_of prices s \<noteq> None \<and> mark_value D val prices s \<noteq> 0"
  by (auto simp: price_of_def mark_value_def vals split: option.splits)

lemma shocked_market_value:
  assumes "shocked_portfolio_input D base shs = Inr (Shocked i)"
    and "distinct (map fst (in_price_by_symbol base))"
  shows "market_value_of D val (in_price_by_symbol i) rows =
    sum_list (map (\<lambda>r. mark_value D val (in_price_by_symbol base) (pr_symbol r) *
      shock_factor val shs (pr_symbol r) * val (pr_quantity r))
      (filter (marked_open D (in_price_by_symbol base)) rows))"
proof (induction rows)
  case (Cons r rows)
  note sh = shocked_input [OF assms]
  show ?case
  proof (cases "shock_factor val shs (pr_symbol r) = 0")
    case True
    then have "\<not> marked_open D (in_price_by_symbol i) r"
      by (simp add: marked_open_def price_of_marked sh)
    with Cons True show ?thesis by (simp add: market_value_of_def)
  next
    case False
    then have "marked_open D (in_price_by_symbol i) r = marked_open D (in_price_by_symbol base) r"
      by (simp add: marked_open_def price_of_marked sh)
    with Cons show ?thesis by (simp add: market_value_of_def sh)
  qed
qed (simp add: market_value_of_def)

lemma mark_value_marked_open:
  "marked_open D prices r \<longleftrightarrow> map_of prices (pr_symbol r) \<noteq> None \<and>
     mark_value D val prices (pr_symbol r) \<noteq> 0 \<and> val (pr_quantity r) \<noteq> 0"
  by (auto simp: marked_open_def price_of_marked vals)

end

section \<open>Marks with the same values\<close>

text \<open>Two mark maps that differ only in the representation of their prices give the same view.\<close>

definition same_mark :: "('d \<Rightarrow> rat) \<Rightarrow> string \<times> 'd price_mark_input \<Rightarrow> string \<times> 'd price_mark_input \<Rightarrow> bool" where
  "same_mark val p q \<longleftrightarrow> fst p = fst q \<and> val (pm_price (snd p)) = val (pm_price (snd q)) \<and>
     pm_as_of_event_id (snd p) = pm_as_of_event_id (snd q) \<and>
     pm_as_of_event_time (snd p) = pm_as_of_event_time (snd q) \<and>
     pm_processing_time (snd p) = pm_processing_time (snd q)"

lemma same_mark_refl [simp]: "same_mark val p p"
  by (simp add: same_mark_def)

lemma insort_same:
  "list_all2 R xs ys \<Longrightarrow> R x y \<Longrightarrow> (\<And>a b. R a b \<Longrightarrow> f a = f b) \<Longrightarrow>
     list_all2 R (insort_key f x xs) (insort_key f y ys)"
  by (induction xs ys rule: list_all2_induct) auto

lemma sort_same:
  assumes "list_all2 R xs ys" and "\<And>a b. R a b \<Longrightarrow> f a = f b"
  shows "list_all2 R (sort_key f xs) (sort_key f ys)"
  using assms(1)
proof (induction xs ys rule: list_all2_induct)
  case (Cons x xs y ys)
  then show ?case using insort_same [OF Cons(3,1), of f] assms(2) by simp
qed simp

context decimal_laws begin

lemma same_price_of:
  assumes "list_all2 (same_mark val) ps qs"
  shows "val (fst (price_of ps D s)) = val (fst (price_of qs D s)) \<and>
    snd (price_of ps D s) = snd (price_of qs D s)"
  using assms
proof (induction ps qs rule: list_all2_induct)
  case (Cons p ps q qs)
  then show ?case
    by (cases p; cases q) (auto simp: price_of_def same_mark_def vals)
qed (simp add: price_of_def)

lemma same_mark_driving:
  assumes "list_all2 (same_mark val) ps qs"
  shows "map (\<lambda>p. pm_as_of_event_id (snd p)) ps = map (\<lambda>p. pm_as_of_event_id (snd p)) qs"
    and "fold (merge_step U) (map snd ps) b = fold (merge_step U) (map snd qs) b"
    and "fold latest_step (map snd ps) l = fold latest_step (map snd qs) l"
proof -
  show "map (\<lambda>p. pm_as_of_event_id (snd p)) ps = map (\<lambda>p. pm_as_of_event_id (snd p)) qs"
    using assms by (induction ps qs rule: list_all2_induct) (auto simp: same_mark_def)
  show "fold (merge_step U) (map snd ps) b = fold (merge_step U) (map snd qs) b"
    using assms
  proof (induction ps qs arbitrary: b rule: list_all2_induct)
    case (Cons p ps q qs)
    then have "merge_step U (snd p) b = merge_step U (snd q) b"
      by (simp add: merge_step_def same_mark_def)
    with Cons show ?case by simp
  qed simp
  show "fold latest_step (map snd ps) l = fold latest_step (map snd qs) l"
    using assms
  proof (induction ps qs arbitrary: l rule: list_all2_induct)
    case (Cons p ps q qs)
    then have "pm_processing_time (snd p) = pm_processing_time (snd q)" by (simp add: same_mark_def)
    then have "latest_step (snd p) l = latest_step (snd q) l" unfolding latest_step_def by (simp only:)
    with Cons show ?case by simp
  qed simp
qed

lemma same_mark_as_of:
  assumes "list_all2 (same_mark val) ps qs"
  shows "as_of_prices_list ps = as_of_prices_list qs"
proof -
  have "list_all2 (same_mark val) (sort_key fst ps) (sort_key fst qs)"
    using assms by (intro sort_same) (auto simp: same_mark_def)
  moreover have "map f (filter (\<lambda>(s, pm). pm_as_of_event_id pm \<noteq> uuid_nil) xs)
      = map f (filter (\<lambda>(s, pm). pm_as_of_event_id pm \<noteq> uuid_nil) ys)"
    if "list_all2 (same_mark val) xs ys" "\<And>p q. same_mark val p q \<Longrightarrow> f p = f q"
    for xs ys and f :: "string \<times> 'd price_mark_input \<Rightarrow> price_mark_as_of"
    using that(1)
    by (induction xs ys rule: list_all2_induct) (auto simp: same_mark_def split_beta intro: that(2))
  ultimately show ?thesis unfolding as_of_prices_list_def
    by (auto simp: same_mark_def split_beta)
qed

lemma same_mark_position_view:
  assumes "list_all2 (same_mark val) ps qs"
  shows "position_view D ps = position_view D qs"
proof
  fix r :: "'d projection_row"
  note p = same_price_of [OF assms, of "pr_symbol r"]
  show "position_view D ps r = position_view D qs r"
    using p by (auto simp: position_view_def mark_to_market_def Let_def split_beta vals
        intro!: string_eq)
qed

lemma same_mark_totals:
  assumes "list_all2 (same_mark val) ps qs"
  shows "val (total_market_value (sum_totals D (map (mtm_row D ps) rows)))
      = val (total_market_value (sum_totals D (map (mtm_row D qs) rows)))"
    and "val (total_unrealized_pnl (sum_totals D (map (mtm_row D ps) rows)))
      = val (total_unrealized_pnl (sum_totals D (map (mtm_row D qs) rows)))"
    and "val (total_realized_pnl (sum_totals D (map (mtm_row D ps) rows)))
      = val (total_realized_pnl (sum_totals D (map (mtm_row D qs) rows)))"
proof -
  have m: "marked_open D ps = marked_open D qs" "mark_value D val ps = mark_value D val qs"
    using same_price_of [OF assms] by (auto simp: marked_open_def mark_value_def fun_eq_iff)
  show "val (total_market_value (sum_totals D (map (mtm_row D ps) rows)))
      = val (total_market_value (sum_totals D (map (mtm_row D qs) rows)))"
    "val (total_unrealized_pnl (sum_totals D (map (mtm_row D ps) rows)))
      = val (total_unrealized_pnl (sum_totals D (map (mtm_row D qs) rows)))"
    "val (total_realized_pnl (sum_totals D (map (mtm_row D ps) rows)))
      = val (total_realized_pnl (sum_totals D (map (mtm_row D qs) rows)))"
    by (simp_all add: sum_totals_vals market_value_of_def unrealized_of_def m)
qed

lemma same_mark_assemble:
  assumes "list_all2 (same_mark val) (in_price_by_symbol i) (in_price_by_symbol j)"
    and "in_positions i = in_positions j" "in_portfolio_id i = in_portfolio_id j"
    and "in_trade_apply i = in_trade_apply j"
  shows "assemble_portfolio_view D U i = assemble_portfolio_view D U j"
proof -
  have "snd (price_of (in_price_by_symbol i) D s) = snd (price_of (in_price_by_symbol j) D s)" for s
    using same_price_of [OF assms(1)] by blast
  moreover have "collect_driving_event_ids U t (in_price_by_symbol i)
      = collect_driving_event_ids U t (in_price_by_symbol j)" for t
    by (simp add: collect_driving_event_ids_def same_mark_driving(1) [OF assms(1)])
  moreover have "merge_as_of_cursor U None (in_price_by_symbol i)
      = merge_as_of_cursor U None (in_price_by_symbol j)"
    by (simp add: merge_as_of_cursor_def same_mark_driving(2) [OF assms(1)])
  moreover have "merge_latest_processing_time None (in_price_by_symbol i)
      = merge_latest_processing_time None (in_price_by_symbol j)"
    by (simp add: merge_latest_processing_time_def same_mark_driving(3) [OF assms(1)])
  ultimately show ?thesis
    unfolding assemble_portfolio_view_def Let_def assms(2-4)
    by (simp only: same_mark_as_of [OF assms(1)] same_mark_position_view [OF assms(1)]
        string_eq [OF same_mark_totals(1) [OF assms(1)]] string_eq [OF same_mark_totals(2) [OF assms(1)]]
        string_eq [OF same_mark_totals(3) [OF assms(1)]])
qed

lemma shock_fold_zero:
  assumes "\<forall>sh\<in>set shs. val (sh_value sh) = 0" and "distinct (map fst prices)"
  shows "list_all2 (same_mark val) (fst (fold (shock_step D) shs (prices, missing))) prices"
  using assms
proof (induction shs arbitrary: prices missing)
  case Nil
  then show ?case by (simp add: list_all2_refl)
next
  case (Cons sh shs)
  obtain ps ms where st: "shock_step D sh (prices, missing) = (ps, ms)" by fastforce
  have "list_all2 (same_mark val) (AList.update k (pm\<lparr>pm_price := p\<rparr>) xs) xs"
    if "distinct (map fst xs)" "map_of xs k = Some pm" "val p = val (pm_price pm)"
    for k pm p and xs :: "(string \<times> 'd price_mark_input) list"
    using that
    by (induction xs) (auto simp: same_mark_def list_all2_refl split: if_splits)
  then have "list_all2 (same_mark val) ps prices"
    using st Cons.prems
    by (auto simp: shock_step_def vals list_all2_refl split: option.splits if_splits)
  moreover have "distinct (map fst ps)"
    using st Cons.prems(2) by (auto simp: shock_step_def distinct_update split: option.splits if_splits)
  then have "list_all2 (same_mark val) (fst (fold (shock_step D) shs (ps, ms))) ps"
    using Cons by simp
  moreover have "same_mark val a b \<Longrightarrow> same_mark val b c \<Longrightarrow> same_mark val a c" for a b c
    by (simp add: same_mark_def)
  ultimately have "list_all2 (same_mark val) (fst (fold (shock_step D) shs (ps, ms))) prices"
    using list_all2_trans [of "same_mark val" "same_mark val" "same_mark val"] by blast
  with st show ?case by simp
qed

lemma eval_zero_shock:
  assumes "\<forall>sh\<in>set shs. val (sh_value sh) = 0" and "distinct (map fst (in_price_by_symbol base))"
    and "scenario_eval D U base shs = Inr (Shocked v)"
  shows "assemble_portfolio_view D U base = Inr v"
proof -
  obtain ps where f: "fold (shock_step D) shs (in_price_by_symbol base, []) = (ps, [])"
    and a: "assemble_portfolio_view D U \<lparr>in_portfolio_id = in_portfolio_id base,
      in_positions = in_positions base, in_price_by_symbol = ps, in_trade_apply = in_trade_apply base\<rparr> = Inr v"
    using assms(3) by (auto simp: scenario_eval_def shocked_portfolio_input_def clone_distinct [OF assms(2)]
      split: sum.splits shocked.splits if_splits prod.splits)
  have "list_all2 (same_mark val) ps (in_price_by_symbol base)"
    using shock_fold_zero [OF assms(1,2), of "[]"] f by simp
  then show ?thesis using a by (subst same_mark_assemble [symmetric]) simp_all
qed

end

lemma scenario_eval_shocked:
  assumes "scenario_eval D U base shs = Inr (Shocked v)"
  obtains i where "shocked_portfolio_input D base shs = Inr (Shocked i)"
    "assemble_portfolio_view D U i = Inr v"
  using assms by (auto simp: scenario_eval_def split: sum.splits shocked.splits)

context decimal_laws begin

lemma eval_total_loss:
  assumes "distinct (map fst (in_price_by_symbol base))"
    and "scenario_eval D U base shs = Inr (Shocked v)"
    and "r \<in> set (in_positions base)" and "marked_open D (in_price_by_symbol base) r"
    and "shock_factor val shs (pr_symbol r) = 0"
  shows "pr_symbol r \<in> set (pv_unpriced_symbols v) \<and>
    (\<exists>un i. shocked_portfolio_input D base shs = Inr (Shocked i) \<and>
       tv_unrealized_pnl (pv_totals v) = d_string D un \<and>
       val un = unrealized_of D val (in_price_by_symbol i) (filter (\<lambda>q. pr_symbol q \<noteq> pr_symbol r) (in_positions base)))"
proof -
  obtain i where i: "shocked_portfolio_input D base shs = Inr (Shocked i)"
    "assemble_portfolio_view D U i = Inr v" by (rule scenario_eval_shocked [OF assms(2)])
  note sh = shocked_input [OF i(1) assms(1)]
  have m: "\<not> snd (price_of (in_price_by_symbol i) D (pr_symbol r))"
    by (simp add: price_of_marked sh(5) assms(5))
  then have "pr_symbol r \<in> set (pv_unpriced_symbols v)"
    using assms(3,4) unfolding assemble_positions(2) [OF i(2)]
    by (auto simp: sh(1) marked_open_def)
  moreover have "filter (marked_open D (in_price_by_symbol i)) (filter (\<lambda>q. pr_symbol q \<noteq> pr_symbol r) rows)
      = filter (marked_open D (in_price_by_symbol i)) rows" for rows
    using m by (auto simp: marked_open_def intro!: filter_cong)
  then have "unrealized_of D val (in_price_by_symbol i) (in_positions i) = unrealized_of D val
      (in_price_by_symbol i) (filter (\<lambda>q. pr_symbol q \<noteq> pr_symbol r) (in_positions base))"
    by (simp add: unrealized_of_def sh(1))
  ultimately show ?thesis
    using assemble_totals_values [OF decimal_laws_axioms i(2)] i(1) by auto
qed

end

section \<open>Properties\<close>

definition ex_shocks :: "rdec \<Rightarrow> rdec shock list" where
  "ex_shocks v = [\<lparr>sh_symbol = ''AAPL'', sh_type = shock_type_pct, sh_value = v\<rparr>]"

lemma ex_scenario_evaluates: "\<exists>v. scenario_eval ref_dec U ex_input (ex_shocks x) = Inr (Shocked v)"
proof -
  have "validate_shocks (ex_shocks x) = Inr ()" by (simp add: validate_shocks_ok ex_shocks_def)
  moreover have "clone_price_by_symbol (in_price_by_symbol ex_input) = in_price_by_symbol ex_input"
    by (rule clone_distinct) (simp add: ex_input_def)
  ultimately obtain i where i: "shocked_portfolio_input ref_dec ex_input (ex_shocks x) = Inr (Shocked i)"
    "in_portfolio_id i = 7" "in_positions i = in_positions ex_input"
    by (simp add: shocked_portfolio_input_def ex_shocks_def shock_step_def ex_input_def uuid_nil_def
        ref_dec_def)
  have "\<exists>v. assemble_portfolio_view ref_dec U i = Inr v"
    by (rule assemble_total) (simp_all add: i ex_input_def uuid_nil_def)
  then show ?thesis using i(1) by (auto simp: scenario_eval_def)
qed

text \<open>
  (C26) A scenario is the portfolio view at the shocked marks: its market value is the sum, over the
  open positions marked in the base input, of mark times (1 + shock) times quantity; quantities,
  average costs and the realized total are those of the base input.
\<close>

theorem scenario_market_value:
  assumes "decimal_laws D val" and "distinct (map fst (in_price_by_symbol base))"
    and "scenario_eval D U base shs = Inr (Shocked v)"
  shows "\<exists>mv re. tv_market_value (pv_totals v) = d_string D mv \<and> tv_realized_pnl (pv_totals v) = d_string D re \<and>
    val mv = sum_list (map (\<lambda>r. mark_value D val (in_price_by_symbol base) (pr_symbol r) *
        shock_factor val shs (pr_symbol r) * val (pr_quantity r))
      (filter (marked_open D (in_price_by_symbol base)) (in_positions base))) \<and>
    val re = realized_of val (in_positions base)"
proof -
  obtain i where i: "shocked_portfolio_input D base shs = Inr (Shocked i)"
    "assemble_portfolio_view D U i = Inr v" by (rule scenario_eval_shocked [OF assms(3)])
  from assemble_totals_values [OF assms(1) i(2)]
  show ?thesis
    by (metis decimal_laws.shocked_input(1) [OF assms(1) i(1) assms(2)]
        decimal_laws.shocked_market_value [OF assms(1) i(1) assms(2)] portfolio_totals_view.select_convs(1,2))
qed

theorem scenario_market_value_witness:
  "\<exists>v mv. scenario_eval ref_dec ref_uuid ex_input (ex_shocks (RDec (-25) 2)) = Inr (Shocked v) \<and>
     tv_market_value (pv_totals v) = d_string ref_dec mv \<and> rval mv = 2440"
proof -
  obtain v where v: "scenario_eval ref_dec ref_uuid ex_input (ex_shocks (RDec (-25) 2)) = Inr (Shocked v)"
    using ex_scenario_evaluates by blast
  have d: "distinct (map fst (in_price_by_symbol ex_input))" by (simp add: ex_input_def)
  have "sum_list (map (\<lambda>r. mark_value ref_dec rval (in_price_by_symbol ex_input) (pr_symbol r) *
        shock_factor rval (ex_shocks (RDec (-25) 2)) (pr_symbol r) * rval (pr_quantity r))
      (filter (marked_open ref_dec (in_price_by_symbol ex_input)) (in_positions ex_input))) = 2440"
    by (simp add: ex_input_def marked_open_def mark_value_def price_of_def ref_dec_def rval_def
        shock_factor_def ex_shocks_def)
  then show ?thesis using v scenario_market_value [OF ref.decimal_laws_axioms d v] by auto
qed

text \<open>
  (C27) Missing marks: validated shocks on a real portfolio never fail; they report exactly the
  shocked symbols without a non-zero mark, in request order, and produce an input only when there
  is none.
\<close>

theorem scenario_missing_marks:
  assumes "validate_shocks shs = Inr ()" and "in_portfolio_id base \<noteq> uuid_nil"
    and "distinct (map fst (in_price_by_symbol base))"
  shows "case shocked_portfolio_input D base shs of
      Inl _ \<Rightarrow> False
    | Inr (MissingMarks ms) \<Rightarrow> ms \<noteq> [] \<and>
        ms = filter (unmarked D (in_price_by_symbol base)) (map sh_symbol shs)
    | Inr (Shocked i) \<Rightarrow> filter (unmarked D (in_price_by_symbol base)) (map sh_symbol shs) = []"
proof -
  have d: "distinct (map sh_symbol shs)" using assms(1) by (simp add: validate_shocks_ok)
  obtain ps ms where f: "fold (shock_step D) shs (in_price_by_symbol base, []) = (ps, ms)" by fastforce
  have "ms = filter (unmarked D (in_price_by_symbol base)) (map sh_symbol shs)"
    using shock_fold_missing [OF d, of D "in_price_by_symbol base" "[]"] f by simp
  then show ?thesis
    using assms f by (auto simp: shocked_portfolio_input_def clone_distinct)
qed

theorem scenario_missing_marks_witness:
  "shocked_portfolio_input ref_dec ex_input
     [\<lparr>sh_symbol = ''TSLA'', sh_type = shock_type_pct, sh_value = RDec 1 1\<rparr>] = Inr (MissingMarks [''TSLA''])"
  using scenario_missing_marks [of "[\<lparr>sh_symbol = ''TSLA'', sh_type = shock_type_pct, sh_value = RDec 1 1\<rparr>]"
      ex_input ref_dec]
  by (simp add: validate_shocks_ok ex_input_def uuid_nil_def unmarked_def price_of_def
      split: sum.splits shocked.splits)

text \<open>
  (C28) Shocks of zero change nothing: the scenario view equals the portfolio view, field by field
  and string by string.
\<close>

theorem scenario_zero_shock_is_base_view:
  assumes "decimal_laws D val" and "\<forall>sh\<in>set shs. val (sh_value sh) = 0"
    and "distinct (map fst (in_price_by_symbol base))"
    and "scenario_eval D U base shs = Inr (Shocked v)"
  shows "assemble_portfolio_view D U base = Inr v"
  by (rule decimal_laws.eval_zero_shock [OF assms])

theorem scenario_zero_shock_is_base_view_witness:
  "\<exists>v. scenario_eval ref_dec ref_uuid ex_input (ex_shocks (RDec 0 3)) = Inr (Shocked v) \<and>
     assemble_portfolio_view ref_dec ref_uuid ex_input = Inr v"
proof -
  obtain v where v: "scenario_eval ref_dec ref_uuid ex_input (ex_shocks (RDec 0 3)) = Inr (Shocked v)"
    using ex_scenario_evaluates by blast
  have "assemble_portfolio_view ref_dec ref_uuid ex_input = Inr v"
    by (rule scenario_zero_shock_is_base_view [OF ref.decimal_laws_axioms _ _ v])
      (simp_all add: ex_shocks_def rval_def ex_input_def)
  with v show ?thesis by blast
qed

text \<open>
  (C29) A total loss is not valued: a shock of -100 percent on an open, marked position makes the
  scenario list the symbol as unpriced, although the base view prices it, so the loss is missing
  from the scenario's unrealized total (the sum runs over the other marked positions only).
\<close>

theorem scenario_total_loss_is_unpriced:
  assumes "decimal_laws D val" and "distinct (map fst (in_price_by_symbol base))"
    and "scenario_eval D U base shs = Inr (Shocked v)"
    and "r \<in> set (in_positions base)" and "marked_open D (in_price_by_symbol base) r"
    and "shock_factor val shs (pr_symbol r) = 0"
  shows "pr_symbol r \<in> set (pv_unpriced_symbols v) \<and>
    (\<exists>un i. shocked_portfolio_input D base shs = Inr (Shocked i) \<and>
       tv_unrealized_pnl (pv_totals v) = d_string D un \<and>
       val un = unrealized_of D val (in_price_by_symbol i) (filter (\<lambda>q. pr_symbol q \<noteq> pr_symbol r) (in_positions base)))"
  using assms by (intro decimal_laws.eval_total_loss)

theorem scenario_total_loss_is_unpriced_witness:
  "\<exists>v. scenario_eval ref_dec ref_uuid ex_input (ex_shocks (RDec (-1) 0)) = Inr (Shocked v) \<and>
     ''AAPL'' \<in> set (pv_unpriced_symbols v)"
proof -
  obtain v where v: "scenario_eval ref_dec ref_uuid ex_input (ex_shocks (RDec (-1) 0)) = Inr (Shocked v)"
    using ex_scenario_evaluates by blast
  let ?r = "\<lparr>pr_symbol = ''AAPL'', pr_quantity = RDec 10 0, pr_average_cost = RDec 150 0, pr_realized_pnl = RDec 7 0\<rparr>"
  have "''AAPL'' \<in> set (pv_unpriced_symbols v)"
    using scenario_total_loss_is_unpriced [OF ref.decimal_laws_axioms _ v, of ?r]
    by (simp add: ex_input_def marked_open_def price_of_def ref_dec_def shock_factor_def ex_shocks_def rval_def)
  with v show ?thesis by blast
qed

end
