(* ===== verification/Float64.thy ===== *)
theory Float64
  imports Decimal_Ref
begin

text \<open>
  Go's \<^verbatim>\<open>float64\<close> as far as the risk engine uses it: IEEE 754 binary64 numbers as rationals with
  the infinities and NaN; a sum, a product and a square root are the exact value rounded to the
  nearest number with 53 significant bits, ties to even, with gradual underflow below
  \<open>2 ^ -1022\<close> and overflow to an infinity. The sign of zero is not modelled (nothing here reads
  it). The conversions of the decimal package, \<^verbatim>\<open>Float64\<close> and \<^verbatim>\<open>NewFromFloat\<close>, are a parameter,
  \<open>float_api\<close>, with the laws \<open>decimal_float\<close>.
\<close>

datatype float64 = Fin rat | Inf bool | NaN

text \<open>\<open>Inf True\<close> is minus infinity.\<close>

section \<open>Rounding\<close>

fun ilog2 :: "nat \<Rightarrow> nat" where
  "ilog2 n = (if n < 2 then 0 else Suc (ilog2 (n div 2)))"

declare ilog2.simps [simp del]

definition pow2 :: "int \<Rightarrow> rat" where
  "pow2 k = (if 0 \<le> k then 2 ^ nat k else 1 / 2 ^ nat (- k))"

definition round_half_even :: "rat \<Rightarrow> int" where
  "round_half_even x = (let f = \<lfloor>x\<rfloor>; r = x - of_int f in
     if r < 1 / 2 then f else if 1 / 2 < r then f + 1 else if even f then f else f + 1)"

text \<open>The exponent \<open>e\<close> with \<open>2 ^ e \<le> x < 2 ^ (e + 1)\<close>, for positive \<open>x\<close>.\<close>

definition rat_exponent :: "rat \<Rightarrow> int" where
  "rat_exponent x = (case quotient_of x of (p, q) \<Rightarrow>
     (let k = int (ilog2 (nat p)) - int (ilog2 (nat q)) in if pow2 k \<le> x then k else k - 1))"

definition round_magnitude :: "rat \<Rightarrow> rat" where
  "round_magnitude x = (if x = 0 then 0 else
     (let u = max (rat_exponent x - 52) (-1074) in of_int (round_half_even (x / pow2 u)) * pow2 u))"

definition round64 :: "rat \<Rightarrow> float64" where
  "round64 x = (let m = round_magnitude \<bar>x\<bar> in
     if 2 ^ 1024 \<le> m then Inf (x < 0) else Fin (if x < 0 then - m else m))"

section \<open>Arithmetic\<close>

fun fl_add :: "float64 \<Rightarrow> float64 \<Rightarrow> float64" where
  "fl_add (Fin x) (Fin y) = round64 (x + y)"
| "fl_add NaN _ = NaN"
| "fl_add _ NaN = NaN"
| "fl_add (Inf s) (Inf t) = (if s = t then Inf s else NaN)"
| "fl_add (Inf s) (Fin _) = Inf s"
| "fl_add (Fin _) (Inf t) = Inf t"

fun fl_mul :: "float64 \<Rightarrow> float64 \<Rightarrow> float64" where
  "fl_mul (Fin x) (Fin y) = round64 (x * y)"
| "fl_mul NaN _ = NaN"
| "fl_mul _ NaN = NaN"
| "fl_mul (Inf s) (Inf t) = Inf (s \<noteq> t)"
| "fl_mul (Inf s) (Fin y) = (if y = 0 then NaN else Inf (s \<noteq> (y < 0)))"
| "fl_mul (Fin x) (Inf t) = (if x = 0 then NaN else Inf (t \<noteq> (x < 0)))"

fun fl_less :: "float64 \<Rightarrow> float64 \<Rightarrow> bool" where
  "fl_less (Fin x) (Fin y) = (x < y)"
| "fl_less NaN _ = False"
| "fl_less _ NaN = False"
| "fl_less (Inf s) (Inf t) = (s \<and> \<not> t)"
| "fl_less (Inf s) (Fin _) = s"
| "fl_less (Fin _) (Inf t) = (\<not> t)"

definition fl_le :: "float64 \<Rightarrow> float64 \<Rightarrow> bool" where
  "fl_le x y \<longleftrightarrow> fl_less x y \<or> (x = y \<and> x \<noteq> NaN)"

fun fl_abs :: "float64 \<Rightarrow> float64" where
  "fl_abs (Fin x) = Fin \<bar>x\<bar>"
| "fl_abs (Inf s) = Inf False"
| "fl_abs NaN = NaN"

text \<open>The integer square root, digit by digit in base 4.\<close>

fun isqrt :: "nat \<Rightarrow> nat" where
  "isqrt n = (if n = 0 then 0 else
     (let r = 2 * isqrt (n div 4) in if (r + 1) * (r + 1) \<le> n then r + 1 else r))"

declare isqrt.simps [simp del]

text \<open>
  \<^verbatim>\<open>math.Sqrt\<close> is correctly rounded. With \<open>u\<close> the unit in the last place of the root, the root
  of \<open>x / 4 ^ u\<close> is cut to an integer and rounded up when it exceeds the midpoint (a root is
  never equal to a midpoint of two binary64 numbers).
\<close>

fun fl_sqrt :: "float64 \<Rightarrow> float64" where
  "fl_sqrt NaN = NaN"
| "fl_sqrt (Inf s) = (if s then NaN else Inf False)"
| "fl_sqrt (Fin x) = (if x < 0 then NaN else if x = 0 then Fin 0 else
     (let u = rat_exponent x div 2 - 52;
          y = x / (pow2 u * pow2 u);
          m = isqrt (nat \<lfloor>y\<rfloor>)
      in if (of_nat m + 1 / 2) * (of_nat m + 1 / 2) < y then Fin ((of_nat m + 1) * pow2 u)
         else Fin (of_nat m * pow2 u)))"

section \<open>Conversions\<close>

record 'd float_api =
  float_of_dec :: "'d \<Rightarrow> float64"
  dec_of_float :: "float64 \<Rightarrow> 'd option"

locale decimal_float = decimal_laws D val
  for D :: "'d decimal_api" and val :: "'d \<Rightarrow> rat" +
  fixes F :: "'d float_api"
  assumes float_of_dec_nearest: "float_of_dec F d = round64 (val d)"
    and dec_of_float_nan: "dec_of_float F NaN = None"
    and dec_of_float_inf: "dec_of_float F (Inf s) = None"
    and dec_of_float_fin: "\<exists>d. dec_of_float F (Fin x) = Some d \<and>
      (round64 x = Fin x \<longrightarrow> round64 (val d) = Fin x) \<and> (0 \<le> x \<longrightarrow> 0 \<le> val d) \<and> (x = 0 \<longrightarrow> val d = 0)"

section \<open>Facts about rounding\<close>

lemma pow2_pos [simp]: "0 < pow2 k"
  by (simp add: pow2_def)

lemma pow2_add: "pow2 (a + b) = pow2 a * pow2 b"
proof -
  have "pow2 k = 2 powi k" for k :: int
    by (simp add: pow2_def power_int_def power_one_over)
  then show ?thesis by (simp add: power_int_add)
qed

lemma round_half_even_bounds:
  "of_int (round_half_even x) \<le> x + 1 / 2" "x - 1 / 2 \<le> of_int (round_half_even x)"
  unfolding round_half_even_def Let_def by (auto; linarith)+

lemma round_half_even_nonneg: "0 \<le> x \<Longrightarrow> 0 \<le> round_half_even x"
  by (auto simp: round_half_even_def Let_def)

lemma round_half_even_int [simp]: "round_half_even (of_int k) = k"
  by (simp add: round_half_even_def)

lemma round_magnitude_nonneg: "0 \<le> x \<Longrightarrow> 0 \<le> round_magnitude x"
  by (auto simp: round_magnitude_def Let_def
      intro!: mult_nonneg_nonneg divide_nonneg_pos round_half_even_nonneg less_imp_le [OF pow2_pos])

lemma round64_0 [simp]: "round64 0 = Fin 0"
  by (simp add: round64_def round_magnitude_def)

lemma round64_nonneg:
  "0 \<le> x \<Longrightarrow> round64 x = Inf False \<or> (\<exists>y. round64 x = Fin y \<and> 0 \<le> y)"
  using round_magnitude_nonneg [of x] by (auto simp: round64_def Let_def)

lemma ilog2_bounds: "0 < n \<Longrightarrow> 2 ^ ilog2 n \<le> n \<and> n < 2 * 2 ^ ilog2 n"
proof (induction n rule: ilog2.induct)
  case (1 n)
  show ?case
  proof (cases "n < 2")
    case True
    with 1 show ?thesis by (simp add: ilog2.simps)
  next
    case False
    then have "0 < n div 2" by linarith
    with False 1 have "2 ^ ilog2 (n div 2) \<le> n div 2" "n div 2 < 2 * 2 ^ ilog2 (n div 2)" by auto
    then have "2 * 2 ^ ilog2 (n div 2) \<le> n" "n < 2 * (2 * 2 ^ ilog2 (n div 2))" by linarith+
    with False show ?thesis by (subst (1 2) ilog2.simps) simp
  qed
qed

lemma pow2_nat: "pow2 (int n) = 2 ^ n"
  by (simp add: pow2_def)

lemma pow2_diff: "pow2 (a - b) * pow2 b = pow2 a"
  by (simp flip: pow2_add)

lemma rat_exponent_bounds:
  assumes "0 < x"
  shows "pow2 (rat_exponent x) \<le> x" and "x < pow2 (rat_exponent x + 1)"
proof -
  obtain p q where pq: "quotient_of x = (p, q)" by fastforce
  then have q: "0 < q" and x: "x = of_int p / of_int q"
    by (simp_all add: quotient_of_denom_pos quotient_of_div)
  then have p: "0 < p" using assms by (simp add: zero_less_divide_iff)
  define a b where "a = ilog2 (nat p)" and "b = ilog2 (nat q)"
  have bounds: "of_nat (2 ^ ilog2 n) \<le> (of_nat n :: rat) \<and> (of_nat n :: rat) < of_nat (2 * 2 ^ ilog2 n)"
    if "0 < n" for n using ilog2_bounds [OF that] by (simp only: of_nat_le_iff of_nat_less_iff)
  have P: "2 ^ a \<le> (of_int p :: rat)" "(of_int p :: rat) < 2 * 2 ^ a"
    and Q: "2 ^ b \<le> (of_int q :: rat)" "(of_int q :: rat) < 2 * 2 ^ b"
    using bounds [of "nat p"] bounds [of "nat q"] p q by (simp_all add: a_def b_def)
  have qpos: "0 < (of_int q :: rat)" using q by simp
  have d: "pow2 (int a - int b) * 2 ^ b = 2 ^ a" using pow2_diff [of "int a" "int b"] by (simp add: pow2_nat)
  have up: "x < 2 * pow2 (int a - int b)"
  proof -
    have "x * 2 ^ b \<le> x * of_int q" using Q(1) assms by (intro mult_left_mono) auto
    also have "\<dots> = of_int p" using x q by simp
    also note P(2)
    also have "2 * 2 ^ a = 2 * pow2 (int a - int b) * 2 ^ b" using d by simp
    finally show ?thesis by (simp only: mult_less_cancel_right_pos zero_less_power zero_less_numeral)
  qed
  have low: "pow2 (int a - int b) < 2 * x"
  proof -
    have "pow2 (int a - int b) * 2 ^ b \<le> x * of_int q" using d P(1) x q by simp
    also have "x * of_int q < x * (2 * 2 ^ b)" using Q(2) assms by (intro mult_strict_left_mono) auto
    also have "\<dots> = 2 * x * 2 ^ b" by simp
    finally show ?thesis by (simp only: mult_less_cancel_right_pos zero_less_power zero_less_numeral)
  qed
  have h: "pow2 (k + 1) = 2 * pow2 k" "2 * pow2 (k - 1) = pow2 k" for k
    using pow2_add [of k 1] pow2_add [of "k - 1" 1] by (simp_all add: pow2_def [of 1])
  show "pow2 (rat_exponent x) \<le> x" "x < pow2 (rat_exponent x + 1)"
    using pq up low h(1) [of "int a - int b"] h(2) [of "int a - int b"]
    by (auto simp: rat_exponent_def a_def b_def Let_def not_le)
qed

lemma round_magnitude_error:
  assumes "0 < x"
  shows "\<bar>round_magnitude x - x\<bar> \<le> pow2 (max (rat_exponent x - 52) (-1074)) / 2"
proof -
  define u where "u = pow2 (max (rat_exponent x - 52) (-1074))"
  have u: "0 < u" by (simp add: u_def)
  have "\<bar>of_int (round_half_even (x / u)) - x / u\<bar> \<le> 1 / 2"
    using round_half_even_bounds [of "x / u"] by linarith
  then have "\<bar>of_int (round_half_even (x / u)) - x / u\<bar> * u \<le> 1 / 2 * u"
    using u by (intro mult_right_mono) auto
  moreover have "\<bar>of_int (round_half_even (x / u)) - x / u\<bar> * u = \<bar>of_int (round_half_even (x / u)) * u - x\<bar>"
    using u by (simp add: abs_mult_pos field_simps flip: abs_mult_pos)
  ultimately have "\<bar>of_int (round_half_even (x / u)) * u - x\<bar> \<le> u / 2" by linarith
  then show ?thesis
    using assms by (simp only: round_magnitude_def Let_def u_def if_False less_irrefl) simp
qed

lemma round_magnitude_le:
  assumes "0 \<le> x"
  shows "round_magnitude x \<le> 2 * x + 1"
proof (cases "x = 0")
  case False
  with assms have x: "0 < x" by simp
  have m: "pow2 (i - int n) \<le> pow2 i" for i n
  proof -
    have "pow2 (i - int n) * 1 \<le> pow2 (i - int n) * pow2 (int n)"
      by (intro mult_left_mono less_imp_le [OF pow2_pos]) (simp add: pow2_nat)
    then show ?thesis by (simp add: pow2_diff)
  qed
  have "pow2 (rat_exponent x - 52) \<le> x"
    using m [of "rat_exponent x" 52] rat_exponent_bounds(1) [OF x] by simp
  moreover have "pow2 (-1074) \<le> 1" by (simp add: pow2_def)
  ultimately have "pow2 (max (rat_exponent x - 52) (-1074)) \<le> x + 1"
    using x by (auto simp: max_def)
  then show ?thesis using round_magnitude_error [OF x] x by linarith
qed (simp add: round_magnitude_def)

lemma round64_finite:
  assumes "\<bar>x\<bar> \<le> 2 ^ 1000"
  obtains y where "round64 x = Fin y" "\<bar>y\<bar> \<le> 2 * \<bar>x\<bar> + 1"
proof -
  have "round_magnitude \<bar>x\<bar> \<le> 2 * \<bar>x\<bar> + 1" by (rule round_magnitude_le) simp
  moreover have "2 * (2::rat) ^ 1000 + 1 < 2 ^ 1024" by simp
  ultimately have "\<not> 2 ^ 1024 \<le> round_magnitude \<bar>x\<bar>" using assms by linarith
  then have "round64 x = Fin (if x < 0 then - round_magnitude \<bar>x\<bar> else round_magnitude \<bar>x\<bar>)"
    by (simp add: round64_def Let_def)
  then show thesis
    using \<open>round_magnitude \<bar>x\<bar> \<le> 2 * \<bar>x\<bar> + 1\<close> round_magnitude_nonneg [of "\<bar>x\<bar>"]
    by (intro that) (auto split: if_splits)
qed

lemma fl_sqrt_nonneg:
  assumes "0 \<le> x"
  shows "\<exists>y. fl_sqrt (Fin x) = Fin y \<and> 0 \<le> y \<and> (x = 0 \<longrightarrow> y = 0)"
proof (cases "x = 0")
  case False
  then show ?thesis using assms by (simp add: Let_def less_imp_le [OF pow2_pos])
qed simp

section \<open>A reference instance of the conversions\<close>

text \<open>Every binary64 number is a multiple of \<open>2 ^ -1074\<close>, so 1074 decimal places hold it exactly.\<close>

definition float_scale :: nat where
  "float_scale = 1074"

definition ref_dec_of_float :: "float64 \<Rightarrow> rdec option" where
  "ref_dec_of_float f = (case f of
       Fin x \<Rightarrow> Some (RDec \<lfloor>x * 10 ^ float_scale\<rfloor> float_scale)
     | _ \<Rightarrow> None)"

definition ref_float :: "rdec float_api" where
  "ref_float = \<lparr>float_of_dec = (\<lambda>d. round64 (rval d)), dec_of_float = ref_dec_of_float\<rparr>"

lemma power_ratio_int: "k \<le> n \<Longrightarrow> \<exists>c. (10::rat) ^ n / 2 ^ k = of_int c"
proof -
  assume "k \<le> n"
  then have "(10::rat) ^ n = 2 ^ k * (2 ^ (n - k) * 5 ^ n)"
    by (simp flip: power_add power_mult_distrib mult.assoc)
  then have "(10::rat) ^ n / 2 ^ k = of_int (2 ^ (n - k) * 5 ^ n)" by simp
  then show ?thesis ..
qed

lemma round_magnitude_grid: "\<exists>c. round_magnitude x * 10 ^ float_scale = of_int c"
proof -
  have "\<exists>c. pow2 u * 10 ^ float_scale = of_int c" if "-1074 \<le> u" for u
  proof (cases "0 \<le> u")
    case True
    then have "pow2 u * 10 ^ float_scale = of_int (2 ^ nat u * 10 ^ float_scale)" by (simp add: pow2_def)
    then show ?thesis ..
  next
    case False
    with that have "nat (- u) \<le> float_scale" by (simp add: float_scale_def)
    from power_ratio_int [OF this] False show ?thesis by (simp add: pow2_def)
  qed
  then obtain c where "pow2 (max (rat_exponent x - 52) (-1074)) * 10 ^ float_scale = of_int c" by fastforce
  then have "round_magnitude x * 10 ^ float_scale =
      of_int (if x = 0 then 0 else round_half_even (x / pow2 (max (rat_exponent x - 52) (-1074))) * c)"
    by (simp add: round_magnitude_def Let_def mult.assoc)
  then show ?thesis ..
qed

lemma round64_grid:
  assumes "round64 x = Fin y"
  shows "\<exists>c. y * 10 ^ float_scale = of_int c"
proof -
  obtain c where c: "round_magnitude \<bar>x\<bar> * 10 ^ float_scale = of_int c" using round_magnitude_grid by blast
  have "y = (if x < 0 then - round_magnitude \<bar>x\<bar> else round_magnitude \<bar>x\<bar>)"
    using assms by (auto simp: round64_def Let_def split: if_splits)
  then have "y * 10 ^ float_scale = of_int (if x < 0 then - c else c)"
    using c by (cases "x < 0") (simp_all only: if_True if_False mult_minus_left of_int_minus)
  then show ?thesis ..
qed

interpretation reff: decimal_float ref_dec rval ref_float
proof
  fix d s x
  show "float_of_dec ref_float d = round64 (rval d)" "dec_of_float ref_float NaN = None"
    "dec_of_float ref_float (Inf s) = None" by (simp_all add: ref_float_def ref_dec_of_float_def)
  have "rval (RDec \<lfloor>x * 10 ^ float_scale\<rfloor> float_scale) = x" if r: "round64 x = Fin x"
  proof -
    obtain c where c: "x * 10 ^ float_scale = of_int c" using round64_grid [OF r] by blast
    show ?thesis unfolding rval_RDec c floor_of_int by (simp flip: c)
  qed
  moreover have "0 \<le> rval (RDec \<lfloor>x * 10 ^ float_scale\<rfloor> float_scale)" if "0 \<le> x"
    using that unfolding rval_RDec by (intro divide_nonneg_pos) auto
  ultimately show "\<exists>d. dec_of_float ref_float (Fin x) = Some d \<and>
      (round64 x = Fin x \<longrightarrow> round64 (rval d) = Fin x) \<and> (0 \<le> x \<longrightarrow> 0 \<le> rval d) \<and> (x = 0 \<longrightarrow> rval d = 0)"
    by (simp add: ref_float_def ref_dec_of_float_def rval_RDec)
qed

end
