(* ===== verification/Risk_Engine.thy ===== *)
theory Risk_Engine
  imports Float64
begin

text \<open>
  \<^verbatim>\<open>internal/risk/engine.go\<close>: exposures, weights, concentration, portfolio volatility and the
  parametric value at risk of a snapshot. The volatility is computed in \<^verbatim>\<open>float64\<close>
  (\<open>Float64\<close>), everything else in decimals; a panic of \<^verbatim>\<open>decimal.NewFromFloat\<close> or of the
  decimal division is an \<open>EPanic\<close> result. \<^verbatim>\<open>sort.Slice\<close> with a comparison function is
  \<open>sort_by\<close>, insertion by that function (for a strict total order on the elements every sort
  gives the same list).
\<close>

section \<open>Data\<close>

record 'd position_input =
  pi_symbol :: string
  pi_quantity :: 'd

record 'd risk_input =
  ri_positions :: "'d position_input list"
  ri_prices :: "(string \<times> 'd) list"
  ri_sigma_1d :: "(string \<times> 'd) list"
  ri_top_n :: int

record 'd risk_assumptions =
  as_confidence :: 'd
  as_horizon_days :: 'd
  as_z_score :: 'd
  as_volatility_convention :: string
  as_model :: string

record 'd symbol_risk =
  sr_symbol :: string
  sr_exposure :: 'd
  sr_weight :: 'd
  sr_sigma_1d :: 'd

record 'd risk_snapshot =
  rs_exposure_by_symbol :: "'d symbol_risk list"
  rs_total_market_value :: 'd
  rs_sigma_1d_portfolio :: 'd
  rs_var_95_1d :: 'd
  rs_top_n :: "'d symbol_risk list"
  rs_hhi :: 'd
  rs_assumptions :: "'d risk_assumptions"
  rs_unpriced_symbols :: "string list"

text \<open>\<^verbatim>\<open>decimal.RequireFromString\<close> panics on text that is not a decimal; here the texts are
  constants of the program, read when it starts.\<close>

definition require_from_string :: "'d decimal_api \<Rightarrow> string \<Rightarrow> 'd" where
  "require_from_string D s = (case d_parse D s of Some d \<Rightarrow> d | None \<Rightarrow> d_zero D)"

definition confidence95 :: "'d decimal_api \<Rightarrow> 'd" where
  "confidence95 D = require_from_string D ''0.95''"

definition horizon_days1 :: "'d decimal_api \<Rightarrow> 'd" where
  "horizon_days1 D = d_of_int D 1"

definition z_score95 :: "'d decimal_api \<Rightarrow> 'd" where
  "z_score95 D = require_from_string D ''1.645''"

definition default_top_n :: int where "default_top_n = 5"
definition max_top_n :: int where "max_top_n = 50"
definition sqrt_domain_epsilon :: float64 where
  "sqrt_domain_epsilon = round64 (1 / 10 ^ 12)"

section \<open>Helpers of the engine\<close>

fun insert_by :: "('a \<Rightarrow> 'a \<Rightarrow> bool) \<Rightarrow> 'a \<Rightarrow> 'a list \<Rightarrow> 'a list" where
  "insert_by lt x [] = [x]"
| "insert_by lt x (y # ys) = (if lt y x then y # insert_by lt x ys else x # y # ys)"

definition sort_by :: "('a \<Rightarrow> 'a \<Rightarrow> bool) \<Rightarrow> 'a list \<Rightarrow> 'a list" where
  "sort_by lt xs = foldr (insert_by lt) xs []"

definition normalize_top_n :: "int \<Rightarrow> int" where
  "normalize_top_n n = (if n \<le> 0 then default_top_n else if max_top_n < n then max_top_n else n)"

text \<open>
  Every operation rounds. A Go compiler may fuse the last product with the addition on platforms with such an
  instruction (it does not on \<^verbatim>\<open>amd64\<close>); that is not modelled.
\<close>

fun weighted_variance_sum :: "'d float_api \<Rightarrow> 'd symbol_risk list \<Rightarrow> float64 \<Rightarrow> float64" where
  "weighted_variance_sum F [] acc = acc"
| "weighted_variance_sum F (s # ss) acc =
     (let w = float_of_dec F (sr_weight s); sigma = float_of_dec F (sr_sigma_1d s)
      in weighted_variance_sum F ss (fl_add acc (fl_mul (fl_mul w w) (fl_mul sigma sigma))))"

definition sigma_portfolio_uncorrelated ::
  "'d decimal_api \<Rightarrow> 'd float_api \<Rightarrow> 'd symbol_risk list \<Rightarrow> 'd res" where
  "sigma_portfolio_uncorrelated D F symbols =
     (if symbols = [] then Inr (d_zero D)
      else
        (let sum0 = weighted_variance_sum F symbols (Fin 0);
             sum1 = (if fl_less sum0 (Fin 0) \<and> fl_le (fl_abs sum0) sqrt_domain_epsilon then Fin 0 else sum0)
         in if fl_less sum1 (Fin 0) then Inl (EOther ''invalid weighted variance sum'')
            else (case dec_of_float F (fl_sqrt sum1) of
                None \<Rightarrow> Inl (EPanic ''Cannot create a Decimal from NaN or Inf'')
              | Some d \<Rightarrow> Inr d)))"

definition risk_hhi :: "'d decimal_api \<Rightarrow> 'd symbol_risk list \<Rightarrow> 'd" where
  "risk_hhi D symbols = fold (\<lambda>s acc. d_add D acc (d_mul D (sr_weight s) (sr_weight s))) symbols (d_zero D)"

definition weight_before :: "'d decimal_api \<Rightarrow> 'd symbol_risk \<Rightarrow> 'd symbol_risk \<Rightarrow> bool" where
  "weight_before D a b =
     (if d_equal D (sr_weight a) (sr_weight b) then sr_symbol a < sr_symbol b
      else d_less D (sr_weight b) (sr_weight a))"

definition top_by_weight :: "'d decimal_api \<Rightarrow> 'd symbol_risk list \<Rightarrow> int \<Rightarrow> 'd symbol_risk list" where
  "top_by_weight D symbols n =
     (if symbols = [] then []
      else (let cpy = sort_by (weight_before D) symbols;
                k = (if int (length cpy) < n then int (length cpy) else n)
            in take (nat k) cpy))"

section \<open>The snapshot\<close>

text \<open>The first loop: unpriced symbols, exposures and their total, or the symbol without a sigma.\<close>

record 'd exposure_state =
  es_exposure :: "'d symbol_risk list"
  es_unpriced :: "string list"
  es_total :: 'd

fun collect_exposure ::
  "'d decimal_api \<Rightarrow> 'd risk_input \<Rightarrow> 'd position_input list \<Rightarrow> 'd exposure_state \<Rightarrow> 'd exposure_state res" where
  "collect_exposure D i [] st = Inr st"
| "collect_exposure D i (p # ps) st =
     (case map_of (ri_prices i) (pi_symbol p) of
        None \<Rightarrow> collect_exposure D i ps (st\<lparr>es_unpriced := es_unpriced st @ [pi_symbol p]\<rparr>)
      | Some price \<Rightarrow>
          (case map_of (ri_sigma_1d i) (pi_symbol p) of
             None \<Rightarrow> Inl (EOther (''missing sigma_1d for priced symbol '' @ pi_symbol p))
           | Some sigma \<Rightarrow>
               (let exposure = d_abs D (d_mul D (pi_quantity p) price)
                in collect_exposure D i ps (st\<lparr>es_total := d_add D (es_total st) exposure,
                     es_exposure := es_exposure st @ [\<lparr>sr_symbol = pi_symbol p, sr_exposure = exposure,
                       sr_weight = d_zero D, sr_sigma_1d = sigma\<rparr>]\<rparr>))))"

fun set_weights :: "'d decimal_api \<Rightarrow> 'd \<Rightarrow> 'd symbol_risk list \<Rightarrow> 'd symbol_risk list res" where
  "set_weights D mv [] = Inr []"
| "set_weights D mv (s # ss) =
     (case d_div D (sr_exposure s) mv of
        None \<Rightarrow> Inl (EPanic ''decimal division by 0'')
      | Some w \<Rightarrow> (case set_weights D mv ss of Inl e \<Rightarrow> Inl e
          | Inr rest \<Rightarrow> Inr (s\<lparr>sr_weight := w\<rparr> # rest)))"

definition build_snapshot :: "'d decimal_api \<Rightarrow> 'd float_api \<Rightarrow> 'd risk_input \<Rightarrow> 'd risk_snapshot res" where
  "build_snapshot D F i =
     (let top_n = normalize_top_n (ri_top_n i) in
      case collect_exposure D i (ri_positions i)
          \<lparr>es_exposure = [], es_unpriced = [], es_total = d_zero D\<rparr> of
        Inl e \<Rightarrow> Inl e
      | Inr st \<Rightarrow>
          (let mv = es_total st;
               sorted_rows = sort_by (\<lambda>a b. sr_symbol a < sr_symbol b) (es_exposure st);
               weighted = (if d_less D (d_zero D) mv then set_weights D mv sorted_rows else Inr sorted_rows)
           in case weighted of Inl e \<Rightarrow> Inl e
            | Inr rows \<Rightarrow>
                (case sigma_portfolio_uncorrelated D F rows of
                   Inl e \<Rightarrow> Inl e
                 | Inr sigma_portfolio \<Rightarrow>
                     Inr \<lparr>rs_exposure_by_symbol = rows, rs_total_market_value = mv,
                       rs_sigma_1d_portfolio = sigma_portfolio,
                       rs_var_95_1d = d_mul D (d_mul D mv sigma_portfolio) (z_score95 D),
                       rs_top_n = top_by_weight D rows top_n, rs_hhi = risk_hhi D rows,
                       rs_assumptions = \<lparr>as_confidence = confidence95 D, as_horizon_days = horizon_days1 D,
                         as_z_score = z_score95 D, as_volatility_convention = ''annual_to_daily_sqrt_252'',
                         as_model = ''parametric_normal''\<rparr>,
                       rs_unpriced_symbols = sort (es_unpriced st)\<rparr>)))"

section \<open>Sorting by a comparison\<close>

lemma mset_insert_by [simp]: "mset (insert_by lt x xs) = add_mset x (mset xs)"
  by (induction xs) auto

lemma mset_sort_by [simp]: "mset (sort_by lt xs) = mset xs"
  by (induction xs) (auto simp: sort_by_def)

lemma set_sort_by [simp]: "set (sort_by lt xs) = set xs"
  by (metis mset_sort_by set_mset_mset)

lemma length_sort_by [simp]: "length (sort_by lt xs) = length xs"
  by (metis mset_sort_by size_mset)

lemma set_insert_by: "set (insert_by lt x xs) = insert x (set xs)"
  by (metis mset_insert_by set_mset_add_mset_insert set_mset_mset)

lemma sorted_insert_by:
  assumes "\<And>a b c. \<not> lt b a \<Longrightarrow> \<not> lt c b \<Longrightarrow> \<not> lt c a" and "\<And>a b. lt a b \<Longrightarrow> \<not> lt b a"
    and "sorted_wrt (\<lambda>a b. \<not> lt b a) xs"
  shows "sorted_wrt (\<lambda>a b. \<not> lt b a) (insert_by lt x xs)"
  using assms(3)
proof (induction xs)
  case (Cons y ys)
  show ?case
  proof (cases "lt y x")
    case True
    then have "\<forall>z\<in>set (insert_by lt x ys). \<not> lt z y"
      using Cons.prems assms(2) by (simp add: set_insert_by)
    with True Cons show ?thesis by simp
  next
    case False
    then have "\<forall>z\<in>set ys. \<not> lt z x" using Cons.prems assms(1) [of y x] by simp
    with False Cons show ?thesis by simp
  qed
qed simp

lemma sorted_sort_by:
  assumes "\<And>a b c. \<not> lt b a \<Longrightarrow> \<not> lt c b \<Longrightarrow> \<not> lt c a" and "\<And>a b. lt a b \<Longrightarrow> \<not> lt b a"
  shows "sorted_wrt (\<lambda>a b. \<not> lt b a) (sort_by lt xs)"
proof (induction xs)
  case (Cons x xs)
  have "sort_by lt (x # xs) = insert_by lt x (sort_by lt xs)" by (simp add: sort_by_def)
  then show ?case using sorted_insert_by [of lt, OF assms Cons] by simp
qed (simp add: sort_by_def)

lemma sorted_sort_by_key:
  fixes f :: "'a \<Rightarrow> 'b::linorder"
  shows "sorted (map f (sort_by (\<lambda>a b. f a < f b) xs))"
proof -
  have "sorted_wrt (\<lambda>a b. \<not> f b < f a) (sort_by (\<lambda>a b. f a < f b) xs)"
    by (rule sorted_sort_by) auto
  then show ?thesis by (simp add: sorted_map not_less)
qed

section \<open>Exposures and weights\<close>

definition total_exposure :: "('d \<Rightarrow> rat) \<Rightarrow> 'd symbol_risk list \<Rightarrow> rat" where
  "total_exposure val rows = sum_list (map (\<lambda>s. val (sr_exposure s)) rows)"

definition exposure_of :: "('d \<Rightarrow> rat) \<Rightarrow> 'd risk_input \<Rightarrow> 'd position_input \<Rightarrow> rat" where
  "exposure_of val i p = (case map_of (ri_prices i) (pi_symbol p) of
     None \<Rightarrow> 0 | Some price \<Rightarrow> \<bar>val (pi_quantity p) * val price\<bar>)"

definition priced_positions :: "'d risk_input \<Rightarrow> 'd position_input list" where
  "priced_positions i = filter (\<lambda>p. map_of (ri_prices i) (pi_symbol p) \<noteq> None) (ri_positions i)"

lemma total_exposure_perm:
  assumes "mset xs = mset ys"
  shows "total_exposure val xs = total_exposure val ys"
  unfolding total_exposure_def using assms by (rule sum_list_mset_cong)

lemma collect_exposure_Cons:
  assumes "collect_exposure D i (p # ps) st = Inr st'"
  obtains (unpriced) "map_of (ri_prices i) (pi_symbol p) = None"
      "collect_exposure D i ps (st\<lparr>es_unpriced := es_unpriced st @ [pi_symbol p]\<rparr>) = Inr st'"
    | (priced) price sigma where "map_of (ri_prices i) (pi_symbol p) = Some price"
      "map_of (ri_sigma_1d i) (pi_symbol p) = Some sigma"
      "collect_exposure D i ps (st\<lparr>es_total := d_add D (es_total st) (d_abs D (d_mul D (pi_quantity p) price)),
         es_exposure := es_exposure st @ [\<lparr>sr_symbol = pi_symbol p,
           sr_exposure = d_abs D (d_mul D (pi_quantity p) price), sr_weight = d_zero D, sr_sigma_1d = sigma\<rparr>]\<rparr>) = Inr st'"
proof (cases "map_of (ri_prices i) (pi_symbol p)")
  case None
  with assms show thesis by (intro unpriced) simp_all
next
  case (Some price)
  show thesis
  proof (cases "map_of (ri_sigma_1d i) (pi_symbol p)")
    case None
    with Some assms show thesis by simp
  next
    case s: (Some sigma)
    with Some assms show thesis by (intro priced [OF Some s]) (simp add: Let_def)
  qed
qed

context decimal_laws begin

lemma collect_exposure_ok:
  assumes "collect_exposure D i ps st = Inr st'"
  shows "map (\<lambda>s. (sr_symbol s, val (sr_exposure s))) (es_exposure st') =
      map (\<lambda>s. (sr_symbol s, val (sr_exposure s))) (es_exposure st) @
      map (\<lambda>p. (pi_symbol p, exposure_of val i p))
        (filter (\<lambda>p. map_of (ri_prices i) (pi_symbol p) \<noteq> None) ps) \<and>
    es_unpriced st' = es_unpriced st @
      map pi_symbol (filter (\<lambda>p. map_of (ri_prices i) (pi_symbol p) = None) ps) \<and>
    val (es_total st') - total_exposure val (es_exposure st')
      = val (es_total st) - total_exposure val (es_exposure st)"
  using assms
proof (induction ps arbitrary: st)
  case (Cons p ps)
  from Cons.prems show ?case
  proof (cases rule: collect_exposure_Cons)
    case unpriced
    then show ?thesis using Cons.IH [OF unpriced(2)] by simp
  next
    case (priced price sigma)
    then show ?thesis using Cons.IH [OF priced(3)]
      by (simp add: exposure_of_def total_exposure_def vals)
  qed
qed simp

lemma collect_exposure_rows:
  assumes "collect_exposure D i ps st = Inr st'"
    and "\<forall>s\<in>set (es_exposure st). val (sr_weight s) = 0 \<and> map_of (ri_sigma_1d i) (sr_symbol s) = Some (sr_sigma_1d s)"
  shows "\<forall>s\<in>set (es_exposure st'). val (sr_weight s) = 0 \<and> map_of (ri_sigma_1d i) (sr_symbol s) = Some (sr_sigma_1d s)"
  using assms
proof (induction ps arbitrary: st)
  case (Cons p ps)
  from Cons.prems(1) show ?case
  proof (cases rule: collect_exposure_Cons)
    case unpriced
    show ?thesis using Cons.IH [OF unpriced(2)] Cons.prems(2) by simp
  next
    case (priced price sigma)
    show ?thesis using Cons.IH [OF priced(3)] Cons.prems(2) priced(2) by (simp add: vals)
  qed
qed simp

text \<open>The engine fails only on a priced symbol without a sigma.\<close>

lemma collect_exposure_error:
  "(\<exists>e. collect_exposure D i ps st = Inl e) \<longleftrightarrow>
     (\<exists>p\<in>set ps. map_of (ri_prices i) (pi_symbol p) \<noteq> None \<and> map_of (ri_sigma_1d i) (pi_symbol p) = None)"
proof (induction ps arbitrary: st)
  case (Cons p ps)
  then show ?case by (auto simp: Let_def split: option.splits)
qed simp

lemma set_weights_ok:
  assumes "val mv \<noteq> 0"
  obtains rows' where "set_weights D mv rows = Inr rows'"
    "list_all2 (\<lambda>s s'. sr_symbol s' = sr_symbol s \<and> sr_exposure s' = sr_exposure s \<and>
       sr_sigma_1d s' = sr_sigma_1d s \<and>
       val (sr_weight s') = round_away 16 (val (sr_exposure s) / val mv)) rows rows'"
proof -
  have "\<exists>rows'. set_weights D mv rows = Inr rows' \<and>
    list_all2 (\<lambda>s s'. sr_symbol s' = sr_symbol s \<and> sr_exposure s' = sr_exposure s \<and>
       sr_sigma_1d s' = sr_sigma_1d s \<and>
       val (sr_weight s') = round_away 16 (val (sr_exposure s) / val mv)) rows rows'"
  proof (induction rows)
    case (Cons s rows)
    obtain w where "d_div D (sr_exposure s) mv = Some w"
      "val w = round_away 16 (val (sr_exposure s) / val mv)" using div_some [OF assms] by blast
    with Cons show ?case by auto
  qed simp
  then show thesis using that by blast
qed

lemma risk_hhi_val: "val (risk_hhi D rows) = sum_list (map (\<lambda>s. (val (sr_weight s))\<^sup>2) rows)"
proof -
  have "val (fold (\<lambda>s acc. d_add D acc (d_mul D (sr_weight s) (sr_weight s))) rows a)
      = val a + sum_list (map (\<lambda>s. (val (sr_weight s))\<^sup>2) rows)" for a
    by (induction rows arbitrary: a) (simp_all add: vals power2_eq_square)
  from this [of "d_zero D"] show ?thesis by (simp add: risk_hhi_def vals)
qed

text \<open>A snapshot that was built, in terms of its rows.\<close>

lemma build_snapshot_rows:
  assumes "build_snapshot D F i = Inr s"
  obtains st where "collect_exposure D i (ri_positions i)
      \<lparr>es_exposure = [], es_unpriced = [], es_total = d_zero D\<rparr> = Inr st"
    "rs_total_market_value s = es_total st"
    "rs_unpriced_symbols s = sort (es_unpriced st)"
    "sigma_portfolio_uncorrelated D F (rs_exposure_by_symbol s) = Inr (rs_sigma_1d_portfolio s)"
    "rs_var_95_1d s = d_mul D (d_mul D (es_total st) (rs_sigma_1d_portfolio s)) (z_score95 D)"
    "rs_top_n s = top_by_weight D (rs_exposure_by_symbol s) (normalize_top_n (ri_top_n i))"
    "rs_hhi s = risk_hhi D (rs_exposure_by_symbol s)"
    "list_all2 (\<lambda>a b. sr_symbol b = sr_symbol a \<and> sr_exposure b = sr_exposure a \<and>
       sr_sigma_1d b = sr_sigma_1d a \<and> val (sr_weight b) = (if 0 < val (es_total st)
         then round_away 16 (val (sr_exposure a) / val (es_total st)) else val (sr_weight a)))
       (sort_by (\<lambda>a b. sr_symbol a < sr_symbol b) (es_exposure st)) (rs_exposure_by_symbol s)"
proof -
  obtain st where st: "collect_exposure D i (ri_positions i)
      \<lparr>es_exposure = [], es_unpriced = [], es_total = d_zero D\<rparr> = Inr st"
    using assms by (auto simp: build_snapshot_def Let_def split: sum.splits)
  let ?sorted = "sort_by (\<lambda>a b. sr_symbol a < sr_symbol b) (es_exposure st)"
  obtain rows where rows: "(if d_less D (d_zero D) (es_total st)
      then set_weights D (es_total st) ?sorted else Inr ?sorted) = Inr rows"
    and sg: "sigma_portfolio_uncorrelated D F rows = Inr (rs_sigma_1d_portfolio s)"
    and s: "rs_exposure_by_symbol s = rows" "rs_total_market_value s = es_total st"
    "rs_unpriced_symbols s = sort (es_unpriced st)"
    "rs_var_95_1d s = d_mul D (d_mul D (es_total st) (rs_sigma_1d_portfolio s)) (z_score95 D)"
    "rs_top_n s = top_by_weight D rows (normalize_top_n (ri_top_n i))" "rs_hhi s = risk_hhi D rows"
    using assms by (auto simp: build_snapshot_def Let_def st split: sum.splits)
  have "list_all2 (\<lambda>a b. sr_symbol b = sr_symbol a \<and> sr_exposure b = sr_exposure a \<and>
       sr_sigma_1d b = sr_sigma_1d a \<and> val (sr_weight b) = (if 0 < val (es_total st)
         then round_away 16 (val (sr_exposure a) / val (es_total st)) else val (sr_weight a))) ?sorted rows"
  proof (cases "0 < val (es_total st)")
    case True
    then obtain rows' where "set_weights D (es_total st) ?sorted = Inr rows'"
      "list_all2 (\<lambda>s s'. sr_symbol s' = sr_symbol s \<and> sr_exposure s' = sr_exposure s \<and>
       sr_sigma_1d s' = sr_sigma_1d s \<and>
       val (sr_weight s') = round_away 16 (val (sr_exposure s) / val (es_total st))) ?sorted rows'"
      using set_weights_ok [of "es_total st" ?sorted] by force
    with True rows show ?thesis by (simp add: vals)
  next
    case False
    then have "rows = ?sorted" using rows by (simp add: vals)
    with False show ?thesis by (simp add: list_all2_refl)
  qed
  with st sg s show thesis by (intro that) simp_all
qed

end

section \<open>Sums of rounded shares\<close>

lemma round_away_le_one:
  assumes "0 \<le> x" and "x \<le> 1"
  shows "round_away n x \<le> 1"
proof -
  have "x * 10 ^ n \<le> 10 ^ n" using mult_right_mono [OF assms(2), of "10 ^ n"] by simp
  then have "x * 10 ^ n + 1 / 2 < of_int (10 ^ n + 1)" by (simp only: of_int_add of_int_power of_int_numeral of_int_1)
  then have "\<lfloor>x * 10 ^ n + 1 / 2\<rfloor> < 10 ^ n + 1" by (simp only: floor_less_iff)
  then have "\<lfloor>x * 10 ^ n + 1 / 2\<rfloor> \<le> 10 ^ n" by simp
  then have "of_int \<lfloor>x * 10 ^ n + 1 / 2\<rfloor> \<le> (10 ^ n :: rat)"
    by (metis of_int_le_iff of_int_numeral of_int_power)
  then show ?thesis using assms(1) by (simp add: round_away_nonneg_eq)
qed

lemma sum_list_rounded:
  "\<bar>sum_list (map (\<lambda>x. round_away 16 (f x)) xs) - sum_list (map f xs)\<bar> \<le> of_nat (length xs) * div_eps"
proof (induction xs)
  case (Cons x xs)
  have "\<bar>round_away 16 (f x) - f x\<bar> \<le> div_eps"
    using round_away_error [of 16 "f x"] by (simp add: div_eps_def)
  with Cons show ?case by (simp add: algebra_simps)
qed simp

lemma sum_list_quotient:
  fixes f :: "'a \<Rightarrow> rat"
  shows "sum_list (map (\<lambda>x. f x / c) xs) = sum_list (map f xs) / c"
  by (induction xs) (simp_all add: add_divide_distrib)

lemma sum_list_squares:
  fixes f :: "'a \<Rightarrow> rat"
  shows "(sum_list (map f xs))\<^sup>2 \<le> of_nat (length xs) * sum_list (map (\<lambda>x. (f x)\<^sup>2) xs)"
proof (induction xs)
  case (Cons x xs)
  let ?s = "sum_list (map f xs)" and ?q = "sum_list (map (\<lambda>x. (f x)\<^sup>2) xs)" and ?n = "of_nat (length xs) :: rat"
  have "2 * f x * ?s \<le> ?n * (f x)\<^sup>2 + ?q"
  proof (cases "xs = []")
    case False
    then have n: "0 < ?n" by simp
    have "0 \<le> (?n * f x - ?s)\<^sup>2" by simp
    then have "2 * ?n * f x * ?s \<le> ?n\<^sup>2 * (f x)\<^sup>2 + ?s\<^sup>2"
      by (simp add: power2_eq_square algebra_simps)
    also have "\<dots> \<le> ?n\<^sup>2 * (f x)\<^sup>2 + ?n * ?q" using Cons by simp
    also have "\<dots> = ?n * (?n * (f x)\<^sup>2 + ?q)" by (simp add: power2_eq_square algebra_simps)
    finally have "?n * (2 * f x * ?s) \<le> ?n * (?n * (f x)\<^sup>2 + ?q)" by (simp add: algebra_simps)
    with n show ?thesis by simp
  qed simp
  then show ?case using Cons by (simp add: power2_eq_square algebra_simps)
qed simp

section \<open>The volatility never overflows\<close>

text \<open>
  The growth of the running sum: each addition may round up by a factor of at most
  \<open>1 + 2 ^ -53\<close>, and \<open>(1 + x) ^ n \<le> 1 / (1 - n x)\<close> bounds what that amounts to.
\<close>

lemma power_growth:
  fixes x :: rat
  assumes "0 \<le> x" and "of_nat n * x \<le> 1"
  shows "(1 + x) ^ n * (1 - of_nat n * x) \<le> 1"
  using assms(2)
proof (induction n)
  case (Suc n)
  have n: "of_nat n * x \<le> 1" using Suc.prems assms(1) by (simp add: distrib_right)
  have "(1 + x) ^ Suc n * (1 - of_nat (Suc n) * x)
      = (1 + x) ^ n * (1 - of_nat n * x - (of_nat n * x\<^sup>2 + x\<^sup>2))"
    by (simp add: algebra_simps power2_eq_square)
  also have "\<dots> \<le> (1 + x) ^ n * (1 - of_nat n * x)"
  proof (intro mult_left_mono)
    have "0 \<le> of_nat n * x\<^sup>2 + x\<^sup>2" by simp
    then show "1 - of_nat n * x - (of_nat n * x\<^sup>2 + x\<^sup>2) \<le> 1 - of_nat n * x" by linarith
  qed (use assms(1) in simp)
  also have "\<dots> \<le> 1" using Suc.IH n by simp
  finally show ?case .
qed simp

definition growth :: rat where
  "growth = 1 + 1 / 2 ^ 53"

lemma growth_bound: "n \<le> 2 ^ 52 \<Longrightarrow> growth ^ n \<le> 2"
proof -
  assume n: "n \<le> 2 ^ 52"
  then have "(of_nat n :: rat) \<le> of_nat (2 ^ 52)" by (simp only: of_nat_le_iff)
  then have h: "of_nat n * (1 / 2 ^ 53) \<le> (1 / 2 :: rat)" by simp
  then have "(1 + 1 / 2 ^ 53) ^ n * (1 - of_nat n * (1 / 2 ^ 53)) \<le> (1::rat)"
    by (intro power_growth) auto
  moreover have "(1 + 1 / 2 ^ 53) ^ n * (1 / 2) \<le> (1 + 1 / 2 ^ 53) ^ n * (1 - of_nat n * (1 / 2 ^ 53 :: rat))"
    using h by (intro mult_left_mono) auto
  ultimately have "(1 + 1 / 2 ^ 53) ^ n * (1 / 2) \<le> (1 :: rat)" by (rule order_trans [rotated])
  then have "growth ^ n * (1 / 2) \<le> 1" by (simp only: growth_def)
  then show "growth ^ n \<le> 2" by simp
qed

lemma round64_growth:
  assumes "0 \<le> x" and "x \<le> 2 ^ 1000"
  shows "\<exists>y. round64 x = Fin y \<and> 0 \<le> y \<and> y \<le> x * growth + 1"
proof -
  obtain y where y: "round64 x = Fin y" using round64_finite [of x] assms by auto
  have m: "y = round_magnitude x" using y assms(1) by (auto simp: round64_def Let_def split: if_splits)
  have "round_magnitude x \<le> x * growth + 1"
  proof (cases "x = 0")
    case False
    with assms have x: "0 < x" by simp
    have "pow2 (rat_exponent x - 52) = pow2 (rat_exponent x) / 2 ^ 52"
      using pow2_diff [of "rat_exponent x" 52] by (simp add: pow2_def [of 52] field_simps)
    then have "pow2 (rat_exponent x - 52) \<le> x / 2 ^ 52"
      using rat_exponent_bounds(1) [OF x] by (simp add: divide_right_mono)
    moreover have "pow2 (-1074) \<le> 2" by (simp add: pow2_def)
    ultimately have "pow2 (max (rat_exponent x - 52) (-1074)) \<le> x / 2 ^ 52 + 2"
      using x by (simp add: max_def add_increasing add_increasing2)
    moreover have "m \<le> x + b / 2" if "p \<le> b" "\<bar>m - x\<bar> \<le> p / 2" for m p b :: rat
      using that by linarith
    ultimately have "round_magnitude x \<le> x + (x / 2 ^ 52 + 2) / 2" using round_magnitude_error [OF x] by blast
    moreover have "x + (x / 2 ^ 52 + 2) / 2 = x * growth + 1" by (simp add: growth_def field_simps)
    ultimately show ?thesis by simp
  qed (simp add: round_magnitude_def growth_def)
  moreover have "0 \<le> y" using m round_magnitude_nonneg [OF assms(1)] by simp
  ultimately show ?thesis using y m by blast
qed

definition sigma_bound :: rat where
  "sigma_bound = 10 ^ 12"

context decimal_float begin

lemma variance_term:
  assumes "0 \<le> val (sr_weight s)" "val (sr_weight s) \<le> 1" "\<bar>val (sr_sigma_1d s)\<bar> \<le> sigma_bound"
  obtains c where "fl_mul (fl_mul (float_of_dec F (sr_weight s)) (float_of_dec F (sr_weight s)))
      (fl_mul (float_of_dec F (sr_sigma_1d s)) (float_of_dec F (sr_sigma_1d s))) = Fin c"
    "0 \<le> c" "c \<le> 10 ^ 30"
proof -
  have big: "sigma_bound \<le> 2 ^ 1000" "1 \<le> (2 :: rat) ^ 1000" by (simp_all add: sigma_bound_def)
  have "\<bar>val (sr_weight s)\<bar> \<le> 2 ^ 1000" using assms(1,2) big(2) by (simp only: abs_of_nonneg)
  then obtain w where w0: "round64 (val (sr_weight s)) = Fin w" "\<bar>w\<bar> \<le> 2 * \<bar>val (sr_weight s)\<bar> + 1"
    by (rule round64_finite)
  have w: "float_of_dec F (sr_weight s) = Fin w" "\<bar>w\<bar> \<le> 3"
    using w0 assms(1,2) by (simp_all add: float_of_dec_nearest)
  have "\<bar>val (sr_sigma_1d s)\<bar> \<le> 2 ^ 1000" using assms(3) big(1) by (rule order_trans)
  then obtain g where g0: "round64 (val (sr_sigma_1d s)) = Fin g" "\<bar>g\<bar> \<le> 2 * \<bar>val (sr_sigma_1d s)\<bar> + 1"
    by (rule round64_finite)
  have g: "float_of_dec F (sr_sigma_1d s) = Fin g" "\<bar>g\<bar> \<le> 3 * 10 ^ 12"
    using g0 assms(3) by (simp_all add: float_of_dec_nearest sigma_bound_def)
  have sq: "x * x \<le> b * b" if "\<bar>x\<bar> \<le> b" for x b :: rat
    using abs_le_square_iff [of x b] that by (simp add: power2_eq_square)
  have w1: "0 \<le> w * w" "w * w \<le> 9" using sq [OF w(2)] by simp_all
  have g1: "0 \<le> g * g" "g * g \<le> 9 * 10 ^ 24" using sq [OF g(2)] by simp_all
  have gr: "growth \<le> 2" by (simp add: growth_def)
  have mono: "x * growth + 1 \<le> b * 2 + 1" if "0 \<le> x" "x \<le> b" for x b
    using mult_mono [OF that(2) gr] that by (simp add: growth_def)
  obtain w2 where w2: "round64 (w * w) = Fin w2" "0 \<le> w2" "w2 \<le> 19"
    using round64_growth [of "w * w"] mono [OF w1] w1 by fastforce
  obtain g2 where g2: "round64 (g * g) = Fin g2" "0 \<le> g2" "g2 \<le> 2 * 10 ^ 25"
    using round64_growth [of "g * g"] mono [OF g1] g1 by fastforce
  have p: "0 \<le> w2 * g2" "w2 * g2 \<le> 19 * (2 * 10 ^ 25)"
    using w2 g2 mult_mono [of w2 19 g2 "2 * 10 ^ 25"] by simp_all
  obtain c where "round64 (w2 * g2) = Fin c" "0 \<le> c" "c \<le> 10 ^ 30"
    using round64_growth [of "w2 * g2"] mono [OF p] p by fastforce
  with w g w2 g2 show thesis by (intro that) simp_all
qed

lemma variance_sum_bound:
  assumes "\<forall>s\<in>set ss. 0 \<le> val (sr_weight s) \<and> val (sr_weight s) \<le> 1 \<and> \<bar>val (sr_sigma_1d s)\<bar> \<le> sigma_bound"
    and "0 \<le> a" "a \<le> 2 * 10 ^ 30 * of_nat k * growth ^ k" and "k + length ss \<le> 2 ^ 52"
  shows "\<exists>y. weighted_variance_sum F ss (Fin a) = Fin y \<and> 0 \<le> y"
  using assms
proof (induction ss arbitrary: a k)
  case (Cons s ss)
  obtain c where c: "fl_mul (fl_mul (float_of_dec F (sr_weight s)) (float_of_dec F (sr_weight s)))
      (fl_mul (float_of_dec F (sr_sigma_1d s)) (float_of_dec F (sr_sigma_1d s))) = Fin c"
    "0 \<le> c" "c \<le> 10 ^ 30"
    using variance_term [of s] Cons.prems(1) by auto
  have g1: "1 \<le> growth" by (simp add: growth_def)
  have gk: "growth ^ k \<le> 2" "1 \<le> growth ^ k" "growth ^ Suc k \<ge> 1"
    using growth_bound [of k] Cons.prems(4) g1 by (simp_all add: one_le_power del: power_Suc)
  have kb: "(of_nat k :: rat) \<le> of_nat (2 ^ 52)" using Cons.prems(4) by (simp only: of_nat_le_iff)
  have "2 * 10 ^ 30 * of_nat k * growth ^ k \<le> (2 * 10 ^ 30 * of_nat (2 ^ 52)) * 2"
    using kb gk by (intro mult_mono) auto
  then have small: "a + c \<le> 2 ^ 1000" using Cons.prems(3) c(3) by simp
  obtain y where y: "round64 (a + c) = Fin y" "0 \<le> y" "y \<le> (a + c) * growth + 1"
    using round64_growth [of "a + c"] small Cons.prems(2) c(2) by auto
  have "(a + c) * growth + 1 \<le> 2 * 10 ^ 30 * of_nat (Suc k) * growth ^ Suc k"
  proof -
    have "(a + c) * growth + 1 \<le> (2 * 10 ^ 30 * of_nat k * growth ^ k + 10 ^ 30) * growth + 10 ^ 30 * growth"
      using Cons.prems(3) c(3) g1 by (intro add_mono mult_right_mono) auto
    also have "\<dots> = 2 * 10 ^ 30 * of_nat k * growth ^ Suc k + 2 * 10 ^ 30 * growth"
      by (simp add: algebra_simps)
    also have "\<dots> \<le> 2 * 10 ^ 30 * of_nat k * growth ^ Suc k + 2 * 10 ^ 30 * growth ^ Suc k"
      using gk(2) g1 mult_right_mono [OF gk(2), of growth] by (simp add: mult.commute)
    finally show ?thesis by (simp add: algebra_simps)
  qed
  with y Cons.prems Cons.IH [of y "Suc k"] c show ?case by simp
qed simp

lemma sigma_portfolio_ok:
  assumes "\<forall>s\<in>set ss. 0 \<le> val (sr_weight s) \<and> val (sr_weight s) \<le> 1 \<and> \<bar>val (sr_sigma_1d s)\<bar> \<le> sigma_bound"
    and "length ss \<le> 2 ^ 52"
  shows "\<exists>d. sigma_portfolio_uncorrelated D F ss = Inr d \<and> 0 \<le> val d"
proof (cases "ss = []")
  case False
  obtain y where y: "weighted_variance_sum F ss (Fin 0) = Fin y" "0 \<le> y"
    using variance_sum_bound [of ss 0 0] assms by auto
  obtain r where r: "fl_sqrt (Fin y) = Fin r" "0 \<le> r" using fl_sqrt_nonneg [OF y(2)] by blast
  obtain d where "dec_of_float F (Fin r) = Some d" "0 \<le> val d" using dec_of_float_fin r(2) by blast
  then show ?thesis using False y r by (simp add: sigma_portfolio_uncorrelated_def del: fl_sqrt.simps)
qed (simp add: sigma_portfolio_uncorrelated_def vals)

end

text \<open>The order of the concentration list: heavier first, ties by symbol.\<close>

definition heavier :: "('d \<Rightarrow> rat) \<Rightarrow> 'd symbol_risk \<Rightarrow> 'd symbol_risk \<Rightarrow> bool" where
  "heavier val a b \<longleftrightarrow> val (sr_weight b) < val (sr_weight a) \<or>
     val (sr_weight a) = val (sr_weight b) \<and> sr_symbol a \<le> sr_symbol b"

section \<open>Snapshots\<close>

context decimal_laws begin

lemma z_score95_val: "val (z_score95 D) = 1645 / 1000"
proof -
  have "\<exists>e. d_parse D (''1'' @ CHR ''.'' # ''645'') = Some e \<and>
      val e = of_nat (digits_value (''1'' @ ''645'')) / 10 ^ length ''645''"
    by (rule parse_decimal) (simp_all add: is_digit_def)
  then show ?thesis
    by (auto simp: z_score95_def require_from_string_def digits_value_def char_digit_def)
qed

lemma snapshot_rows:
  assumes "build_snapshot D F i = Inr s"
  shows "sorted (map sr_symbol (rs_exposure_by_symbol s))"
    and "mset (map (\<lambda>r. (sr_symbol r, val (sr_exposure r))) (rs_exposure_by_symbol s)) =
      mset (map (\<lambda>p. (pi_symbol p, exposure_of val i p)) (priced_positions i))"
    and "val (rs_total_market_value s) = sum_list (map (exposure_of val i) (priced_positions i))"
    and "\<forall>r\<in>set (rs_exposure_by_symbol s). val (sr_weight r) =
      (if 0 < val (rs_total_market_value s)
       then round_away 16 (val (sr_exposure r) / val (rs_total_market_value s)) else 0)"
    and "rs_unpriced_symbols s = sort (map pi_symbol (filter (\<lambda>p. map_of (ri_prices i) (pi_symbol p) = None) (ri_positions i)))"
proof -
  obtain st where st: "collect_exposure D i (ri_positions i)
      \<lparr>es_exposure = [], es_unpriced = [], es_total = d_zero D\<rparr> = Inr st"
    and s: "rs_total_market_value s = es_total st" "rs_unpriced_symbols s = sort (es_unpriced st)"
    and rel: "list_all2 (\<lambda>a b. sr_symbol b = sr_symbol a \<and> sr_exposure b = sr_exposure a \<and>
       sr_sigma_1d b = sr_sigma_1d a \<and> val (sr_weight b) = (if 0 < val (es_total st)
         then round_away 16 (val (sr_exposure a) / val (es_total st)) else val (sr_weight a)))
       (sort_by (\<lambda>a b. sr_symbol a < sr_symbol b) (es_exposure st)) (rs_exposure_by_symbol s)"
    by (rule build_snapshot_rows [OF assms])
  let ?sorted = "sort_by (\<lambda>a b. sr_symbol a < sr_symbol b) (es_exposure st)"
  have m: "map f (rs_exposure_by_symbol s) = map f ?sorted"
    if "\<And>a b. sr_symbol b = sr_symbol a \<Longrightarrow> sr_exposure b = sr_exposure a \<Longrightarrow> f b = f a"
    for f :: "'d symbol_risk \<Rightarrow> 'z"
    using rel by (induction rule: list_all2_induct) (auto intro: that)
  note c = collect_exposure_ok [OF st]
  have ex: "map (\<lambda>s. (sr_symbol s, val (sr_exposure s))) (es_exposure st) =
      map (\<lambda>p. (pi_symbol p, exposure_of val i p)) (priced_positions i)"
    using c by (simp add: priced_positions_def)
  have "map sr_symbol (rs_exposure_by_symbol s) = map sr_symbol ?sorted" by (rule m) simp
  then show "sorted (map sr_symbol (rs_exposure_by_symbol s))" by (simp only: sorted_sort_by_key)
  have pm: "map (\<lambda>r. (sr_symbol r, val (sr_exposure r))) (rs_exposure_by_symbol s) =
      map (\<lambda>r. (sr_symbol r, val (sr_exposure r))) ?sorted" by (rule m) simp
  show "mset (map (\<lambda>r. (sr_symbol r, val (sr_exposure r))) (rs_exposure_by_symbol s)) =
      mset (map (\<lambda>p. (pi_symbol p, exposure_of val i p)) (priced_positions i))"
    unfolding pm by (simp flip: ex)
  have "map (\<lambda>s. val (sr_exposure s)) (es_exposure st) = map (exposure_of val i) (priced_positions i)"
    using arg_cong [OF ex, of "map snd"] by (simp add: comp_def)
  then show "val (rs_total_market_value s) = sum_list (map (exposure_of val i) (priced_positions i))"
    using c by (simp add: s total_exposure_def vals)
  have "\<forall>r\<in>set ?sorted. val (sr_weight r) = 0"
    using collect_exposure_rows [OF st] by simp
  with rel show "\<forall>r\<in>set (rs_exposure_by_symbol s). val (sr_weight r) =
      (if 0 < val (rs_total_market_value s)
       then round_away 16 (val (sr_exposure r) / val (rs_total_market_value s)) else 0)"
    unfolding s by (induction rule: list_all2_induct) auto
  show "rs_unpriced_symbols s = sort (map pi_symbol (filter (\<lambda>p. map_of (ri_prices i) (pi_symbol p) = None) (ri_positions i)))"
    using c by (simp add: s)
qed

lemma exposure_of_nonneg: "0 \<le> exposure_of val i p"
  by (simp add: exposure_of_def split: option.splits)

lemma snapshot_exposure_share:
  assumes "build_snapshot D F i = Inr s" and "r \<in> set (rs_exposure_by_symbol s)"
  shows "0 \<le> val (sr_exposure r)" "val (sr_exposure r) \<le> val (rs_total_market_value s)"
proof -
  have "(sr_symbol r, val (sr_exposure r)) \<in> set (map (\<lambda>r. (sr_symbol r, val (sr_exposure r))) (rs_exposure_by_symbol s))"
    using assms(2) by simp
  then have "(sr_symbol r, val (sr_exposure r)) \<in> set (map (\<lambda>p. (pi_symbol p, exposure_of val i p)) (priced_positions i))"
    using mset_eq_setD [OF snapshot_rows(2) [OF assms(1)]] by simp
  then obtain p where p: "p \<in> set (priced_positions i)" "val (sr_exposure r) = exposure_of val i p" by auto
  then show "0 \<le> val (sr_exposure r)" by (simp add: exposure_of_nonneg)
  have "exposure_of val i p \<le> sum_list (map (exposure_of val i) (priced_positions i))"
    using p(1) exposure_of_nonneg by (intro member_le_sum_list) auto
  then show "val (sr_exposure r) \<le> val (rs_total_market_value s)"
    using snapshot_rows(3) [OF assms(1)] p(2) by simp
qed

lemma snapshot_weight_range:
  assumes "build_snapshot D F i = Inr s" and "r \<in> set (rs_exposure_by_symbol s)"
  shows "0 \<le> val (sr_weight r) \<and> val (sr_weight r) \<le> 1"
proof (cases "0 < val (rs_total_market_value s)")
  case True
  let ?x = "val (sr_exposure r) / val (rs_total_market_value s)"
  have "0 \<le> ?x" "?x \<le> 1" using snapshot_exposure_share [OF assms] True by simp_all
  then show ?thesis
    using snapshot_rows(4) [OF assms(1)] assms(2) True
    by (simp add: round_away_nonneg round_away_le_one)
next
  case False
  then show ?thesis using snapshot_rows(4) [OF assms(1)] assms(2) by simp
qed

lemma snapshot_weight_sum:
  assumes "build_snapshot D F i = Inr s" and "0 < val (rs_total_market_value s)"
  shows "\<bar>sum_list (map (\<lambda>r. val (sr_weight r)) (rs_exposure_by_symbol s)) - 1\<bar>
    \<le> of_nat (length (rs_exposure_by_symbol s)) * div_eps"
proof -
  let ?rows = "rs_exposure_by_symbol s" and ?t = "val (rs_total_market_value s)"
  have "map (\<lambda>r. val (sr_weight r)) ?rows = map (\<lambda>r. round_away 16 (val (sr_exposure r) / ?t)) ?rows"
    using snapshot_rows(4) [OF assms(1)] assms(2) by simp
  moreover have "sum_list (map (\<lambda>r. val (sr_exposure r) / ?t) ?rows) = 1"
  proof -
    have "image_mset snd (mset (map (\<lambda>r. (sr_symbol r, val (sr_exposure r))) ?rows)) =
        image_mset snd (mset (map (\<lambda>p. (pi_symbol p, exposure_of val i p)) (priced_positions i)))"
      by (rule arg_cong [OF snapshot_rows(2) [OF assms(1)]])
    then have m: "mset (map (\<lambda>r. val (sr_exposure r)) ?rows) = mset (map (exposure_of val i) (priced_positions i))"
      by (simp add: image_mset.compositionality comp_def)
    have "sum_list (map (\<lambda>r. val (sr_exposure r)) ?rows) = ?t"
      using sum_list_mset_cong [OF m, of "\<lambda>x. x"] snapshot_rows(3) [OF assms(1)] by simp
    then have "sum_list (map (\<lambda>r. val (sr_exposure r)) ?rows) / ?t = 1" using assms(2) by simp
    then show ?thesis by (simp only: sum_list_quotient)
  qed
  ultimately show ?thesis
    using sum_list_rounded [of "\<lambda>r. val (sr_exposure r) / ?t" ?rows] by (simp only:)
qed

lemma snapshot_hhi_bounds:
  assumes "build_snapshot D F i = Inr s" and "0 < val (rs_total_market_value s)"
  defines "n \<equiv> of_nat (length (rs_exposure_by_symbol s)) :: rat"
  shows "val (rs_hhi s) \<le> 1 + n * div_eps"
    and "n * div_eps \<le> 1 \<Longrightarrow> (1 - n * div_eps)\<^sup>2 \<le> n * val (rs_hhi s)"
proof -
  let ?rows = "rs_exposure_by_symbol s"
  let ?w = "\<lambda>r. val (sr_weight r)"
  have "rs_hhi s = risk_hhi D ?rows" by (rule build_snapshot_rows [OF assms(1)])
  then have h: "val (rs_hhi s) = sum_list (map (\<lambda>r. (?w r)\<^sup>2) ?rows)"
    by (simp only: risk_hhi_val)
  have sum: "\<bar>sum_list (map ?w ?rows) - 1\<bar> \<le> n * div_eps"
    unfolding n_def by (rule snapshot_weight_sum [OF assms(1,2)])
  have "sum_list (map (\<lambda>r. (?w r)\<^sup>2) ?rows) \<le> sum_list (map ?w ?rows)"
  proof (rule sum_list_mono)
    fix r
    assume "r \<in> set ?rows"
    from snapshot_weight_range [OF assms(1) this] show "(?w r)\<^sup>2 \<le> ?w r"
      by (simp add: power2_eq_square mult_left_le)
  qed
  with h sum show "val (rs_hhi s) \<le> 1 + n * div_eps" by linarith
  assume "n * div_eps \<le> 1"
  then have "(1 - n * div_eps)\<^sup>2 \<le> (sum_list (map ?w ?rows))\<^sup>2"
    using sum by (intro power_mono) linarith+
  also have "\<dots> \<le> n * val (rs_hhi s)" unfolding h n_def by (rule sum_list_squares)
  finally show "(1 - n * div_eps)\<^sup>2 \<le> n * val (rs_hhi s)" .
qed

lemma top_by_weight_sorted:
  "sorted_wrt (heavier val) (sort_by (weight_before D) rows)"
proof -
  have not_before: "\<not> weight_before D b a \<longleftrightarrow> heavier val a b" for a b
    by (auto simp: weight_before_def heavier_def vals not_less)
  have "sorted_wrt (\<lambda>a b. \<not> weight_before D b a) (sort_by (weight_before D) rows)"
  proof (rule sorted_sort_by)
    show "\<not> weight_before D c a" if "\<not> weight_before D b a" "\<not> weight_before D c b" for a b c
      using that unfolding not_before by (auto simp: heavier_def)
    show "\<not> weight_before D b a" if "weight_before D a b" for a b
      using that unfolding not_before by (auto simp: weight_before_def heavier_def vals split: if_splits)
  qed
  then show ?thesis by (simp only: not_before)
qed

lemma top_by_weight_take:
  "0 < n \<Longrightarrow> top_by_weight D rows n = take (nat n) (sort_by (weight_before D) rows)"
  by (auto simp: top_by_weight_def Let_def sort_by_def)

end

lemma normalize_top_n_range: "1 \<le> normalize_top_n n \<and> normalize_top_n n \<le> 50"
  by (simp add: normalize_top_n_def default_top_n_def max_top_n_def)

context decimal_float begin

lemma build_snapshot_total:
  assumes "\<forall>p\<in>set (priced_positions i). \<exists>g. map_of (ri_sigma_1d i) (pi_symbol p) = Some g"
    and "\<forall>g\<in>ran (map_of (ri_sigma_1d i)). \<bar>val g\<bar> \<le> sigma_bound"
    and "length (ri_positions i) \<le> 2 ^ 52"
  shows "\<exists>s. build_snapshot D F i = Inr s \<and> 0 \<le> val (rs_sigma_1d_portfolio s)"
proof -
  let ?z = "\<lparr>es_exposure = [], es_unpriced = [], es_total = d_zero D\<rparr>"
  obtain st where st: "collect_exposure D i (ri_positions i) ?z = Inr st"
  proof (cases "collect_exposure D i (ri_positions i) ?z")
    case (Inl e)
    then have "\<exists>p\<in>set (ri_positions i). map_of (ri_prices i) (pi_symbol p) \<noteq> None \<and>
        map_of (ri_sigma_1d i) (pi_symbol p) = None"
      using collect_exposure_error [of i "ri_positions i" ?z] by blast
    with assms(1) show thesis by (auto simp: priced_positions_def)
  qed (rule that)
  let ?sorted = "sort_by (\<lambda>a b. sr_symbol a < sr_symbol b) (es_exposure st)"
  note c = collect_exposure_ok [OF st]
  have sg: "\<forall>r\<in>set (es_exposure st). map_of (ri_sigma_1d i) (sr_symbol r) = Some (sr_sigma_1d r) \<and>
      val (sr_weight r) = 0" using collect_exposure_rows [OF st] by simp
  then have sb: "\<bar>val (sr_sigma_1d r)\<bar> \<le> sigma_bound" if "r \<in> set (es_exposure st)" for r
    using that assms(2) by (auto intro: ranI)
  have len: "length (es_exposure st) \<le> length (ri_positions i)"
    using arg_cong [OF conjunct1 [OF c], of length] by simp
  have tot: "val (es_total st) = total_exposure val (es_exposure st)" using c by (simp add: total_exposure_def vals)
  have enn: "0 \<le> val (sr_exposure r)" if "r \<in> set (es_exposure st)" for r
  proof -
    have "(sr_symbol r, val (sr_exposure r)) \<in> set (map (\<lambda>s. (sr_symbol s, val (sr_exposure s))) (es_exposure st))"
      using that by simp
    then show ?thesis unfolding conjunct1 [OF c] by (auto simp: exposure_of_nonneg)
  qed
  have ele: "val (sr_exposure r) \<le> val (es_total st)" if "r \<in> set (es_exposure st)" for r
    unfolding tot total_exposure_def using that enn by (intro member_le_sum_list) auto
  obtain rows where rows: "(if d_less D (d_zero D) (es_total st)
      then set_weights D (es_total st) ?sorted else Inr ?sorted) = Inr rows"
    and ok: "\<forall>r\<in>set rows. 0 \<le> val (sr_weight r) \<and> val (sr_weight r) \<le> 1 \<and> \<bar>val (sr_sigma_1d r)\<bar> \<le> sigma_bound"
    and lr: "length rows = length (es_exposure st)"
  proof (cases "0 < val (es_total st)")
    case False
    with sg sb show thesis by (intro that [of ?sorted]) (simp_all add: vals)
  next
    case True
    then have "val (es_total st) \<noteq> 0" by simp
    then obtain rows where r: "set_weights D (es_total st) ?sorted = Inr rows"
      "list_all2 (\<lambda>s s'. sr_symbol s' = sr_symbol s \<and> sr_exposure s' = sr_exposure s \<and>
       sr_sigma_1d s' = sr_sigma_1d s \<and>
       val (sr_weight s') = round_away 16 (val (sr_exposure s) / val (es_total st))) ?sorted rows"
      by (rule set_weights_ok)
    have "\<forall>r\<in>set rows. 0 \<le> val (sr_weight r) \<and> val (sr_weight r) \<le> 1 \<and> \<bar>val (sr_sigma_1d r)\<bar> \<le> sigma_bound"
    proof
      fix r
      assume "r \<in> set rows"
      then obtain k where k: "k < length rows" "rows ! k = r" by (auto simp: in_set_conv_nth)
      define a where "a = ?sorted ! k"
      have a: "a \<in> set ?sorted" "sr_sigma_1d r = sr_sigma_1d a"
        "val (sr_weight r) = round_away 16 (val (sr_exposure a) / val (es_total st))"
        using list_all2_nthD2 [OF r(2) k(1)] list_all2_lengthD [OF r(2)] k
        by (simp_all add: a_def del: set_sort_by)
      have "0 \<le> val (sr_exposure a) / val (es_total st)" "val (sr_exposure a) / val (es_total st) \<le> 1"
        using enn ele a(1) True by simp_all
      then show "0 \<le> val (sr_weight r) \<and> val (sr_weight r) \<le> 1 \<and> \<bar>val (sr_sigma_1d r)\<bar> \<le> sigma_bound"
        using a sb by (simp add: round_away_nonneg round_away_le_one)
    qed
    with r True show thesis by (intro that [of rows]) (auto simp: vals dest: list_all2_lengthD)
  qed
  have "length rows \<le> 2 ^ 52" using lr len assms(3) by linarith
  then obtain d where "sigma_portfolio_uncorrelated D F rows = Inr d" "0 \<le> val d"
    using sigma_portfolio_ok [OF ok] by blast
  with st rows show ?thesis by (simp add: build_snapshot_def Let_def)
qed

end

section \<open>Properties\<close>

definition ex_risk_input :: "rdec risk_input" where
  "ex_risk_input = \<lparr>ri_positions = [\<lparr>pi_symbol = ''MSFT'', pi_quantity = RDec 1 0\<rparr>,
       \<lparr>pi_symbol = ''AAPL'', pi_quantity = RDec 3 0\<rparr>, \<lparr>pi_symbol = ''TSLA'', pi_quantity = RDec 9 0\<rparr>],
     ri_prices = [(''MSFT'', RDec 100 0), (''AAPL'', RDec 100 0)],
     ri_sigma_1d = [(''MSFT'', RDec 1 2), (''AAPL'', RDec 2 2)], ri_top_n = 1\<rparr>"

lemma ex_risk_builds: "\<exists>s. build_snapshot ref_dec ref_float ex_risk_input = Inr s"
proof -
  have "\<forall>p\<in>set (priced_positions ex_risk_input). \<exists>g. map_of (ri_sigma_1d ex_risk_input) (pi_symbol p) = Some g"
    by (simp add: priced_positions_def ex_risk_input_def)
  moreover have "\<forall>g\<in>ran (map_of (ri_sigma_1d ex_risk_input)). \<bar>rval g\<bar> \<le> sigma_bound"
    by (auto simp: ex_risk_input_def ran_def rval_def sigma_bound_def split: if_splits)
  ultimately show ?thesis
    using reff.build_snapshot_total [of ex_risk_input] by (auto simp: ex_risk_input_def)
qed

lemma ex_risk_total:
  assumes "build_snapshot ref_dec ref_float ex_risk_input = Inr s"
  shows "rval (rs_total_market_value s) = 400"
  using ref.snapshot_rows(3) [OF assms]
  by (simp add: ex_risk_input_def priced_positions_def exposure_of_def rval_def)

text \<open>
  (C30) Exposures and weights of a snapshot: one row per priced position, in symbol order, with the
  exposure |quantity * price|; the market value is their sum; every weight lies between 0 and 1
  and, when the market value is positive, is the exposure's share rounded to 16 places, so that
  the weights add up to 1 within half a unit of the 16th place per row.
\<close>

theorem risk_exposures_and_weights:
  assumes "decimal_laws D val" and "build_snapshot D F i = Inr s"
  shows "sorted (map sr_symbol (rs_exposure_by_symbol s)) \<and>
    mset (map (\<lambda>r. (sr_symbol r, val (sr_exposure r))) (rs_exposure_by_symbol s)) =
      mset (map (\<lambda>p. (pi_symbol p, exposure_of val i p)) (priced_positions i)) \<and>
    val (rs_total_market_value s) = sum_list (map (exposure_of val i) (priced_positions i)) \<and>
    (\<forall>r\<in>set (rs_exposure_by_symbol s). 0 \<le> val (sr_weight r) \<and> val (sr_weight r) \<le> 1 \<and>
       val (sr_weight r) = (if 0 < val (rs_total_market_value s)
         then round_away 16 (val (sr_exposure r) / val (rs_total_market_value s)) else 0)) \<and>
    (0 < val (rs_total_market_value s) \<longrightarrow>
       \<bar>sum_list (map (\<lambda>r. val (sr_weight r)) (rs_exposure_by_symbol s)) - 1\<bar>
         \<le> of_nat (length (rs_exposure_by_symbol s)) * div_eps)"
  using decimal_laws.snapshot_rows(1-4) [OF assms] decimal_laws.snapshot_weight_range [OF assms]
    decimal_laws.snapshot_weight_sum [OF assms]
  by blast

theorem risk_exposures_and_weights_witness:
  "\<exists>s. build_snapshot ref_dec ref_float ex_risk_input = Inr s \<and> rval (rs_total_market_value s) = 400 \<and>
     length (rs_exposure_by_symbol s) = 2"
proof -
  obtain s where s: "build_snapshot ref_dec ref_float ex_risk_input = Inr s" using ex_risk_builds by blast
  have p: "priced_positions ex_risk_input = [\<lparr>pi_symbol = ''MSFT'', pi_quantity = RDec 1 0\<rparr>,
       \<lparr>pi_symbol = ''AAPL'', pi_quantity = RDec 3 0\<rparr>]"
    by (simp add: priced_positions_def ex_risk_input_def)
  have t: "rval (rs_total_market_value s) = sum_list (map (exposure_of rval ex_risk_input) (priced_positions ex_risk_input))"
    and m: "mset (map (\<lambda>r. (sr_symbol r, rval (sr_exposure r))) (rs_exposure_by_symbol s)) =
      mset (map (\<lambda>p. (pi_symbol p, exposure_of rval ex_risk_input p)) (priced_positions ex_risk_input))"
    using risk_exposures_and_weights [OF ref.decimal_laws_axioms s] by blast+
  have "rval (rs_total_market_value s) = 400"
    using t unfolding p by (simp add: exposure_of_def ex_risk_input_def rval_def)
  moreover have "length (rs_exposure_by_symbol s) = 2"
    using mset_eq_length [OF m] p by simp
  ultimately show ?thesis using s by blast
qed

text \<open>
  Concentration: for n priced positions of positive total value the Herfindahl index lies
  between 1 / n (up to the rounding of the weights) and 1 (likewise).
\<close>

theorem risk_hhi_bounds:
  assumes "decimal_laws D val" and "build_snapshot D F i = Inr s"
    and "0 < val (rs_total_market_value s)" and "of_nat (length (rs_exposure_by_symbol s)) * div_eps \<le> 1"
  shows "val (rs_hhi s) \<le> 1 + of_nat (length (rs_exposure_by_symbol s)) * div_eps \<and>
    (1 - of_nat (length (rs_exposure_by_symbol s)) * div_eps)\<^sup>2
      \<le> of_nat (length (rs_exposure_by_symbol s)) * val (rs_hhi s)"
  using decimal_laws.snapshot_hhi_bounds [OF assms(1-3)] assms(4) by simp

theorem risk_hhi_bounds_witness:
  "\<exists>s. build_snapshot ref_dec ref_float ex_risk_input = Inr s \<and> rval (rs_hhi s) \<le> 1 + 2 * div_eps \<and>
     (1 - 2 * div_eps)\<^sup>2 \<le> 2 * rval (rs_hhi s)"
proof -
  obtain s where s: "build_snapshot ref_dec ref_float ex_risk_input = Inr s" using ex_risk_builds by blast
  have p: "length (priced_positions ex_risk_input) = 2" by (simp add: priced_positions_def ex_risk_input_def)
  have n: "length (rs_exposure_by_symbol s) = 2"
    using mset_eq_length [OF ref.snapshot_rows(2) [OF s]] p by simp
  have "0 < rval (rs_total_market_value s)" using ex_risk_total [OF s] by simp
  from risk_hhi_bounds [OF ref.decimal_laws_axioms s this] n s show ?thesis
    by (auto simp: div_eps_def)
qed

text \<open>
  (C31) The concentration list holds the heaviest rows, heaviest first and ties by symbol: it is the
  prefix, of the length asked for (5 by default, at most 50), of the rows in that order.
\<close>

theorem risk_top_n_is_heaviest:
  assumes "decimal_laws D val" and "build_snapshot D F i = Inr s"
  shows "\<exists>rest. mset (rs_top_n s @ rest) = mset (rs_exposure_by_symbol s) \<and>
    sorted_wrt (heavier val) (rs_top_n s @ rest) \<and>
    length (rs_top_n s) = min (nat (normalize_top_n (ri_top_n i))) (length (rs_exposure_by_symbol s))"
proof -
  let ?n = "nat (normalize_top_n (ri_top_n i))"
  let ?l = "sort_by (weight_before D) (rs_exposure_by_symbol s)"
  have "rs_top_n s = top_by_weight D (rs_exposure_by_symbol s) (normalize_top_n (ri_top_n i))"
    by (rule decimal_laws.build_snapshot_rows [OF assms])
  also have "\<dots> = take ?n ?l"
    using normalize_top_n_range [of "ri_top_n i"] by (intro decimal_laws.top_by_weight_take [OF assms(1)]) simp
  finally have top: "rs_top_n s = take ?n ?l" .
  show ?thesis
    using decimal_laws.top_by_weight_sorted [OF assms(1), of "rs_exposure_by_symbol s"]
    by (intro exI [of _ "drop ?n ?l"]) (simp add: top min.commute)
qed

theorem risk_top_n_is_heaviest_witness:
  "\<exists>s. build_snapshot ref_dec ref_float ex_risk_input = Inr s \<and> length (rs_top_n s) = 1"
proof -
  obtain s where s: "build_snapshot ref_dec ref_float ex_risk_input = Inr s" using ex_risk_builds by blast
  have p: "length (priced_positions ex_risk_input) = 2" by (simp add: priced_positions_def ex_risk_input_def)
  have n: "length (rs_exposure_by_symbol s) = 2"
    using mset_eq_length [OF ref.snapshot_rows(2) [OF s]] p by simp
  show ?thesis using s n risk_top_n_is_heaviest [OF ref.decimal_laws_axioms s]
    by (auto simp: ex_risk_input_def normalize_top_n_def max_top_n_def)
qed

text \<open>
  (C32) The engine is total: with a sigma of at most 10^12 in magnitude for every priced position it
  always returns a snapshot. The variance never becomes negative, infinite or NaN, so neither the
  error branch of the volatility nor the panic of \<^verbatim>\<open>NewFromFloat\<close> is reached, and the value at
  risk is market value times volatility times 1.645 and not negative.
\<close>

theorem risk_snapshot_total:
  assumes "decimal_float D val F"
    and "\<forall>p\<in>set (priced_positions i). \<exists>g. map_of (ri_sigma_1d i) (pi_symbol p) = Some g"
    and "\<forall>g\<in>ran (map_of (ri_sigma_1d i)). \<bar>val g\<bar> \<le> sigma_bound"
    and "length (ri_positions i) \<le> 2 ^ 52"
  shows "\<exists>s. build_snapshot D F i = Inr s \<and> 0 \<le> val (rs_sigma_1d_portfolio s) \<and>
    val (rs_var_95_1d s) = val (rs_total_market_value s) * val (rs_sigma_1d_portfolio s) * (1645 / 1000) \<and>
    0 \<le> val (rs_var_95_1d s)"
proof -
  have D: "decimal_laws D val" using assms(1) by (simp add: decimal_float_def)
  obtain s where s: "build_snapshot D F i = Inr s" "0 \<le> val (rs_sigma_1d_portfolio s)"
    using decimal_float.build_snapshot_total [OF assms] by blast
  have "rs_var_95_1d s = d_mul D (d_mul D (rs_total_market_value s) (rs_sigma_1d_portfolio s)) (z_score95 D)"
    by (rule decimal_laws.build_snapshot_rows [OF D s(1)]) (simp only:)
  then have v: "val (rs_var_95_1d s) = val (rs_total_market_value s) * val (rs_sigma_1d_portfolio s) * (1645 / 1000)"
    by (simp only: decimal_laws.val_mul [OF D] decimal_laws.z_score95_val [OF D])
  have "0 \<le> val (rs_total_market_value s)"
    unfolding decimal_laws.snapshot_rows(3) [OF D s(1)]
    by (intro sum_list_nonneg) (auto simp: decimal_laws.exposure_of_nonneg [OF D])
  then have "0 \<le> val (rs_var_95_1d s)" unfolding v using s(2) by (intro mult_nonneg_nonneg) auto
  with s v show ?thesis by blast
qed

theorem risk_snapshot_total_witness:
  "\<exists>s. build_snapshot ref_dec ref_float ex_risk_input = Inr s \<and> 0 \<le> rval (rs_var_95_1d s)"
proof -
  have "\<forall>p\<in>set (priced_positions ex_risk_input). \<exists>g. map_of (ri_sigma_1d ex_risk_input) (pi_symbol p) = Some g"
    by (simp add: priced_positions_def ex_risk_input_def)
  moreover have "\<forall>g\<in>ran (map_of (ri_sigma_1d ex_risk_input)). \<bar>rval g\<bar> \<le> sigma_bound"
    by (auto simp: ex_risk_input_def ran_def rval_def sigma_bound_def split: if_splits)
  ultimately show ?thesis
    using risk_snapshot_total [OF reff.decimal_float_axioms, of ex_risk_input]
    by (auto simp: ex_risk_input_def)
qed

end
