(* ===== verification/Payload_Json.thy ===== *)
theory Payload_Json
  imports Domain_Model Decimal_Ref
begin

text \<open>
  The price payload as \<^verbatim>\<open>json.Marshal\<close> writes it, with the literal of its \<^verbatim>\<open>int64\<close> sequence
  number, and the proof that it is read back.
\<close>

definition int_literal :: "int \<Rightarrow> string" where
  "int_literal i = (if i < 0 then ''-'' else []) @ nat_string (nat \<bar>i\<bar>)"

definition encode_price :: "'d json_api \<Rightarrow> 'd price_payload \<Rightarrow> raw_message" where
  "encode_price J p = RawDoc (JObj [(''symbol'', JStr (p_symbol p)), (''price'', d_marshal J (p_price p)),
     (''currency'', JStr (p_currency p)), (''source_sequence'', JNum (int_literal (source_sequence p)))])"

definition int64 :: "int \<Rightarrow> bool" where
  "int64 i \<longleftrightarrow> - (2 ^ 63) \<le> i \<and> i < 2 ^ 63"

lemma digit_bounds: "is_digit c \<Longrightarrow> 48 \<le> (of_char c :: nat) \<and> (of_char c :: nat) \<le> 57"
  by (simp add: is_digit_def)

lemma foldl_digits:
  assumes "\<forall>c\<in>set ds. is_digit c"
  shows "foldl (\<lambda>v c. 10 * v + (int (of_char c) - 48)) (int a) ds = int (foldl (\<lambda>v c. 10 * v + char_digit c) a ds)"
  using assms
proof (induction ds arbitrary: a)
  case (Cons c ds)
  have "is_digit c" using Cons.prems by simp
  then have k: "48 \<le> (of_char c :: nat)" using digit_bounds by blast
  have "int (char_digit c) = int (of_char c) - 48"
    by (simp only: char_digit_def of_nat_diff [OF k] of_nat_numeral)
  then have "10 * int a + (int (of_char c) - 48) = int (10 * a + char_digit c)"
    by (simp only: of_nat_add of_nat_mult of_nat_numeral)
  moreover have "\<forall>c\<in>set ds. is_digit c" using Cons.prems by simp
  ultimately show ?case using Cons.IH [of "10 * a + char_digit c"] by (simp only: foldl_Cons)
qed simp

lemma parse_int_literal: "int64 i \<Longrightarrow> parse_int_literal (int_literal i) = Some i"
proof -
  assume i: "int64 i"
  let ?n = "nat \<bar>i\<bar>"
  have ds: "\<forall>c\<in>set (nat_string ?n). is_digit c" "nat_string ?n \<noteq> []" using nat_string_digits by auto
  have v: "foldl (\<lambda>v c. 10 * v + (int (of_char c) - 48)) 0 (nat_string ?n) = \<bar>i\<bar>"
    using foldl_digits [OF ds(1), of 0] digits_value_nat_string [of ?n] by (simp add: digits_value_def)
  have h: "hd (nat_string ?n) \<noteq> CHR ''-''" using ds digit_bounds [of "hd (nat_string ?n)"] by auto
  have d: "\<forall>c\<in>set (nat_string ?n). 48 \<le> (of_char c :: nat) \<and> (of_char c :: nat) \<le> 57"
    using ds(1) digit_bounds by blast
  show ?thesis
    using i v h d ds(2) by (cases "i < 0") (auto simp: parse_int_literal_def int_literal_def int64_def Let_def)
qed

lemma int_literal_ascii: "c \<in> set (int_literal i) \<Longrightarrow> 0 < (of_char c :: nat) \<and> (of_char c :: nat) < 128"
  using nat_string_digits [of "nat \<bar>i\<bar>"] by (auto simp: int_literal_def is_digit_def split: if_splits)

context decimal_json begin

lemma decode_encode_price:
  assumes "int64 (source_sequence p)"
  shows "\<exists>p'. decode_price D J (encode_price J p) = Some p' \<and> p_symbol p' = p_symbol p \<and>
     p_currency p' = p_currency p \<and> source_sequence p' = source_sequence p \<and> val (p_price p') = val (p_price p)"
proof -
  obtain q where q: "d_unmarshal J (d_marshal J (p_price p)) (d_zero D) = Some q"
    "val q = val (p_price p)" using unmarshal_marshal by blast
  show ?thesis using q parse_int_literal [OF assms]
    by (simp add: encode_price_def zero_price_def decode_price_member_def price_fields_def field_match_def)
qed

end

end
