(* ===== verification/Database.thy ===== *)
theory Database
  imports Aggregate Uuid Payload_Json
begin

text \<open>
  The world the store and the workers run in. PostgreSQL is outside the repository: what the
  SQL of \<^verbatim>\<open>internal/events/postgres.go\<close> asks of its scalar types (text to \<^verbatim>\<open>numeric\<close> and back,
  the normal form of \<^verbatim>\<open>jsonb\<close>, the resolution of \<^verbatim>\<open>timestamptz\<close>) is the record \<open>pg_api\<close> with
  the documented laws \<open>pg_laws\<close>; the tables of \<^verbatim>\<open>migrations/*.sql\<close> are lists of rows in the
  record \<open>db\<close>, and every statement is translated to an operation on them (\<open>Event_Store\<close>,
  \<open>Account_Store\<close>). A value of a \<^verbatim>\<open>numeric\<close> column is the rational it stands for.

  A \<open>world\<close> is the database, the wall clock of the process, the clock of the database server
  (\<^verbatim>\<open>NOW()\<close>), the portfolios handed to the risk scheduler, and the faults to come: each call of
  the store consumes one. \<open>FailBefore\<close> is an error before anything was committed,
  \<open>FailAfter\<close> a commit whose acknowledgement was lost: the caller sees an error, the data are
  in the database. Every operation is a function from the world to a result and a new world.
\<close>

section \<open>State-passing\<close>

type_synonym ('s, 'a) prog = "'s \<Rightarrow> 'a res \<times> 's"

definition ret :: "'a \<Rightarrow> ('s, 'a) prog" where
  "ret x s = (Inr x, s)"

definition throw :: "err \<Rightarrow> ('s, 'a) prog" where
  "throw e s = (Inl e, s)"

definition andthen :: "('s, 'a) prog \<Rightarrow> ('a \<Rightarrow> ('s, 'b) prog) \<Rightarrow> ('s, 'b) prog" where
  "andthen m f s = (case m s of (Inl e, s') \<Rightarrow> (Inl e, s') | (Inr x, s') \<Rightarrow> f x s')"

fun fold_res :: "('a \<Rightarrow> 's \<Rightarrow> 's res) \<Rightarrow> 'a list \<Rightarrow> 's \<Rightarrow> 's res" where
  "fold_res f [] s = Inr s"
| "fold_res f (x # xs) s = (case f x s of Inl e \<Rightarrow> Inl e | Inr s' \<Rightarrow> fold_res f xs s')"

lemma fold_res_append:
  "fold_res f (xs @ ys) s = (case fold_res f xs s of Inl e \<Rightarrow> Inl e | Inr s' \<Rightarrow> fold_res f ys s')"
  by (induction xs arbitrary: s) (auto split: sum.splits)

lemma fold_res_invariant:
  assumes "fold_res f xs s = Inr s'" and "P s"
    and "\<And>x s s'. x \<in> set xs \<Longrightarrow> P s \<Longrightarrow> f x s = Inr s' \<Longrightarrow> P s'"
  shows "P s'"
  using assms
proof (induction xs arbitrary: s)
  case (Cons x xs)
  then obtain s1 where "f x s = Inr s1" "fold_res f xs s1 = Inr s'" by (auto split: sum.splits)
  moreover have "P s1" using Cons.prems(2,3) calculation(1) by (meson list.set_intros(1))
  ultimately show ?case using Cons.IH Cons.prems(3) by (meson list.set_intros(2))
qed simp

lemma andthen_Inr: "andthen m f s = (Inr y, s'') \<longleftrightarrow> (\<exists>x s'. m s = (Inr x, s') \<and> f x s' = (Inr y, s''))"
  by (auto simp: andthen_def split: prod.splits sum.splits)

section \<open>Scalar types of PostgreSQL\<close>

record pg_api =
  pg_numeric :: "string \<Rightarrow> rat option"
  pg_text :: "nat \<Rightarrow> rat \<Rightarrow> string"
  pg_jsonb :: "json \<Rightarrow> json option"
  pg_time :: "time \<Rightarrow> time"
  pg_text_ok :: "string \<Rightarrow> bool"
  pg_sigma_text :: "rat list \<Rightarrow> string"

text \<open>
  \<^verbatim>\<open>numeric\<close> is exact decimal arithmetic, \<^verbatim>\<open>ROUND(x, n)\<close> and the assignment to a column of scale
  \<open>n\<close> round half away from zero; a value too large for \<^verbatim>\<open>NUMERIC(20, n)\<close> is an error.
\<close>

definition numeric_column :: "nat \<Rightarrow> rat \<Rightarrow> rat option" where
  "numeric_column n x = (let r = round_away n x in if \<bar>r\<bar> < 10 ^ (20 - n) then Some r else None)"

text \<open>
  The laws. Text of a decimal is read back exactly; a column value of scale \<open>n\<close> prints as text
  the decimal package reads back exactly. \<^verbatim>\<open>jsonb\<close> keeps strings, integer literals and the
  members of an object with distinct names, in an order of its own; it refuses a document with a
  string that is not text of the database (the character \<^verbatim>\<open>\u0000\<close>). \<^verbatim>\<open>timestamptz\<close> keeps microseconds: storing a
  stored instant changes nothing, and the order of instants is kept. ASCII text without the zero
  byte can be stored. The text of
  \<^verbatim>\<open>COALESCE(STDDEV_SAMP(...), 0)\<close> is a decimal that is not negative.
\<close>

locale pg_laws = decimal_laws D val
  for D :: "'d decimal_api" and val :: "'d \<Rightarrow> rat" +
  fixes P :: pg_api
  assumes numeric_of_string: "pg_numeric P (d_string D a) = Some (val a)"
    and parse_text: "round_away n r = r \<Longrightarrow> \<exists>e. d_parse D (pg_text P n r) = Some e \<and> val e = r"
    and jsonb_str: "pg_text_ok P s \<Longrightarrow> pg_jsonb P (JStr s) = Some (JStr s)"
    and jsonb_str_text: "pg_jsonb P (JStr s) = Some j \<Longrightarrow> pg_text_ok P s"
    and jsonb_obj_text: "pg_jsonb P (JObj ms) = Some j \<Longrightarrow>
      \<forall>m\<in>set ms. pg_text_ok P (fst m) \<and> pg_jsonb P (snd m) \<noteq> None"
    and jsonb_obj: "distinct (map fst ms) \<Longrightarrow> \<forall>m\<in>set ms. pg_text_ok P (fst m) \<Longrightarrow>
      \<forall>m\<in>set ms. \<exists>j. pg_jsonb P (snd m) = Some j \<Longrightarrow>
      \<exists>ms'. pg_jsonb P (JObj ms) = Some (JObj ms') \<and>
        mset ms' = mset (map (\<lambda>m. (fst m, the (pg_jsonb P (snd m)))) ms)"
    and jsonb_arr: "\<forall>j\<in>set js. \<exists>j'. pg_jsonb P j = Some j' \<Longrightarrow>
      pg_jsonb P (JArr js) = Some (JArr (map (\<lambda>j. the (pg_jsonb P j)) js))"
    and jsonb_int: "pg_jsonb P (JNum (int_literal i)) = Some (JNum (int_literal i))"
    and text_ascii: "\<forall>c\<in>set s. 0 < (of_char c :: nat) \<and> (of_char c :: nat) < 128 \<Longrightarrow> pg_text_ok P s"
    and time_zero: "pg_time P 0 = 0"
    and time_idem: "pg_time P (pg_time P t) = pg_time P t"
    and time_mono: "t \<le> u \<Longrightarrow> pg_time P t \<le> pg_time P u"
    and sigma_parse: "\<exists>e. d_parse D (pg_sigma_text P rs) = Some e \<and> 0 \<le> val e"

section \<open>A reference instance\<close>

text \<open>
  \<open>ref_pg\<close> is an instance for the reference decimals: exact \<^verbatim>\<open>numeric\<close>, \<^verbatim>\<open>jsonb\<close> that keeps the
  last of equal member names, microseconds, and a sample deviation to 16 decimals by integer
  square root.
\<close>

fun int_sqrt :: "nat \<Rightarrow> nat" where
  "int_sqrt n = (if n = 0 then 0
     else let r = 2 * int_sqrt (n div 4) in if (r + 1) * (r + 1) \<le> n then r + 1 else r)"

definition sample_variance :: "rat list \<Rightarrow> rat" where
  "sample_variance rs = (let n = of_nat (length rs); m = sum_list rs / n
     in if length rs < 2 then 0 else sum_list (map (\<lambda>r. (r - m) * (r - m)) rs) / (n - 1))"

fun last_members :: "(string \<times> json) list \<Rightarrow> (string \<times> json) list" where
  "last_members [] = []"
| "last_members (m # ms) = (if fst m \<in> fst ` set ms then last_members ms else m # last_members ms)"

fun ref_jsonb :: "json \<Rightarrow> json" where
  "ref_jsonb (JArr js) = JArr (map ref_jsonb js)"
| "ref_jsonb (JObj ms) = JObj (last_members (map (\<lambda>(k, j). (k, ref_jsonb j)) ms))"
| "ref_jsonb j = j"

fun text_json :: "json \<Rightarrow> bool" where
  "text_json (JStr s) = (char_of (0::nat) \<notin> set s)"
| "text_json (JArr js) = list_all text_json js"
| "text_json (JObj ms) = list_all (\<lambda>(k, j). char_of (0::nat) \<notin> set k \<and> text_json j) ms"
| "text_json j = True"

definition ref_pg :: pg_api where
  "ref_pg = \<lparr>pg_numeric = (\<lambda>s. map_option rval (rparse s)),
     pg_text = (\<lambda>n r. fixed_string (RDec \<lfloor>r * 10 ^ n\<rfloor> n)),
     pg_jsonb = (\<lambda>j. if text_json j then Some (ref_jsonb j) else None),
     pg_time = (\<lambda>t. t div 1000 * 1000),
     pg_text_ok = (\<lambda>s. char_of (0::nat) \<notin> set s),
     pg_sigma_text = (\<lambda>rs. fixed_string
       (RDec (int (int_sqrt (nat \<lfloor>sample_variance rs * 10 ^ 32\<rfloor>))) 16))\<rparr>"

declare int_sqrt.simps [simp del]

lemma last_members_distinct: "distinct (map fst ms) \<Longrightarrow> last_members ms = ms"
  by (induction ms) auto

lemma ref_pg_text:
  assumes "round_away n r = r"
  shows "rparse (fixed_string (RDec \<lfloor>r * 10 ^ n\<rfloor> n)) = Some (RDec \<lfloor>r * 10 ^ n\<rfloor> n)"
    and "rval (RDec \<lfloor>r * 10 ^ n\<rfloor> n) = r"
proof -
  obtain c where "r = of_int c / 10 ^ n" using round_away_int [of n r] assms by auto
  then have "r * 10 ^ n = of_int c" by simp
  then show "rval (RDec \<lfloor>r * 10 ^ n\<rfloor> n) = r" using \<open>r = _\<close> by (simp add: rval_RDec)
qed (rule rparse_fixed_string)

interpretation refp: pg_laws ref_dec rval ref_pg
proof (unfold_locales, goal_cases)
  case (1 a)
  then show ?case using ref.parse_string [of a] by (auto simp: ref_pg_def ref_dec_def)
next
  case (2 n r)
  then show ?case using ref_pg_text [of n r] by (simp add: ref_pg_def ref_dec_def)
next
  case (6 ms)
  have ok: "list_all (\<lambda>(k, j). char_of (0::nat) \<notin> set k \<and> text_json j) ms"
    using 6(2,3) by (auto simp: list_all_iff ref_pg_def split: if_splits)
  then have js: "\<forall>m\<in>set ms. text_json (snd m)" by (auto simp: list_all_iff)
  have "fst \<circ> (\<lambda>(k, j). (k, ref_jsonb j)) = (fst :: string \<times> json \<Rightarrow> string)"
    by (simp add: fun_eq_iff split_beta)
  then have "last_members (map (\<lambda>(k, j). (k, ref_jsonb j)) ms) = map (\<lambda>m. (fst m, ref_jsonb (snd m))) ms"
    using 6(1) by (subst last_members_distinct) (auto simp: split_beta)
  moreover have "map (\<lambda>m. (fst m, the (pg_jsonb ref_pg (snd m)))) ms = map (\<lambda>m. (fst m, ref_jsonb (snd m))) ms"
    using js by (auto simp: ref_pg_def)
  moreover have "pg_jsonb ref_pg (JObj ms) = Some (JObj (last_members (map (\<lambda>(k, j). (k, ref_jsonb j)) ms)))"
    using ok by (simp add: ref_pg_def)
  ultimately show ?case by (metis mset_map)
next
  case (7 js)
  then have "list_all text_json js" by (auto simp: list_all_iff ref_pg_def split: if_splits)
  then show ?case by (simp add: ref_pg_def list_all_iff)
next
  case (9 s)
  then have "char_of (0::nat) \<notin> set s" by force
  then show ?case by (simp add: ref_pg_def)
next
  case (13 rs)
  show ?case by (simp add: ref_pg_def ref_dec_def rparse_fixed_string rval_RDec)
qed (auto simp: ref_pg_def zdiv_mono1 list_all_iff split: if_splits)

section \<open>Tables\<close>

record event_row =
  er_event_id :: uuid
  er_portfolio_id :: uuid
  er_event_time :: time
  er_event_type :: string
  er_idempotency_key :: string
  er_source :: string
  er_payload :: json
  er_created_at :: time

record dlq_row =
  dl_event :: event_envelope
  dl_portfolio_id :: uuid
  dl_reason :: string
  dl_cause :: err

record position_row =
  po_quantity :: rat
  po_cost_basis :: rat
  po_realized_pnl :: rat

record price_row =
  pc_price :: rat
  pc_as_of :: time
  pc_updated_at :: time
  pc_as_of_event_id :: uuid

record return_row =
  rr_close_price :: rat
  rr_daily_return :: "rat option"
  rr_as_of_event_time :: time
  rr_as_of_event_id :: uuid

record snapshot_table_row =
  sn_portfolio_id :: uuid
  sn_as_of :: cursor
  sn_snapshot :: json
  sn_created_at :: time

record portfolio_row =
  pf_portfolio_id :: uuid
  pf_owner_user_id :: "uuid option"
  pf_name :: string
  pf_base_currency :: string
  pf_created_at :: time
  pf_updated_at :: time

record user_row =
  us_user_id :: uuid
  us_display_name :: string
  us_work_email :: string
  us_password_hash :: string
  us_created_at :: time
  us_updated_at :: time

record session_row =
  se_session_id :: uuid
  se_user_id :: uuid
  se_expires_at :: time
  se_revoked_at :: "time option"
  se_created_at :: time

record db =
  db_events :: "event_row list"
  db_dlq :: "dlq_row list"
  db_positions :: "((uuid \<times> string) \<times> position_row) list"
  db_prices :: "(string \<times> price_row) list"
  db_returns :: "((string \<times> int) \<times> return_row) list"
  db_cursors :: "(uuid \<times> cursor) list"
  db_snapshots :: "snapshot_table_row list"
  db_risk_snapshots :: "snapshot_table_row list"
  db_portfolios :: "portfolio_row list"
  db_users :: "user_row list"
  db_sessions :: "session_row list"
  db_settings :: "(string \<times> json) list"

definition empty_db :: db where
  "empty_db = \<lparr>db_events = [], db_dlq = [], db_positions = [], db_prices = [], db_returns = [],
     db_cursors = [], db_snapshots = [], db_risk_snapshots = [], db_portfolios = [], db_users = [],
     db_sessions = [], db_settings = []\<rparr>"

section \<open>The world\<close>

datatype fault = NoFault | FailBefore | FailAfter

record world =
  w_db :: db
  w_now :: time
  w_ticks :: "duration list"
  w_db_now :: time
  w_db_ticks :: "duration list"
  w_faults :: "fault list"
  w_risk :: "uuid list"

text \<open>One call of the database: the server clock moves and the next fault is drawn.\<close>

definition next_call :: "world \<Rightarrow> fault \<times> world" where
  "next_call w = (case w_faults w of [] \<Rightarrow> NoFault | f # fs \<Rightarrow> f,
     w\<lparr>w_faults := tl (w_faults w), w_db_ticks := tl (w_db_ticks w),
       w_db_now := w_db_now w + (case w_db_ticks w of [] \<Rightarrow> 0 | d # ds \<Rightarrow> d)\<rparr>)"

definition call_time :: "world \<Rightarrow> time" where
  "call_time w = w_db_now w + (case w_db_ticks w of [] \<Rightarrow> 0 | d # ds \<Rightarrow> d)"

definition read_clock :: "world \<Rightarrow> time \<times> world" where
  "read_clock w = (case w_ticks w of [] \<Rightarrow> (w_now w, w)
     | d # ds \<Rightarrow> (w_now w + d, w\<lparr>w_now := w_now w + d, w_ticks := ds\<rparr>))"

definition risk_request :: "uuid \<Rightarrow> world \<Rightarrow> world" where
  "risk_request pid w = w\<lparr>w_risk := w_risk w @ [pid]\<rparr>"

text \<open>A query: it fails on any fault and changes nothing.\<close>

definition db_query :: "string \<Rightarrow> (time \<Rightarrow> db \<Rightarrow> 'a res) \<Rightarrow> (world, 'a) prog" where
  "db_query what q w = (case next_call w of (f, w') \<Rightarrow>
     if f = NoFault then (q (w_db_now w') (w_db w'), w') else (Inl (EStore what), w'))"

text \<open>A transaction or a single writing statement: an error of its body rolls it back.\<close>

definition db_tx :: "string \<Rightarrow> (time \<Rightarrow> db \<Rightarrow> ('a \<times> db) res) \<Rightarrow> (world, 'a) prog" where
  "db_tx what body w = (case next_call w of (f, w') \<Rightarrow>
     if f = FailBefore then (Inl (EStore what), w')
     else case body (w_db_now w') (w_db w') of
         Inl e \<Rightarrow> (Inl e, w')
       | Inr (x, d) \<Rightarrow> (if f = FailAfter then Inl (EStore what) else Inr x, w'\<lparr>w_db := d\<rparr>))"

definition healthy :: "world \<Rightarrow> bool" where
  "healthy w \<longleftrightarrow> (\<forall>f\<in>set (w_faults w). f = NoFault)"

lemma next_call_simps [simp]:
  "w_db (snd (next_call w)) = w_db w" "w_db_now (snd (next_call w)) = call_time w"
  "w_now (snd (next_call w)) = w_now w" "w_ticks (snd (next_call w)) = w_ticks w"
  by (simp_all add: next_call_def call_time_def)

lemma next_call_healthy:
  "healthy w \<Longrightarrow> fst (next_call w) = NoFault \<and> healthy (snd (next_call w))"
  by (cases "w_faults w") (simp_all add: next_call_def healthy_def)

lemma healthy_db [simp]: "healthy (w\<lparr>w_db := d\<rparr>) = healthy w"
  by (simp add: healthy_def)

lemma db_query_db [store_simps]: "w_db (snd (db_query what q w)) = w_db w"
  by (simp add: db_query_def split_beta)

lemma db_query_result: "fst (db_query what q w) = Inr x \<Longrightarrow> q (call_time w) (w_db w) = Inr x"
  by (simp add: db_query_def split_beta split: if_splits)

lemma db_query_healthy:
  "healthy w \<Longrightarrow> fst (db_query what q w) = q (call_time w) (w_db w) \<and> healthy (snd (db_query what q w))"
  using next_call_healthy [of w] by (simp add: db_query_def split_beta)

lemma db_query_Inr:
  "db_query what q w = (Inr x, w1) \<Longrightarrow>
    q (call_time w) (w_db w) = Inr x \<and> w_db w1 = w_db w \<and> w_now w1 = w_now w \<and> (healthy w \<longrightarrow> healthy w1)"
  using next_call_healthy [of w] by (auto simp: db_query_def split_beta split: if_splits)

lemma db_tx_db:
  "w_db (snd (db_tx what body w)) = w_db w \<or>
    (\<exists>x. body (call_time w) (w_db w) = Inr (x, w_db (snd (db_tx what body w))))"
  by (cases "body (call_time w) (w_db w)") (auto simp: db_tx_def split_beta)

lemma db_tx_result:
  assumes "fst (db_tx what body w) = Inr x"
  shows "body (call_time w) (w_db w) = Inr (x, w_db (snd (db_tx what body w)))"
  using assms by (cases "body (call_time w) (w_db w)") (auto simp: db_tx_def split_beta split: if_splits)

lemma db_tx_healthy:
  assumes "healthy w"
  shows "healthy (snd (db_tx what body w))"
    and "body (call_time w) (w_db w) = Inl e \<Longrightarrow>
      fst (db_tx what body w) = Inl e \<and> w_db (snd (db_tx what body w)) = w_db w"
    and "body (call_time w) (w_db w) = Inr (x, d) \<Longrightarrow>
      fst (db_tx what body w) = Inr x \<and> w_db (snd (db_tx what body w)) = d"
  using next_call_healthy [OF assms]
  by (cases "body (call_time w) (w_db w)"; simp add: db_tx_def split_beta)+

lemma read_clock_simps [simp]: "w_db (snd (read_clock w)) = w_db w"
  "w_faults (snd (read_clock w)) = w_faults w"
  by (simp_all add: read_clock_def split: list.splits)

lemma risk_request_simps [simp]: "w_db (risk_request pid w) = w_db w"
  "w_faults (risk_request pid w) = w_faults w"
  by (simp_all add: risk_request_def)

end
