(* ===== verification/Event_Store.thy ===== *)
theory Event_Store
  imports Database Portfolio_View
begin

text \<open>
  \<^verbatim>\<open>internal/events/postgres.go\<close>, the event stream and the projections: append with idempotency
  keys, the ordered reads of the stream, the apply cursor, the transactions that write the
  trade and the price projections, dead letters, checkpoints, and the reads behind the
  portfolio and risk endpoints. One operation per method; SQL is translated to the operation
  on the lists of rows it denotes. Rows a query returns without \<^verbatim>\<open>ORDER BY\<close> come in the order
  of the list, one of the orders PostgreSQL may choose; no result below depends on it.
\<close>

section \<open>Events\<close>

record append_result =
  ar_event_id :: uuid
  ar_inserted :: bool

fun raw_json :: "raw_message \<Rightarrow> json option" where
  "raw_json RawEmpty = Some (JObj [])"
| "raw_json RawMalformed = None"
| "raw_json (RawDoc j) = Some j"

text \<open>
  The \<^verbatim>\<open>INSERT ... ON CONFLICT (portfolio_id, idempotency_key) DO NOTHING RETURNING event_id\<close> and
  the lookup of the stored id when nothing is returned. A second event with the same \<^verbatim>\<open>event_id\<close>
  under another key violates the primary key.
\<close>

definition append_body ::
  "pg_api \<Rightarrow> uuid \<Rightarrow> event_envelope \<Rightarrow> time \<Rightarrow> db \<Rightarrow> (append_result \<times> db) res" where
  "append_body P pid ev now d =
     (case Option.bind (raw_json (payload ev)) (pg_jsonb P) of
        None \<Rightarrow> Inl (EStore ''append event'')
      | Some doc \<Rightarrow>
        (if \<not> (pg_text_ok P (event_type ev) \<and> pg_text_ok P (idempotency_key ev) \<and> pg_text_ok P (source ev))
         then Inl (EStore ''append event'')
         else case find (\<lambda>r. er_portfolio_id r = pid \<and> er_idempotency_key r = idempotency_key ev) (db_events d) of
             Some r \<Rightarrow> Inr (\<lparr>ar_event_id = er_event_id r, ar_inserted = False\<rparr>, d)
           | None \<Rightarrow>
             (if \<exists>r\<in>set (db_events d). er_event_id r = event_id ev then Inl (EStore ''append event'')
              else Inr (\<lparr>ar_event_id = event_id ev, ar_inserted = True\<rparr>,
                d\<lparr>db_events := db_events d @ [\<lparr>er_event_id = event_id ev, er_portfolio_id = pid,
                  er_event_time = pg_time P (event_time ev), er_event_type = event_type ev,
                  er_idempotency_key = idempotency_key ev, er_source = source ev, er_payload = doc,
                  er_created_at = pg_time P now\<rparr>]\<rparr>))))"

definition append_event :: "uuid_api \<Rightarrow> pg_api \<Rightarrow> event_envelope \<Rightarrow> (world, append_result) prog" where
  "append_event U P ev w =
     (case uuid_parse U (portfolio_id ev) of
        None \<Rightarrow> (Inl (EValidation ''portfolio_id must be UUID''), w)
      | Some pid \<Rightarrow> db_tx ''append event'' (append_body P pid ev) w)"

definition scan_event_row :: "uuid_api \<Rightarrow> event_row \<Rightarrow> event_envelope" where
  "scan_event_row U r = \<lparr>event_id = er_event_id r, event_type = er_event_type r,
     event_time = er_event_time r, processing_time = er_event_time r, source = er_source r,
     portfolio_id = uuid_str U (er_portfolio_id r), idempotency_key = er_idempotency_key r,
     payload = RawDoc (er_payload r)\<rparr>"

definition row_cursor :: "event_row \<Rightarrow> cursor" where
  "row_cursor r = Cursor (er_event_time r) (er_event_id r)"

definition partition_rows :: "db \<Rightarrow> uuid \<Rightarrow> event_row list" where
  "partition_rows d pid = sort_key row_cursor (filter (\<lambda>r. er_portfolio_id r = pid) (db_events d))"

definition stream_of :: "uuid_api \<Rightarrow> db \<Rightarrow> uuid \<Rightarrow> event_envelope list" where
  "stream_of U d pid = map (scan_event_row U) (partition_rows d pid)"

definition list_portfolio_ids :: "(world, uuid list) prog" where
  "list_portfolio_ids = db_query ''list portfolios'' (\<lambda>now d. Inr (remdups (map er_portfolio_id (db_events d))))"

definition list_portfolio_ids_not_in :: "uuid list \<Rightarrow> (world, uuid list) prog" where
  "list_portfolio_ids_not_in exclude =
     (if exclude = [] then list_portfolio_ids
      else db_query ''list portfolios not in exclude set'' (\<lambda>now d.
        Inr (remdups (map er_portfolio_id (filter (\<lambda>r. er_portfolio_id r \<notin> set exclude) (db_events d))))))"

definition fetch_all_for_portfolio :: "uuid_api \<Rightarrow> uuid \<Rightarrow> (world, event_envelope list) prog" where
  "fetch_all_for_portfolio U pid = db_query ''query events'' (\<lambda>now d. Inr (stream_of U d pid))"

definition fetch_after ::
  "uuid_api \<Rightarrow> pg_api \<Rightarrow> uuid \<Rightarrow> cursor \<Rightarrow> int \<Rightarrow> (world, event_envelope list) prog" where
  "fetch_after U P pid after limit =
     (let n = nat (if limit \<le> 0 then 100 else limit) in
      if cursor_is_zero after then
        db_query ''query events'' (\<lambda>now d. Inr (take n (stream_of U d pid)))
      else
        db_query ''query events'' (\<lambda>now d. Inr (map (scan_event_row U) (take n
          (sort_key row_cursor (filter (\<lambda>r. er_portfolio_id r = pid \<and>
            (er_event_time r > pg_time P (cur_time after) \<or>
             er_event_time r = pg_time P (cur_time after) \<and> er_event_id r > cur_id after))
            (db_events d)))))))"

definition list_recent_events ::
  "uuid_api \<Rightarrow> uuid \<Rightarrow> int \<Rightarrow> (world, event_envelope list) prog" where
  "list_recent_events U pid limit =
     (let n = nat (if limit \<le> 0 then 20 else limit) in
      db_query ''query events'' (\<lambda>now d.
        Inr (map (scan_event_row U) (sort_key row_cursor (take n (rev (partition_rows d pid)))))))"

definition max_event_time :: "uuid \<Rightarrow> (world, time) prog" where
  "max_event_time pid = db_query ''max event time'' (\<lambda>now d.
     Inr (case map er_event_time (filter (\<lambda>r. er_portfolio_id r = pid) (db_events d)) of
         [] \<Rightarrow> 0
       | t # ts \<Rightarrow> fold max ts t))"

section \<open>The apply cursor\<close>

definition load_projection_cursor :: "uuid \<Rightarrow> (world, cursor) prog" where
  "load_projection_cursor pid = db_query ''load projection cursor'' (\<lambda>now d.
     Inr (case map_of (db_cursors d) pid of None \<Rightarrow> zero_cursor | Some c \<Rightarrow> c))"

definition upsert_projection_cursor :: "pg_api \<Rightarrow> uuid \<Rightarrow> cursor \<Rightarrow> db \<Rightarrow> db" where
  "upsert_projection_cursor P pid c d =
     d\<lparr>db_cursors := AList.update pid (Cursor (pg_time P (cur_time c)) (cur_id c)) (db_cursors d)\<rparr>"

section \<open>The trade projection\<close>

fun touched_symbols ::
  "'d decimal_api \<Rightarrow> 'd json_api \<Rightarrow> event_envelope list \<Rightarrow> string list res" where
  "touched_symbols D J [] = Inr []"
| "touched_symbols D J (ev # evs) =
     (if event_type ev \<noteq> event_type_trade_executed then touched_symbols D J evs
      else case decode_trade D J (payload ev) of
        None \<Rightarrow> Inl (EInvalidPayload ''trade payload'')
      | Some t \<Rightarrow> (case touched_symbols D J evs of
            Inl e \<Rightarrow> Inl e
          | Inr ss \<Rightarrow> Inr (List.insert (symbol t) ss)))"

definition numeric_param :: "pg_api \<Rightarrow> nat \<Rightarrow> string \<Rightarrow> rat res" where
  "numeric_param P n s = (case Option.bind (pg_numeric P s) (numeric_column n) of
       None \<Rightarrow> Inl (EStore ''numeric'')
     | Some r \<Rightarrow> Inr r)"

text \<open>
  The row of one touched symbol. \<^verbatim>\<open>agg.Lot\<close> adds an empty entry for a key the aggregate does not
  have; the caller has applied the events of the batch under the same key, so the entry is
  there whenever a symbol is touched and the aggregate does not change.
\<close>

definition write_position ::
  "'d decimal_api \<Rightarrow> pg_api \<Rightarrow> uuid \<Rightarrow> string \<Rightarrow> 'd aggregate \<Rightarrow> string \<Rightarrow> db \<Rightarrow> db res" where
  "write_position D P pid key agg s d =
     (let lot = fst (aggregate_lot D agg key s) in
      if \<not> pg_text_ok P s then Inl (EStore ''symbol'')
      else if d_is_zero D (lot_quantity lot) then
        (if d_is_zero D (realized_pnl lot) then
           Inr (d\<lparr>db_positions := AList.delete (pid, s) (db_positions d)\<rparr>)
         else case numeric_param P 8 (d_string D (realized_pnl lot)) of
             Inl e \<Rightarrow> Inl e
           | Inr r \<Rightarrow> Inr (d\<lparr>db_positions := AList.update (pid, s)
               \<lparr>po_quantity = 0, po_cost_basis = 0, po_realized_pnl = r\<rparr> (db_positions d)\<rparr>))
      else case numeric_param P 8 (d_string D (lot_quantity lot)) of
          Inl e \<Rightarrow> Inl e
        | Inr q \<Rightarrow> (case numeric_param P 8 (d_string D (average_cost lot)) of
            Inl e \<Rightarrow> Inl e
          | Inr c \<Rightarrow> (case numeric_param P 8 (d_string D (realized_pnl lot)) of
              Inl e \<Rightarrow> Inl e
            | Inr r \<Rightarrow> Inr (d\<lparr>db_positions := AList.update (pid, s)
                \<lparr>po_quantity = q, po_cost_basis = c, po_realized_pnl = r\<rparr> (db_positions d)\<rparr>))))"

definition apply_batch_body ::
  "'d decimal_api \<Rightarrow> 'd json_api \<Rightarrow> pg_api \<Rightarrow> uuid \<Rightarrow> string \<Rightarrow> event_envelope list \<Rightarrow>
   'd aggregate \<Rightarrow> db \<Rightarrow> (unit \<times> db) res" where
  "apply_batch_body D J P pid key applied agg d =
     (case touched_symbols D J applied of
        Inl e \<Rightarrow> Inl e
      | Inr ss \<Rightarrow> (case fold_res (write_position D P pid key agg) ss d of
          Inl e \<Rightarrow> Inl e
        | Inr d' \<Rightarrow> Inr ((), upsert_projection_cursor P pid (cursor_from_event (last applied)) d')))"

definition apply_batch ::
  "'d decimal_api \<Rightarrow> 'd json_api \<Rightarrow> pg_api \<Rightarrow> uuid \<Rightarrow> string \<Rightarrow> event_envelope list \<Rightarrow>
   'd aggregate \<Rightarrow> (world, unit) prog" where
  "apply_batch D J P pid key applied agg =
     (if applied = [] then ret ()
      else db_tx ''apply batch'' (\<lambda>now. apply_batch_body D J P pid key applied agg))"

text \<open>\<^verbatim>\<open>insertDLQ\<close>: the envelope must be encodable; then the row is added.\<close>

definition insert_dlq :: "event_envelope \<Rightarrow> uuid \<Rightarrow> string \<Rightarrow> err \<Rightarrow> db \<Rightarrow> db res" where
  "insert_dlq ev pid reason cause d =
     (if payload ev = RawMalformed then Inl (EOther ''marshal envelope for dlq'')
      else Inr (d\<lparr>db_dlq := db_dlq d @ [\<lparr>dl_event = ev, dl_portfolio_id = pid,
             dl_reason = reason, dl_cause = cause\<rparr>]\<rparr>))"

definition persist_apply_dlq ::
  "pg_api \<Rightarrow> uuid \<Rightarrow> string \<Rightarrow> event_envelope \<Rightarrow> string \<Rightarrow> err \<Rightarrow> (world, unit) prog" where
  "persist_apply_dlq P pid key ev reason cause =
     db_tx ''persist dlq'' (\<lambda>now d. case insert_dlq ev pid reason cause d of
         Inl e \<Rightarrow> Inl e
       | Inr d' \<Rightarrow> Inr ((), upsert_projection_cursor P pid (cursor_from_event ev) d'))"

text \<open>Hydrating an aggregate from the projection rows.\<close>

fun parse_position_rows ::
  "'d decimal_api \<Rightarrow> pg_api \<Rightarrow> (string \<times> position_row) list \<Rightarrow> (string \<times> 'd position_lot) list res" where
  "parse_position_rows D P [] = Inr []"
| "parse_position_rows D P ((s, r) # rs) =
     (case d_parse D (pg_text P 8 (po_quantity r)) of None \<Rightarrow> Inl (EOther ''parse quantity'')
      | Some q \<Rightarrow> (case d_parse D (pg_text P 8 (po_cost_basis r)) of None \<Rightarrow> Inl (EOther ''parse cost_basis'')
        | Some av \<Rightarrow> (case d_parse D (pg_text P 8 (po_realized_pnl r)) of
            None \<Rightarrow> Inl (EOther ''parse realized_pnl'')
          | Some rp \<Rightarrow> (case parse_position_rows D P rs of Inl e \<Rightarrow> Inl e
              | Inr ls \<Rightarrow> Inr ((s, \<lparr>lot_quantity = q, average_cost = av, realized_pnl = rp\<rparr>) # ls)))))"

definition rows_of :: "db \<Rightarrow> uuid \<Rightarrow> (string \<times> position_row) list" where
  "rows_of d pid = map (\<lambda>((p, s), r). (s, r)) (filter (\<lambda>((p, s), r). p = pid) (db_positions d))"

definition load_portfolio_positions_into_aggregate ::
  "'d decimal_api \<Rightarrow> pg_api \<Rightarrow> uuid \<Rightarrow> string \<Rightarrow> 'd aggregate \<Rightarrow> (world, 'd aggregate) prog" where
  "load_portfolio_positions_into_aggregate D P pid key agg =
     db_query ''load positions'' (\<lambda>now d. case parse_position_rows D P (rows_of d pid) of
         Inl e \<Rightarrow> Inl e
       | Inr ls \<Rightarrow> Inr (set_portfolio_positions agg key (Some (positions_from_lots ls))))"

section \<open>Checkpoints\<close>

record 'd latest_snapshot =
  ls_found :: bool
  ls_as_of :: cursor
  ls_created_at :: time
  ls_snapshot_json :: raw_message
  ls_aggregate :: "'d aggregate option"

definition no_snapshot :: "'d latest_snapshot" where
  "no_snapshot = \<lparr>ls_found = False, ls_as_of = zero_cursor, ls_created_at = 0,
     ls_snapshot_json = RawEmpty, ls_aggregate = None\<rparr>"

definition insert_portfolio_snapshot ::
  "pg_api \<Rightarrow> uuid \<Rightarrow> time \<Rightarrow> uuid \<Rightarrow> raw_message \<Rightarrow> (world, bool) prog" where
  "insert_portfolio_snapshot P pid t eid snapshot =
     (if eid = uuid_nil \<or> t = 0 then throw (EOther ''as_of_event_id/time required'')
      else db_tx ''insert portfolio_snapshot'' (\<lambda>now d.
        case Option.bind (raw_json snapshot) (pg_jsonb P) of
          None \<Rightarrow> Inl (EStore ''insert portfolio_snapshot'')
        | Some doc \<Rightarrow>
          (if \<exists>r\<in>set (db_snapshots d). sn_portfolio_id r = pid \<and> sn_as_of r = Cursor (pg_time P t) eid
           then Inr (False, d)
           else Inr (True, d\<lparr>db_snapshots := db_snapshots d @ [\<lparr>sn_portfolio_id = pid,
             sn_as_of = Cursor (pg_time P t) eid, sn_snapshot = doc, sn_created_at = pg_time P now\<rparr>]\<rparr>))))"

definition newest_snapshot :: "db \<Rightarrow> uuid \<Rightarrow> snapshot_table_row option" where
  "newest_snapshot d pid =
     (case rev (sort_key sn_as_of (filter (\<lambda>r. sn_portfolio_id r = pid) (db_snapshots d))) of
        [] \<Rightarrow> None | r # rs \<Rightarrow> Some r)"

definition load_latest_portfolio_snapshot ::
  "'d decimal_api \<Rightarrow> uuid_api \<Rightarrow> uuid \<Rightarrow> (world, 'd latest_snapshot) prog" where
  "load_latest_portfolio_snapshot D U pid =
     db_query ''load latest portfolio_snapshot'' (\<lambda>now d. case newest_snapshot d pid of
         None \<Rightarrow> Inr no_snapshot
       | Some r \<Rightarrow> (case parse_trade_positions_snapshot_v1 D (RawDoc (sn_snapshot r)) of
           Inl e \<Rightarrow> Inl e
         | Inr ps \<Rightarrow> Inr \<lparr>ls_found = True, ls_as_of = sn_as_of r, ls_created_at = sn_created_at r,
             ls_snapshot_json = RawDoc (sn_snapshot r),
             ls_aggregate = Some (set_portfolio_positions new_aggregate (uuid_str U pid) (Some ps))\<rparr>))"

definition upsert_risk_snapshot ::
  "pg_api \<Rightarrow> uuid \<Rightarrow> time \<Rightarrow> uuid \<Rightarrow> raw_message \<Rightarrow> (world, unit) prog" where
  "upsert_risk_snapshot P pid t eid snapshot =
     (if eid = uuid_nil \<or> t = 0 then throw (EOther ''as_of_event_id/time required'')
      else db_tx ''insert risk_snapshot'' (\<lambda>now d.
        case Option.bind (raw_json snapshot) (pg_jsonb P) of
          None \<Rightarrow> Inl (EStore ''insert risk_snapshot'')
        | Some doc \<Rightarrow> Inr ((), d\<lparr>db_risk_snapshots := db_risk_snapshots d @ [\<lparr>sn_portfolio_id = pid,
            sn_as_of = Cursor (pg_time P t) eid, sn_snapshot = doc, sn_created_at = pg_time P now\<rparr>]\<rparr>)))"

end
