(* ===== verification/Repository.thy ===== *)
theory Repository
  imports Event_Store
begin

text \<open>
  The Go interface \<^verbatim>\<open>Repository\<close> of \<^verbatim>\<open>internal/events/store.go\<close>, as far as the apply workers call
  it, together with the wall clock and the risk scheduler: a record of functions over a type of
  worlds \<open>'w\<close>. The workers are written against this record. The locale \<open>event_repository\<close> is
  the contract they rely on, in terms of four views of a world: the stream of a partition in
  apply order, its projection cursor, the dead letters, and the book of projection rows.
  \<open>Postgres_Repository\<close> interprets it with the operations of \<open>Event_Store\<close>.
\<close>

record ('d, 'w) repo =
  rp_list_portfolio_ids_not_in :: "uuid list \<Rightarrow> ('w, uuid list) prog"
  rp_fetch_all_for_portfolio :: "uuid \<Rightarrow> ('w, event_envelope list) prog"
  rp_fetch_after :: "uuid \<Rightarrow> cursor \<Rightarrow> int \<Rightarrow> ('w, event_envelope list) prog"
  rp_max_event_time :: "uuid \<Rightarrow> ('w, time) prog"
  rp_load_projection_cursor :: "uuid \<Rightarrow> ('w, cursor) prog"
  rp_load_latest_portfolio_snapshot :: "uuid \<Rightarrow> ('w, 'd latest_snapshot) prog"
  rp_load_portfolio_positions :: "uuid \<Rightarrow> string \<Rightarrow> 'd aggregate \<Rightarrow> ('w, 'd aggregate) prog"
  rp_apply_batch :: "uuid \<Rightarrow> string \<Rightarrow> event_envelope list \<Rightarrow> 'd aggregate \<Rightarrow> ('w, unit) prog"
  rp_apply_price_batch :: "uuid \<Rightarrow> event_envelope list \<Rightarrow> ('w, unit) prog"
  rp_persist_apply_dlq :: "uuid \<Rightarrow> string \<Rightarrow> event_envelope \<Rightarrow> string \<Rightarrow> err \<Rightarrow> ('w, unit) prog"
  rp_insert_portfolio_snapshot :: "uuid \<Rightarrow> time \<Rightarrow> uuid \<Rightarrow> raw_message \<Rightarrow> ('w, bool) prog"
  rp_list_portfolio_ids_by_open_symbols :: "string list \<Rightarrow> ('w, uuid list) prog"
  rp_now :: "'w \<Rightarrow> time \<times> 'w"
  rp_schedule :: "uuid \<Rightarrow> 'w \<Rightarrow> 'w"

section \<open>Vocabulary of the contract\<close>

text \<open>What \<^verbatim>\<open>FetchAfter\<close> selects, in apply order, before its limit.\<close>

definition events_after :: "cursor \<Rightarrow> event_envelope list \<Rightarrow> event_envelope list" where
  "events_after c evs = (if c = zero_cursor then evs else filter (\<lambda>e. c < cursor_from_event e) evs)"

text \<open>A projection row as quantity, cost basis and realized PnL; no row counts as zeros.\<close>

type_synonym row_book = "rat \<times> rat \<times> rat"

definition projected :: "('d \<Rightarrow> rat) \<Rightarrow> 'd position_lot \<Rightarrow> row_book" where
  "projected val l = (if val (lot_quantity l) = 0 then (0, 0, round_away 8 (val (realized_pnl l)))
     else (round_away 8 (val (lot_quantity l)), round_away 8 (val (average_cost l)),
       round_away 8 (val (realized_pnl l))))"

definition lot_row :: "('d \<Rightarrow> rat) \<Rightarrow> 'd position_lot \<Rightarrow> row_book" where
  "lot_row val l = (val (lot_quantity l), val (average_cost l), val (realized_pnl l))"

definition fits_numeric :: "nat \<Rightarrow> rat \<Rightarrow> bool" where
  "fits_numeric n x \<longleftrightarrow> \<bar>round_away n x\<bar> < 10 ^ (20 - n)"

definition lot_fits :: "('d \<Rightarrow> rat) \<Rightarrow> 'd position_lot \<Rightarrow> bool" where
  "lot_fits val l \<longleftrightarrow> fits_numeric 8 (val (lot_quantity l)) \<and> fits_numeric 8 (val (average_cost l)) \<and>
     fits_numeric 8 (val (realized_pnl l))"

lemma events_after_append:
  "events_after c (xs @ ys) = events_after c xs @ events_after c ys"
  by (simp add: events_after_def)

lemma set_events_after: "set (events_after c evs) \<subseteq> set evs"
  by (auto simp: events_after_def)

text \<open>Reading on from the last event of a prefix of what is left skips exactly that prefix.\<close>

lemma events_after_prefix:
  assumes srt: "sorted_wrt (<) (map cursor_from_event evs)"
    and split: "events_after c evs = xs @ ys" and "xs \<noteq> []"
    and nz: "cursor_from_event (last xs) \<noteq> zero_cursor"
  shows "events_after (cursor_from_event (last xs)) evs = ys"
proof -
  let ?k = "cursor_from_event (last xs)"
  have srt': "sorted_wrt (<) (map cursor_from_event (xs @ ys))"
    using srt unfolding split [symmetric] events_after_def
    by (cases "c = zero_cursor") (simp_all add: sorted_wrt_map sorted_wrt_filter)
  then have lo: "\<forall>e\<in>set xs. cursor_from_event e \<le> ?k" and hi: "\<forall>e\<in>set ys. ?k < cursor_from_event e"
    using \<open>xs \<noteq> []\<close> by (induction xs rule: rev_induct) (auto simp: sorted_wrt_append sorted_wrt_map)
  have "filter (\<lambda>e. ?k < cursor_from_event e) evs
      = filter (\<lambda>e. ?k < cursor_from_event e) (events_after c evs)"
  proof (cases "c = zero_cursor")
    case False
    have "last xs \<in> set (events_after c evs)" using split \<open>xs \<noteq> []\<close> by simp
    then have "c < ?k" using False by (simp add: events_after_def)
    then have "\<And>e. ?k < cursor_from_event e \<Longrightarrow> c < cursor_from_event e" by (rule less_trans)
    then have "(\<lambda>e. ?k < cursor_from_event e) = (\<lambda>e. ?k < cursor_from_event e \<and> c < cursor_from_event e)"
      by blast
    then show ?thesis using False by (simp add: events_after_def conj_commute)
  qed (simp add: events_after_def)
  also have "\<dots> = ys" using lo hi by (simp add: split filter_empty_conv filter_id_conv leD)
  finally show ?thesis using nz by (simp add: events_after_def)
qed

section \<open>The contract\<close>

text \<open>
  The views: an invariant of the world, the worlds in which calls do not fail, the cursors the
  store represents exactly, and the four observations.
\<close>

record 'w views =
  v_inv :: "'w \<Rightarrow> bool"
  v_ok :: "'w \<Rightarrow> bool"
  v_key :: "cursor \<Rightarrow> bool"
  v_stream :: "'w \<Rightarrow> uuid \<Rightarrow> event_envelope list"
  v_cursor :: "'w \<Rightarrow> uuid \<Rightarrow> cursor"
  v_dead :: "'w \<Rightarrow> (uuid \<times> event_envelope) list"
  v_book :: "'w \<Rightarrow> uuid \<Rightarrow> string \<Rightarrow> row_book"

definition same_views :: "'w views \<Rightarrow> 'w \<Rightarrow> 'w \<Rightarrow> bool" where
  "same_views V w w' \<longleftrightarrow> v_stream V w' = v_stream V w \<and> v_cursor V w' = v_cursor V w \<and>
     v_dead V w' = v_dead V w \<and> v_book V w' = v_book V w \<and>
     (v_inv V w \<longrightarrow> v_inv V w') \<and> (v_ok V w \<longrightarrow> v_ok V w')"

text \<open>A write for one partition: what may change, and nothing else.\<close>

definition partition_write :: "'w views \<Rightarrow> uuid \<Rightarrow> 'w \<Rightarrow> 'w \<Rightarrow> bool" where
  "partition_write V pid w w' \<longleftrightarrow> v_stream V w' = v_stream V w \<and>
     (\<forall>q. q \<noteq> pid \<longrightarrow> v_cursor V w' q = v_cursor V w q \<and> v_book V w' q = v_book V w q) \<and>
     (v_inv V w \<longrightarrow> v_inv V w') \<and> (v_ok V w \<longrightarrow> v_ok V w')"

lemma same_views_refl [simp]: "same_views V w w"
  by (simp add: same_views_def)

lemma same_views_trans: "same_views V w w' \<Longrightarrow> same_views V w' w'' \<Longrightarrow> same_views V w w''"
  by (simp add: same_views_def)

lemma same_viewsD:
  assumes "same_views V w w'"
  shows "v_stream V w' = v_stream V w" "v_cursor V w' = v_cursor V w" "v_dead V w' = v_dead V w"
    "v_book V w' = v_book V w" "v_inv V w \<Longrightarrow> v_inv V w'" "v_ok V w \<Longrightarrow> v_ok V w'"
  using assms by (simp_all add: same_views_def)

locale event_repository = decimal_laws D val
  for D :: "'d decimal_api" and val :: "'d \<Rightarrow> rat" +
  fixes J :: "'d json_api" and R :: "('d, 'w) repo" and V :: "'w views"
  assumes stream_sorted: "v_inv V w \<Longrightarrow> sorted_wrt (<) (map cursor_from_event (v_stream V w pid))"
    and stream_keys: "v_inv V w \<Longrightarrow> ev \<in> set (v_stream V w pid) \<Longrightarrow>
      v_key V (cursor_from_event ev) \<and> cursor_from_event ev \<noteq> zero_cursor"
    and stream_docs: "v_inv V w \<Longrightarrow> ev \<in> set (v_stream V w pid) \<Longrightarrow> payload ev \<noteq> RawMalformed"
    and cursor_key: "v_inv V w \<Longrightarrow> v_key V (v_cursor V w pid)"
    and ids_same: "same_views V w (snd (rp_list_portfolio_ids_not_in R ex w))"
    and fetch_all_same: "same_views V w (snd (rp_fetch_all_for_portfolio R pid w))"
    and fetch_all: "fst (rp_fetch_all_for_portfolio R pid w) = Inr evs \<Longrightarrow> evs = v_stream V w pid"
    and fetch_all_ok: "v_ok V w \<Longrightarrow> \<exists>evs. fst (rp_fetch_all_for_portfolio R pid w) = Inr evs"
    and fetch_same: "same_views V w (snd (rp_fetch_after R pid c n w))"
    and fetch: "v_inv V w \<Longrightarrow> v_key V c \<Longrightarrow> 0 < n \<Longrightarrow> fst (rp_fetch_after R pid c n w) = Inr evs \<Longrightarrow>
      evs = take (nat n) (events_after c (v_stream V w pid))"
    and fetch_ok: "v_ok V w \<Longrightarrow> \<exists>evs. fst (rp_fetch_after R pid c n w) = Inr evs"
    and max_same: "same_views V w (snd (rp_max_event_time R pid w))"
    and max_time: "fst (rp_max_event_time R pid w) = Inr t \<Longrightarrow> v_stream V w pid \<noteq> [] \<Longrightarrow>
      t = Max (event_time ` set (v_stream V w pid))"
    and max_ok: "v_ok V w \<Longrightarrow> \<exists>t. fst (rp_max_event_time R pid w) = Inr t"
    and key_zero: "v_key V zero_cursor"
    and cursor_same: "same_views V w (snd (rp_load_projection_cursor R pid w))"
    and cursor: "fst (rp_load_projection_cursor R pid w) = Inr c \<Longrightarrow> c = v_cursor V w pid"
    and cursor_ok: "v_ok V w \<Longrightarrow> \<exists>c. fst (rp_load_projection_cursor R pid w) = Inr c"
    and snap_load_same: "same_views V w (snd (rp_load_latest_portfolio_snapshot R pid w))"
    and positions_same: "same_views V w (snd (rp_load_portfolio_positions R pid key agg w))"
    and positions: "v_inv V w \<Longrightarrow> \<forall>s. v_book V w pid s \<in> range (projected val) \<Longrightarrow>
      fst (rp_load_portfolio_positions R pid key agg w) = Inr agg' \<Longrightarrow>
      lot_row val (lot_of D (positions_at agg' key) s) = v_book V w pid s"
    and positions_ok: "v_inv V w \<Longrightarrow> v_ok V w \<Longrightarrow> \<forall>s. v_book V w pid s \<in> range (projected val) \<Longrightarrow>
      \<exists>agg'. fst (rp_load_portfolio_positions R pid key agg w) = Inr agg'"
    and snap_insert_same: "same_views V w (snd (rp_insert_portfolio_snapshot R pid t eid raw w))"
    and now_same: "same_views V w (snd (rp_now R w))"
    and schedule_same: "same_views V w (rp_schedule R pid w)"
    and batch_write: "evs \<noteq> [] \<Longrightarrow> v_key V (cursor_from_event (last evs)) \<Longrightarrow>
      w' = snd (rp_apply_batch R pid key evs agg w) \<Longrightarrow>
      partition_write V pid w w' \<and> v_dead V w' = v_dead V w"
    and batch_commit: "evs \<noteq> [] \<Longrightarrow> v_key V (cursor_from_event (last evs)) \<Longrightarrow>
      w' = snd (rp_apply_batch R pid key evs agg w) \<Longrightarrow>
      v_cursor V w' pid = cursor_from_event (last evs) \<and>
      (\<exists>ss. touched_symbols D J evs = Inr ss \<and> v_book V w' pid =
        (\<lambda>s. if s \<in> set ss then projected val (lot_of D (positions_at agg key) s) else v_book V w pid s)) \<or>
      (\<exists>e. fst (rp_apply_batch R pid key evs agg w) = Inl e) \<and>
      v_cursor V w' pid = v_cursor V w pid \<and> v_book V w' pid = v_book V w pid"
    and batch_ok: "v_ok V w \<Longrightarrow> touched_symbols D J evs = Inr ss \<Longrightarrow>
      \<forall>s\<in>set ss. is_valid_symbol s \<and> lot_fits val (lot_of D (positions_at agg key) s) \<Longrightarrow>
      fst (rp_apply_batch R pid key evs agg w) = Inr ()"
    and dlq_write: "v_key V (cursor_from_event ev) \<Longrightarrow>
      w' = snd (rp_persist_apply_dlq R pid key ev reason cause w) \<Longrightarrow>
      partition_write V pid w w' \<and> v_book V w' = v_book V w"
    and dlq_commit: "v_key V (cursor_from_event ev) \<Longrightarrow>
      w' = snd (rp_persist_apply_dlq R pid key ev reason cause w) \<Longrightarrow>
      v_cursor V w' pid = cursor_from_event ev \<and> v_dead V w' = v_dead V w @ [(pid, ev)] \<or>
      (\<exists>e. fst (rp_persist_apply_dlq R pid key ev reason cause w) = Inl e) \<and>
      v_cursor V w' pid = v_cursor V w pid \<and> v_dead V w' = v_dead V w"
    and dlq_ok: "v_ok V w \<Longrightarrow> payload ev \<noteq> RawMalformed \<Longrightarrow>
      fst (rp_persist_apply_dlq R pid key ev reason cause w) = Inr ()"
begin

lemma partition_stream_distinct: "v_inv V w \<Longrightarrow> distinct (v_stream V w pid)"
  using stream_sorted [of w pid] by (metis distinct_map strict_sorted_iff)

end

end
