(* ===== verification/Price_Store.thy ===== *)
theory Price_Store
  imports Event_Store
begin

text \<open>
  The price side of \<^verbatim>\<open>internal/events/postgres.go\<close> with \<^verbatim>\<open>symbol_returns.go\<close>: the price marks, one
  close and one daily return per symbol and UTC day, the window of 60 days kept per symbol, the
  one-day sigma over the latest returns, and the reads that assemble a portfolio
  (\<^verbatim>\<open>LoadPortfolioAssemblerInput\<close>). A UTC date is the number of days since Go's zero time.
\<close>

section \<open>Daily returns\<close>

definition day :: duration where
  "day = 86400000000000"

definition event_utc_date :: "time \<Rightarrow> int" where
  "event_utc_date t = t div day"

definition symbol_returns_window_n :: nat where
  "symbol_returns_window_n = 60"

definition compute_daily_return :: "'d decimal_api \<Rightarrow> 'd \<Rightarrow> 'd \<Rightarrow> 'd res" where
  "compute_daily_return D prev_close close =
     (if \<not> d_less D (d_zero D) prev_close then Inl (EOther ''prev close must be > 0'')
      else if \<not> d_less D (d_zero D) close then Inl (EOther ''close must be > 0'')
      else case d_div D close prev_close of
          None \<Rightarrow> Inl (EPanic ''decimal division by 0'')
        | Some q \<Rightarrow> Inr (d_sub D q (d_of_int D 1)))"

definition returns_of :: "db \<Rightarrow> string \<Rightarrow> (int \<times> return_row) list" where
  "returns_of d s = sort_key fst (map (\<lambda>((k, dt), r). (dt, r)) (filter (\<lambda>((k, dt), r). k = s) (db_returns d)))"

definition previous_close :: "db \<Rightarrow> string \<Rightarrow> int \<Rightarrow> rat option" where
  "previous_close d s dt =
     (case rev (filter (\<lambda>p. fst p < dt) (returns_of d s)) of
        [] \<Rightarrow> None | p # ps \<Rightarrow> Some (rr_close_price (snd p)))"

definition daily_param :: "'d decimal_api \<Rightarrow> pg_api \<Rightarrow> rat option \<Rightarrow> 'd \<Rightarrow> rat option res" where
  "daily_param D P prev close =
     (case prev of None \<Rightarrow> Inr None
      | Some c \<Rightarrow> (case d_parse D (pg_text P 8 c) of
          None \<Rightarrow> Inl (EOther ''parse previous close'')
        | Some pc \<Rightarrow> (case compute_daily_return D pc close of
            Inl e \<Rightarrow> Inl e
          | Inr r \<Rightarrow> (case numeric_param P 10 (d_string D r) of
              Inl e \<Rightarrow> Inl e | Inr x \<Rightarrow> Inr (Some x)))))"

definition upsert_symbol_return ::
  "'d decimal_api \<Rightarrow> pg_api \<Rightarrow> string \<Rightarrow> 'd \<Rightarrow> time \<Rightarrow> uuid \<Rightarrow> db \<Rightarrow> db res" where
  "upsert_symbol_return D P s close t eid d =
     (let dt = event_utc_date t in
      case daily_param D P (previous_close d s dt) close of
        Inl e \<Rightarrow> Inl e
      | Inr daily \<Rightarrow> (case numeric_param P 8 (d_string D close) of
          Inl e \<Rightarrow> Inl e
        | Inr c \<Rightarrow> Inr (d\<lparr>db_returns := AList.update (s, dt)
            \<lparr>rr_close_price = c, rr_daily_return = daily, rr_as_of_event_time = pg_time P t,
             rr_as_of_event_id = eid\<rparr> (db_returns d)\<rparr>)))"

definition trim_symbol_returns_window :: "string \<Rightarrow> nat \<Rightarrow> db \<Rightarrow> db" where
  "trim_symbol_returns_window s keep d =
     (if keep = 0 then d
      else let kept = take keep (rev (map fst (returns_of d s)))
           in d\<lparr>db_returns := filter (\<lambda>((k, dt), r). k \<noteq> s \<or> dt \<in> set kept) (db_returns d)\<rparr>)"

section \<open>The price transaction\<close>

definition write_price ::
  "'d decimal_api \<Rightarrow> 'd json_api \<Rightarrow> pg_api \<Rightarrow> time \<Rightarrow> event_envelope \<Rightarrow> db \<Rightarrow> db res" where
  "write_price D J P now ev d =
     (if event_type ev \<noteq> event_type_price_updated then Inr d
      else case decode_price D J (payload ev) of
        None \<Rightarrow> Inl (EInvalidPayload ''price payload'')
      | Some p \<Rightarrow>
        (if \<not> pg_text_ok P (p_symbol p) then Inl (EStore ''symbol'')
         else case numeric_param P 8 (d_string D (p_price p)) of
             Inl e \<Rightarrow> Inl e
           | Inr r \<Rightarrow>
             (case upsert_symbol_return D P (p_symbol p) (p_price p) (event_time ev) (event_id ev)
                (d\<lparr>db_prices := AList.update (p_symbol p) \<lparr>pc_price = r,
                   pc_as_of = pg_time P (event_time ev), pc_updated_at = pg_time P now, pc_as_of_event_id = event_id ev\<rparr> (db_prices d)\<rparr>) of
                Inl e \<Rightarrow> Inl e
              | Inr d' \<Rightarrow> Inr (trim_symbol_returns_window (p_symbol p) symbol_returns_window_n d'))))"

definition apply_price_batch ::
  "'d decimal_api \<Rightarrow> 'd json_api \<Rightarrow> pg_api \<Rightarrow> uuid \<Rightarrow> event_envelope list \<Rightarrow> (world, unit) prog" where
  "apply_price_batch D J P pid applied =
     (if applied = [] then ret ()
      else db_tx ''price batch'' (\<lambda>now d. case fold_res (write_price D J P now) applied d of
          Inl e \<Rightarrow> Inl e
        | Inr d' \<Rightarrow> Inr ((), upsert_projection_cursor P pid (cursor_from_event (last applied)) d')))"

section \<open>Sigma over the latest returns\<close>

text \<open>The daily returns of a symbol that are not null, latest first, at most \<open>n\<close>.\<close>

definition latest_returns :: "db \<Rightarrow> string \<Rightarrow> nat \<Rightarrow> rat list" where
  "latest_returns d s n = take n (rev (List.map_filter (\<lambda>p. rr_daily_return (snd p)) (returns_of d s)))"

definition ranked_symbols :: "db \<Rightarrow> string list \<Rightarrow> string list" where
  "ranked_symbols d ss = remdups (map (\<lambda>((k, dt), r). k)
     (filter (\<lambda>((k, dt), r). k \<in> set ss \<and> rr_daily_return r \<noteq> None) (db_returns d)))"

fun parse_sigmas ::
  "'d decimal_api \<Rightarrow> (string \<times> string) list \<Rightarrow> (string \<times> 'd) list res" where
  "parse_sigmas D [] = Inr []"
| "parse_sigmas D ((s, txt) # rest) = (case d_parse D txt of
     None \<Rightarrow> Inl (EOther ''parse sigma'')
   | Some x \<Rightarrow> (case parse_sigmas D rest of Inl e \<Rightarrow> Inl e | Inr xs \<Rightarrow> Inr ((s, x) # xs)))"

definition load_symbol_sigma_1d ::
  "'d decimal_api \<Rightarrow> pg_api \<Rightarrow> string list \<Rightarrow> int \<Rightarrow> (world, (string \<times> 'd) list) prog" where
  "load_symbol_sigma_1d D P symbols window_n =
     (if symbols = [] then ret []
      else let n = nat (if window_n \<le> 0 then 60 else window_n)
        in db_query ''load symbol sigma_1d'' (\<lambda>now d.
          parse_sigmas D (map (\<lambda>s. (s, pg_sigma_text P (latest_returns d s n))) (ranked_symbols d symbols))))"

definition load_symbol_return_sample_counts ::
  "string list \<Rightarrow> int \<Rightarrow> (world, (string \<times> int) list) prog" where
  "load_symbol_return_sample_counts symbols window_n =
     (if symbols = [] then ret []
      else let n = nat (if window_n \<le> 0 then 60 else window_n)
        in db_query ''load symbol return sample counts'' (\<lambda>now d.
          Inr (map (\<lambda>s. (s, int (length (latest_returns d s n)))) (ranked_symbols d symbols))))"

section \<open>Portfolio reads\<close>

definition list_portfolio_ids_by_open_symbols :: "string list \<Rightarrow> (world, uuid list) prog" where
  "list_portfolio_ids_by_open_symbols symbols =
     (if symbols = [] then ret []
      else db_query ''list portfolio ids by open symbols'' (\<lambda>now d.
        Inr (sort (remdups (map (\<lambda>((p, s), r). p)
          (filter (\<lambda>((p, s), r). s \<in> set symbols \<and> po_quantity r \<noteq> 0) (db_positions d)))))))"

definition load_positions_for_portfolio ::
  "'d decimal_api \<Rightarrow> pg_api \<Rightarrow> uuid \<Rightarrow> (world, 'd projection_row list \<times> string list) prog" where
  "load_positions_for_portfolio D P pid =
     db_query ''query positions_projection'' (\<lambda>now d.
       case parse_position_rows D P (sort_key fst (rows_of d pid)) of
         Inl e \<Rightarrow> Inl e
       | Inr ls \<Rightarrow> Inr (map (\<lambda>(s, l). \<lparr>pr_symbol = s, pr_quantity = lot_quantity l,
             pr_average_cost = average_cost l, pr_realized_pnl = realized_pnl l\<rparr>) ls,
           map fst (filter (\<lambda>(s, l). \<not> d_is_zero D (lot_quantity l)) ls)))"

fun parse_price_marks ::
  "'d decimal_api \<Rightarrow> pg_api \<Rightarrow> db \<Rightarrow> (string \<times> price_row) list \<Rightarrow> (string \<times> 'd price_mark_input) list res" where
  "parse_price_marks D P d [] = Inr []"
| "parse_price_marks D P d ((s, r) # rs) =
     (case d_parse D (pg_text P 8 (pc_price r)) of None \<Rightarrow> Inl (EOther ''parse price'')
      | Some x \<Rightarrow> (case parse_price_marks D P d rs of Inl e \<Rightarrow> Inl e
        | Inr ms \<Rightarrow> Inr ((s, \<lparr>pm_price = x, pm_as_of_event_id = pc_as_of_event_id r,
            pm_as_of_event_time = pc_as_of r,
            pm_processing_time = (case find (\<lambda>e. er_event_id e = pc_as_of_event_id r) (db_events d) of
                None \<Rightarrow> 0 | Some e \<Rightarrow> er_created_at e)\<rparr>) # ms)))"

definition load_price_marks_by_symbol ::
  "'d decimal_api \<Rightarrow> pg_api \<Rightarrow> string list \<Rightarrow> (world, (string \<times> 'd price_mark_input) list) prog" where
  "load_price_marks_by_symbol D P symbols =
     db_query ''query prices_projection'' (\<lambda>now d.
       parse_price_marks D P d (filter (\<lambda>(s, r). s \<in> set symbols) (db_prices d)))"

definition portfolio_known :: "uuid \<Rightarrow> db \<Rightarrow> bool" where
  "portfolio_known pid d \<longleftrightarrow> list_ex (\<lambda>r. pf_portfolio_id r = pid) (db_portfolios d) \<or>
     list_ex (\<lambda>r. er_portfolio_id r = pid) (db_events d)"

text \<open>
  The creation time of the event the trade cursor points to; a failed lookup leaves the zero
  time.
\<close>

definition trade_apply_meta :: "cursor \<Rightarrow> (world, apply_cursor_meta option) prog" where
  "trade_apply_meta cur w =
     (if cursor_is_zero cur then ret None w
      else case db_query ''created_at'' (\<lambda>now d.
          case find (\<lambda>e. er_event_id e = cur_id cur) (db_events d) of
            None \<Rightarrow> Inl (EStore ''no rows in result set'') | Some e \<Rightarrow> Inr (er_created_at e)) w of
        (r, w') \<Rightarrow> ret (Some \<lparr>am_event_id = cur_id cur, am_event_time = cur_time cur,
           am_processing_time = (case r of Inl e \<Rightarrow> 0 | Inr t \<Rightarrow> t)\<rparr>) w')"

definition load_portfolio_assembler_input ::
  "'d decimal_api \<Rightarrow> pg_api \<Rightarrow> uuid \<Rightarrow> (world, 'd portfolio_assembler_input option) prog" where
  "load_portfolio_assembler_input D P pid =
     andthen (db_query ''check portfolio exists'' (\<lambda>now d. Inr (portfolio_known pid d))) (\<lambda>known.
       if \<not> known then ret None
       else andthen (load_positions_for_portfolio D P pid) (\<lambda>(pos_rows, open_symbols).
         andthen (if open_symbols = [] then ret [] else load_price_marks_by_symbol D P open_symbols) (\<lambda>marks.
           andthen (load_projection_cursor pid) (\<lambda>cur.
             andthen (trade_apply_meta cur) (\<lambda>meta.
               ret (Some \<lparr>in_portfolio_id = pid, in_positions = pos_rows, in_price_by_symbol = marks,
                 in_trade_apply = meta\<rparr>))))))"

end
