(* ===== verification/Postgres_Repository.thy ===== *)
theory Postgres_Repository
  imports Repository Price_Store
begin

text \<open>
  \<^verbatim>\<open>PostgresStore\<close> keeps the contract of the apply workers: the record \<open>postgres_repo\<close> of the
  operations of \<open>Event_Store\<close> and \<open>Price_Store\<close>, the views of the database behind the contract,
  and the proof of every law. The invariant of the event table is kept by every operation.
\<close>

definition postgres_repo ::
  "'d decimal_api \<Rightarrow> 'd json_api \<Rightarrow> uuid_api \<Rightarrow> pg_api \<Rightarrow> ('d, world) repo" where
  "postgres_repo D J U P = \<lparr>
     rp_list_portfolio_ids_not_in = list_portfolio_ids_not_in,
     rp_fetch_all_for_portfolio = fetch_all_for_portfolio U,
     rp_fetch_after = fetch_after U P,
     rp_max_event_time = max_event_time,
     rp_load_projection_cursor = load_projection_cursor,
     rp_load_latest_portfolio_snapshot = load_latest_portfolio_snapshot D U,
     rp_load_portfolio_positions = load_portfolio_positions_into_aggregate D P,
     rp_apply_batch = apply_batch D J P,
     rp_apply_price_batch = apply_price_batch D J P,
     rp_persist_apply_dlq = persist_apply_dlq P,
     rp_insert_portfolio_snapshot = insert_portfolio_snapshot P,
     rp_list_portfolio_ids_by_open_symbols = list_portfolio_ids_by_open_symbols,
     rp_now = read_clock,
     rp_schedule = risk_request\<rparr>"

text \<open>
  The invariant: event ids are a primary key and not the nil UUID (which \<^verbatim>\<open>Ingest\<close> refuses),
  idempotency keys are unique in a portfolio, and instants have the resolution of the column.
\<close>

definition event_key :: "event_row \<Rightarrow> uuid \<times> string" where
  "event_key r = (er_portfolio_id r, er_idempotency_key r)"

definition store_inv :: "pg_api \<Rightarrow> db \<Rightarrow> bool" where
  "store_inv P d \<longleftrightarrow> distinct (map er_event_id (db_events d)) \<and> distinct (map event_key (db_events d)) \<and>
     distinct (map fst (db_positions d)) \<and>
     (\<forall>r\<in>set (db_events d). er_event_id r \<noteq> uuid_nil \<and> pg_time P (er_event_time r) = er_event_time r) \<and>
     (\<forall>p\<in>set (db_cursors d). pg_time P (cur_time (snd p)) = cur_time (snd p))"

definition cursor_at :: "db \<Rightarrow> uuid \<Rightarrow> cursor" where
  "cursor_at d pid = (case map_of (db_cursors d) pid of None \<Rightarrow> zero_cursor | Some c \<Rightarrow> c)"

definition book_at :: "db \<Rightarrow> uuid \<Rightarrow> string \<Rightarrow> row_book" where
  "book_at d pid s = (case map_of (db_positions d) (pid, s) of
     None \<Rightarrow> (0, 0, 0) | Some r \<Rightarrow> (po_quantity r, po_cost_basis r, po_realized_pnl r))"

definition row_values :: "position_row \<Rightarrow> row_book" where
  "row_values r = (po_quantity r, po_cost_basis r, po_realized_pnl r)"

definition row_rounded :: "position_row \<Rightarrow> bool" where
  "row_rounded r \<longleftrightarrow> round_away 8 (po_quantity r) = po_quantity r \<and>
     round_away 8 (po_cost_basis r) = po_cost_basis r \<and> round_away 8 (po_realized_pnl r) = po_realized_pnl r"

definition dead_at :: "db \<Rightarrow> (uuid \<times> event_envelope) list" where
  "dead_at d = map (\<lambda>r. (dl_portfolio_id r, dl_event r)) (db_dlq d)"

definition postgres_views :: "uuid_api \<Rightarrow> pg_api \<Rightarrow> world views" where
  "postgres_views U P = \<lparr>
     v_inv = (\<lambda>w. store_inv P (w_db w)),
     v_ok = healthy,
     v_key = (\<lambda>c. pg_time P (cur_time c) = cur_time c),
     v_stream = (\<lambda>w. stream_of U (w_db w)),
     v_cursor = (\<lambda>w. cursor_at (w_db w)),
     v_dead = (\<lambda>w. dead_at (w_db w)),
     v_book = (\<lambda>w. book_at (w_db w))\<rparr>"

lemma postgres_repo_simps [simp]:
  "rp_list_portfolio_ids_not_in (postgres_repo D J U P) = list_portfolio_ids_not_in"
  "rp_fetch_all_for_portfolio (postgres_repo D J U P) = fetch_all_for_portfolio U"
  "rp_fetch_after (postgres_repo D J U P) = fetch_after U P"
  "rp_max_event_time (postgres_repo D J U P) = max_event_time"
  "rp_load_projection_cursor (postgres_repo D J U P) = load_projection_cursor"
  "rp_load_latest_portfolio_snapshot (postgres_repo D J U P) = load_latest_portfolio_snapshot D U"
  "rp_load_portfolio_positions (postgres_repo D J U P) = load_portfolio_positions_into_aggregate D P"
  "rp_apply_batch (postgres_repo D J U P) = apply_batch D J P"
  "rp_apply_price_batch (postgres_repo D J U P) = apply_price_batch D J P"
  "rp_persist_apply_dlq (postgres_repo D J U P) = persist_apply_dlq P"
  "rp_insert_portfolio_snapshot (postgres_repo D J U P) = insert_portfolio_snapshot P"
  "rp_list_portfolio_ids_by_open_symbols (postgres_repo D J U P) = list_portfolio_ids_by_open_symbols"
  "rp_now (postgres_repo D J U P) = read_clock"
  "rp_schedule (postgres_repo D J U P) = risk_request"
  by (simp_all add: postgres_repo_def)

lemma postgres_views_simps [simp]:
  "v_inv (postgres_views U P) w = store_inv P (w_db w)"
  "v_ok (postgres_views U P) = healthy"
  "v_key (postgres_views U P) c \<longleftrightarrow> pg_time P (cur_time c) = cur_time c"
  "v_stream (postgres_views U P) w = stream_of U (w_db w)"
  "v_cursor (postgres_views U P) w = cursor_at (w_db w)"
  "v_dead (postgres_views U P) w = dead_at (w_db w)"
  "v_book (postgres_views U P) w = book_at (w_db w)"
  by (simp_all add: postgres_views_def)

section \<open>The stream\<close>

lemma scan_event_row_cursor [simp]: "cursor_from_event (scan_event_row U r) = row_cursor r"
  by (simp add: cursor_from_event_def scan_event_row_def row_cursor_def)

lemma scan_event_row_simps [simp]: "event_time (scan_event_row U r) = er_event_time r"
  "event_id (scan_event_row U r) = er_event_id r" "event_type (scan_event_row U r) = er_event_type r"
  "payload (scan_event_row U r) = RawDoc (er_payload r)"
  by (simp_all add: scan_event_row_def)

lemma set_stream_of:
  "set (stream_of U d pid) = scan_event_row U ` {r \<in> set (db_events d). er_portfolio_id r = pid}"
  by (auto simp: stream_of_def partition_rows_def)

lemma stream_of_sorted:
  assumes "distinct (map er_event_id (db_events d))"
  shows "sorted_wrt (<) (map cursor_from_event (stream_of U d pid))"
proof -
  have "distinct (map er_event_id (filter (\<lambda>r. er_portfolio_id r = pid) (db_events d)))"
    using assms by (simp add: distinct_map_filter)
  then have "distinct (map row_cursor (filter (\<lambda>r. er_portfolio_id r = pid) (db_events d)))"
    by (auto simp: distinct_map inj_on_def row_cursor_def)
  then have "distinct (map row_cursor (partition_rows d pid))"
    by (simp add: partition_rows_def distinct_map)
  then have "sorted_wrt (<) (map row_cursor (partition_rows d pid))"
    by (simp add: partition_rows_def strict_sorted_iff)
  then show ?thesis by (simp add: stream_of_def comp_def)
qed

lemma filter_sort_stream:
  "sort_key row_cursor (filter (\<lambda>r. er_portfolio_id r = pid \<and> Q r) (db_events d)) =
    filter Q (partition_rows d pid)"
  by (simp add: partition_rows_def filter_sort filter_filter conj_commute)

lemma max_fold: "fold max ts (t :: time) = Max (set (t # ts))"
  by (metis List.finite_set Max.set_eq_fold)

section \<open>Laws of single operations\<close>

lemma store_query_same:
  "same_views (postgres_views U P) w (snd (db_query what q w))"
  using db_query_healthy [of w what q]
  by (auto simp: same_views_def postgres_views_def store_simps)

lemma ret_throw_same: "same_views V w (snd (ret x w))" "same_views V w (snd (throw e w))"
  by (simp_all add: ret_def throw_def)

lemma upsert_cursor_simps [simp]:
  "db_events (upsert_projection_cursor P pid c d) = db_events d"
  "db_positions (upsert_projection_cursor P pid c d) = db_positions d"
  "db_dlq (upsert_projection_cursor P pid c d) = db_dlq d"
  "cursor_at (upsert_projection_cursor P pid c d) q =
     (if q = pid then Cursor (pg_time P (cur_time c)) (cur_id c) else cursor_at d q)"
  by (simp_all add: upsert_projection_cursor_def cursor_at_def update_conv')

text \<open>A body of a transaction that leaves the events and cursors alone.\<close>

definition keeps_events :: "db \<Rightarrow> db \<Rightarrow> bool" where
  "keeps_events d d' \<longleftrightarrow> db_events d' = db_events d \<and> db_cursors d' = db_cursors d \<and> db_dlq d' = db_dlq d \<and>
     (distinct (map fst (db_positions d)) \<longrightarrow> distinct (map fst (db_positions d')))"

lemma write_position_frame:
  "write_position D P pid key agg s d = Inr d' \<Longrightarrow>
    keeps_events d d' \<and> (\<forall>q t. (q, t) \<noteq> (pid, s) \<longrightarrow> book_at d' q t = book_at d q t)"
  by (auto simp: write_position_def keeps_events_def book_at_def update_conv' delete_conv' Let_def
      distinct_update distinct_delete split: if_splits sum.splits)

lemma write_positions_frame:
  assumes "fold_res (write_position D P pid key agg) ss d = Inr d'"
  shows "keeps_events d d' \<and> (\<forall>q t. q \<noteq> pid \<or> t \<notin> set ss \<longrightarrow> book_at d' q t = book_at d q t)"
  using assms
proof (induction ss arbitrary: d)
  case (Cons s ss)
  then obtain d1 where d1: "write_position D P pid key agg s d = Inr d1"
    "fold_res (write_position D P pid key agg) ss d1 = Inr d'" by (auto split: sum.splits)
  from write_position_frame [OF d1(1)] Cons.IH [OF d1(2)] show ?case
    by (auto simp: keeps_events_def)
qed (simp add: keeps_events_def)

lemma store_inv_cursor:
  assumes "store_inv P d" and "pg_time P (cur_time c) = cur_time c"
  shows "store_inv P (upsert_projection_cursor P pid c d)"
proof -
  have "set (AList.update pid c' xs) \<subseteq> insert (pid, c') (set xs)" for c' and xs :: "(uuid \<times> cursor) list"
    by (induction xs) auto
  then have "set (AList.update pid c (db_cursors d)) \<subseteq> insert (pid, c) (set (db_cursors d))" by blast
  moreover have "Cursor (pg_time P (cur_time c)) (cur_id c) = c" using assms(2) by simp
  ultimately show ?thesis using assms unfolding store_inv_def upsert_projection_cursor_def by fastforce
qed

lemma store_inv_keeps: "keeps_events d d' \<Longrightarrow> store_inv P d \<Longrightarrow> store_inv P d'"
  by (simp add: store_inv_def keeps_events_def)

lemma cursor_at_keeps: "keeps_events d d' \<Longrightarrow> cursor_at d' = cursor_at d \<and> dead_at d' = dead_at d \<and>
    stream_of U d' = stream_of U d"
  by (simp add: cursor_at_def keeps_events_def dead_at_def stream_of_def partition_rows_def fun_eq_iff)

lemma apply_batch_body_frame:
  assumes "apply_batch_body D J P pid key evs agg d = Inr (u, d')"
  obtains ss d1 where "touched_symbols D J evs = Inr ss" "fold_res (write_position D P pid key agg) ss d = Inr d1"
    "keeps_events d d1" "d' = upsert_projection_cursor P pid (cursor_from_event (last evs)) d1"
    "\<forall>q t. q \<noteq> pid \<or> t \<notin> set ss \<longrightarrow> book_at d' q t = book_at d q t"
proof -
  from assms obtain ss d1 where *: "touched_symbols D J evs = Inr ss"
    "fold_res (write_position D P pid key agg) ss d = Inr d1"
    "d' = upsert_projection_cursor P pid (cursor_from_event (last evs)) d1"
    by (auto simp: apply_batch_body_def split: sum.splits)
  have "book_at d' q t = book_at d1 q t" for q t by (simp add: *(3) book_at_def)
  then show thesis using that * write_positions_frame [OF *(2)] by simp
qed

context pg_laws begin

lemma numeric_param_value:
  "numeric_param P n (d_string D x) = (if fits_numeric n (val x) then Inr (round_away n (val x))
     else Inl (EStore ''numeric''))"
  by (simp add: numeric_param_def numeric_of_string numeric_column_def fits_numeric_def Let_def)

lemma write_position_book:
  "write_position D P pid key agg s d = Inr d' \<Longrightarrow>
    book_at d' pid s = projected val (lot_of D (positions_at agg key) s)"
  by (auto simp: write_position_def Let_def numeric_param_value book_at_def projected_def is_zero_iff
      update_conv' delete_conv' split: if_splits)

lemma write_positions_book:
  assumes "fold_res (write_position D P pid key agg) ss d = Inr d'" and "s \<in> set ss"
  shows "book_at d' pid s = projected val (lot_of D (positions_at agg key) s)"
  using assms
proof (induction ss arbitrary: d)
  case (Cons t ss)
  then obtain d1 where d1: "write_position D P pid key agg t d = Inr d1"
    "fold_res (write_position D P pid key agg) ss d1 = Inr d'" by (auto split: sum.splits)
  show ?case
  proof (cases "s \<in> set ss")
    case True
    then show ?thesis using Cons.IH d1(2) by blast
  next
    case False
    then show ?thesis
      using write_position_book [OF d1(1)] write_positions_frame [OF d1(2)] Cons.prems(2) by simp
  qed
qed simp

lemma write_position_succeeds:
  assumes "is_valid_symbol s" and "lot_fits val (lot_of D (positions_at agg key) s)"
  shows "\<exists>d'. write_position D P pid key agg s d = Inr d'"
proof -
  have "\<forall>c\<in>set s. 0 < (of_char c :: nat) \<and> (of_char c :: nat) < 128"
    using assms(1) by (auto simp: is_valid_symbol_def list_all_iff symbol_char_def Let_def)
  then have "pg_text_ok P s" by (rule text_ascii)
  then show ?thesis using assms(2)
    by (simp add: write_position_def Let_def numeric_param_value lot_fits_def)
qed

lemma write_positions_succeed:
  assumes "\<forall>s\<in>set ss. is_valid_symbol s \<and> lot_fits val (lot_of D (positions_at agg key) s)"
  shows "\<exists>d'. fold_res (write_position D P pid key agg) ss d = Inr d'"
  using assms
proof (induction ss arbitrary: d)
  case (Cons s ss)
  obtain d1 where "write_position D P pid key agg s d = Inr d1"
    using write_position_succeeds Cons.prems by (metis list.set_intros(1))
  then show ?case using Cons by simp
qed simp

section \<open>The laws of the transactions\<close>

lemma apply_batch_law:
  fixes w :: world
  assumes "evs \<noteq> []" and k: "pg_time P (cur_time (cursor_from_event (last evs))) = cur_time (cursor_from_event (last evs))"
    and w'_def: "w' = snd (apply_batch D J P pid key evs agg w)"
  shows "partition_write (postgres_views U P) pid w w' \<and> dead_at (w_db w') = dead_at (w_db w)"
    and "cursor_at (w_db w') pid = cursor_from_event (last evs) \<and>
      (\<exists>ss. touched_symbols D J evs = Inr ss \<and> book_at (w_db w') pid =
        (\<lambda>s. if s \<in> set ss then projected val (lot_of D (positions_at agg key) s) else book_at (w_db w) pid s)) \<or>
      (\<exists>e. fst (apply_batch D J P pid key evs agg w) = Inl e) \<and>
      cursor_at (w_db w') pid = cursor_at (w_db w) pid \<and> book_at (w_db w') pid = book_at (w_db w) pid"
proof -
  let ?tx = "db_tx ''apply batch'' (\<lambda>now. apply_batch_body D J P pid key evs agg) w"
  have tx: "apply_batch D J P pid key evs agg w = ?tx" using assms(1) by (simp add: apply_batch_def)
  have h: "healthy w \<longrightarrow> healthy w'" by (simp add: w'_def tx db_tx_healthy(1))
  have "w_db w' = w_db w \<and> (\<exists>e. fst ?tx = Inl e) \<or> (\<exists>u. apply_batch_body D J P pid key evs agg (w_db w) = Inr (u, w_db w'))"
    using db_tx_db [of "''apply batch''" "\<lambda>now. apply_batch_body D J P pid key evs agg" w]
      db_tx_result [of "''apply batch''" "\<lambda>now. apply_batch_body D J P pid key evs agg" w]
    unfolding w'_def tx by (cases "fst ?tx") auto
  then consider (same) "w_db w' = w_db w" "\<exists>e. fst ?tx = Inl e"
    | (wr) u where "apply_batch_body D J P pid key evs agg (w_db w) = Inr (u, w_db w')" by blast
  then have "partition_write (postgres_views U P) pid w w' \<and> dead_at (w_db w') = dead_at (w_db w) \<and>
    (cursor_at (w_db w') pid = cursor_from_event (last evs) \<and>
      (\<exists>ss. touched_symbols D J evs = Inr ss \<and> book_at (w_db w') pid =
        (\<lambda>s. if s \<in> set ss then projected val (lot_of D (positions_at agg key) s) else book_at (w_db w) pid s)) \<or>
      (\<exists>e. fst ?tx = Inl e) \<and>
      cursor_at (w_db w') pid = cursor_at (w_db w) pid \<and> book_at (w_db w') pid = book_at (w_db w) pid)"
  proof cases
    case same
    then show ?thesis using h by (simp add: partition_write_def postgres_views_def)
  next
    case (wr u)
    then obtain ss d1 where b: "touched_symbols D J evs = Inr ss"
      "fold_res (write_position D P pid key agg) ss (w_db w) = Inr d1" "keeps_events (w_db w) d1"
      "w_db w' = upsert_projection_cursor P pid (cursor_from_event (last evs)) d1"
      "\<forall>q t. q \<noteq> pid \<or> t \<notin> set ss \<longrightarrow> book_at (w_db w') q t = book_at (w_db w) q t"
      by (rule apply_batch_body_frame)
    have c: "Cursor (pg_time P (cur_time (cursor_from_event (last evs)))) (cur_id (cursor_from_event (last evs)))
        = cursor_from_event (last evs)" using k by simp
    have bk: "book_at (w_db w') pid s = book_at d1 pid s" for s by (simp add: b(4) book_at_def)
    have "cursor_at (w_db w') pid = cursor_from_event (last evs)" by (simp add: b(4) c)
    moreover have "book_at (w_db w') pid = (\<lambda>s. if s \<in> set ss then
        projected val (lot_of D (positions_at agg key) s) else book_at (w_db w) pid s)"
    proof (rule ext)
      fix s
      show "book_at (w_db w') pid s = (if s \<in> set ss then
          projected val (lot_of D (positions_at agg key) s) else book_at (w_db w) pid s)"
        using b(5) write_positions_book [OF b(2), of s] bk [of s] by (cases "s \<in> set ss") metis+
    qed
    moreover have "partition_write (postgres_views U P) pid w w' \<and> dead_at (w_db w') = dead_at (w_db w)"
      using h b(3,5) cursor_at_keeps [OF b(3)] store_inv_cursor [of P d1 "cursor_from_event (last evs)" pid]
        store_inv_keeps [OF b(3)] k
      by (auto simp: partition_write_def postgres_views_def b(4) fun_eq_iff dead_at_def stream_of_def
          partition_rows_def)
    ultimately show ?thesis using b(1) by blast
  qed
  then show "partition_write (postgres_views U P) pid w w' \<and> dead_at (w_db w') = dead_at (w_db w)"
    and "cursor_at (w_db w') pid = cursor_from_event (last evs) \<and>
      (\<exists>ss. touched_symbols D J evs = Inr ss \<and> book_at (w_db w') pid =
        (\<lambda>s. if s \<in> set ss then projected val (lot_of D (positions_at agg key) s) else book_at (w_db w) pid s)) \<or>
      (\<exists>e. fst (apply_batch D J P pid key evs agg w) = Inl e) \<and>
      cursor_at (w_db w') pid = cursor_at (w_db w) pid \<and> book_at (w_db w') pid = book_at (w_db w) pid"
    unfolding tx by blast+
qed

lemma apply_batch_succeeds:
  assumes "healthy w" and "touched_symbols D J evs = Inr ss"
    and "\<forall>s\<in>set ss. is_valid_symbol s \<and> lot_fits val (lot_of D (positions_at agg key) s)"
  shows "fst (apply_batch D J P pid key evs agg w) = Inr ()"
proof (cases "evs = []")
  case False
  obtain d1 where "fold_res (write_position D P pid key agg) ss (w_db w) = Inr d1"
    using write_positions_succeed [OF assms(3)] by blast
  then have "apply_batch_body D J P pid key evs agg (w_db w) =
      Inr ((), upsert_projection_cursor P pid (cursor_from_event (last evs)) d1)"
    using assms(2) by (simp add: apply_batch_body_def)
  then show ?thesis using False by (simp add: apply_batch_def db_tx_healthy(3) [OF assms(1)])
qed (simp add: apply_batch_def ret_def)

lemma persist_dlq_law:
  fixes w :: world
  assumes k: "pg_time P (cur_time (cursor_from_event ev)) = cur_time (cursor_from_event ev)"
    and w'_def: "w' = snd (persist_apply_dlq P pid key ev reason cause w)"
  shows "partition_write (postgres_views U P) pid w w' \<and> book_at (w_db w') = book_at (w_db w)"
    and "cursor_at (w_db w') pid = cursor_from_event ev \<and> dead_at (w_db w') = dead_at (w_db w) @ [(pid, ev)] \<or>
      (\<exists>e. fst (persist_apply_dlq P pid key ev reason cause w) = Inl e) \<and>
      cursor_at (w_db w') pid = cursor_at (w_db w) pid \<and> dead_at (w_db w') = dead_at (w_db w)"
proof -
  define body where "body = (\<lambda>(now :: time) (d :: db). case insert_dlq ev pid reason cause d of
     Inl e \<Rightarrow> Inl e | Inr d' \<Rightarrow> Inr ((), upsert_projection_cursor P pid (cursor_from_event ev) d'))"
  have tx: "persist_apply_dlq P pid key ev reason cause w = db_tx ''persist dlq'' body w"
    by (simp add: persist_apply_dlq_def body_def)
  have h: "healthy w \<longrightarrow> healthy w'" by (simp add: w'_def tx db_tx_healthy(1))
  have c: "Cursor (pg_time P (cur_time (cursor_from_event ev))) (cur_id (cursor_from_event ev)) = cursor_from_event ev"
    using k by simp
  let ?d = "upsert_projection_cursor P pid (cursor_from_event ev) ((w_db w)\<lparr>db_dlq := db_dlq (w_db w) @
      [\<lparr>dl_event = ev, dl_portfolio_id = pid, dl_reason = reason, dl_cause = cause\<rparr>]\<rparr>)"
  have b: "body t (w_db w) = (if payload ev = RawMalformed then Inl (EOther ''marshal envelope for dlq'')
      else Inr ((), ?d))" for t
    by (simp add: body_def insert_dlq_def)
  have inv: "store_inv P (w_db w) \<Longrightarrow> store_inv P ?d"
    by (rule store_inv_cursor [OF _ k]) (simp add: store_inv_def)
  have "w_db w' = w_db w \<and> (\<exists>e. fst (db_tx ''persist dlq'' body w) = Inl e) \<or> w_db w' = ?d"
    using db_tx_db [of "''persist dlq''" body w] db_tx_result [of "''persist dlq''" body w]
    unfolding w'_def tx b by (cases "fst (db_tx ''persist dlq'' body w)") (auto split: if_splits)
  then have "partition_write (postgres_views U P) pid w w' \<and> book_at (w_db w') = book_at (w_db w) \<and>
    (cursor_at (w_db w') pid = cursor_from_event ev \<and> dead_at (w_db w') = dead_at (w_db w) @ [(pid, ev)] \<or>
      (\<exists>e. fst (db_tx ''persist dlq'' body w) = Inl e) \<and>
      cursor_at (w_db w') pid = cursor_at (w_db w) pid \<and> dead_at (w_db w') = dead_at (w_db w))"
  proof (elim disjE conjE)
    assume d: "w_db w' = ?d"
    have "stream_of U ?d = stream_of U (w_db w)" "book_at ?d = book_at (w_db w)"
      "cursor_at ?d = (cursor_at (w_db w))(pid := cursor_from_event ev)"
      "dead_at ?d = dead_at (w_db w) @ [(pid, ev)]"
      using c by (simp_all add: fun_eq_iff stream_of_def partition_rows_def book_at_def dead_at_def)
        (simp add: cursor_at_def)
    then show ?thesis using h inv unfolding d [symmetric]
      by (simp add: partition_write_def postgres_views_def)
  qed (use h in \<open>simp add: partition_write_def postgres_views_def\<close>)
  then show "partition_write (postgres_views U P) pid w w' \<and> book_at (w_db w') = book_at (w_db w)"
    and "cursor_at (w_db w') pid = cursor_from_event ev \<and> dead_at (w_db w') = dead_at (w_db w) @ [(pid, ev)] \<or>
      (\<exists>e. fst (persist_apply_dlq P pid key ev reason cause w) = Inl e) \<and>
      cursor_at (w_db w') pid = cursor_at (w_db w) pid \<and> dead_at (w_db w') = dead_at (w_db w)"
    unfolding tx by blast+
qed

lemma persist_dlq_succeeds:
  assumes "healthy w" and "payload ev \<noteq> RawMalformed"
  shows "fst (persist_apply_dlq P pid key ev reason cause w) = Inr ()"
  unfolding persist_apply_dlq_def
  by (rule db_tx_healthy(3) [OF assms(1), THEN conjunct1]) (simp add: insert_dlq_def assms(2))

section \<open>The contract\<close>

lemma fetch_after_law:
  assumes "store_inv P (w_db w)" and "pg_time P (cur_time c) = cur_time c" and "0 < n"
    and "fst (fetch_after U P pid c n w) = Inr evs"
  shows "evs = take (nat n) (events_after c (stream_of U (w_db w) pid))"
proof (cases "c = zero_cursor")
  case True
  have "fst (db_query ''query events'' (\<lambda>now d. Inr (take (nat n) (stream_of U d pid))) w) = Inr evs"
    using assms(3,4) True by (simp add: fetch_after_def)
  from db_query_result [OF this] True show ?thesis by (simp add: events_after_def)
next
  case False
  let ?Q = "\<lambda>r. er_event_time r > cur_time c \<or> er_event_time r = cur_time c \<and> er_event_id r > cur_id c"
  have "fst (db_query ''query events'' (\<lambda>now d. Inr (map (scan_event_row U) (take (nat n)
      (sort_key row_cursor (filter (\<lambda>r. er_portfolio_id r = pid \<and> ?Q r) (db_events d)))))) w) = Inr evs"
    using assms(2,3,4) False by (simp add: fetch_after_def)
  from db_query_result [OF this]
  have e: "evs = take (nat n) (map (scan_event_row U) (filter ?Q (partition_rows (w_db w) pid)))"
    by (simp add: filter_sort_stream take_map)
  have "?Q = (\<lambda>r. c < row_cursor r)" by (auto simp: less_cursor_def row_cursor_def fun_eq_iff)
  then have "map (scan_event_row U) (filter ?Q (partition_rows (w_db w) pid)) =
      filter (\<lambda>e. c < cursor_from_event e) (stream_of U (w_db w) pid)"
    by (simp add: stream_of_def filter_map comp_def)
  then show ?thesis using e False by (simp add: events_after_def)
qed

lemma max_event_time_law:
  assumes "fst (max_event_time pid w) = Inr t" and "stream_of U (w_db w) pid \<noteq> []"
  shows "t = Max (event_time ` set (stream_of U (w_db w) pid))"
proof -
  let ?ts = "map er_event_time (filter (\<lambda>r. er_portfolio_id r = pid) (db_events (w_db w)))"
  have "Inr t = (Inr (case ?ts of [] \<Rightarrow> 0 | t # ts \<Rightarrow> fold max ts t) :: time res)"
    using db_query_result [OF assms(1) [unfolded max_event_time_def]] by simp
  moreover have "?ts \<noteq> []" using assms(2) by (auto simp: stream_of_def partition_rows_def)
  ultimately have "t = Max (set ?ts)" by (cases ?ts) (auto simp: max_fold)
  moreover have "set ?ts = event_time ` set (stream_of U (w_db w) pid)"
    by (auto simp: set_stream_of image_image)
  ultimately show ?thesis by simp
qed

lemma insert_snapshot_same:
  "same_views (postgres_views U P) w (snd (insert_portfolio_snapshot P pid t eid raw w))"
proof (cases "eid = uuid_nil \<or> t = 0")
  case False
  define body where "body = (\<lambda>(now :: time) (d :: db). case Option.bind (raw_json raw) (pg_jsonb P) of
      None \<Rightarrow> Inl (EStore ''insert portfolio_snapshot'')
    | Some doc \<Rightarrow>
      (if \<exists>r\<in>set (db_snapshots d). sn_portfolio_id r = pid \<and> sn_as_of r = Cursor (pg_time P t) eid
       then Inr (False, d)
       else Inr (True, d\<lparr>db_snapshots := db_snapshots d @ [\<lparr>sn_portfolio_id = pid,
         sn_as_of = Cursor (pg_time P t) eid, sn_snapshot = doc, sn_created_at = pg_time P now\<rparr>]\<rparr>)))"
  have tx: "insert_portfolio_snapshot P pid t eid raw w = db_tx ''insert portfolio_snapshot'' body w"
    using False by (simp add: insert_portfolio_snapshot_def body_def)
  define w' where "w' = snd (db_tx ''insert portfolio_snapshot'' body w)"
  have "w_db w' = w_db w \<or> (\<exists>x. body (call_time w) (w_db w) = Inr (x, w_db w'))"
    unfolding w'_def by (rule db_tx_db)
  then have "\<exists>sns. w_db w' = (w_db w)\<lparr>db_snapshots := sns\<rparr>"
    by (auto simp: body_def split: option.splits if_splits
        dest: sym [where t = "w_db w'"] intro: exI [of _ "db_snapshots (w_db w)"])
  moreover have "healthy w \<longrightarrow> healthy w'" by (simp add: w'_def db_tx_healthy(1))
  ultimately have "same_views (postgres_views U P) w w'"
    by (auto simp: same_views_def postgres_views_def stream_of_def partition_rows_def cursor_at_def
        dead_at_def book_at_def store_inv_def fun_eq_iff)
  then show ?thesis by (simp add: tx w'_def)
qed (auto simp: insert_portfolio_snapshot_def throw_def)

lemma read_clock_same: "same_views (postgres_views U P) w (snd (read_clock w))"
  "same_views (postgres_views U P) w (risk_request pid w)"
  by (simp_all add: same_views_def postgres_views_def healthy_def)

lemma list_ids_same: "same_views (postgres_views U P) w (snd (list_portfolio_ids_not_in ex w))"
  by (simp add: list_portfolio_ids_not_in_def list_portfolio_ids_def store_query_same)

lemma fetch_after_frame: "same_views (postgres_views U P) w (snd (fetch_after U P pid c n w))"
  "healthy w \<Longrightarrow> \<exists>evs. fst (fetch_after U P pid c n w) = Inr evs"
  by (simp_all add: fetch_after_def Let_def store_query_same db_query_healthy)

text \<open>Hydrating an aggregate from rows whose values fit the columns.\<close>

lemma map_of_rows_of: "map_of (rows_of d pid) s = map_of (db_positions d) (pid, s)"
proof -
  have "map_of (map (\<lambda>((p, s), r). (s, r)) (filter (\<lambda>((p, s), r). p = pid) xs)) s = map_of xs (pid, s)"
    for xs :: "((uuid \<times> string) \<times> position_row) list"
    by (induction xs) auto
  then show ?thesis by (simp add: rows_of_def)
qed

lemma rows_of_distinct:
  assumes "distinct (map fst (db_positions d))"
  shows "distinct (map fst (rows_of d pid))"
proof -
  have "distinct (map fst (map (\<lambda>((p, s), r). (s, r)) (filter (\<lambda>((p, s), r). p = pid) xs)))"
    if "distinct (map fst xs)" for xs :: "((uuid \<times> string) \<times> position_row) list"
    using that by (induction xs) (auto simp: rev_image_eqI image_iff)
  then show ?thesis using assms by (simp add: rows_of_def)
qed

lemma parse_position_rows_values:
  assumes "\<forall>p\<in>set rs. row_rounded (snd p)"
  shows "\<exists>ls. parse_position_rows D P rs = Inr ls \<and>
    list_all2 (\<lambda>(s, r) (s', l). s' = s \<and> lot_row val l = row_values r) rs ls"
  using assms
proof (induction rs)
  case (Cons p rs)
  obtain s r where p: "p = (s, r)" by (cases p)
  have rr: "row_rounded r" using Cons.prems p by simp
  obtain q where q: "d_parse D (pg_text P 8 (po_quantity r)) = Some q" "val q = po_quantity r"
    using parse_text rr unfolding row_rounded_def by blast
  obtain c where c: "d_parse D (pg_text P 8 (po_cost_basis r)) = Some c" "val c = po_cost_basis r"
    using parse_text rr unfolding row_rounded_def by blast
  obtain x where x: "d_parse D (pg_text P 8 (po_realized_pnl r)) = Some x" "val x = po_realized_pnl r"
    using parse_text rr unfolding row_rounded_def by blast
  obtain ls where ls: "parse_position_rows D P rs = Inr ls"
    "list_all2 (\<lambda>(s, r) (s', l). s' = s \<and> lot_row val l = row_values r) rs ls"
    using Cons by auto
  show ?case using p q c x ls
    by (intro exI [of _ "(s, \<lparr>lot_quantity = q, average_cost = c, realized_pnl = x\<rparr>) # ls"])
      (simp add: lot_row_def row_values_def)
qed simp

lemma rows_lots:
  assumes "list_all2 (\<lambda>(s, r) (s', l). s' = s \<and> lot_row val l = row_values r) rs ls"
  shows "map fst ls = map fst rs \<and> lot_row val (lot_of D ls s) =
    (case map_of rs s of None \<Rightarrow> (0, 0, 0) | Some r \<Rightarrow> row_values r)"
  using assms
proof (induction rs ls rule: list_all2_induct)
  case (Cons p rs q ls)
  then show ?case by (cases p; cases q) (auto simp: lot_of_def)
qed (simp add: lot_of_def lot_row_def zero_lot_def val_zero)

lemma load_positions_rows:
  assumes inv: "store_inv P d" and pr: "\<forall>s. book_at d pid s \<in> range (projected val)"
  obtains ls where "parse_position_rows D P (rows_of d pid) = Inr ls"
    "\<And>s. lot_row val (lot_of D (positions_from_lots ls) s) = book_at d pid s"
proof -
  have dk: "distinct (map fst (rows_of d pid))" using rows_of_distinct inv by (simp add: store_inv_def)
  have "row_rounded (snd p)" if "p \<in> set (rows_of d pid)" for p
  proof -
    have "map_of (rows_of d pid) (fst p) = Some (snd p)" using dk that by (simp add: map_of_eq_Some_iff)
    then have "row_values (snd p) = book_at d pid (fst p)"
      by (simp add: map_of_rows_of book_at_def row_values_def)
    moreover obtain l :: "'d position_lot" where "book_at d pid (fst p) = projected val l" using pr by blast
    ultimately have "row_values (snd p) = projected val l" by simp
    then show ?thesis by (auto simp: row_values_def projected_def row_rounded_def split: if_splits)
  qed
  then obtain ls where ls: "parse_position_rows D P (rows_of d pid) = Inr ls"
    "list_all2 (\<lambda>(s, r) (s', l). s' = s \<and> lot_row val l = row_values r) (rows_of d pid) ls"
    using parse_position_rows_values by blast
  have "distinct (map fst ls)" using rows_lots [OF ls(2)] dk by simp
  then have "lot_of D (positions_from_lots ls) s = lot_of D ls s" for s
    by (simp add: lot_of_def map_of_positions_from_lots)
  then show thesis using that [OF ls(1)] rows_lots [OF ls(2)]
    by (simp add: map_of_rows_of book_at_def row_values_def cong: option.case_cong)
qed

lemma load_positions_law:
  assumes "store_inv P (w_db w)" and "\<forall>s. book_at (w_db w) pid s \<in> range (projected val)"
  shows "fst (load_portfolio_positions_into_aggregate D P pid key agg w) = Inr agg' \<Longrightarrow>
      lot_row val (lot_of D (positions_at agg' key) s) = book_at (w_db w) pid s"
    and "healthy w \<Longrightarrow> \<exists>agg'. fst (load_portfolio_positions_into_aggregate D P pid key agg w) = Inr agg'"
proof -
  obtain ls where ls: "parse_position_rows D P (rows_of (w_db w) pid) = Inr ls"
    "\<And>s. lot_row val (lot_of D (positions_from_lots ls) s) = book_at (w_db w) pid s"
    by (rule load_positions_rows [OF assms]) blast
  show "\<exists>agg'. fst (load_portfolio_positions_into_aggregate D P pid key agg w) = Inr agg'" if "healthy w"
    using that ls(1) by (simp add: load_portfolio_positions_into_aggregate_def db_query_healthy)
  assume "fst (load_portfolio_positions_into_aggregate D P pid key agg w) = Inr agg'"
  from db_query_result [OF this [unfolded load_portfolio_positions_into_aggregate_def]] ls(1)
  have "agg' = set_portfolio_positions agg key (Some (positions_from_lots ls))" by simp
  then show "lot_row val (lot_of D (positions_at agg' key) s) = book_at (w_db w) pid s" using ls(2) by simp
qed

lemma repository: "event_repository D val J (postgres_repo D J U P) (postgres_views U P)"
proof (unfold_locales, goal_cases)
  case (1 w pid)
  then show ?case using stream_of_sorted by (simp add: store_inv_def)
next
  case (2 w ev pid)
  then show ?case
    by (auto simp: store_inv_def set_stream_of row_cursor_def zero_cursor_def)
next
  case (3 w ev pid)
  then show ?case by (auto simp: set_stream_of)
next
  case (4 w pid)
  then show ?case
    by (cases "map_of (db_cursors (w_db w)) pid")
      (auto simp: store_inv_def cursor_at_def zero_cursor_def time_zero dest!: map_of_SomeD bspec)
next
  case (7 pid w evs)
  then show ?case
    using db_query_result [of "''query events''" "\<lambda>now d. Inr (stream_of U d pid)" w evs]
    by (simp add: fetch_all_for_portfolio_def)
next
  case (10 w c n pid evs)
  then show ?case using fetch_after_law by simp
next
  case (13 pid w t)
  then show ?case using max_event_time_law by simp
next
  case (17 pid w c)
  then show ?case
    using db_query_result [of "''load projection cursor''" _ w c]
    by (fastforce simp: load_projection_cursor_def cursor_at_def)
next
  case (21 w pid key agg agg' s)
  then show ?case using load_positions_law(1) [of w pid key agg agg' s] by simp
next
  case (22 w pid key agg)
  then show ?case using load_positions_law(2) [of w pid key agg] by simp
next
  case (26 evs w' pid key agg w)
  then show ?case using apply_batch_law(1) [of evs w' J pid key agg w U] by simp
next
  case (27 evs w' pid key agg w)
  then show ?case using apply_batch_law(2) [of evs w' J pid key agg w] by (simp cong: if_cong)
next
  case (29 ev w' pid key reason cause w)
  then show ?case using persist_dlq_law(1) [of ev w' pid key reason cause w U] by simp
next
  case (30 ev w' pid key reason cause w)
  then show ?case using persist_dlq_law(2) [of ev w' pid key reason cause w] by simp
qed (simp_all add: list_ids_same fetch_all_for_portfolio_def store_query_same db_query_healthy
    fetch_after_frame max_event_time_def load_projection_cursor_def load_latest_portfolio_snapshot_def
    load_portfolio_positions_into_aggregate_def insert_snapshot_same read_clock_same time_zero
    zero_cursor_def apply_batch_succeeds persist_dlq_succeeds)

end

end
