(* ===== verification/Ingestion.thy ===== *)
theory Ingestion
  imports Postgres_Repository
begin

text \<open>
  \<^verbatim>\<open>internal/ingestion/service.go\<close>: validation of an envelope and its payload before the event is
  appended. The store is the Go interface \<^verbatim>\<open>appender\<close>, a function. The second part shows what
  \<open>append_event\<close> and the service guarantee together: idempotency, errors without effect, the
  invariant of the event table, and that a trade is read back from the stream as it was sent,
  through \<^verbatim>\<open>jsonb\<close>.
\<close>

definition ingest ::
  "'d decimal_api \<Rightarrow> 'd json_api \<Rightarrow> (event_envelope \<Rightarrow> ('w, append_result) prog) \<Rightarrow>
   event_envelope \<Rightarrow> ('w, append_result) prog" where
  "ingest D J append_to_store e =
     (case validate_event_envelope e of
        Inl x \<Rightarrow> throw x
      | Inr _ \<Rightarrow>
        (if event_type e = event_type_trade_executed then
           (case decode_trade D J (payload e) of
              None \<Rightarrow> throw (EInvalidPayload ''trade payload decode'')
            | Some t \<Rightarrow> (case validate_trade_payload D t of
                Inl x \<Rightarrow> throw x
              | Inr _ \<Rightarrow> append_to_store e))
         else if event_type e = event_type_price_updated then
           (case decode_price D J (payload e) of
              None \<Rightarrow> throw (EInvalidPayload ''price payload decode'')
            | Some p \<Rightarrow> (case validate_price_payload D p of
                Inl x \<Rightarrow> throw x
              | Inr _ \<Rightarrow> append_to_store e))
         else throw (EInvalidEvent ''unsupported event_type'')))"

lemma ingest_cases:
  obtains (refused) x where "\<And>w. ingest D J app e w = (Inl x, w)"
      "(\<exists>m. x = EValidation m) \<or> (\<exists>m. x = EInvalidPayload m) \<or> (\<exists>m. x = EInvalidEvent m)"
    | (passed) "\<And>w. ingest D J app e w = app e w" "validate_event_envelope e = Inr ()"
      "event_type e = event_type_trade_executed \<and> (\<exists>t. decode_trade D J (payload e) = Some t \<and> good_trade D t) \<or>
       event_type e = event_type_price_updated \<and> (\<exists>p. decode_price D J (payload e) = Some p \<and> good_price D p)"
proof (cases "validate_event_envelope e")
  case (Inl x)
  then show thesis using validate_event_envelope_error [OF Inl]
    by (intro refused [of x]) (auto simp: ingest_def throw_def)
next
  case v: (Inr u)
  consider (t) "event_type e = event_type_trade_executed"
    | (p) "event_type e \<noteq> event_type_trade_executed" "event_type e = event_type_price_updated"
    | (n) "event_type e \<noteq> event_type_trade_executed" "event_type e \<noteq> event_type_price_updated" by blast
  then show thesis
  proof cases
    case t
    show thesis
    proof (cases "decode_trade D J (payload e)")
      case None
      then show thesis using v t
        by (intro refused [of "EInvalidPayload ''trade payload decode''"]) (auto simp: ingest_def throw_def)
    next
      case (Some tr)
      show thesis
      proof (cases "validate_trade_payload D tr")
        case (Inl x)
        then show thesis using v t Some validate_trade_payload_error [OF Inl]
          by (intro refused [of x]) (auto simp: ingest_def throw_def)
      next
        case (Inr u')
        then show thesis using v t Some validate_trade_payload_ok [of D tr]
          by (intro passed) (auto simp: ingest_def)
      qed
    qed
  next
    case p
    show thesis
    proof (cases "decode_price D J (payload e)")
      case None
      then show thesis using v p
        by (intro refused [of "EInvalidPayload ''price payload decode''"]) (auto simp: ingest_def throw_def)
    next
      case (Some pr)
      show thesis
      proof (cases "validate_price_payload D pr")
        case (Inl x)
        then have "\<exists>m. x = EValidation m"
          by (auto simp: validate_price_payload_def validate_symbol_def validate_price_def split: if_splits)
        then show thesis using v p Some Inl
          by (intro refused [of x]) (auto simp: ingest_def throw_def)
      next
        case (Inr u')
        then show thesis using v p Some validate_price_payload_ok [of D pr]
          by (intro passed) (auto simp: ingest_def)
      qed
    qed
  next
    case n
    then show thesis using v
      by (intro refused [of "EInvalidEvent ''unsupported event_type''"]) (auto simp: ingest_def throw_def)
  qed
qed

section \<open>A reference for the JSON methods\<close>

fun ref_unmarshal :: "json \<Rightarrow> rdec \<Rightarrow> rdec option" where
  "ref_unmarshal (JStr s) old = rparse s"
| "ref_unmarshal (JNum s) old = rparse s"
| "ref_unmarshal JNull old = Some old"
| "ref_unmarshal _ old = None"

definition ref_json :: "rdec json_api" where
  "ref_json = \<lparr>d_marshal = (\<lambda>a. JStr (rstring a)), d_unmarshal = ref_unmarshal\<rparr>"

lemma fixed_string_chars: "c \<in> set (fixed_string a) \<Longrightarrow> is_digit c \<or> c = CHR ''.'' \<or> c = CHR ''-''"
  using nat_string_digits pad_string_digits
  by (auto simp: fixed_string_def Let_def split: if_splits)

interpretation refj: decimal_json ref_dec rval ref_json
proof
  fix a old
  show "\<exists>e. d_unmarshal ref_json (d_marshal ref_json a) old = Some e \<and> rval e = rval a"
    using ref.parse_string [of a] by (simp add: ref_json_def ref_dec_def)
  have "\<forall>c\<in>set (rstring a). 0 < (of_char c :: nat) \<and> (of_char c :: nat) < 128"
    using fixed_string_chars by (fastforce simp: rstring_def is_digit_def)
  then show "\<exists>s. d_marshal ref_json a = JStr s \<and>
      (\<forall>c\<in>set s. 0 < (of_char c :: nat) \<and> (of_char c :: nat) < 128)"
    by (simp add: ref_json_def)
qed

section \<open>Appending\<close>

text \<open>What a successful append leaves in the table, and which answer it gave.\<close>

lemma append_body_cases:
  assumes "append_body P pid e now d = Inr (res, d')"
  obtains (duplicate) r where "d' = d" "r \<in> set (db_events d)" "er_portfolio_id r = pid"
      "er_idempotency_key r = idempotency_key e" "res = \<lparr>ar_event_id = er_event_id r, ar_inserted = False\<rparr>"
    | (inserted) doc row where "Option.bind (raw_json (payload e)) (pg_jsonb P) = Some doc"
      "row = \<lparr>er_event_id = event_id e, er_portfolio_id = pid, er_event_time = pg_time P (event_time e),
         er_event_type = event_type e, er_idempotency_key = idempotency_key e, er_source = source e,
         er_payload = doc, er_created_at = pg_time P now\<rparr>"
      "d' = d\<lparr>db_events := db_events d @ [row]\<rparr>" "event_id e \<notin> er_event_id ` set (db_events d)"
      "\<forall>r\<in>set (db_events d). \<not> (er_portfolio_id r = pid \<and> er_idempotency_key r = idempotency_key e)"
      "res = \<lparr>ar_event_id = event_id e, ar_inserted = True\<rparr>"
proof (cases "find (\<lambda>r. er_portfolio_id r = pid \<and> er_idempotency_key r = idempotency_key e) (db_events d)")
  case None
  then have n: "\<forall>r\<in>set (db_events d). \<not> (er_portfolio_id r = pid \<and> er_idempotency_key r = idempotency_key e)"
    by (auto simp: find_None_iff)
  obtain doc where doc: "Option.bind (raw_json (payload e)) (pg_jsonb P) = Some doc"
    using assms by (cases "Option.bind (raw_json (payload e)) (pg_jsonb P)") (auto simp: append_body_def)
  with assms None have "event_id e \<notin> er_event_id ` set (db_events d)"
    "res = \<lparr>ar_event_id = event_id e, ar_inserted = True\<rparr>"
    "d' = d\<lparr>db_events := db_events d @ [\<lparr>er_event_id = event_id e, er_portfolio_id = pid,
       er_event_time = pg_time P (event_time e), er_event_type = event_type e,
       er_idempotency_key = idempotency_key e, er_source = source e, er_payload = doc,
       er_created_at = pg_time P now\<rparr>]\<rparr>"
    by (auto simp: append_body_def split: if_splits)
  then show thesis by (intro inserted [OF doc refl _ _ n])
next
  case (Some r)
  then have "r \<in> set (db_events d)" "er_portfolio_id r = pid" "er_idempotency_key r = idempotency_key e"
    by (auto simp: find_Some_iff)
  then show thesis using assms duplicate [of r] Some
    by (auto simp: append_body_def split: option.splits if_splits)
qed

lemma append_event_result:
  assumes "fst (append_event U P e w) = Inr res"
  obtains pid where "uuid_parse U (portfolio_id e) = Some pid"
    "append_body P pid e (call_time w) (w_db w) = Inr (res, w_db (snd (append_event U P e w)))"
proof (cases "uuid_parse U (portfolio_id e)")
  case None
  then show thesis using assms by (simp add: append_event_def)
next
  case (Some pid)
  then have "append_event U P e w = db_tx ''append event'' (append_body P pid e) w"
    by (simp add: append_event_def)
  then show thesis using that [OF Some] db_tx_result [of "''append event''" "append_body P pid e" w res] assms
    by simp
qed

lemma append_event_db:
  obtains (same) "w_db (snd (append_event U P e w)) = w_db w"
    | (wrote) pid res where "uuid_parse U (portfolio_id e) = Some pid"
      "append_body P pid e (call_time w) (w_db w) = Inr (res, w_db (snd (append_event U P e w)))"
proof (cases "uuid_parse U (portfolio_id e)")
  case None
  then show thesis by (intro same) (simp add: append_event_def)
next
  case (Some pid)
  then show thesis
    using db_tx_db [of "''append event''" "append_body P pid e" w] same wrote
    by (auto simp: append_event_def)
qed

lemma append_body_inv:
  assumes "append_body P pid e now d = Inr (res, d')" and "store_inv P d" and "event_id e \<noteq> uuid_nil"
    and "\<And>t. pg_time P (pg_time P t) = pg_time P t"
  shows "store_inv P d'"
  using assms(1)
proof (cases rule: append_body_cases)
  case (inserted doc row)
  then have "event_key row \<notin> event_key ` set (db_events d)" by (auto simp: event_key_def)
  then show ?thesis using assms(2-) inserted by (auto simp: store_inv_def)
qed (use assms in simp)

text \<open>
  A key that is in the table is answered with the stored id, and changes nothing; a success
  leaves the key in the table with the id of the answer.
\<close>

lemma append_body_known:
  assumes inv: "store_inv P d" and r: "r \<in> set (db_events d)" "event_key r = (pid, idempotency_key e)"
    and "Option.bind (raw_json (payload e)) (pg_jsonb P) \<noteq> None"
    and "pg_text_ok P (event_type e)" "pg_text_ok P (idempotency_key e)" "pg_text_ok P (source e)"
  shows "append_body P pid e now d = Inr (\<lparr>ar_event_id = er_event_id r, ar_inserted = False\<rparr>, d)"
proof -
  let ?Q = "\<lambda>r. er_portfolio_id r = pid \<and> er_idempotency_key r = idempotency_key e"
  have "find ?Q (db_events d) \<noteq> None" using r by (auto simp: find_None_iff event_key_def)
  then obtain r' where r': "find ?Q (db_events d) = Some r'" by blast
  then have "r' \<in> set (db_events d)" "event_key r' = event_key r" using r(2) by (auto simp: find_Some_iff event_key_def)
  then have "r' = r" using inv r(1) by (auto simp: store_inv_def distinct_map inj_on_def)
  then show ?thesis using r' assms(4-) by (auto simp: append_body_def)
qed

lemma append_body_stored:
  assumes "append_body P pid e now d = Inr (res, d')"
  shows "set (db_events d) \<subseteq> set (db_events d')"
    and "\<exists>r\<in>set (db_events d'). event_key r = (pid, idempotency_key e) \<and> er_event_id r = ar_event_id res"
    and "Option.bind (raw_json (payload e)) (pg_jsonb P) \<noteq> None \<and>
      pg_text_ok P (event_type e) \<and> pg_text_ok P (idempotency_key e) \<and> pg_text_ok P (source e)"
proof -
  show "set (db_events d) \<subseteq> set (db_events d')"
    using assms by (cases rule: append_body_cases) auto
  show "\<exists>r\<in>set (db_events d'). event_key r = (pid, idempotency_key e) \<and> er_event_id r = ar_event_id res"
    using assms by (cases rule: append_body_cases) (auto simp: event_key_def)
  show "Option.bind (raw_json (payload e)) (pg_jsonb P) \<noteq> None \<and>
      pg_text_ok P (event_type e) \<and> pg_text_ok P (idempotency_key e) \<and> pg_text_ok P (source e)"
    using assms by (auto simp: append_body_def split: if_splits option.splits)
qed

section \<open>Payloads through the store\<close>

text \<open>
  \<^verbatim>\<open>jsonb\<close> gives the members back in an order of its own; decoding does not depend on the order
  of members that name different fields.
\<close>

definition trade_members :: "'d json_api \<Rightarrow> 'd trade_payload \<Rightarrow> (string \<times> json) list" where
  "trade_members J t = [(''trade_id'', JStr (trade_id t)), (''symbol'', JStr (symbol t)),
     (''side'', JStr (side t)), (''quantity'', d_marshal J (quantity t)),
     (''price'', d_marshal J (price t)), (''currency'', JStr (currency t))]"

lemma encode_trade_members: "encode_trade J t = RawDoc (JObj (trade_members J t))"
  by (simp add: encode_trade_def trade_members_def)

lemma decode_trade_member_simps:
  "decode_trade_member J (''trade_id'', JStr v) (Some t) = Some (t\<lparr>trade_id := v\<rparr>)"
  "decode_trade_member J (''symbol'', JStr v) (Some t) = Some (t\<lparr>symbol := v\<rparr>)"
  "decode_trade_member J (''side'', JStr v) (Some t) = Some (t\<lparr>side := v\<rparr>)"
  "decode_trade_member J (''currency'', JStr v) (Some t) = Some (t\<lparr>currency := v\<rparr>)"
  "decode_trade_member J (''quantity'', x) (Some t) = map_option (\<lambda>v. t\<lparr>quantity := v\<rparr>) (d_unmarshal J x (quantity t))"
  "decode_trade_member J (''price'', x) (Some t) = map_option (\<lambda>v. t\<lparr>price := v\<rparr>) (d_unmarshal J x (price t))"
  "decode_trade_member J m None = None"
  by (simp_all add: decode_trade_member_def field_match_def trade_fields_def)

lemma trade_members_commute:
  assumes "x \<in> set (trade_members J t)" and "y \<in> set (trade_members J t)"
  shows "decode_trade_member J x \<circ> decode_trade_member J y = decode_trade_member J y \<circ> decode_trade_member J x"
proof (rule ext)
  fix acc
  show "(decode_trade_member J x \<circ> decode_trade_member J y) acc = (decode_trade_member J y \<circ> decode_trade_member J x) acc"
  proof (cases acc)
    case None
    then show ?thesis by (simp add: decode_trade_member_simps)
  next
    case (Some a)
    then show ?thesis using assms
      by (cases "d_unmarshal J (d_marshal J (quantity t)) (quantity a)";
          cases "d_unmarshal J (d_marshal J (price t)) (price a)")
        (auto simp: trade_members_def decode_trade_member_simps)
  qed
qed

definition price_members :: "'d json_api \<Rightarrow> 'd price_payload \<Rightarrow> (string \<times> json) list" where
  "price_members J p = [(''symbol'', JStr (p_symbol p)), (''price'', d_marshal J (p_price p)),
     (''currency'', JStr (p_currency p)), (''source_sequence'', JNum (int_literal (source_sequence p)))]"

lemma encode_price_members: "encode_price J p = RawDoc (JObj (price_members J p))"
  by (simp add: encode_price_def price_members_def)

lemma decode_price_member_simps:
  "decode_price_member J (''symbol'', JStr v) (Some p) = Some (p\<lparr>p_symbol := v\<rparr>)"
  "decode_price_member J (''currency'', JStr v) (Some p) = Some (p\<lparr>p_currency := v\<rparr>)"
  "decode_price_member J (''price'', x) (Some p) = map_option (\<lambda>v. p\<lparr>p_price := v\<rparr>) (d_unmarshal J x (p_price p))"
  "decode_price_member J (''source_sequence'', x) (Some p) =
     map_option (\<lambda>v. p\<lparr>source_sequence := v\<rparr>) (decode_int64 x (source_sequence p))"
  "decode_price_member J m None = None"
  by (simp_all add: decode_price_member_def field_match_def price_fields_def)

lemma price_members_commute:
  assumes "x \<in> set (price_members J p)" and "y \<in> set (price_members J p)"
  shows "decode_price_member J x \<circ> decode_price_member J y = decode_price_member J y \<circ> decode_price_member J x"
proof (rule ext)
  fix acc
  show "(decode_price_member J x \<circ> decode_price_member J y) acc = (decode_price_member J y \<circ> decode_price_member J x) acc"
  proof (cases acc)
    case None
    then show ?thesis by (simp add: decode_price_member_simps)
  next
    case (Some a)
    then show ?thesis using assms
      by (cases "d_unmarshal J (d_marshal J (p_price p)) (p_price a)";
          cases "parse_int_literal (int_literal (source_sequence p))")
        (auto simp: price_members_def decode_price_member_simps)
  qed
qed

locale ingest_laws = pg_laws D val P + decimal_json D val J
  for D :: "'d decimal_api" and val :: "'d \<Rightarrow> rat" and P :: pg_api and J :: "'d json_api"
begin

lemma jsonb_trade:
  assumes "pg_text_ok P (trade_id t)" "pg_text_ok P (symbol t)" "pg_text_ok P (side t)" "pg_text_ok P (currency t)"
  shows "\<exists>ms. pg_jsonb P (JObj (trade_members J t)) = Some (JObj ms) \<and> mset ms = mset (trade_members J t)"
proof -
  obtain q p where qp: "d_marshal J (quantity t) = JStr q" "pg_text_ok P q"
    "d_marshal J (price t) = JStr p" "pg_text_ok P p"
    using marshal_ascii [of "quantity t"] marshal_ascii [of "price t"] text_ascii by blast
  have names: "\<forall>m\<in>set (trade_members J t). pg_text_ok P (fst m)"
    by (auto simp: trade_members_def intro!: text_ascii)
  have keep: "\<forall>m\<in>set (trade_members J t). pg_jsonb P (snd m) = Some (snd m)"
    using assms qp by (auto simp: trade_members_def jsonb_str)
  then have "map (\<lambda>m. (fst m, the (pg_jsonb P (snd m)))) (trade_members J t) = trade_members J t"
    by (auto simp: map_idI)
  moreover have "distinct (map fst (trade_members J t))" by (simp add: trade_members_def)
  ultimately show ?thesis using jsonb_obj [of "trade_members J t"] names keep by metis
qed

lemma stored_trade_decodes:
  assumes "pg_text_ok P (trade_id t)" "pg_text_ok P (symbol t)" "pg_text_ok P (side t)" "pg_text_ok P (currency t)"
  obtains doc t' where "Option.bind (raw_json (encode_trade J t)) (pg_jsonb P) = Some doc"
    "decode_trade D J (RawDoc doc) = Some t'" "trade_id t' = trade_id t" "symbol t' = symbol t"
    "side t' = side t" "currency t' = currency t" "val (quantity t') = val (quantity t)"
    "val (price t') = val (price t)"
proof -
  obtain ms where ms: "pg_jsonb P (JObj (trade_members J t)) = Some (JObj ms)"
    "mset ms = mset (trade_members J t)" using jsonb_trade [OF assms] by blast
  have "fold (decode_trade_member J) (trade_members J t) = fold (decode_trade_member J) ms"
    using trade_members_commute ms(2) by (intro fold_multiset_equiv) auto
  then have "decode_trade D J (RawDoc (JObj ms)) = decode_trade D J (encode_trade J t)"
    by (simp add: encode_trade_members)
  then show thesis using decode_encode_trade [of t] that [of "JObj ms"] ms(1)
    by (auto simp: encode_trade_members)
qed

lemma jsonb_price:
  assumes "pg_text_ok P (p_symbol p)" "pg_text_ok P (p_currency p)"
  shows "\<exists>ms. pg_jsonb P (JObj (price_members J p)) = Some (JObj ms) \<and> mset ms = mset (price_members J p)"
proof -
  obtain x where x: "d_marshal J (p_price p) = JStr x" "pg_text_ok P x"
    using marshal_ascii [of "p_price p"] text_ascii by blast
  have names: "\<forall>m\<in>set (price_members J p). pg_text_ok P (fst m)"
    by (auto simp: price_members_def intro!: text_ascii)
  have keep: "\<forall>m\<in>set (price_members J p). pg_jsonb P (snd m) = Some (snd m)"
    using assms x by (auto simp: price_members_def jsonb_str jsonb_int)
  then have "map (\<lambda>m. (fst m, the (pg_jsonb P (snd m)))) (price_members J p) = price_members J p"
    by (auto simp: map_idI)
  moreover have "distinct (map fst (price_members J p))" by (simp add: price_members_def)
  ultimately show ?thesis using jsonb_obj [of "price_members J p"] names keep by metis
qed

lemma stored_price_decodes:
  assumes "pg_text_ok P (p_symbol p)" "pg_text_ok P (p_currency p)" "int64 (source_sequence p)"
  obtains doc p' where "Option.bind (raw_json (encode_price J p)) (pg_jsonb P) = Some doc"
    "decode_price D J (RawDoc doc) = Some p'" "p_symbol p' = p_symbol p" "p_currency p' = p_currency p"
    "source_sequence p' = source_sequence p" "val (p_price p') = val (p_price p)"
proof -
  obtain ms where ms: "pg_jsonb P (JObj (price_members J p)) = Some (JObj ms)"
    "mset ms = mset (price_members J p)" using jsonb_price [OF assms(1,2)] by blast
  have "fold (decode_price_member J) (price_members J p) = fold (decode_price_member J) ms"
    using price_members_commute ms(2) by (intro fold_multiset_equiv) auto
  then have "decode_price D J (RawDoc (JObj ms)) = decode_price D J (encode_price J p)"
    by (simp add: encode_price_members)
  then show thesis using decode_encode_price [OF assms(3)] that [of "JObj ms"] ms(1)
    by (auto simp: encode_price_members)
qed

end

interpretation refi: ingest_laws ref_dec rval ref_pg ref_json ..

end
