(* ===== verification/Trade_Worker.thy ===== *)
theory Trade_Worker
  imports Repository
begin

text \<open>
  \<^verbatim>\<open>internal/events/trade_portfolio_apply.go\<close>: the apply state of one customer portfolio and the
  operations on it. A worker is the record \<open>partition_worker\<close>; every operation is a program on
  the pair of the worker and the world, so that an early return leaves both exactly as the Go
  code leaves them. The loop of \<^verbatim>\<open>pumpAfterCursor\<close> is a \<open>partial_function\<close>: a pump that never
  returns is \<open>None\<close>. Logging, metrics and the context are not modelled.
\<close>

record 'd partition_worker =
  pw_watermark :: duration
  pw_max_event_age :: duration
  pw_pid :: uuid
  pw_pid_str :: string
  pw_agg :: "'d aggregate"
  pw_cur :: cursor
  pw_risk_scheduler :: bool
  pw_snapshot_min_events :: int
  pw_snapshot_min_interval :: duration
  pw_events_applied_since_snapshot :: int
  pw_last_snapshot_at :: time

section \<open>Programs on a worker and the world\<close>

definition on_world :: "('w, 'a) prog \<Rightarrow> ('p \<times> 'w, 'a) prog" where
  "on_world m s = (case m (snd s) of (r, w') \<Rightarrow> (r, (fst s, w')))"

definition change :: "('p \<Rightarrow> 'p) \<Rightarrow> ('p \<times> 'w, unit) prog" where
  "change f s = (Inr (), (f (fst s), snd s))"

section \<open>Operations\<close>

definition new_partition_worker ::
  "('d, 'w) repo \<Rightarrow> uuid_api \<Rightarrow> duration \<Rightarrow> duration \<Rightarrow> uuid \<Rightarrow> int \<Rightarrow> duration \<Rightarrow> 'w \<Rightarrow> 'd partition_worker \<times> 'w" where
  "new_partition_worker R U watermark max_event_age pid min_events min_interval w =
     (case rp_now R w of (t, w') \<Rightarrow>
       (\<lparr>pw_watermark = watermark, pw_max_event_age = max_event_age, pw_pid = pid,
         pw_pid_str = uuid_str U pid, pw_agg = new_aggregate, pw_cur = zero_cursor,
         pw_risk_scheduler = False, pw_snapshot_min_events = min_events,
         pw_snapshot_min_interval = min_interval, pw_events_applied_since_snapshot = 0,
         pw_last_snapshot_at = t\<rparr>, w'))"

definition snapshot_policy_enabled :: "'d partition_worker \<Rightarrow> bool" where
  "snapshot_policy_enabled pw \<longleftrightarrow> pw_snapshot_min_events pw > 0 \<or> pw_snapshot_min_interval pw > 0"

definition should_write_portfolio_snapshot ::
  "('d, 'w) repo \<Rightarrow> 'd partition_worker \<Rightarrow> 'w \<Rightarrow> bool \<times> 'w" where
  "should_write_portfolio_snapshot R pw w =
     (let by_n = pw_snapshot_min_events pw > 0 \<and>
            pw_events_applied_since_snapshot pw \<ge> pw_snapshot_min_events pw
      in if pw_snapshot_min_interval pw > 0 then
           (case rp_now R w of (t, w') \<Rightarrow>
             (by_n \<or> time_sub t (pw_last_snapshot_at pw) \<ge> pw_snapshot_min_interval pw, w'))
         else (by_n, w))"

text \<open>Best effort: every failure only returns, with the event counter already raised.\<close>

definition maybe_snapshot_after_apply ::
  "'d decimal_api \<Rightarrow> ('d, 'w) repo \<Rightarrow> event_envelope list \<Rightarrow> 'd partition_worker \<times> 'w \<Rightarrow> 'd partition_worker \<times> 'w" where
  "maybe_snapshot_after_apply D R applied s =
     (if \<not> snapshot_policy_enabled (fst s) \<or> applied = [] then s
      else let pw = (fst s)\<lparr>pw_events_applied_since_snapshot :=
                 pw_events_applied_since_snapshot (fst s) + int (length applied)\<rparr>
      in case should_write_portfolio_snapshot R pw (snd s) of (write, w1) \<Rightarrow>
        if \<not> write then (pw, w1)
        else case marshal_trade_positions_snapshot_v1 D (Some (pw_agg pw)) (pw_pid_str pw) of
            Inl e \<Rightarrow> (pw, w1)
          | Inr body \<Rightarrow> (case rp_load_projection_cursor R (pw_pid pw) w1 of
              (Inl e, w2) \<Rightarrow> (pw, w2)
            | (Inr db_cur, w2) \<Rightarrow>
              (if compare_cursors (cursor_from_event (last applied)) db_cur \<noteq> 0 then (pw, w2)
               else case rp_insert_portfolio_snapshot R (pw_pid pw) (event_time (last applied))
                        (event_id (last applied)) body w2 of
                   (Inl e, w3) \<Rightarrow> (pw, w3)
                 | (Inr inserted, w3) \<Rightarrow> (case rp_now R w3 of (t, w4) \<Rightarrow>
                     (pw\<lparr>pw_events_applied_since_snapshot := 0, pw_last_snapshot_at := t\<rparr>, w4)))))"

definition flush_apply_batch ::
  "'d decimal_api \<Rightarrow> ('d, 'w) repo \<Rightarrow> event_envelope list \<Rightarrow> ('d partition_worker \<times> 'w, unit) prog" where
  "flush_apply_batch D R ok_batch s =
     (if ok_batch = [] then (Inr (), s)
      else case rp_apply_batch R (pw_pid (fst s)) (pw_pid_str (fst s)) ok_batch (pw_agg (fst s)) (snd s) of
          (Inl e, w') \<Rightarrow> (Inl e, (fst s, w'))
        | (Inr u, w') \<Rightarrow>
          (let w'' = (if pw_risk_scheduler (fst s) then rp_schedule R (pw_pid (fst s)) w' else w')
           in (Inr (), maybe_snapshot_after_apply D R ok_batch
                ((fst s)\<lparr>pw_cur := cursor_from_event (last ok_batch)\<rparr>, w''))))"

fun eligible_prefix :: "event_envelope list \<Rightarrow> time \<Rightarrow> event_envelope list" where
  "eligible_prefix [] cutoff = []"
| "eligible_prefix (ev # evs) cutoff =
     (if event_time ev \<le> cutoff then ev # eligible_prefix evs cutoff else [])"

definition fetch_after_page_limit :: int where
  "fetch_after_page_limit = 200"

definition eligible_batch_after_watermark ::
  "event_envelope list \<Rightarrow> time \<Rightarrow> duration \<Rightarrow> int \<Rightarrow> event_envelope list" where
  "eligible_batch_after_watermark batch cutoff watermark fetch_limit =
     (let eligible = eligible_prefix batch cutoff
      in if eligible = [] \<and> batch \<noteq> [] \<and> int (length batch) < fetch_limit \<and> watermark > 0
         then batch else eligible)"

definition event_too_stale_for_apply ::
  "('d, 'w) repo \<Rightarrow> event_envelope \<Rightarrow> duration \<Rightarrow> 'w \<Rightarrow> bool \<times> 'w" where
  "event_too_stale_for_apply R ev max_age w =
     (if max_age \<le> 0 then (False, w)
      else case rp_now R w of (t, w') \<Rightarrow> (time_sub t (event_time ev) > max_age, w'))"

text \<open>
  \<^verbatim>\<open>applyEligible\<close>: \<open>ok_batch\<close> are the events applied to the aggregate but not yet committed.
  \<open>dead_letter\<close> is the common tail of its two branches that put an event aside. A panic of the
  decimal package leaves the function at once.
\<close>

definition dead_letter ::
  "('d, 'w) repo \<Rightarrow> event_envelope \<Rightarrow> string \<Rightarrow> err \<Rightarrow> ('d partition_worker \<times> 'w, unit) prog" where
  "dead_letter R ev reason cause =
     andthen (\<lambda>s. on_world (rp_persist_apply_dlq R (pw_pid (fst s)) (pw_pid_str (fst s)) ev reason cause) s)
       (\<lambda>_. change (\<lambda>pw. pw\<lparr>pw_cur := cursor_from_event ev\<rparr>))"

fun apply_eligible ::
  "'d decimal_api \<Rightarrow> 'd json_api \<Rightarrow> ('d, 'w) repo \<Rightarrow> event_envelope list \<Rightarrow> event_envelope list \<Rightarrow>
   ('d partition_worker \<times> 'w, unit) prog" where
  "apply_eligible D J R ok_batch [] = flush_apply_batch D R ok_batch"
| "apply_eligible D J R ok_batch (ev # evs) = (\<lambda>s.
     (case event_too_stale_for_apply R ev (pw_max_event_age (fst s)) (snd s) of (stale, w1) \<Rightarrow>
       if stale then
         andthen (flush_apply_batch D R ok_batch) (\<lambda>_.
           andthen (dead_letter R ev ''EVENT_TOO_STALE'' (EOther ''event_time too far behind apply time'')) (\<lambda>_.
             apply_eligible D J R [] evs)) (fst s, w1)
       else
         (case apply_event D J (pw_agg (fst s)) (pw_pid_str (fst s)) ev of (r, agg) \<Rightarrow>
           (let s1 = ((fst s)\<lparr>pw_agg := agg\<rparr>, w1)
            in case r of
                Inr u \<Rightarrow> apply_eligible D J R (ok_batch @ [ev]) evs s1
              | Inl (EPanic m) \<Rightarrow> throw (EPanic m) s1
              | Inl e \<Rightarrow>
                andthen (flush_apply_batch D R ok_batch) (\<lambda>_.
                  if e = EPositionUnderflow then
                    andthen (dead_letter R ev ''POSITION_UNDERFLOW'' e) (\<lambda>_. apply_eligible D J R [] evs)
                  else throw e) s1))))"

partial_function (option) pump_after_cursor ::
  "'d decimal_api \<Rightarrow> 'd json_api \<Rightarrow> ('d, 'w) repo \<Rightarrow> 'd partition_worker \<times> 'w \<Rightarrow>
   (unit res \<times> 'd partition_worker \<times> 'w) option" where
  "pump_after_cursor D J R s =
     (case rp_max_event_time R (pw_pid (fst s)) (snd s) of
        (Inl e, w1) \<Rightarrow> Some (Inl e, (fst s, w1))
      | (Inr max_t, w1) \<Rightarrow>
        (case rp_fetch_after R (pw_pid (fst s)) (pw_cur (fst s)) fetch_after_page_limit w1 of
          (Inl e, w2) \<Rightarrow> Some (Inl e, (fst s, w2))
        | (Inr batch, w2) \<Rightarrow>
          (let eligible = eligible_batch_after_watermark batch (max_t - pw_watermark (fst s))
                 (pw_watermark (fst s)) fetch_after_page_limit
           in if batch = [] then Some (Inr (), (fst s, w2))
              else if eligible = [] then Some (Inr (), (fst s, w2))
              else case apply_eligible D J R [] eligible (fst s, w2) of
                  (Inl e, s') \<Rightarrow> Some (Inl e, s')
                | (Inr u, s') \<Rightarrow>
                  (if length eligible < length batch \<or> int (length batch) < fetch_after_page_limit
                   then Some (Inr (), s')
                   else pump_after_cursor D J R s'))))"

definition process_incremental ::
  "'d decimal_api \<Rightarrow> 'd json_api \<Rightarrow> ('d, 'w) repo \<Rightarrow> 'd partition_worker \<times> 'w \<Rightarrow>
   (unit res \<times> 'd partition_worker \<times> 'w) option" where
  "process_incremental D J R s = pump_after_cursor D J R s"

definition use_snapshot :: "'d latest_snapshot \<Rightarrow> cursor \<Rightarrow> bool" where
  "use_snapshot snap db_cur \<longleftrightarrow> ls_found snap \<and> ls_aggregate snap \<noteq> None \<and>
     \<not> cursor_is_zero (ls_as_of snap) \<and>
     (cursor_is_zero db_cur \<or> compare_cursors (ls_as_of snap) db_cur = 0)"

definition rebuild ::
  "'d decimal_api \<Rightarrow> 'd json_api \<Rightarrow> ('d, 'w) repo \<Rightarrow> 'd partition_worker \<times> 'w \<Rightarrow>
   (unit res \<times> 'd partition_worker \<times> 'w) option" where
  "rebuild D J R s =
     (case rp_load_projection_cursor R (pw_pid (fst s)) (snd s) of
        (Inl e, w1) \<Rightarrow> Some (Inl e, (fst s, w1))
      | (Inr db_cur, w1) \<Rightarrow>
        (case rp_load_latest_portfolio_snapshot R (pw_pid (fst s)) w1 of (rs, w2) \<Rightarrow>
          (let snap = (case rs of Inl e \<Rightarrow> no_snapshot | Inr x \<Rightarrow> x);
               pw = (fst s)\<lparr>pw_agg := new_aggregate, pw_cur := zero_cursor\<rparr>
           in if use_snapshot snap db_cur then
                pump_after_cursor D J R
                  (pw\<lparr>pw_agg := the (ls_aggregate snap), pw_cur := ls_as_of snap\<rparr>, w2)
              else if cursor_is_zero db_cur then
                (case rp_fetch_all_for_portfolio R (pw_pid pw) w2 of
                   (Inl e, w3) \<Rightarrow> Some (Inl e, (pw, w3))
                 | (Inr evs, w3) \<Rightarrow> Some (apply_eligible D J R [] evs (pw, w3)))
              else
                (case rp_load_portfolio_positions R (pw_pid pw) (pw_pid_str pw) (pw_agg pw) w2 of
                   (Inl e, w3) \<Rightarrow> Some (Inl e, (pw\<lparr>pw_cur := db_cur\<rparr>, w3))
                 | (Inr agg, w3) \<Rightarrow>
                     pump_after_cursor D J R (pw\<lparr>pw_agg := agg, pw_cur := db_cur\<rparr>, w3)))))"

end
