(* ===== verification/Apply_Log.thy ===== *)
theory Apply_Log
  imports Trade_Worker
begin

text \<open>
  What an apply worker is to do, without pages, batches, transactions and failures: go through
  the events in order, apply each to the positions, put aside those that would go short or are
  too old, stop at an event that cannot be applied at all. A log pairs each event with its
  outcome; \<open>run_log\<close> gives the positions after a log, and \<open>None\<close> when an outcome is not the one
  the event has. \<open>replay\<close> is the same without old events, from the events alone.
\<close>

datatype outcome = Applied | Underflow | Stale

fun run_log ::
  "'d decimal_api \<Rightarrow> 'd json_api \<Rightarrow> (event_envelope \<times> outcome) list \<Rightarrow> 'd positions \<Rightarrow> 'd positions option" where
  "run_log D J [] ps = Some ps"
| "run_log D J ((ev, oc) # l) ps = (case oc of
     Applied \<Rightarrow> (case event_effect D J ev ps of Inl e \<Rightarrow> None | Inr ps' \<Rightarrow> run_log D J l ps')
   | Underflow \<Rightarrow> (if event_effect D J ev ps = Inl EPositionUnderflow then run_log D J l ps else None)
   | Stale \<Rightarrow> run_log D J l ps)"

definition dead_events :: "(event_envelope \<times> outcome) list \<Rightarrow> event_envelope list" where
  "dead_events l = map fst (filter (\<lambda>p. snd p \<noteq> Applied) l)"

definition no_stale :: "(event_envelope \<times> outcome) list \<Rightarrow> bool" where
  "no_stale l \<longleftrightarrow> Stale \<notin> snd ` set l"

definition log_cursor :: "cursor \<Rightarrow> (event_envelope \<times> outcome) list \<Rightarrow> cursor" where
  "log_cursor c l = (if l = [] then c else cursor_from_event (fst (last l)))"

fun replay :: "'d decimal_api \<Rightarrow> 'd json_api \<Rightarrow> event_envelope list \<Rightarrow> 'd positions \<Rightarrow> 'd positions" where
  "replay D J [] ps = ps"
| "replay D J (ev # evs) ps =
     (case event_effect D J ev ps of Inl e \<Rightarrow> replay D J evs ps | Inr ps' \<Rightarrow> replay D J evs ps')"

fun rejected :: "'d decimal_api \<Rightarrow> 'd json_api \<Rightarrow> event_envelope list \<Rightarrow> 'd positions \<Rightarrow> event_envelope list" where
  "rejected D J [] ps = []"
| "rejected D J (ev # evs) ps =
     (case event_effect D J ev ps of Inl e \<Rightarrow> ev # rejected D J evs ps | Inr ps' \<Rightarrow> rejected D J evs ps')"

lemma run_log_append:
  "run_log D J (l @ m) ps = Option.bind (run_log D J l ps) (run_log D J m)"
  by (induction D J l ps rule: run_log.induct) (auto split: outcome.splits sum.splits)

lemma dead_events_append [simp]: "dead_events (l @ m) = dead_events l @ dead_events m"
  by (simp add: dead_events_def)

lemma dead_events_simps [simp]: "dead_events [] = []"
  "dead_events [(ev, Applied)] = []" "dead_events [(ev, Underflow)] = [ev]" "dead_events [(ev, Stale)] = [ev]"
  by (simp_all add: dead_events_def)

lemma no_stale_simps [simp]: "no_stale []" "no_stale (l @ m) \<longleftrightarrow> no_stale l \<and> no_stale m"
  "no_stale [(ev, oc)] \<longleftrightarrow> oc \<noteq> Stale"
  by (auto simp: no_stale_def)

lemma run_log_replay:
  "run_log D J l ps = Some ps' \<Longrightarrow> no_stale l \<Longrightarrow>
    ps' = replay D J (map fst l) ps \<and> dead_events l = rejected D J (map fst l) ps"
proof (induction D J l ps rule: run_log.induct)
  case (2 D J ev oc l ps)
  then show ?case
    by (cases oc) (auto simp: no_stale_def dead_events_def split: sum.splits if_splits)
qed simp

lemma replay_append: "replay D J (xs @ ys) ps = replay D J ys (replay D J xs ps)"
  by (induction xs arbitrary: ps) (auto split: sum.splits)

lemma rejected_append: "rejected D J (xs @ ys) ps = rejected D J xs ps @ rejected D J ys (replay D J xs ps)"
  by (induction xs arbitrary: ps) (auto split: sum.splits)

text \<open>Events whose effect succeeds decode, and change at most the lots of the touched symbols.\<close>

lemma event_effect_touched:
  assumes "event_effect D J ev ps = Inr ps'"
  shows "\<exists>ss. touched_symbols D J [ev] = Inr ss \<and> (\<forall>s. s \<notin> set ss \<longrightarrow> lot_of D ps' s = lot_of D ps s)"
  using assms by (auto simp: event_effect_def split: if_splits option.splits dest: lot_of_other)

lemma touched_symbols_append:
  "touched_symbols D J xs = Inr ss \<Longrightarrow> touched_symbols D J ys = Inr ts \<Longrightarrow>
    \<exists>us. touched_symbols D J (xs @ ys) = Inr us \<and> set us = set ss \<union> set ts"
proof (induction xs arbitrary: ss)
  case (Cons x xs)
  show ?case
  proof (cases "event_type x = event_type_trade_executed")
    case False
    with Cons show ?thesis by simp
  next
    case True
    with Cons.prems obtain t ss' where
      "decode_trade D J (payload x) = Some t" "touched_symbols D J xs = Inr ss'" "ss = List.insert (symbol t) ss'"
      by (auto split: option.splits sum.splits)
    with Cons True show ?thesis by fastforce
  qed
qed simp

abbreviation all_applied :: "event_envelope list \<Rightarrow> (event_envelope \<times> outcome) list" where
  "all_applied evs \<equiv> map (\<lambda>e. (e, Applied)) evs"

lemma all_applied_simps [simp]: "dead_events (all_applied evs) = []" "no_stale (all_applied evs)"
  "map fst (all_applied evs) = evs" "map (fst \<circ> (\<lambda>e. (e, Applied))) evs = evs"
  by (auto simp: dead_events_def no_stale_def comp_def filter_empty_conv)

lemma all_applied_touched:
  "run_log D J (all_applied evs) ps = Some ps' \<Longrightarrow>
    \<exists>ss. touched_symbols D J evs = Inr ss \<and> (\<forall>s. s \<notin> set ss \<longrightarrow> lot_of D ps' s = lot_of D ps s)"
proof (induction evs arbitrary: ps)
  case (Cons ev evs)
  then obtain ps1 where ps1: "event_effect D J ev ps = Inr ps1" "run_log D J (all_applied evs) ps1 = Some ps'"
    by (auto split: sum.splits)
  obtain s1 where s1: "touched_symbols D J [ev] = Inr s1" "\<forall>s. s \<notin> set s1 \<longrightarrow> lot_of D ps1 s = lot_of D ps s"
    using event_effect_touched [OF ps1(1)] by blast
  obtain s2 where s2: "touched_symbols D J evs = Inr s2" "\<forall>s. s \<notin> set s2 \<longrightarrow> lot_of D ps' s = lot_of D ps1 s"
    using Cons.IH [OF ps1(2)] by blast
  obtain us where "touched_symbols D J ([ev] @ evs) = Inr us" "set us = set s1 \<union> set s2"
    using touched_symbols_append [OF s1(1) s2(1)] by blast
  then show ?case using s1(2) s2(2) by (intro exI [of _ us]) auto
qed simp

lemma apply_event_result:
  "apply_event D J a pid ev = (Inr (), a') \<Longrightarrow> event_effect D J ev (positions_at a pid) = Inr (positions_at a' pid)"
  "apply_event D J a pid ev = (Inl e, a') \<Longrightarrow> event_effect D J ev (positions_at a pid) = Inl e \<and>
    positions_at a' pid = positions_at a pid"
  using apply_event_fst [of D J a pid ev] apply_event_positions [of D J a pid ev]
  by (auto split: sum.splits)

section \<open>Events that validation lets through\<close>

definition good_event :: "'d decimal_api \<Rightarrow> 'd json_api \<Rightarrow> event_envelope \<Rightarrow> bool" where
  "good_event D J ev \<longleftrightarrow> (event_type ev = event_type_trade_executed \<longrightarrow>
     (case decode_trade D J (payload ev) of None \<Rightarrow> False | Some t \<Rightarrow> good_trade D t))"

context decimal_laws begin

lemma good_event_effect:
  assumes "good_event D J ev" and "positions_wf val ps"
  shows "(\<exists>ps'. event_effect D J ev ps = Inr ps' \<and> positions_wf val ps') \<or>
    event_effect D J ev ps = Inl EPositionUnderflow"
proof (cases "event_type ev = event_type_trade_executed")
  case True
  with assms(1) obtain t where t: "decode_trade D J (payload ev) = Some t" "good_trade D t"
    by (auto simp: good_event_def split: option.splits)
  show ?thesis
    using apply_trade_good [OF assms(2) t(2)] True t(1)
    by (auto simp: event_effect_def split: option.splits)
qed (use assms in \<open>simp add: event_effect_def\<close>)

lemma run_log_wf:
  assumes "run_log D J l ps = Some ps'" and "positions_wf val ps" and "\<forall>p\<in>set l. good_event D J (fst p)"
  shows "positions_wf val ps'"
  using assms
proof (induction l arbitrary: ps)
  case (Cons p l)
  obtain ev oc where p: "p = (ev, oc)" by (cases p)
  have g: "good_event D J ev" "\<forall>p\<in>set l. good_event D J (fst p)" using Cons.prems(3) p by auto
  show ?case
  proof (cases oc)
    case Applied
    then obtain ps1 where ps1: "event_effect D J ev ps = Inr ps1" "run_log D J l ps1 = Some ps'"
      using Cons.prems(1) p by (auto split: sum.splits)
    then have "positions_wf val ps1" using good_event_effect [OF g(1) Cons.prems(2)] by auto
    then show ?thesis using Cons.IH [OF ps1(2) _ g(2)] by simp
  next
    case Underflow
    then show ?thesis using Cons.IH [of ps] Cons.prems p g(2) by (simp split: if_splits)
  next
    case Stale
    then show ?thesis using Cons.IH [of ps] Cons.prems p g(2) by simp
  qed
qed simp

end

lemma touched_symbols_valid:
  "touched_symbols D J evs = Inr ss \<Longrightarrow> \<forall>e\<in>set evs. good_event D J e \<Longrightarrow> s \<in> set ss \<Longrightarrow> is_valid_symbol s"
proof (induction evs arbitrary: ss)
  case (Cons e evs)
  then show ?case
    by (auto simp: good_event_def good_trade_def split: if_splits option.splits sum.splits)
qed simp

end
