(* ===== verification/Store_Typing.thy ===== *)
theory Store_Typing
  imports Ingestion Apply_Log
begin

text \<open>
  The event store and the ingestion service together. A submission is an envelope as the HTTP
  handlers and the price feed build it: its payload is the JSON form of a decoded trade or
  price. What reaches the table is well typed: it has one of the two event types, and its
  payload decodes to a trade or price that validation accepts, after the round trip through
  \<^verbatim>\<open>jsonb\<close>; so no worker meets a payload it cannot apply.
\<close>

definition typed_row :: "'d decimal_api \<Rightarrow> 'd json_api \<Rightarrow> event_row \<Rightarrow> bool" where
  "typed_row D J r \<longleftrightarrow>
     (if er_event_type r = event_type_trade_executed then
        (case decode_trade D J (RawDoc (er_payload r)) of None \<Rightarrow> False | Some t \<Rightarrow> good_trade D t)
      else er_event_type r = event_type_price_updated \<and>
        (case decode_price D J (RawDoc (er_payload r)) of None \<Rightarrow> False | Some p \<Rightarrow> good_price D p))"

definition typed_store :: "'d decimal_api \<Rightarrow> 'd json_api \<Rightarrow> pg_api \<Rightarrow> db \<Rightarrow> bool" where
  "typed_store D J P d \<longleftrightarrow> store_inv P d \<and> list_all (typed_row D J) (db_events d)"

definition submission :: "'d json_api \<Rightarrow> event_envelope \<Rightarrow> bool" where
  "submission J e \<longleftrightarrow> event_type e = event_type_trade_executed \<and> (\<exists>t. payload e = encode_trade J t) \<or>
     event_type e = event_type_price_updated \<and>
       (\<exists>p. payload e = encode_price J p \<and> int64 (source_sequence p))"

lemma event_types_differ [simp]: "event_type_price_updated \<noteq> event_type_trade_executed"
  "event_type_trade_executed \<noteq> event_type_price_updated"
  by (simp_all add: event_type_price_updated_def event_type_trade_executed_def)

lemma typed_row_good: "typed_row D J r \<Longrightarrow> good_event D J (scan_event_row U r)"
  by (auto simp: typed_row_def good_event_def split: if_splits option.splits)

lemma ingest_error_or_append:
  "ingest D J app e w = app e w \<or> (\<exists>x. ingest D J app e w = (Inl x, w))"
  by (cases D J app e rule: ingest_cases) auto

context ingest_laws begin

lemma stored_trade_text:
  assumes "Option.bind (raw_json (encode_trade J t)) (pg_jsonb P) = Some doc"
  shows "pg_text_ok P (trade_id t)" "pg_text_ok P (symbol t)" "pg_text_ok P (side t)" "pg_text_ok P (currency t)"
proof -
  have ok: "\<forall>m\<in>set (trade_members J t). pg_jsonb P (snd m) \<noteq> None"
    using assms jsonb_obj_text by (fastforce simp: encode_trade_members)
  then have "\<forall>s\<in>{trade_id t, symbol t, side t, currency t}. \<exists>j. pg_jsonb P (JStr s) = Some j"
    by (auto simp: trade_members_def)
  then show "pg_text_ok P (trade_id t)" "pg_text_ok P (symbol t)" "pg_text_ok P (side t)" "pg_text_ok P (currency t)"
    using jsonb_str_text by blast+
qed

lemma stored_price_text:
  assumes "Option.bind (raw_json (encode_price J p)) (pg_jsonb P) = Some doc"
  shows "pg_text_ok P (p_symbol p)" "pg_text_ok P (p_currency p)"
proof -
  have ok: "\<forall>m\<in>set (price_members J p). pg_jsonb P (snd m) \<noteq> None"
    using assms jsonb_obj_text by (fastforce simp: encode_price_members)
  then have "\<forall>s\<in>{p_symbol p, p_currency p}. \<exists>j. pg_jsonb P (JStr s) = Some j"
    by (auto simp: price_members_def)
  then show "pg_text_ok P (p_symbol p)" "pg_text_ok P (p_currency p)"
    using jsonb_str_text by blast+
qed

lemma good_trade_vals:
  assumes "good_trade D t" and "trade_id t' = trade_id t" "symbol t' = symbol t" "side t' = side t"
    "currency t' = currency t" "val (quantity t') = val (quantity t)" "val (price t') = val (price t)"
  shows "good_trade D t'"
  using assms by (simp add: good_trade_def is_positive_iff)

lemma good_price_vals:
  assumes "good_price D p" and "p_symbol p' = p_symbol p" "p_currency p' = p_currency p"
    "val (p_price p') = val (p_price p)"
  shows "good_price D p'"
  using assms by (simp add: good_price_def is_positive_iff)

text \<open>The row of a submission that passed the service.\<close>

lemma submitted_trade_typed:
  assumes enc: "payload e = encode_trade J t" and dec: "decode_trade D J (payload e) = Some t0" "good_trade D t0"
    and doc: "Option.bind (raw_json (payload e)) (pg_jsonb P) = Some doc"
  obtains t' where "decode_trade D J (RawDoc doc) = Some t'" "good_trade D t'" "trade_id t' = trade_id t0"
    "symbol t' = symbol t0" "side t' = side t0" "currency t' = currency t0"
    "val (quantity t') = val (quantity t0)" "val (price t') = val (price t0)"
proof -
  obtain t1 where t1: "decode_trade D J (encode_trade J t) = Some t1" "trade_id t1 = trade_id t"
     "symbol t1 = symbol t" "side t1 = side t" "currency t1 = currency t"
     "val (quantity t1) = val (quantity t)" "val (price t1) = val (price t)"
    using decode_encode_trade [of t] by blast
  then have t0: "t0 = t1" using dec(1) enc by simp
  obtain doc' t' where "Option.bind (raw_json (encode_trade J t)) (pg_jsonb P) = Some doc'"
    and t': "decode_trade D J (RawDoc doc') = Some t'" "trade_id t' = trade_id t" "symbol t' = symbol t"
    "side t' = side t" "currency t' = currency t" "val (quantity t') = val (quantity t)"
    "val (price t') = val (price t)"
    using stored_trade_decodes stored_trade_text [OF doc [unfolded enc]] by metis
  then have "doc' = doc" using doc enc by simp
  then show thesis using that t' t1 t0 good_trade_vals [OF dec(2), of t'] by simp
qed

lemma submitted_price_typed:
  assumes enc: "payload e = encode_price J p" "int64 (source_sequence p)"
    and dec: "decode_price D J (payload e) = Some p0" "good_price D p0"
    and doc: "Option.bind (raw_json (payload e)) (pg_jsonb P) = Some doc"
  obtains p' where "decode_price D J (RawDoc doc) = Some p'" "good_price D p'" "p_symbol p' = p_symbol p0"
    "p_currency p' = p_currency p0" "source_sequence p' = source_sequence p0"
    "val (p_price p') = val (p_price p0)"
proof -
  obtain p1 where p1: "decode_price D J (encode_price J p) = Some p1" "p_symbol p1 = p_symbol p"
     "p_currency p1 = p_currency p" "source_sequence p1 = source_sequence p" "val (p_price p1) = val (p_price p)"
    using decode_encode_price [OF enc(2)] by blast
  then have p0: "p0 = p1" using dec(1) enc(1) by simp
  obtain doc' p' where "Option.bind (raw_json (encode_price J p)) (pg_jsonb P) = Some doc'"
    and p': "decode_price D J (RawDoc doc') = Some p'" "p_symbol p' = p_symbol p" "p_currency p' = p_currency p"
    "source_sequence p' = source_sequence p" "val (p_price p') = val (p_price p)"
    using stored_price_decodes enc(2) stored_price_text [OF doc [unfolded enc(1)]] by metis
  then have "doc' = doc" using doc enc by simp
  then show thesis using that p' p1 p0 good_price_vals [OF dec(2), of p'] by simp
qed

lemma ingest_keeps_typed:
  assumes sub: "submission J e" and ty: "typed_store D J P (w_db w)"
  shows "typed_store D J P (w_db (snd (ingest D J (append_event U P) e w)))"
proof (cases D J "append_event U P" e rule: ingest_cases)
  case (refused x)
  then show ?thesis using ty by simp
next
  case passed
  show ?thesis
  proof (cases U P e w rule: append_event_db)
    case same
    then show ?thesis using ty passed by simp
  next
    case (wrote pid res)
    let ?d = "w_db (snd (append_event U P e w))"
    have nz: "event_id e \<noteq> uuid_nil" using passed(2) by (auto simp: validate_event_envelope_def split: if_splits)
    have inv: "store_inv P ?d"
      using append_body_inv [OF wrote(2) _ nz time_idem] ty by (simp add: typed_store_def)
    have "list_all (typed_row D J) (db_events ?d)"
      using wrote(2)
    proof (cases rule: append_body_cases)
      case (duplicate r)
      then show ?thesis using ty by (simp add: typed_store_def)
    next
      case (inserted doc row)
      have "typed_row D J row"
      proof (cases "event_type e = event_type_trade_executed")
        case True
        then obtain t where t: "payload e = encode_trade J t" using sub by (auto simp: submission_def)
        from passed(3) True obtain t0 where "decode_trade D J (payload e) = Some t0" "good_trade D t0" by auto
        then obtain t' where "decode_trade D J (RawDoc doc) = Some t'" "good_trade D t'"
          by (rule submitted_trade_typed [OF t _ _ inserted(1)])
        then show ?thesis using True inserted(2) by (simp add: typed_row_def)
      next
        case False
        then obtain p where p: "payload e = encode_price J p" "int64 (source_sequence p)"
          and et: "event_type e = event_type_price_updated" using sub by (auto simp: submission_def)
        from passed(3) False obtain p0 where "decode_price D J (payload e) = Some p0" "good_price D p0" by auto
        then obtain p' where "decode_price D J (RawDoc doc) = Some p'" "good_price D p'"
          by (rule submitted_price_typed [OF p _ _ inserted(1)])
        then show ?thesis using et inserted(2) by (simp add: typed_row_def)
      qed
      then show ?thesis using ty inserted(3) by (simp add: typed_store_def)
    qed
    then show ?thesis using inv passed by (simp add: typed_store_def)
  qed
qed

end

end
