(* ===== verification/Store_Properties.thy ===== *)
theory Store_Properties
  imports Store_Typing
begin

text \<open>
  What ingestion and the event store promise together, stated for any decimals, JSON methods
  and PostgreSQL that keep their documented laws: retries are safe, errors say what happened,
  the tables stay well typed, and a trade is read from the stream as it was sent. The
  witnesses run the code on \<open>ref_dec\<close>, \<open>ref_json\<close>, \<open>ref_uuid\<close> and \<open>ref_pg\<close>.
\<close>

section \<open>Concrete data for the witnesses\<close>

definition sample_trade :: "string \<Rightarrow> string \<Rightarrow> int \<Rightarrow> int \<Rightarrow> rdec trade_payload" where
  "sample_trade sd sy q p = \<lparr>trade_id = ''t1'', symbol = sy, side = sd, quantity = RDec q 0,
     price = RDec p 0, currency = ''USD''\<rparr>"

definition sample_envelope :: "uuid \<Rightarrow> time \<Rightarrow> string \<Rightarrow> rdec trade_payload \<Rightarrow> event_envelope" where
  "sample_envelope i t k tr = \<lparr>event_id = i, event_type = event_type_trade_executed, event_time = t,
     processing_time = t, source = ''api'', portfolio_id = ref_uuid_str 7, idempotency_key = k,
     payload = encode_trade ref_json tr\<rparr>"

definition sample_world :: "db \<Rightarrow> fault list \<Rightarrow> world" where
  "sample_world d fs = \<lparr>w_db = d, w_now = 0, w_ticks = [], w_db_now = 0, w_db_ticks = [],
     w_faults = fs, w_risk = []\<rparr>"

definition sample_buy :: event_envelope where
  "sample_buy = sample_envelope 1 1000000 ''k1'' (sample_trade side_buy ''AAPL'' 10 5)"

definition sample_row :: event_row where
  "sample_row = \<lparr>er_event_id = 1, er_portfolio_id = 7, er_event_time = 1000000,
     er_event_type = event_type_trade_executed, er_idempotency_key = ''k1'', er_source = ''api'',
     er_payload = JObj (trade_members ref_json (sample_trade side_buy ''AAPL'' 10 5)), er_created_at = 0\<rparr>"

lemma ref_uuid_parse_str [simp]: "uuid_parse ref_uuid (ref_uuid_str u) = Some u"
  using refu.parse_str [of u] by (simp add: ref_uuid_def)

lemma empty_db_inv [simp]: "store_inv P empty_db" "typed_store D J P empty_db"
  by (simp_all add: store_inv_def typed_store_def empty_db_def)

lemma healthy_sample [simp]: "healthy (sample_world d [])"
  by (simp add: healthy_def sample_world_def)

lemma w_db_sample [simp]: "w_db (sample_world d fs) = d"
  by (simp add: sample_world_def)

lemma call_time_sample [simp]: "call_time (sample_world d fs) = 0"
  by (simp add: call_time_def sample_world_def)

lemma sample_buy_valid: "validate_event_envelope sample_buy = Inr ()"
  by code_simp

lemma sample_buy_decodes: "decode_trade ref_dec ref_json (payload sample_buy) =
    Some (sample_trade side_buy ''AAPL'' 10 5)"
  by code_simp

lemma ingest_valid_trade:
  assumes "validate_event_envelope e = Inr ()" "event_type e = event_type_trade_executed"
    "decode_trade D J (payload e) = Some t" "good_trade D t"
  shows "ingest D J app e w = app e w"
  using assms by (simp add: ingest_def validate_trade_payload_ok [symmetric])

text \<open>The envelopes \<open>sample_envelope i t k\<close> of one buy, appended to any table without that id and key.\<close>

abbreviation ten_shares :: "rdec trade_payload" where
  "ten_shares \<equiv> sample_trade side_buy ''AAPL'' 10 5"

definition sample_event_row :: "uuid \<Rightarrow> time \<Rightarrow> string \<Rightarrow> time \<Rightarrow> event_row" where
  "sample_event_row i t k created = \<lparr>er_event_id = i, er_portfolio_id = 7, er_event_time = t,
     er_event_type = event_type_trade_executed, er_idempotency_key = k, er_source = ''api'',
     er_payload = JObj (trade_members ref_json ten_shares), er_created_at = created\<rparr>"

lemma append_sample:
  assumes "\<forall>r\<in>set (db_events d). er_event_id r \<noteq> i \<and> \<not> (er_portfolio_id r = 7 \<and> er_idempotency_key r = k)"
    and "char_of (0::nat) \<notin> set k" and "pg_time ref_pg t = t"
  shows "append_body ref_pg 7 (sample_envelope i t k ten_shares) now d = Inr (\<lparr>ar_event_id = i, ar_inserted = True\<rparr>,
    d\<lparr>db_events := db_events d @ [sample_event_row i t k (pg_time ref_pg now)]\<rparr>)"
proof -
  let ?ms = "trade_members ref_json ten_shares"
  have "text_json (JObj ?ms)" by code_simp
  moreover have "ref_jsonb (JObj ?ms) = JObj ?ms" by (simp add: trade_members_def ref_json_def)
  moreover have "pg_jsonb ref_pg j = (if text_json j then Some (ref_jsonb j) else None)" for j by (simp add: ref_pg_def)
  moreover have "pg_text_ok ref_pg s = (char_of (0::nat) \<notin> set s)" for s by (simp add: ref_pg_def)
  moreover have "char_of (0::nat) \<notin> set event_type_trade_executed" "char_of (0::nat) \<notin> set ''api''" by code_simp+
  moreover have "find (\<lambda>r. er_portfolio_id r = 7 \<and> er_idempotency_key r = k) (db_events d) = None"
    "\<not> (\<exists>r\<in>set (db_events d). er_event_id r = i)"
    using assms(1) by (auto simp: find_None_iff)
  ultimately show ?thesis using assms(2,3)
    by (simp add: append_body_def sample_envelope_def encode_trade_members sample_event_row_def)
qed

lemma ingest_sample:
  assumes "healthy w" and "validate_event_envelope (sample_envelope i t k ten_shares) = Inr ()"
    and "\<forall>r\<in>set (db_events (w_db w)). er_event_id r \<noteq> i \<and> \<not> (er_portfolio_id r = 7 \<and> er_idempotency_key r = k)"
    and "char_of (0::nat) \<notin> set k" and "pg_time ref_pg t = t"
  shows "\<exists>w' created. ingest ref_dec ref_json (append_event ref_uuid ref_pg) (sample_envelope i t k ten_shares) w =
      (Inr \<lparr>ar_event_id = i, ar_inserted = True\<rparr>, w') \<and>
    w_db w' = (w_db w)\<lparr>db_events := db_events (w_db w) @ [sample_event_row i t k created]\<rparr>"
proof -
  let ?e = "sample_envelope i t k ten_shares"
  have dt: "decode_trade ref_dec ref_json (payload ?e) = Some ten_shares"
    using sample_buy_decodes by (simp add: sample_buy_def sample_envelope_def)
  have g: "good_trade ref_dec ten_shares" by code_simp
  have "event_type ?e = event_type_trade_executed" by (simp add: sample_envelope_def)
  then have i: "ingest ref_dec ref_json (append_event ref_uuid ref_pg) ?e w = append_event ref_uuid ref_pg ?e w"
    using ingest_valid_trade [OF assms(2) _ dt g] by simp
  have a: "append_event ref_uuid ref_pg ?e w = db_tx ''append event'' (append_body ref_pg 7 ?e) w"
    by (simp add: append_event_def sample_envelope_def)
  have "fst (db_tx ''append event'' (append_body ref_pg 7 ?e) w) = Inr \<lparr>ar_event_id = i, ar_inserted = True\<rparr> \<and>
    w_db (snd (db_tx ''append event'' (append_body ref_pg 7 ?e) w)) =
      (w_db w)\<lparr>db_events := db_events (w_db w) @ [sample_event_row i t k (pg_time ref_pg (call_time w))]\<rparr>"
    by (rule db_tx_healthy(3) [OF assms(1)]) (rule append_sample [OF assms(3-5)])
  then show ?thesis unfolding i a
    by (cases "db_tx ''append event'' (append_body ref_pg 7 ?e) w") auto
qed

lemma sample_append:
  "append_body ref_pg 7 sample_buy 0 empty_db =
    Inr (\<lparr>ar_event_id = 1, ar_inserted = True\<rparr>, empty_db\<lparr>db_events := [sample_row]\<rparr>)"
proof -
  have t: "pg_time ref_pg 1000000 = 1000000" "pg_time ref_pg 0 = 0" by (simp_all add: ref_pg_def)
  have k: "char_of (0::nat) \<notin> set ''k1''" by code_simp
  have e: "db_events empty_db = []" by (simp add: empty_db_def)
  show ?thesis
    using append_sample [OF _ k t(1), of empty_db 1 0]
    by (simp add: e t sample_buy_def sample_event_row_def sample_row_def)
qed

lemma ingest_valid_price:
  assumes "validate_event_envelope e = Inr ()" "event_type e = event_type_price_updated"
    "decode_price D J (payload e) = Some p" "good_price D p"
  shows "ingest D J app e w = app e w"
  using assms by (simp add: ingest_def validate_price_payload_ok [symmetric])

lemma ingest_revalidated:
  assumes "fst (ingest D J app e w) = Inr res" and "validate_event_envelope e' = Inr ()"
    and "event_type e' = event_type e" and "payload e' = payload e"
  shows "ingest D J app e w = app e w" "ingest D J app e' w' = app e' w'"
proof -
  show "ingest D J app e w = app e w"
    using assms(1) by (cases D J app e rule: ingest_cases) auto
  show "ingest D J app e' w' = app e' w'"
    using assms(1)
  proof (cases D J app e rule: ingest_cases)
    case passed
    then show ?thesis
      using assms(2-4) by (elim disjE conjE exE) (auto intro: ingest_valid_trade ingest_valid_price)
  qed simp
qed

lemma sample_ingest:
  assumes "w = sample_world empty_db []"
  shows "fst (ingest ref_dec ref_json (append_event ref_uuid ref_pg) sample_buy w) =
      Inr \<lparr>ar_event_id = 1, ar_inserted = True\<rparr>"
    and "w_db (snd (ingest ref_dec ref_json (append_event ref_uuid ref_pg) sample_buy w)) =
      empty_db\<lparr>db_events := [sample_row]\<rparr>"
proof -
  have g: "good_trade ref_dec (sample_trade side_buy ''AAPL'' 10 5)" by code_simp
  have i: "ingest ref_dec ref_json (append_event ref_uuid ref_pg) sample_buy w =
      append_event ref_uuid ref_pg sample_buy w"
    using ingest_valid_trade [OF sample_buy_valid _ sample_buy_decodes g]
    by (simp add: sample_buy_def sample_envelope_def)
  have "append_event ref_uuid ref_pg sample_buy w =
      db_tx ''append event'' (append_body ref_pg 7 sample_buy) w"
    by (simp add: append_event_def sample_buy_def sample_envelope_def)
  then show "fst (ingest ref_dec ref_json (append_event ref_uuid ref_pg) sample_buy w) =
      Inr \<lparr>ar_event_id = 1, ar_inserted = True\<rparr>"
    "w_db (snd (ingest ref_dec ref_json (append_event ref_uuid ref_pg) sample_buy w)) =
      empty_db\<lparr>db_events := [sample_row]\<rparr>"
    using sample_append db_tx_healthy(3) [of w "append_body ref_pg 7 sample_buy"] assms i by simp_all
qed

section \<open>Retries\<close>

text \<open>
  (C7) Ingestion is idempotent: once a submission was accepted, sending it again (the client
  repeats the request; the handler makes a new event id and reads the clock again) is answered
  with the id of the stored event and changes nothing, in every later state of the table.
\<close>

theorem ingest_idempotent:
  assumes "fst (ingest D J (append_event U P) e w) = Inr res"
    and "set (db_events (w_db (snd (ingest D J (append_event U P) e w)))) \<subseteq> set (db_events (w_db w'))"
    and "store_inv P (w_db w')" and "healthy w'"
    and "validate_event_envelope (e\<lparr>event_id := i, event_time := t, processing_time := u\<rparr>) = Inr ()"
  shows "fst (ingest D J (append_event U P) (e\<lparr>event_id := i, event_time := t, processing_time := u\<rparr>) w') =
      Inr \<lparr>ar_event_id = ar_event_id res, ar_inserted = False\<rparr> \<and>
    w_db (snd (ingest D J (append_event U P) (e\<lparr>event_id := i, event_time := t, processing_time := u\<rparr>) w')) = w_db w'"
proof -
  let ?e = "e\<lparr>event_id := i, event_time := t, processing_time := u\<rparr>"
  have p: "ingest D J (append_event U P) e w = append_event U P e w"
      "ingest D J (append_event U P) ?e w' = append_event U P ?e w'"
    using ingest_revalidated [OF assms(1,5)] by simp_all
  have a1: "fst (append_event U P e w) = Inr res" using assms(1) p(1) by simp
  obtain pid where pid: "uuid_parse U (portfolio_id e) = Some pid"
    "append_body P pid e (call_time w) (w_db w) = Inr (res, w_db (snd (append_event U P e w)))"
    by (rule append_event_result [OF a1])
  obtain r where r: "r \<in> set (db_events (w_db w'))" "event_key r = (pid, idempotency_key e)"
    "er_event_id r = ar_event_id res"
    using append_body_stored(2) [OF pid(2)] assms(2) p(1) by auto
  have "append_body P pid ?e (call_time w') (w_db w') =
      Inr (\<lparr>ar_event_id = ar_event_id res, ar_inserted = False\<rparr>, w_db w')"
    using append_body_known [OF assms(3) r(1), of pid ?e] r(2,3) append_body_stored(3) [OF pid(2)] by simp
  moreover have "append_event U P ?e w' = db_tx ''append event'' (append_body P pid ?e) w'"
    using pid(1) by (simp add: append_event_def)
  ultimately show ?thesis using p(2) db_tx_healthy(3) [OF assms(4)] by simp
qed

theorem ingest_idempotent_witness:
  "fst (ingest ref_dec ref_json (append_event ref_uuid ref_pg)
      (sample_buy\<lparr>event_id := 2, event_time := 5000000, processing_time := 5000000\<rparr>)
      (sample_world (empty_db\<lparr>db_events := [sample_row]\<rparr>) [])) = Inr \<lparr>ar_event_id = 1, ar_inserted = False\<rparr>"
proof -
  have v: "validate_event_envelope (sample_buy\<lparr>event_id := 2, event_time := 5000000, processing_time := 5000000\<rparr>) = Inr ()"
    by code_simp
  have inv: "store_inv ref_pg (empty_db\<lparr>db_events := [sample_row]\<rparr>)"
    by (simp add: store_inv_def sample_row_def empty_db_def ref_pg_def uuid_nil_def)
  show ?thesis
    using ingest_idempotent [OF sample_ingest(1) [OF refl] _ _ _ v, of "sample_world (empty_db\<lparr>db_events := [sample_row]\<rparr>) []"]
      sample_ingest(2) [OF refl] inv by simp
qed

section \<open>Errors\<close>

text \<open>
  (C8) An error of ingestion is safe to retry: a validation failure never reaches the
  database, and after any other error either the tables are as they were, or the error is the
  lost acknowledgement of a commit and the event is in the table under its idempotency key.
\<close>

theorem ingest_error_is_safe:
  assumes "ingest D J (append_event U P) e w = (Inl x, w')"
  shows "(\<exists>m. x = EValidation m \<or> x = EInvalidPayload m \<or> x = EInvalidEvent m) \<and> w' = w \<or>
    x = EStore ''append event'' \<and> (w_db w' = w_db w \<or>
      (\<exists>pid. uuid_parse U (portfolio_id e) = Some pid \<and> (pid, idempotency_key e) \<in> event_key ` set (db_events (w_db w'))))"
proof (cases D J "append_event U P" e rule: ingest_cases)
  case passed
  then have a: "append_event U P e w = (Inl x, w')" using assms by simp
  show ?thesis
  proof (cases "uuid_parse U (portfolio_id e)")
    case None
    then show ?thesis using a by (auto simp: append_event_def)
  next
    case (Some pid)
    then have tx: "db_tx ''append event'' (append_body P pid e) w = (Inl x, w')"
      using a by (simp add: append_event_def)
    have b: "append_body P pid e n d = Inl y \<Longrightarrow> y = EStore ''append event''" for n d y
      by (auto simp: append_body_def split: option.splits if_splits)
    have "x = EStore ''append event''"
      using tx by (cases "append_body P pid e (call_time w) (w_db w)")
        (auto simp: db_tx_def split_beta split: if_splits dest: b)
    moreover have "w_db w' = w_db w \<or> (pid, idempotency_key e) \<in> event_key ` set (db_events (w_db w'))"
      using db_tx_db [of "''append event''" "append_body P pid e" w] append_body_stored(2) tx
      by (fastforce simp: image_iff)
    ultimately show ?thesis using Some by auto
  qed
qed (use assms in auto)

theorem ingest_error_is_safe_witness:
  "\<exists>w'. ingest ref_dec ref_json (append_event ref_uuid ref_pg) (sample_buy\<lparr>source := []\<rparr>) (sample_world empty_db []) =
      (Inl (EValidation ''source required''), w') \<and> w' = sample_world empty_db []"
proof -
  have "validate_event_envelope (sample_buy\<lparr>source := []\<rparr>) = Inl (EValidation ''source required'')"
    by code_simp
  then have "ingest ref_dec ref_json (append_event ref_uuid ref_pg) (sample_buy\<lparr>source := []\<rparr>) (sample_world empty_db []) =
      (Inl (EValidation ''source required''), sample_world empty_db [])"
    by (simp add: ingest_def throw_def)
  from this ingest_error_is_safe [OF this] show ?thesis by simp
qed

section \<open>Types\<close>

text \<open>
  (C9) The event table is well typed, whatever is submitted and whatever fails: ids and
  idempotency keys stay unique, and every stored payload decodes to a trade or a price that
  passes validation.
\<close>

theorem ingest_keeps_store_typed:
  assumes "ingest_laws D val P J" and "submission J e" and "typed_store D J P (w_db w)"
  shows "typed_store D J P (w_db (snd (ingest D J (append_event U P) e w)))"
  by (rule ingest_laws.ingest_keeps_typed [OF assms])

theorem ingest_keeps_store_typed_witness:
  "typed_store ref_dec ref_json ref_pg (empty_db\<lparr>db_events := [sample_row]\<rparr>)"
proof -
  have "submission ref_json sample_buy"
    by (auto simp: submission_def sample_buy_def sample_envelope_def)
  then show ?thesis
    using ingest_keeps_store_typed [OF refi.ingest_laws_axioms, of sample_buy "sample_world empty_db []" ref_uuid]
      sample_ingest(2) [OF refl] by simp
qed

section \<open>Round trip\<close>

text \<open>
  (C10) An accepted trade that is the first under its key (the answer says so) is in the stream of its
  portfolio, with its id, key and source, at its event time to the resolution of the column, and its payload
  decodes to the same trade; the rest of the stream is unchanged. An accepted trade whose key is taken
  is not stored, whatever it says: the answer has the id of the stored event with this key, and
  the database is unchanged.
\<close>

theorem trade_stored_and_read_back:
  assumes "ingest_laws D val P J" and "payload e = encode_trade J t" and "event_type e = event_type_trade_executed"
    and "ingest D J (append_event U P) e w = (Inr res, w')"
  shows "\<exists>pid. uuid_parse U (portfolio_id e) = Some pid \<and>
    (if ar_inserted res
     then idempotency_key e \<notin> idempotency_key ` set (stream_of U (w_db w) pid) \<and>
       (\<exists>ev t'. mset (stream_of U (w_db w') pid) = add_mset ev (mset (stream_of U (w_db w) pid)) \<and>
       event_id ev = event_id e \<and> ar_event_id res = event_id e \<and> event_time ev = pg_time P (event_time e) \<and>
       source ev = source e \<and> idempotency_key ev = idempotency_key e \<and> event_type ev = event_type_trade_executed \<and>
       decode_trade D J (payload ev) = Some t' \<and> trade_id t' = trade_id t \<and> symbol t' = symbol t \<and>
       side t' = side t \<and> currency t' = currency t \<and> val (quantity t') = val (quantity t) \<and> val (price t') = val (price t))
     else w_db w' = w_db w \<and>
       (\<exists>ev\<in>set (stream_of U (w_db w) pid). event_id ev = ar_event_id res \<and> idempotency_key ev = idempotency_key e))"
proof -
  have a: "append_event U P e w = (Inr res, w')"
    using assms(4) by (cases D J "append_event U P" e rule: ingest_cases) auto
  obtain pid where pid: "uuid_parse U (portfolio_id e) = Some pid"
    "append_body P pid e (call_time w) (w_db w) = Inr (res, w_db w')"
    using append_event_result [of U P e w res] a by auto
  show ?thesis
    using pid(2)
  proof (cases rule: append_body_cases)
    case (duplicate r)
    have "scan_event_row U r \<in> set (stream_of U (w_db w) pid)"
      using duplicate by (auto simp: stream_of_def partition_rows_def)
    then show ?thesis using duplicate pid(1)
      by (intro exI [of _ pid] conjI) (auto intro!: bexI [of _ "scan_event_row U r"] simp: scan_event_row_def)
  next
    case (inserted doc row)
    have doc: "Option.bind (raw_json (encode_trade J t)) (pg_jsonb P) = Some doc" using inserted(1) assms(2) by simp
    obtain t' where t': "decode_trade D J (RawDoc doc) = Some t'" "trade_id t' = trade_id t" "symbol t' = symbol t"
      "side t' = side t" "currency t' = currency t" "val (quantity t') = val (quantity t)" "val (price t') = val (price t)"
      using ingest_laws.stored_trade_decodes [OF assms(1) ingest_laws.stored_trade_text [OF assms(1) doc]] doc
      by (metis option.inject)
    have "mset (stream_of U (w_db w') pid) = add_mset (scan_event_row U row) (mset (stream_of U (w_db w) pid))"
      using inserted(2,3) by (simp add: stream_of_def partition_rows_def)
    moreover have "idempotency_key e \<notin> idempotency_key ` set (stream_of U (w_db w) pid)"
      using inserted(5) by (auto simp: stream_of_def partition_rows_def scan_event_row_def)
    ultimately show ?thesis using pid(1) inserted(2,6) assms(3) t'
      by (intro exI [of _ pid] conjI) (auto intro!: exI [of _ "scan_event_row U row"] exI [of _ t'] simp: scan_event_row_def)
  qed
qed

theorem trade_stored_and_read_back_witness:
  "\<exists>ev. stream_of ref_uuid (empty_db\<lparr>db_events := [sample_row]\<rparr>) 7 = [ev] \<and> event_id ev = 1 \<and>
    event_time ev = 1000000"
proof -
  obtain w' where run: "ingest ref_dec ref_json (append_event ref_uuid ref_pg) sample_buy (sample_world empty_db []) =
      (Inr \<lparr>ar_event_id = 1, ar_inserted = True\<rparr>, w')" "w_db w' = empty_db\<lparr>db_events := [sample_row]\<rparr>"
    using sample_ingest [OF refl] by (metis prod.collapse)
  have "payload sample_buy = encode_trade ref_json (sample_trade side_buy ''AAPL'' 10 5)"
    "event_type sample_buy = event_type_trade_executed" "event_id sample_buy = 1" "event_time sample_buy = 1000000"
    "portfolio_id sample_buy = ref_uuid_str 7"
    by (simp_all add: sample_buy_def sample_envelope_def)
  then obtain ev where ev: "mset (stream_of ref_uuid (w_db w') 7) =
      add_mset ev (mset (stream_of ref_uuid (w_db (sample_world empty_db [])) 7))"
    "event_id ev = 1" "event_time ev = pg_time ref_pg 1000000"
    using trade_stored_and_read_back [OF refi.ingest_laws_axioms _ _ run(1), of "sample_trade side_buy ''AAPL'' 10 5"]
    by (auto simp del: w_db_sample)
  have "stream_of ref_uuid (w_db (sample_world empty_db [])) 7 = []"
    by (simp add: stream_of_def partition_rows_def empty_db_def)
  then have "mset (stream_of ref_uuid (w_db w') 7) = {#ev#}" using ev(1) by simp
  then have "stream_of ref_uuid (w_db w') 7 = [ev]" by simp
  then show ?thesis using ev(2,3) run(2) by (simp add: ref_pg_def)
qed

end
