(* ===== verification/Trade_Worker_Laws.thy ===== *)
theory Trade_Worker_Laws
  imports Apply_Log
begin

text \<open>
  What the trade worker does, proved once for every store that keeps the contract
  \<open>event_repository\<close>: the frame of each operation, crash consistency of \<open>apply_eligible\<close> (the
  database is at every return the projection of a prefix of the events), its result when the
  calls succeed, and termination of the pump.
\<close>

text \<open>A worker that differs at most in what the snapshot policy keeps.\<close>

definition same_apply_state :: "'d partition_worker \<Rightarrow> 'd partition_worker \<Rightarrow> bool" where
  "same_apply_state pw pw' \<longleftrightarrow> (\<exists>a b. pw' = pw\<lparr>pw_events_applied_since_snapshot := a, pw_last_snapshot_at := b\<rparr>)"

text \<open>The configuration of a worker, which no operation changes.\<close>

definition same_config :: "'d partition_worker \<Rightarrow> 'd partition_worker \<Rightarrow> bool" where
  "same_config pw pw' \<longleftrightarrow> pw_watermark pw' = pw_watermark pw \<and> pw_max_event_age pw' = pw_max_event_age pw \<and>
     pw_pid pw' = pw_pid pw \<and> pw_pid_str pw' = pw_pid_str pw"

lemma same_apply_stateI [intro, simp]:
  "same_apply_state pw pw"
  "same_apply_state pw (pw\<lparr>pw_events_applied_since_snapshot := a\<rparr>)"
  "same_apply_state pw (pw\<lparr>pw_events_applied_since_snapshot := a, pw_last_snapshot_at := b\<rparr>)"
  unfolding same_apply_state_def
  by (rule exI [of _ "pw_events_applied_since_snapshot pw"], rule exI [of _ "pw_last_snapshot_at pw"], simp)
    (rule exI [of _ a], rule exI [of _ "pw_last_snapshot_at pw"], simp, blast)

lemma same_apply_stateD:
  assumes "same_apply_state pw pw'"
  shows "pw_agg pw' = pw_agg pw" "pw_cur pw' = pw_cur pw" "same_config pw pw'"
  using assms by (auto simp: same_apply_state_def same_config_def)

lemma same_config_refl [simp]: "same_config pw pw"
  by (simp add: same_config_def)

lemma same_config_trans: "same_config pw pw' \<Longrightarrow> same_config pw' pw'' \<Longrightarrow> same_config pw pw''"
  by (simp add: same_config_def)

lemma same_config_update [simp]:
  "same_config pw (pw\<lparr>pw_cur := c\<rparr>)" "same_config pw (pw\<lparr>pw_agg := a\<rparr>)"
  "same_config (pw\<lparr>pw_agg := a\<rparr>) pw' = same_config pw pw'"
  "same_config (pw\<lparr>pw_cur := c\<rparr>) pw' = same_config pw pw'"
  by (simp_all add: same_config_def)

lemma eligible_prefix_takeWhile:
  "eligible_prefix evs cutoff = takeWhile (\<lambda>e. event_time e \<le> cutoff) evs"
  by (induction evs) simp_all

lemma eligible_batch_prefix:
  "\<exists>k. eligible_batch_after_watermark batch cutoff wm n = take k batch"
proof -
  have "\<exists>k. eligible_prefix batch cutoff = take k batch"
    by (simp add: eligible_prefix_takeWhile) (metis takeWhile_eq_take)
  moreover have "\<exists>k. batch = take k batch" by (rule exI [of _ "length batch"]) simp
  ultimately show ?thesis by (simp add: eligible_batch_after_watermark_def Let_def)
qed

context event_repository begin

section \<open>Frames\<close>

lemma should_write_same:
  "same_views V w (snd (should_write_portfolio_snapshot R pw w))"
  using now_same [of w] by (auto simp: should_write_portfolio_snapshot_def Let_def split: prod.splits)

lemma stale_same: "same_views V w (snd (event_too_stale_for_apply R ev a w))"
  using now_same [of w] by (auto simp: event_too_stale_for_apply_def split: prod.splits)

lemma maybe_snapshot_frame:
  "same_apply_state (fst s) (fst (maybe_snapshot_after_apply D R evs s)) \<and>
   same_views V (snd s) (snd (maybe_snapshot_after_apply D R evs s))"
proof -
  obtain pw w where s: "s = (pw, w)" by (cases s)
  let ?pw = "pw\<lparr>pw_events_applied_since_snapshot := pw_events_applied_since_snapshot pw + int (length evs)\<rparr>"
  obtain b w1 where b: "should_write_portfolio_snapshot R ?pw w = (b, w1)" by force
  have v1: "same_views V w w1" using should_write_same [of w ?pw] b by simp
  obtain rc w2 where c: "rp_load_projection_cursor R (pw_pid pw) w1 = (rc, w2)" by force
  have v2: "same_views V w w2" using cursor_same [of w1 "pw_pid pw"] c v1 same_views_trans by fastforce
  have v3: "same_views V w w3"
    if "rp_insert_portfolio_snapshot R (pw_pid pw) t e raw w2 = (r, w3)" for t e raw r w3
    using snap_insert_same [of w2 "pw_pid pw" t e raw] that v2
    by (auto intro: same_views_trans)
  have v4: "same_views V w w4"
    if "rp_insert_portfolio_snapshot R (pw_pid pw) t e raw w2 = (r, w3)" "rp_now R w3 = (u, w4)"
    for t e raw r w3 u w4
    using v3 [OF that(1)] now_same [of w3] that(2) by (auto intro: same_views_trans)
  show ?thesis
    using v1 v2
    by (auto simp: s maybe_snapshot_after_apply_def b c Let_def split: sum.splits prod.splits
        dest: v3 v4)
qed

section \<open>Writes\<close>

text \<open>
  \<open>projection w pid c ps\<close>: the database holds the projection of the positions \<open>ps\<close> at the
  cursor \<open>c\<close>.
\<close>

definition projection :: "'w \<Rightarrow> uuid \<Rightarrow> cursor \<Rightarrow> 'd positions \<Rightarrow> bool" where
  "projection w pid c ps \<longleftrightarrow> v_cursor V w pid = c \<and> (\<forall>s. v_book V w pid s = projected val (lot_of D ps s))"

lemma projection_same: "same_views V w w' \<Longrightarrow> projection w' pid c ps = projection w pid c ps"
  by (simp add: projection_def same_viewsD)

text \<open>Everything an operation of the worker leaves alone, whatever its result.\<close>

definition worker_frame :: "'d partition_worker \<times> 'w \<Rightarrow> 'd partition_worker \<times> 'w \<Rightarrow> bool" where
  "worker_frame s s' \<longleftrightarrow> same_config (fst s) (fst s') \<and> partition_write V (pw_pid (fst s)) (snd s) (snd s')"

lemma partition_write_same: "same_views V w w' \<Longrightarrow> partition_write V pid w w'"
  by (simp add: partition_write_def same_views_def)

lemma partition_write_trans:
  "partition_write V pid w w' \<Longrightarrow> partition_write V pid w' w'' \<Longrightarrow> partition_write V pid w w''"
  by (simp add: partition_write_def)

lemma worker_frame_refl [simp]: "worker_frame s s"
  by (simp add: worker_frame_def partition_write_def)

lemma worker_frame_trans: "worker_frame s s' \<Longrightarrow> worker_frame s' s'' \<Longrightarrow> worker_frame s s''"
  unfolding worker_frame_def
  by (metis partition_write_trans same_config_trans same_config_def)

lemma flush_cases:
  assumes "evs \<noteq> []" and "v_key V (cursor_from_event (last evs))"
    and run: "flush_apply_batch D R evs (pw, w) = (r, s')"
  obtains (committed) w1 where "r = Inr ()" "rp_apply_batch R (pw_pid pw) (pw_pid_str pw) evs (pw_agg pw) w = (Inr (), w1)"
      "same_views V w1 (snd s')" "pw_agg (fst s') = pw_agg pw" "pw_cur (fst s') = cursor_from_event (last evs)"
      "same_config pw (fst s')"
    | (failed) e where "r = Inl e" "fst s' = pw"
      "rp_apply_batch R (pw_pid pw) (pw_pid_str pw) evs (pw_agg pw) w = (Inl e, snd s')"
proof -
  obtain rb w1 where b: "rp_apply_batch R (pw_pid pw) (pw_pid_str pw) evs (pw_agg pw) w = (rb, w1)" by force
  show thesis
  proof (cases rb)
    case (Inl e)
    then show thesis using run \<open>evs \<noteq> []\<close> b by (auto simp: flush_apply_batch_def intro: failed)
  next
    case (Inr u)
    let ?w2 = "if pw_risk_scheduler pw then rp_schedule R (pw_pid pw) w1 else w1"
    let ?s = "(pw\<lparr>pw_cur := cursor_from_event (last evs)\<rparr>, ?w2)"
    have s': "r = Inr ()" "s' = maybe_snapshot_after_apply D R evs ?s"
      using run \<open>evs \<noteq> []\<close> b Inr by (auto simp: flush_apply_batch_def Let_def)
    have "same_views V w1 ?w2" using schedule_same by simp
    then have "same_views V w1 (snd s')"
      using maybe_snapshot_frame [of ?s evs] s'(2) by (auto intro: same_views_trans)
    moreover have "same_apply_state (fst ?s) (fst s')"
      using maybe_snapshot_frame [of ?s evs] s'(2) by simp
    note same_apply_stateD [OF this]
    ultimately show thesis using s'(1) b Inr by (intro committed) auto
  qed
qed

lemma flush_frame:
  assumes "evs = [] \<or> v_key V (cursor_from_event (last evs))"
    and run: "flush_apply_batch D R evs (pw, w) = (r, s')"
  shows "worker_frame (pw, w) s' \<and> v_dead V (snd s') = v_dead V w \<and> pw_agg (fst s') = pw_agg pw \<and>
    (r = Inr () \<longrightarrow> pw_cur (fst s') = (if evs = [] then pw_cur pw else cursor_from_event (last evs)))"
proof (cases "evs = []")
  case True
  then show ?thesis using run by (auto simp: flush_apply_batch_def)
next
  case False
  then have k: "v_key V (cursor_from_event (last evs))" using assms(1) by simp
  from batch_write [where pid = "pw_pid pw" and key = "pw_pid_str pw" and agg = "pw_agg pw" and w = w,
      OF False k refl]
  have bw: "partition_write V (pw_pid pw) w (snd (rp_apply_batch R (pw_pid pw) (pw_pid_str pw) evs (pw_agg pw) w))"
    "v_dead V (snd (rp_apply_batch R (pw_pid pw) (pw_pid_str pw) evs (pw_agg pw) w)) = v_dead V w" by simp_all
  from False k run show ?thesis
  proof (cases rule: flush_cases)
    case (committed w1)
    have "partition_write V (pw_pid pw) w (snd s')"
      using bw(1) committed(2,3) partition_write_same partition_write_trans by fastforce
    then show ?thesis using committed bw(2) False by (auto simp: worker_frame_def same_viewsD)
  next
    case (failed e)
    then show ?thesis using bw by (auto simp: worker_frame_def)
  qed
qed

lemma dead_letter_cases:
  assumes run: "dead_letter R ev reason cause (pw, w) = (r, s')"
  obtains (committed) "r = Inr ()" "fst s' = pw\<lparr>pw_cur := cursor_from_event ev\<rparr>"
      "rp_persist_apply_dlq R (pw_pid pw) (pw_pid_str pw) ev reason cause w = (Inr (), snd s')"
    | (failed) e where "r = Inl e" "fst s' = pw"
      "rp_persist_apply_dlq R (pw_pid pw) (pw_pid_str pw) ev reason cause w = (Inl e, snd s')"
  using run by (auto simp: dead_letter_def andthen_def on_world_def change_def split: prod.splits sum.splits)

lemma dead_letter_frame:
  assumes "v_key V (cursor_from_event ev)" and run: "dead_letter R ev reason cause (pw, w) = (r, s')"
  shows "worker_frame (pw, w) s' \<and> pw_agg (fst s') = pw_agg pw \<and> v_book V (snd s') = v_book V w \<and>
    (r = Inr () \<longrightarrow> pw_cur (fst s') = cursor_from_event ev)"
  using run dlq_write [where pid = "pw_pid pw" and key = "pw_pid_str pw" and reason = reason and
      cause = cause and w = w, OF assms(1) refl]
  by (cases rule: dead_letter_cases) (auto simp: worker_frame_def)

section \<open>Applying a list of events\<close>

lemma worker_frameD:
  assumes "worker_frame s s'"
  shows "pw_pid (fst s') = pw_pid (fst s)" "pw_pid_str (fst s') = pw_pid_str (fst s)"
    "pw_max_event_age (fst s') = pw_max_event_age (fst s)" "pw_watermark (fst s') = pw_watermark (fst s)"
    "v_stream V (snd s') = v_stream V (snd s)" "v_inv V (snd s) \<Longrightarrow> v_inv V (snd s')"
    "v_ok V (snd s) \<Longrightarrow> v_ok V (snd s')"
  using assms by (simp_all add: worker_frame_def same_config_def partition_write_def)

text \<open>
  The three ways one more event is taken: it joins the batch, it is put aside after the batch
  was flushed, or the call ends here.
\<close>

lemma apply_eligible_step:
  assumes run: "apply_eligible D J R okb (ev # evs) (pw, w) = (r, s')"
  obtains (joined) w1 agg where "same_views V w w1"
      "apply_event D J (pw_agg pw) (pw_pid_str pw) ev = (Inr (), agg)"
      "apply_eligible D J R (okb @ [ev]) evs (pw\<lparr>pw_agg := agg\<rparr>, w1) = (r, s')"
    | (aside) w1 agg oc s1 s2 reason cause where "same_views V w w1"
      "oc = Stale \<and> agg = pw_agg pw \<and> pw_max_event_age pw > 0 \<or> oc = Underflow \<and>
        apply_event D J (pw_agg pw) (pw_pid_str pw) ev = (Inl EPositionUnderflow, agg)"
      "flush_apply_batch D R okb (pw\<lparr>pw_agg := agg\<rparr>, w1) = (Inr (), s1)"
      "dead_letter R ev reason cause s1 = (Inr (), s2)"
      "apply_eligible D J R [] evs s2 = (r, s')"
    | (flush_end) w1 agg e where "same_views V w w1"
      "agg = pw_agg pw \<or> (\<exists>x. apply_event D J (pw_agg pw) (pw_pid_str pw) ev = (Inl x, agg))"
      "r = Inl e" "\<exists>r1. flush_apply_batch D R okb (pw\<lparr>pw_agg := agg\<rparr>, w1) = (r1, s')"
    | (panic) w1 agg e where "same_views V w w1" "r = Inl e" "s' = (pw\<lparr>pw_agg := agg\<rparr>, w1)"
      "\<exists>x. apply_event D J (pw_agg pw) (pw_pid_str pw) ev = (Inl x, agg)"
    | (dead_end) w1 agg oc s1 reason cause e where "same_views V w w1"
      "oc = Stale \<and> agg = pw_agg pw \<and> pw_max_event_age pw > 0 \<or> oc = Underflow \<and>
        apply_event D J (pw_agg pw) (pw_pid_str pw) ev = (Inl EPositionUnderflow, agg)"
      "flush_apply_batch D R okb (pw\<lparr>pw_agg := agg\<rparr>, w1) = (Inr (), s1)"
      "dead_letter R ev reason cause s1 = (Inl e, s')" "r = Inl e"
proof -
  obtain st w1 where st: "event_too_stale_for_apply R ev (pw_max_event_age pw) w = (st, w1)" by (rule prod.exhaust)
  have v: "same_views V w w1" using stale_same [of w ev "pw_max_event_age pw"] st by simp
  have pw: "pw\<lparr>pw_agg := pw_agg pw\<rparr> = pw" by simp
  show thesis
  proof (cases st)
    case True
    then have age: "pw_max_event_age pw > 0"
      using st by (auto simp: event_too_stale_for_apply_def split: if_splits)
    let ?f = "flush_apply_batch D R okb (pw, w1)"
    let ?cause = "EOther ''event_time too far behind apply time''"
    obtain r1 s1 where f: "?f = (r1, s1)" by (rule prod.exhaust)
    obtain r2 s2 where d: "dead_letter R ev ''EVENT_TOO_STALE'' ?cause s1 = (r2, s2)" by (rule prod.exhaust)
    show thesis
    proof (cases r1)
      case (Inl e)
      then show thesis using run st True f v pw
        by (intro flush_end [of w1 "pw_agg pw" e]) (auto simp: andthen_def)
    next
      case r1: (Inr u)
      show thesis
      proof (cases r2)
        case (Inl e)
        then show thesis using run st True f d r1 v pw age
          by (intro dead_end [of w1 Stale "pw_agg pw" s1 "''EVENT_TOO_STALE''" ?cause e]) (auto simp: andthen_def)
      next
        case (Inr u')
        then show thesis using run st True f d r1 v pw age
          by (intro aside [of w1 Stale "pw_agg pw" s1 "''EVENT_TOO_STALE''" ?cause s2]) (auto simp: andthen_def)
      qed
    qed
  next
    case False
    obtain ra agg where a: "apply_event D J (pw_agg pw) (pw_pid_str pw) ev = (ra, agg)" by (rule prod.exhaust)
    obtain r1 s1 where f: "flush_apply_batch D R okb (pw\<lparr>pw_agg := agg\<rparr>, w1) = (r1, s1)" by (rule prod.exhaust)
    obtain r2 s2 where d: "dead_letter R ev ''POSITION_UNDERFLOW'' EPositionUnderflow s1 = (r2, s2)" by (rule prod.exhaust)
    show thesis
    proof (cases ra)
      case (Inr u)
      then show thesis using run st False a v by (intro joined [of w1 agg]) auto
    next
      case ra: (Inl e)
      consider (p) "\<exists>m. e = EPanic m" | (u) "e = EPositionUnderflow"
        | (o) "\<nexists>m. e = EPanic m" "e \<noteq> EPositionUnderflow" by blast
      then show thesis
      proof cases
        case p
        then show thesis using run st False a v ra
          by (intro panic [of w1 e agg]) (auto simp: throw_def)
      next
        case u
        show thesis
        proof (cases r1)
          case (Inl e1)
          then show thesis using run st False a f v ra u
            by (intro flush_end [of w1 agg e1]) (auto simp: andthen_def)
        next
          case r1: (Inr x)
          show thesis
          proof (cases r2)
            case (Inl e2)
            then show thesis using run st False a f d v ra u r1
              by (intro dead_end [of w1 Underflow agg s1 "''POSITION_UNDERFLOW''" EPositionUnderflow e2])
                (auto simp: andthen_def)
          next
            case (Inr x2)
            then show thesis using run st False a f d v ra u r1
              by (intro aside [of w1 Underflow agg s1 "''POSITION_UNDERFLOW''" EPositionUnderflow s2])
                (auto simp: andthen_def)
          qed
        qed
      next
        case o
        then have "(r, s') = (case r1 of Inl e1 \<Rightarrow> (Inl e1, s1) | Inr x \<Rightarrow> (Inl e, s1))"
          using run st False a f ra by (cases e) (auto simp: andthen_def throw_def split: sum.splits)
        then show thesis using v a ra f
          by (cases r1) (auto intro: flush_end [of w1 agg])
      qed
    qed
  qed
qed

lemma apply_eligible_frame:
  assumes "\<forall>e\<in>set (okb @ evs). v_key V (cursor_from_event e)"
    and "apply_eligible D J R okb evs (pw, w) = (r, s')"
  shows "worker_frame (pw, w) s' \<and> (r = Inr () \<longrightarrow>
    pw_cur (fst s') = (if okb @ evs = [] then pw_cur pw else cursor_from_event (last (okb @ evs))))"
  using assms
proof (induction evs arbitrary: okb pw w)
  case Nil
  then show ?case using flush_frame [of okb pw w r s'] by auto
next
  case (Cons ev evs)
  have kb: "okb = [] \<or> v_key V (cursor_from_event (last okb))" using Cons.prems(1) by auto
  have kev: "v_key V (cursor_from_event ev)" using Cons.prems(1) by simp
  have start: "worker_frame (pw, w) (pw\<lparr>pw_agg := agg\<rparr>, w1)" if "same_views V w w1" for agg w1
    using that by (simp add: worker_frame_def partition_write_same)
  from Cons.prems(2) show ?case
  proof (cases rule: apply_eligible_step)
    case (joined w1 agg)
    have "worker_frame (pw\<lparr>pw_agg := agg\<rparr>, w1) s'"
      "r = Inr () \<longrightarrow> pw_cur (fst s') = cursor_from_event (last (ev # evs))"
      using Cons.IH [of "okb @ [ev]", OF _ joined(3)] Cons.prems(1) by auto
    then show ?thesis by (auto intro: worker_frame_trans [OF start [OF joined(1)]] simp del: last.simps)
  next
    case (aside w1 agg oc s1 s2 reason cause)
    obtain p1 u1 p2 u2 where s12: "s1 = (p1, u1)" "s2 = (p2, u2)" by (cases s1; cases s2)
    have f: "worker_frame (pw\<lparr>pw_agg := agg\<rparr>, w1) s1" using flush_frame [OF kb aside(3)] by simp
    have d: "worker_frame s1 s2" "pw_cur (fst s2) = cursor_from_event ev"
      using dead_letter_frame [OF kev] aside(4) s12 by auto
    have l: "worker_frame s2 s'"
      "r = Inr () \<longrightarrow> pw_cur (fst s') = (if evs = [] then pw_cur (fst s2) else cursor_from_event (last evs))"
      using Cons.IH [of "[]" p2 u2] aside(5) s12 Cons.prems(1) by auto
    have "worker_frame (pw, w) s'"
      using start [OF aside(1)] f d(1) l(1) worker_frame_trans by blast
    then show ?thesis using l(2) d(2) by simp
  next
    case (flush_end w1 agg e)
    then obtain r1 where "flush_apply_batch D R okb (pw\<lparr>pw_agg := agg\<rparr>, w1) = (r1, s')" by blast
    from flush_frame [OF kb this] have "worker_frame (pw, w) s'"
      using start [OF flush_end(1)] worker_frame_trans by blast
    then show ?thesis using flush_end(3) by simp
  next
    case (panic w1 agg e)
    then show ?thesis using start by simp
  next
    case (dead_end w1 agg oc s1 reason cause e)
    obtain p1 u1 where s1: "s1 = (p1, u1)" by (cases s1)
    have "worker_frame (pw\<lparr>pw_agg := agg\<rparr>, w1) s1" using flush_frame [OF kb dead_end(3)] by simp
    moreover have "worker_frame s1 s'" using dead_letter_frame [OF kev] dead_end(4) s1 by auto
    ultimately have "worker_frame (pw, w) s'" using start [OF dead_end(1)] worker_frame_trans by blast
    then show ?thesis using dead_end(5) by simp
  qed
qed

section \<open>Crash consistency\<close>

lemma flush_log:
  assumes "okb = [] \<or> v_key V (cursor_from_event (last okb))"
    and "projection w (pw_pid pw) c0 ps0"
    and "run_log D J (all_applied okb) ps0 = Some (positions_at (pw_agg pw) (pw_pid_str pw))"
    and run: "flush_apply_batch D R okb (pw, w) = (r, s')"
  shows "\<exists>pre rest ps. okb = pre @ rest \<and> run_log D J (all_applied pre) ps0 = Some ps \<and>
    projection (snd s') (pw_pid pw) (if pre = [] then c0 else cursor_from_event (last pre)) ps \<and>
    (r = Inr () \<longrightarrow> rest = [] \<and> ps = positions_at (pw_agg pw) (pw_pid_str pw))"
proof (cases "okb = []")
  case True
  then show ?thesis using assms
    by (intro exI [of _ "[]"] exI [of _ okb] exI [of _ ps0]) (auto simp: flush_apply_batch_def)
next
  case False
  then have k: "v_key V (cursor_from_event (last okb))" using assms(1) by simp
  obtain ss where ss: "touched_symbols D J okb = Inr ss"
    "\<forall>s. s \<notin> set ss \<longrightarrow> lot_of D (positions_at (pw_agg pw) (pw_pid_str pw)) s = lot_of D ps0 s"
    using all_applied_touched [OF assms(3)] by blast
  define w1 where "w1 = snd (rp_apply_batch R (pw_pid pw) (pw_pid_str pw) okb (pw_agg pw) w)"
  let ?r = "fst (rp_apply_batch R (pw_pid pw) (pw_pid_str pw) okb (pw_agg pw) w)"
  have dbs: "projection w1 (pw_pid pw) (cursor_from_event (last okb)) (positions_at (pw_agg pw) (pw_pid_str pw))
      \<or> (\<exists>e. ?r = Inl e) \<and> projection w1 (pw_pid pw) c0 ps0"
    using batch_commit [OF False k w1_def]
  proof (elim disjE conjE)
    assume "v_cursor V w1 (pw_pid pw) = cursor_from_event (last okb)"
      and "\<exists>ss. touched_symbols D J okb = Inr ss \<and> v_book V w1 (pw_pid pw) = (\<lambda>s. if s \<in> set ss
        then projected val (lot_of D (positions_at (pw_agg pw) (pw_pid_str pw)) s)
        else v_book V w (pw_pid pw) s)"
    then show ?thesis using assms(2) ss by (intro disjI1) (simp add: projection_def)
  qed (use assms(2) in \<open>simp add: projection_def\<close>)
  from False k run show ?thesis
  proof (cases rule: flush_cases)
    case (committed w2)
    then have "w2 = w1" "?r = Inr ()" by (simp_all add: w1_def)
    then have "projection (snd s') (pw_pid pw) (cursor_from_event (last okb))
        (positions_at (pw_agg pw) (pw_pid_str pw))"
      using dbs committed(3) projection_same by auto
    then show ?thesis using False assms(3) by (intro exI [of _ okb] exI [of _ "[]"] exI [of _ "positions_at (pw_agg pw) (pw_pid_str pw)"]) auto
  next
    case (failed e)
    then have "snd s' = w1" by (simp add: w1_def)
    from dbs show ?thesis
    proof (elim disjE conjE)
      assume "projection w1 (pw_pid pw) (cursor_from_event (last okb)) (positions_at (pw_agg pw) (pw_pid_str pw))"
      then show ?thesis using False assms(3) failed(1) \<open>snd s' = w1\<close>
        by (intro exI [of _ okb] exI [of _ "[]"] exI [of _ "positions_at (pw_agg pw) (pw_pid_str pw)"]) auto
    next
      assume "projection w1 (pw_pid pw) c0 ps0"
      then show ?thesis using failed(1) \<open>snd s' = w1\<close>
        by (intro exI [of _ "[]"] exI [of _ okb] exI [of _ ps0]) auto
    qed
  qed
qed

text \<open>
  Whatever calls fail, at its return the database is the projection of a prefix of the events
  with its dead letters; a call that succeeds has gone through all of them, and the aggregate
  is the one the database was written from.
\<close>

lemma log_cursor_append [simp]: "log_cursor (log_cursor c l) m = log_cursor c (l @ m)"
  by (simp add: log_cursor_def)

lemma log_cursor_snoc [simp]: "log_cursor c (l @ [(ev, oc)]) = cursor_from_event ev"
  by (simp add: log_cursor_def)

lemma log_cursor_applied: "log_cursor c (all_applied evs) = (if evs = [] then c else cursor_from_event (last evs))"
  by (simp add: log_cursor_def last_map)

definition logged ::
  "'w \<Rightarrow> 'w \<Rightarrow> uuid \<Rightarrow> cursor \<Rightarrow> 'd positions \<Rightarrow> (event_envelope \<times> outcome) list \<Rightarrow> 'd positions \<Rightarrow> bool" where
  "logged w w' pid c ps l ps' \<longleftrightarrow> run_log D J l ps = Some ps' \<and> projection w' pid (log_cursor c l) ps' \<and>
     v_dead V w' = v_dead V w @ map (Pair pid) (dead_events l)"

lemma logged_same: "same_views V w w1 \<Longrightarrow> logged w1 w' pid c ps l ps' = logged w w' pid c ps l ps'"
  by (simp add: logged_def same_viewsD)

lemma logged_append:
  "logged w w1 pid c ps l ps1 \<Longrightarrow> logged w1 w2 pid (log_cursor c l) ps1 m ps2 \<Longrightarrow>
    logged w w2 pid c ps (l @ m) ps2"
  by (simp add: logged_def run_log_append)

lemma flush_logged:
  assumes kb: "okb = [] \<or> v_key V (cursor_from_event (last okb))"
    and p: "projection w (pw_pid pw) c0 ps0"
    and l: "run_log D J (all_applied okb) ps0 = Some (positions_at (pw_agg pw) (pw_pid_str pw))"
    and run: "flush_apply_batch D R okb (pw, w) = (r, s')"
  obtains pre rest ps where "okb = pre @ rest" "logged w (snd s') (pw_pid pw) c0 ps0 (all_applied pre) ps"
    "r = Inr () \<longrightarrow> rest = [] \<and> ps = positions_at (pw_agg pw) (pw_pid_str pw)"
proof -
  obtain pre rest ps where "okb = pre @ rest" "run_log D J (all_applied pre) ps0 = Some ps"
    "projection (snd s') (pw_pid pw) (if pre = [] then c0 else cursor_from_event (last pre)) ps"
    "r = Inr () \<longrightarrow> rest = [] \<and> ps = positions_at (pw_agg pw) (pw_pid_str pw)"
    using flush_log [OF assms] by blast
  moreover have "v_dead V (snd s') = v_dead V w" using flush_frame [OF kb run] by simp
  ultimately show thesis by (intro that) (auto simp: logged_def log_cursor_applied)
qed

lemma dead_letter_logged:
  assumes k: "v_key V (cursor_from_event ev)" and p: "projection w (pw_pid pw) c ps"
    and oc: "oc = Stale \<or> oc = Underflow \<and> event_effect D J ev ps = Inl EPositionUnderflow"
    and run: "dead_letter R ev reason cause (pw, w) = (r, s')"
  shows "logged w (snd s') (pw_pid pw) c ps [(ev, oc)] ps \<or> (\<exists>e. r = Inl e) \<and> logged w (snd s') (pw_pid pw) c ps [] ps"
proof -
  define w1 where "w1 = snd (rp_persist_apply_dlq R (pw_pid pw) (pw_pid_str pw) ev reason cause w)"
  let ?r = "fst (rp_persist_apply_dlq R (pw_pid pw) (pw_pid_str pw) ev reason cause w)"
  have bk: "v_book V w1 = v_book V w" using dlq_write [OF k w1_def] by simp
  have rl: "run_log D J [(ev, oc)] ps = Some ps" using oc by auto
  have d: "dead_events [(ev, oc)] = [ev]" using oc by auto
  have c: "logged w w1 (pw_pid pw) c ps [(ev, oc)] ps \<or> (\<exists>e. ?r = Inl e) \<and> logged w w1 (pw_pid pw) c ps [] ps"
    using dlq_commit [OF k w1_def] p bk rl d by (auto simp: logged_def projection_def log_cursor_def)
  from run have "snd s' = w1" "\<And>e. ?r = Inl e \<Longrightarrow> r = Inl e"
    by (cases rule: dead_letter_cases; simp add: w1_def)+
  then show ?thesis using c by blast
qed

definition log_result ::
  "'d partition_worker \<Rightarrow> 'w \<Rightarrow> cursor \<Rightarrow> 'd positions \<Rightarrow> event_envelope list \<Rightarrow> unit res \<Rightarrow>
   'd partition_worker \<times> 'w \<Rightarrow> bool" where
  "log_result pw w c ps evs r s' \<longleftrightarrow> (\<exists>l rest ps'. evs = map fst l @ rest \<and>
     logged w (snd s') (pw_pid pw) c ps l ps' \<and>
     (r = Inr () \<longrightarrow> rest = [] \<and> positions_at (pw_agg (fst s')) (pw_pid_str pw) = ps') \<and>
     (pw_max_event_age pw \<le> 0 \<longrightarrow> no_stale l))"

lemma log_resultI:
  assumes "evs = map fst l @ rest" and "logged w (snd s') (pw_pid pw) c ps l ps'"
    and "r = Inr () \<Longrightarrow> rest = [] \<and> positions_at (pw_agg (fst s')) (pw_pid_str pw) = ps'"
    and "pw_max_event_age pw \<le> 0 \<Longrightarrow> no_stale l"
  shows "log_result pw w c ps evs r s'"
  using assms unfolding log_result_def by blast

lemma log_result_prepend:
  assumes "logged w w1 (pw_pid pw) c ps l ps1" and "log_result pw1 w1 (log_cursor c l) ps1 evs r s'"
    and "same_config pw pw1" and "pw_max_event_age pw \<le> 0 \<Longrightarrow> no_stale l"
  shows "log_result pw w c ps (map fst l @ evs) r s'"
proof -
  obtain m rest ps' where m: "evs = map fst m @ rest"
    "logged w1 (snd s') (pw_pid pw) (log_cursor c l) ps1 m ps'"
    "r = Inr () \<longrightarrow> rest = [] \<and> positions_at (pw_agg (fst s')) (pw_pid_str pw) = ps'"
    "pw_max_event_age pw \<le> 0 \<longrightarrow> no_stale m"
    using assms(2,3) by (auto simp: log_result_def same_config_def)
  show ?thesis
    by (rule log_resultI [of _ "l @ m" rest _ _ _ _ _ ps'])
      (use m assms(1,4) logged_append in auto)
qed

lemma log_result_same: "same_views V w w1 \<Longrightarrow> log_result pw w1 c ps evs r s' = log_result pw w c ps evs r s'"
  by (simp add: log_result_def logged_same)

lemma flush_then_dead_letter:
  fixes pw :: "'d partition_worker"
  defines "ps \<equiv> positions_at (pw_agg pw) (pw_pid_str pw)"
  assumes kb: "okb = [] \<or> v_key V (cursor_from_event (last okb))" and kev: "v_key V (cursor_from_event ev)"
    and p: "projection w (pw_pid pw) c ps0" and l: "run_log D J (all_applied okb) ps0 = Some ps"
    and oc: "oc = Stale \<or> oc = Underflow \<and> event_effect D J ev ps = Inl EPositionUnderflow"
    and f: "flush_apply_batch D R okb (pw, w) = (Inr (), s1)"
    and d: "dead_letter R ev reason cause s1 = (r, s2)"
  shows "same_config pw (fst s2) \<and> pw_agg (fst s2) = pw_agg pw \<and>
    (logged w (snd s2) (pw_pid pw) c ps0 (all_applied okb @ [(ev, oc)]) ps \<or>
     (\<exists>e. r = Inl e) \<and> logged w (snd s2) (pw_pid pw) c ps0 (all_applied okb) ps)"
proof -
  obtain p1 u1 where s1: "s1 = (p1, u1)" by (cases s1)
  have ff: "worker_frame (pw, w) s1" "pw_agg p1 = pw_agg pw" using flush_frame [OF kb f] s1 by auto
  have fd: "worker_frame s1 s2" "pw_agg (fst s2) = pw_agg p1"
    using dead_letter_frame [OF kev] d s1 by auto
  have cf: "same_config pw p1" "same_config pw (fst s2)"
    using ff(1) worker_frame_trans [OF ff(1) fd(1)] s1 by (simp_all add: worker_frame_def)
  obtain pre rest ps1 where "okb = pre @ rest" "logged w u1 (pw_pid pw) c ps0 (all_applied pre) ps1"
    "rest = [] \<and> ps1 = ps"
    using flush_logged [OF kb p _ f] l s1 unfolding ps_def by auto
  then have l1: "logged w u1 (pw_pid pw) c ps0 (all_applied okb) ps" by simp
  then have "projection u1 (pw_pid p1) (log_cursor c (all_applied okb)) ps"
    using cf by (simp add: logged_def same_config_def)
  from dead_letter_logged [OF kev this oc] d s1
  have "logged u1 (snd s2) (pw_pid pw) (log_cursor c (all_applied okb)) ps [(ev, oc)] ps \<or>
      (\<exists>e. r = Inl e) \<and> logged u1 (snd s2) (pw_pid pw) (log_cursor c (all_applied okb)) ps [] ps"
    using cf by (simp add: same_config_def)
  then have "logged w (snd s2) (pw_pid pw) c ps0 (all_applied okb @ [(ev, oc)]) ps \<or>
      (\<exists>e. r = Inl e) \<and> logged w (snd s2) (pw_pid pw) c ps0 (all_applied okb @ []) ps"
    using logged_append [OF l1] by blast
  then show ?thesis using cf(2) ff(2) fd(2) by simp
qed

lemma apply_eligible_logged:
  assumes "\<forall>e\<in>set (okb @ evs). v_key V (cursor_from_event e)"
    and "projection w (pw_pid pw) c ps0"
    and "run_log D J (all_applied okb) ps0 = Some (positions_at (pw_agg pw) (pw_pid_str pw))"
    and "apply_eligible D J R okb evs (pw, w) = (r, s')"
  shows "log_result pw w c ps0 (okb @ evs) r s'"
  using assms
proof (induction evs arbitrary: okb pw w c ps0)
  case Nil
  then have "okb = [] \<or> v_key V (cursor_from_event (last okb))" by (metis append_Nil2 last_in_set)
  moreover have "flush_apply_batch D R okb (pw, w) = (r, s')" using Nil.prems(4) by simp
  ultimately obtain pre rest ps where "okb = pre @ rest"
    "logged w (snd s') (pw_pid pw) c ps0 (all_applied pre) ps"
    "r = Inr () \<longrightarrow> rest = [] \<and> ps = positions_at (pw_agg pw) (pw_pid_str pw)"
    "pw_agg (fst s') = pw_agg pw"
    using flush_logged [OF _ Nil.prems(2,3)] flush_frame [of okb pw w r s'] by metis
  then show ?case by (intro log_resultI [of _ "all_applied pre" rest _ _ _ _ _ ps]) auto
next
  case (Cons ev evs)
  let ?key = "pw_pid_str pw" and ?ps = "positions_at (pw_agg pw) (pw_pid_str pw)"
  have kb: "okb = [] \<or> v_key V (cursor_from_event (last okb))" using Cons.prems(1) by auto
  have kev: "v_key V (cursor_from_event ev)" using Cons.prems(1) by simp
  from Cons.prems(4) show ?case
  proof (cases rule: apply_eligible_step)
    case (joined w1 agg)
    have "run_log D J (all_applied (okb @ [ev])) ps0 = Some (positions_at agg ?key)"
      using Cons.prems(3) apply_event_result(1) [OF joined(2)] by (simp add: run_log_append)
    then have "log_result (pw\<lparr>pw_agg := agg\<rparr>) w1 c ps0 ((okb @ [ev]) @ evs) r s'"
      using Cons.prems(1,2) joined(1) by (intro Cons.IH [OF _ _ _ joined(3)]) (auto simp: projection_same)
    then show ?thesis using log_result_same [OF joined(1)] by (simp add: log_result_def)
  next
    case (aside w1 agg oc s1 s2 reason cause)
    have agg: "positions_at agg ?key = ?ps" "oc = Stale \<or> oc = Underflow \<and> event_effect D J ev ?ps = Inl EPositionUnderflow"
      using aside(2) apply_event_result(2) [of D J "pw_agg pw" ?key ev EPositionUnderflow agg] by auto
    obtain p2 u2 where s2: "s2 = (p2, u2)" by (cases s2)
    have p1: "projection w1 (pw_pid (pw\<lparr>pw_agg := agg\<rparr>)) c ps0" using Cons.prems(2) aside(1) projection_same by simp
    from flush_then_dead_letter [OF kb kev p1 _ _ aside(3,4), of oc] Cons.prems(3) agg s2
    have t: "same_config pw p2" "pw_agg p2 = agg"
      "logged w u2 (pw_pid pw) c ps0 (all_applied okb @ [(ev, oc)]) ?ps"
      using logged_same [OF aside(1)] by auto
    have "log_result p2 u2 (log_cursor c (all_applied okb @ [(ev, oc)])) ?ps ([] @ evs) r s'"
      using Cons.prems(1) t agg(1) aside(5) s2
      by (intro Cons.IH) (auto simp: logged_def same_config_def)
    from log_result_prepend [OF t(3) this t(1)] aside(2) show ?thesis by auto
  next
    case (flush_end w1 agg e)
    then obtain r1 where fl: "flush_apply_batch D R okb (pw\<lparr>pw_agg := agg\<rparr>, w1) = (r1, s')" by blast
    have agg: "positions_at agg ?key = ?ps" using flush_end(2) apply_event_result(2) by blast
    have p1: "projection w1 (pw_pid (pw\<lparr>pw_agg := agg\<rparr>)) c ps0"
      using Cons.prems(2) flush_end(1) projection_same by simp
    have l: "run_log D J (all_applied okb) ps0 = Some (positions_at (pw_agg (pw\<lparr>pw_agg := agg\<rparr>))
        (pw_pid_str (pw\<lparr>pw_agg := agg\<rparr>)))" using Cons.prems(3) agg by simp
    obtain pre rest ps where "okb = pre @ rest"
      "logged w1 (snd s') (pw_pid (pw\<lparr>pw_agg := agg\<rparr>)) c ps0 (all_applied pre) ps"
      by (rule flush_logged [OF kb p1 l fl])
    then show ?thesis using flush_end(1,3) logged_same
      by (intro log_resultI [of _ "all_applied pre" "rest @ ev # evs" _ _ _ _ _ ps]) auto
  next
    case (panic w1 agg e)
    have "logged w1 w1 (pw_pid pw) c ps0 [] ps0"
      using Cons.prems(2) panic(1) by (simp add: logged_def log_cursor_def projection_same)
    then show ?thesis using panic logged_same [OF panic(1)]
      by (intro log_resultI [of _ "[]" _ _ _ _ _ _ ps0]) auto
  next
    case (dead_end w1 agg oc s1 reason cause e)
    have agg: "positions_at agg ?key = ?ps" "oc = Stale \<or> oc = Underflow \<and> event_effect D J ev ?ps = Inl EPositionUnderflow"
      using dead_end(2) apply_event_result(2) [of D J "pw_agg pw" ?key ev EPositionUnderflow agg] by auto
    have p1: "projection w1 (pw_pid (pw\<lparr>pw_agg := agg\<rparr>)) c ps0" using Cons.prems(2) dead_end(1) projection_same by simp
    from flush_then_dead_letter [OF kb kev p1 _ _ dead_end(3,4), of oc] Cons.prems(3) agg
    have "\<exists>m. (m = [] \<or> m = [(ev, oc)]) \<and>
        logged w (snd s') (pw_pid pw) c ps0 (all_applied okb @ m) ?ps"
      using logged_same [OF dead_end(1)] by fastforce
    then obtain m where m: "m = [] \<or> m = [(ev, oc)]"
      "logged w (snd s') (pw_pid pw) c ps0 (all_applied okb @ m) ?ps" by blast
    then show ?thesis using dead_end(2,5)
      by (intro log_resultI [of _ "all_applied okb @ m" "if m = [] then ev # evs else evs" _ _ _ _ _ ?ps]) auto
  qed
qed

end

end
