(* ===== verification/Trade_Pump.thy ===== *)
theory Trade_Pump
  imports Trade_Worker_Laws
begin

text \<open>
  The pump of the trade worker: it terminates, whatever calls fail; what it leaves unapplied
  lies within the watermark of the newest event; and in a world whose calls do not fail it
  gets through.
\<close>

section \<open>One page\<close>

text \<open>What may be left over: nothing, or events less than the watermark behind the newest.\<close>

definition within_watermark :: "duration \<Rightarrow> event_envelope list \<Rightarrow> event_envelope list \<Rightarrow> bool" where
  "within_watermark watermark strm rest \<longleftrightarrow> rest = [] \<or> watermark > 0 \<and>
     (\<forall>e\<in>set rest. event_time e > Max (event_time ` set strm) - watermark)"

lemma cursor_sorted_times:
  "sorted_wrt (<) (map cursor_from_event evs) \<Longrightarrow> sorted (map event_time evs)"
  unfolding sorted_wrt_map
  by (erule sorted_wrt_mono_rel [rotated]) (auto simp: cursor_from_event_def less_cursor_def)

lemma events_after_sorted:
  "sorted_wrt (<) (map cursor_from_event evs) \<Longrightarrow> sorted_wrt (<) (map cursor_from_event (events_after c evs))"
  by (simp add: events_after_def sorted_wrt_map sorted_wrt_filter)

lemma eligible_page:
  fixes E :: "event_envelope list"
  assumes srt: "sorted (map event_time E)" and sub: "set E \<subseteq> set strm"
    and page: "batch = take 200 E"
    and elig: "elig = eligible_batch_after_watermark batch (Max (event_time ` set strm) - wm) wm 200"
  shows "elig = take (length elig) E"
    and "length elig < length batch \<or> int (length batch) < 200 \<Longrightarrow> within_watermark wm strm (drop (length elig) E)"
    and "\<not> (length elig < length batch \<or> int (length batch) < 200) \<Longrightarrow> elig = batch"
proof -
  let ?c = "Max (event_time ` set strm) - wm"
  obtain k where k: "elig = take k batch" using eligible_batch_prefix elig by blast
  then show e: "elig = take (length elig) E" by (simp add: page min_def)
  show "elig = batch" if "\<not> (length elig < length batch \<or> int (length batch) < 200)"
    using that k by auto
  show "within_watermark wm strm (drop (length elig) E)"
    if short: "length elig < length batch \<or> int (length batch) < 200"
  proof (cases "length elig < length batch")
    case False
    then have "length batch < 200" "length elig = length batch" using short k by auto
    then have "length elig = length E" by (simp add: page)
    then show ?thesis by (simp add: within_watermark_def)
  next
    case True
    then have tw: "elig = takeWhile (\<lambda>e. event_time e \<le> ?c) batch"
      using elig by (auto simp: eligible_batch_after_watermark_def eligible_prefix_takeWhile Let_def split: if_splits)
    let ?n = "length elig"
    have nE: "?n < length E" and bn: "batch ! ?n = E ! ?n" using True by (simp_all add: page)
    have "\<not> event_time (E ! ?n) \<le> ?c"
      using nth_length_takeWhile [of "\<lambda>e. event_time e \<le> ?c" batch] True tw bn by simp
    moreover have "event_time (E ! ?n) \<le> event_time e" if "e \<in> set (drop ?n E)" for e
    proof -
      from that obtain i where "i < length (drop ?n E)" "e = drop ?n E ! i" by (auto simp: in_set_conv_nth)
      then show ?thesis using sorted_nth_mono [OF srt, of ?n "?n + i"] by simp
    qed
    ultimately have late: "\<forall>e\<in>set (drop ?n E). event_time e > ?c" by force
    have "E ! ?n \<in> set strm" using nE sub by auto
    then have "event_time (E ! ?n) \<le> Max (event_time ` set strm)" by (intro Max_ge) auto
    then have "0 < wm" using \<open>\<not> event_time (E ! ?n) \<le> ?c\<close> by linarith
    then show ?thesis using late by (simp add: within_watermark_def)
  qed
qed

context event_repository begin

abbreviation left :: "'d partition_worker \<times> 'w \<Rightarrow> event_envelope list" where
  "left s \<equiv> events_after (pw_cur (fst s)) (v_stream V (snd s) (pw_pid (fst s)))"

lemma left_facts:
  assumes "v_inv V (snd s)"
  shows "sorted_wrt (<) (map cursor_from_event (left s))"
    and "set (left s) \<subseteq> set (v_stream V (snd s) (pw_pid (fst s)))"
    and "\<forall>e\<in>set (left s). v_key V (cursor_from_event e) \<and> cursor_from_event e \<noteq> zero_cursor"
    and "\<forall>e\<in>set (left s). payload e \<noteq> RawMalformed"
  using stream_sorted [OF assms] set_events_after stream_keys [OF assms] stream_docs [OF assms]
  by (auto intro: events_after_sorted) blast+

text \<open>One round of the loop, as a transition: it ends the pump, or it applies a full page.\<close>

lemma pump_step:
  assumes inv: "v_inv V w" and key: "v_key V (pw_cur pw)"
  obtains (idle) r w1 where "pump_after_cursor D J R (pw, w) = Some (r, (pw, w1))" "same_views V w w1"
      "r = Inr () \<Longrightarrow> within_watermark (pw_watermark pw) (v_stream V w (pw_pid pw)) (left (pw, w))"
      "v_ok V w \<Longrightarrow> r = Inr ()"
    | (final) n r w1 s' where "pump_after_cursor D J R (pw, w) = Some (r, s')" "same_views V w w1"
      "apply_eligible D J R [] (take n (left (pw, w))) (pw, w1) = (r, s')"
      "r = Inr () \<Longrightarrow> within_watermark (pw_watermark pw) (v_stream V w (pw_pid pw)) (drop n (left (pw, w)))"
    | (more) n w1 s' where "pump_after_cursor D J R (pw, w) = pump_after_cursor D J R s'" "same_views V w w1"
      "apply_eligible D J R [] (take n (left (pw, w))) (pw, w1) = (Inr (), s')"
      "take n (left (pw, w)) \<noteq> []"
proof -
  let ?E = "left (pw, w)" and ?S = "v_stream V w (pw_pid pw)"
  obtain rm w1 where m: "rp_max_event_time R (pw_pid pw) w = (rm, w1)" by (rule prod.exhaust)
  obtain rf w2 where f: "rp_fetch_after R (pw_pid pw) (pw_cur pw) fetch_after_page_limit w1 = (rf, w2)"
    by (rule prod.exhaust)
  have v1: "same_views V w w1" using max_same [of w "pw_pid pw"] m by simp
  have v2: "same_views V w w2"
    using same_views_trans [OF v1] fetch_same [of w1 "pw_pid pw" "pw_cur pw" fetch_after_page_limit] f by simp
  have inv1: "v_inv V w1" and S1: "v_stream V w1 (pw_pid pw) = ?S" using same_viewsD [OF v1] inv by simp_all
  show thesis
  proof (cases rm)
    case (Inl e)
    then show thesis using m v1 max_ok [of w "pw_pid pw"]
      by (intro idle [of "Inl e" w1]) (auto simp: pump_after_cursor.simps)
  next
    case rm: (Inr t)
    show thesis
    proof (cases rf)
      case (Inl e)
      then show thesis using m rm f v2 fetch_ok [of w1 "pw_pid pw" "pw_cur pw" fetch_after_page_limit]
          same_viewsD(6) [OF v1]
        by (intro idle [of "Inl e" w2]) (auto simp: pump_after_cursor.simps)
    next
      case rf: (Inr batch)
      have page: "batch = take 200 ?E"
        using fetch [OF inv1 key, of fetch_after_page_limit "pw_pid pw" batch] f rf S1
        by (simp add: fetch_after_page_limit_def)
      define elig where "elig = eligible_batch_after_watermark batch (t - pw_watermark pw) (pw_watermark pw) 200"
      note unfold = pump_after_cursor.simps [of D J R "(pw, w)"] m rm rf elig_def [symmetric]
        fetch_after_page_limit_def f [unfolded fetch_after_page_limit_def]
      show thesis
      proof (cases "batch = []")
        case True
        then have "?E = []" using page by simp
        then show thesis using True v2
          by (intro idle [of "Inr ()" w2]) (auto simp: unfold within_watermark_def)
      next
        case False
        then have "?S \<noteq> []" using page set_events_after [of "pw_cur pw" ?S] by auto
        then have t: "t = Max (event_time ` set ?S)" using max_time [of "pw_pid pw" w t] m rm by simp
        have srt: "sorted (map event_time ?E)" and sub: "set ?E \<subseteq> set ?S"
          using cursor_sorted_times [OF left_facts(1), of "(pw, w)"] left_facts(2) [of "(pw, w)"] inv by simp_all
        note el = eligible_page [OF srt sub page elig_def [unfolded t]]
        show thesis
        proof (cases "elig = []")
          case True
          then have "within_watermark (pw_watermark pw) ?S ?E" using el(2) False by simp
          then show thesis using True False v2
            by (intro idle [of "Inr ()" w2]) (auto simp: unfold)
        next
          case ne: False
          obtain ra s' where a: "apply_eligible D J R [] elig (pw, w2) = (ra, s')" by (rule prod.exhaust)
          have at: "apply_eligible D J R [] (take (length elig) ?E) (pw, w2) = (ra, s')" using a el(1) by simp
          show thesis
          proof (cases "ra = Inr () \<and> \<not> (length elig < length batch \<or> length batch < 200)")
            case True
            then show thesis using at a ne False v2 el(1)
              by (intro more [of s' w2 "length elig"]) (auto simp: unfold)
          next
            case stop: False
            then have "pump_after_cursor D J R (pw, w) = Some (ra, s')"
              using a ne False by (auto simp: unfold split: sum.splits)
            then show thesis using at v2 el(2) stop
              by (intro final [of ra s' w2 "length elig"]) auto
          qed
        qed
      qed
    qed
  qed
qed

section \<open>Termination\<close>

text \<open>A page that was applied moves the cursor past itself, so that less is left.\<close>

lemma page_applied:
  assumes inv: "v_inv V w" and v: "same_views V w w1" and ne: "take n (left (pw, w)) \<noteq> []"
    and run: "apply_eligible D J R [] (take n (left (pw, w))) (pw, w1) = (Inr (), s')"
  shows "worker_frame (pw, w) s'" "left s' = drop n (left (pw, w))" "v_key V (pw_cur (fst s'))"
    "pw_cur (fst s') = cursor_from_event (last (take n (left (pw, w))))"
proof -
  let ?E = "left (pw, w)" and ?X = "take n (left (pw, w))"
  have keys: "\<forall>e\<in>set ([] @ ?X). v_key V (cursor_from_event e)"
    using left_facts(3) [of "(pw, w)"] inv by (auto dest: in_set_takeD)
  from apply_eligible_frame [OF keys run] have fr: "worker_frame (pw, w1) s'"
    and c: "pw_cur (fst s') = cursor_from_event (last ?X)" using ne by simp_all
  have "worker_frame (pw, w) (pw, w1)" using v by (simp add: worker_frame_def partition_write_same)
  then show f: "worker_frame (pw, w) s'" using fr worker_frame_trans by blast
  have l: "last ?X \<in> set ?E" using ne by (metis in_set_takeD last_in_set)
  then have nz: "cursor_from_event (last ?X) \<noteq> zero_cursor" using left_facts(3) [of "(pw, w)"] inv by auto
  have "events_after (cursor_from_event (last ?X)) (v_stream V w (pw_pid pw)) = drop n ?E"
    using stream_sorted [OF inv] ne nz by (intro events_after_prefix) auto
  then show "left s' = drop n ?E" using c worker_frameD [OF f] by simp
  show "v_key V (pw_cur (fst s'))" using c l left_facts(3) [of "(pw, w)"] inv by auto
  show "pw_cur (fst s') = cursor_from_event (last ?X)" by (rule c)
qed

lemma pump_terminates:
  assumes "v_inv V w" and "v_key V (pw_cur pw)"
  shows "\<exists>r s'. pump_after_cursor D J R (pw, w) = Some (r, s') \<and> worker_frame (pw, w) s'"
  using assms
proof (induction "length (left (pw, w))" arbitrary: pw w rule: less_induct)
  case less
  from less.prems show ?case
  proof (cases rule: pump_step)
    case (idle r w1)
    then show ?thesis by (auto simp: worker_frame_def partition_write_same)
  next
    case (final n r w1 s')
    have "\<forall>e\<in>set ([] @ take n (left (pw, w))). v_key V (cursor_from_event e)"
      using left_facts(3) [of "(pw, w)"] less.prems by (auto dest: in_set_takeD)
    from apply_eligible_frame [OF this final(3)]
    have "worker_frame (pw, w1) s'" by simp
    moreover have "worker_frame (pw, w) (pw, w1)"
      using final(2) by (simp add: worker_frame_def partition_write_same)
    ultimately show ?thesis using final(1) worker_frame_trans by blast
  next
    case (more n w1 s')
    note pa = page_applied [OF less.prems(1) more(2,4,3)]
    obtain p1 u1 where s': "s' = (p1, u1)" by (cases s')
    have "length (left s') < length (left (pw, w))" using pa(2) more(4) by auto
    then have "\<exists>r s''. pump_after_cursor D J R (p1, u1) = Some (r, s'') \<and> worker_frame (p1, u1) s''"
      using pa(3) worker_frameD [OF pa(1)] less.prems s' by (intro less.hyps) auto
    then show ?thesis using more(1) s' pa(1) worker_frame_trans by metis
  qed
qed

section \<open>What the pump does\<close>

text \<open>
  From a state in which the aggregate and the database agree: at the return of the pump the
  database is the projection of a prefix of what was left; when it returned no error, the
  aggregate and the cursor agree with it again, and what is left lies within the watermark.
\<close>

definition pump_result ::
  "'d partition_worker \<Rightarrow> 'w \<Rightarrow> unit res \<Rightarrow> 'd partition_worker \<times> 'w \<Rightarrow> bool" where
  "pump_result pw w r s' \<longleftrightarrow> (\<exists>l rest ps'. left (pw, w) = map fst l @ rest \<and>
     logged w (snd s') (pw_pid pw) (pw_cur pw) (positions_at (pw_agg pw) (pw_pid_str pw)) l ps' \<and>
     (pw_max_event_age pw \<le> 0 \<longrightarrow> no_stale l) \<and>
     (r = Inr () \<longrightarrow> positions_at (pw_agg (fst s')) (pw_pid_str pw) = ps' \<and>
       pw_cur (fst s') = log_cursor (pw_cur pw) l \<and>
       within_watermark (pw_watermark pw) (v_stream V w (pw_pid pw)) rest))"

lemma pump_resultI:
  assumes "left (pw, w) = map fst l @ rest"
    and "logged w (snd s') (pw_pid pw) (pw_cur pw) (positions_at (pw_agg pw) (pw_pid_str pw)) l ps'"
    and "pw_max_event_age pw \<le> 0 \<Longrightarrow> no_stale l"
    and "r = Inr () \<Longrightarrow> positions_at (pw_agg (fst s')) (pw_pid_str pw) = ps' \<and>
       pw_cur (fst s') = log_cursor (pw_cur pw) l \<and>
       within_watermark (pw_watermark pw) (v_stream V w (pw_pid pw)) rest"
  shows "pump_result pw w r s'"
  using assms unfolding pump_result_def by blast

definition in_sync :: "'d partition_worker \<times> 'w \<Rightarrow> bool" where
  "in_sync s \<longleftrightarrow> v_inv V (snd s) \<and>
     projection (snd s) (pw_pid (fst s)) (pw_cur (fst s)) (positions_at (pw_agg (fst s)) (pw_pid_str (fst s)))"

lemma in_sync_key: "in_sync s \<Longrightarrow> v_inv V (snd s) \<and> v_key V (pw_cur (fst s))"
  by (metis in_sync_def projection_def cursor_key)

text \<open>One applied page, from a state in sync.\<close>

lemma page_logged:
  assumes sync: "in_sync (pw, w)" and v: "same_views V w w1"
    and run: "apply_eligible D J R [] (take n (left (pw, w))) (pw, w1) = (r, s')"
  obtains l rest ps' where "take n (left (pw, w)) = map fst l @ rest"
    "logged w (snd s') (pw_pid pw) (pw_cur pw) (positions_at (pw_agg pw) (pw_pid_str pw)) l ps'"
    "r = Inr () \<Longrightarrow> rest = [] \<and> positions_at (pw_agg (fst s')) (pw_pid_str pw) = ps'"
    "pw_max_event_age pw \<le> 0 \<Longrightarrow> no_stale l"
proof -
  have keys: "\<forall>e\<in>set ([] @ take n (left (pw, w))). v_key V (cursor_from_event e)"
    using left_facts(3) [of "(pw, w)"] sync by (auto simp: in_sync_def dest: in_set_takeD)
  have "projection w1 (pw_pid pw) (pw_cur pw) (positions_at (pw_agg pw) (pw_pid_str pw))"
    using sync projection_same [OF v] by (simp add: in_sync_def)
  from apply_eligible_logged [OF keys this _ run]
  have "log_result pw w (pw_cur pw) (positions_at (pw_agg pw) (pw_pid_str pw)) (take n (left (pw, w))) r s'"
    using log_result_same [OF v] by simp
  then show thesis unfolding log_result_def using that by blast
qed

lemma pump_logged:
  assumes "in_sync (pw, w)" and "pump_after_cursor D J R (pw, w) = Some (r, s')"
  shows "pump_result pw w r s'"
  using assms
proof (induction "length (left (pw, w))" arbitrary: pw w rule: less_induct)
  case less
  let ?ps = "positions_at (pw_agg pw) (pw_pid_str pw)"
  have ik: "v_inv V w" "v_key V (pw_cur pw)" using in_sync_key [OF less.prems(1)] by simp_all
  then show ?case
  proof (cases rule: pump_step)
    case (idle r1 w1)
    then have s': "s' = (pw, w1)" "r1 = r" using less.prems(2) by simp_all
    have "logged w w1 (pw_pid pw) (pw_cur pw) ?ps [] ?ps"
      using less.prems(1) idle(2) projection_same by (simp add: logged_def log_cursor_def in_sync_def same_viewsD)
    then show ?thesis using s' idle(3)
      by (intro pump_resultI [of _ _ "[]" "left (pw, w)" _ ?ps]) (auto simp: log_cursor_def)
  next
    case (final n r1 w1 s1)
    then have s1: "s1 = s'" "r1 = r" using less.prems(2) by simp_all
    obtain l rest ps' where l: "take n (left (pw, w)) = map fst l @ rest"
      "logged w (snd s') (pw_pid pw) (pw_cur pw) ?ps l ps'"
      "r = Inr () \<Longrightarrow> rest = [] \<and> positions_at (pw_agg (fst s')) (pw_pid_str pw) = ps'"
      "pw_max_event_age pw \<le> 0 \<Longrightarrow> no_stale l"
      by (rule page_logged [OF less.prems(1) final(2)]) (use final(3) s1 in auto)
    have whole: "left (pw, w) = map fst l @ rest @ drop n (left (pw, w))"
      using l(1) append_take_drop_id [of n "left (pw, w)"] by simp
    have "pw_cur (fst s') = log_cursor (pw_cur pw) l" if "r = Inr ()"
    proof (cases "take n (left (pw, w)) = []")
      case True
      then have "l = []" using l(1) by (metis append_is_Nil_conv map_is_Nil_conv)
      moreover have "s' = (pw, w1)" using final(3) True s1 by (auto simp: flush_apply_batch_def)
      ultimately show ?thesis by (simp add: log_cursor_def)
    next
      case False
      have "apply_eligible D J R [] (take n (left (pw, w))) (pw, w1) = (Inr (), s')"
        using final(3) s1 that by simp
      from page_applied(4) [OF ik(1) final(2) False this] show ?thesis
        using l(1) l(3) [OF that] False by (simp add: log_cursor_def last_map)
    qed
    then show ?thesis using l final(4) s1
      by (intro pump_resultI [of _ _ l "rest @ drop n (left (pw, w))" _ ps']) (use whole in auto)
  next
    case (more n w1 s1)
    obtain p1 u1 where s1: "s1 = (p1, u1)" by (cases s1)
    note pa = page_applied [OF ik(1) more(2,4,3)]
    note fr = worker_frameD [OF pa(1)]
    obtain l rest ps' where l: "take n (left (pw, w)) = map fst l @ rest"
      "logged w (snd s1) (pw_pid pw) (pw_cur pw) ?ps l ps'"
      "rest = [] \<and> positions_at (pw_agg (fst s1)) (pw_pid_str pw) = ps'"
      "pw_max_event_age pw \<le> 0 \<Longrightarrow> no_stale l"
      by (rule page_logged [OF less.prems(1) more(2,3)]) auto
    have cur: "pw_cur p1 = log_cursor (pw_cur pw) l"
      using pa(4) l(1,3) more(4) s1 by (auto simp: log_cursor_def last_map)
    have "in_sync (p1, u1)"
      using l(2,3) cur fr ik(1) s1 by (simp add: in_sync_def logged_def)
    moreover have "length (left (p1, u1)) < length (left (pw, w))" using pa(2) more(4) s1 by auto
    ultimately have "pump_result p1 u1 r s'" using more(1) less.prems(2) s1 by (intro less.hyps) auto
    then obtain m rest' ps'' where m: "left (p1, u1) = map fst m @ rest'"
      "logged u1 (snd s') (pw_pid pw) (log_cursor (pw_cur pw) l) ps' m ps''"
      "pw_max_event_age pw \<le> 0 \<longrightarrow> no_stale m"
      "r = Inr () \<longrightarrow> positions_at (pw_agg (fst s')) (pw_pid_str pw) = ps'' \<and>
        pw_cur (fst s') = log_cursor (pw_cur p1) m \<and>
        within_watermark (pw_watermark pw) (v_stream V w (pw_pid pw)) rest'"
      using fr l(3) cur s1 unfolding pump_result_def by auto
    have "left (pw, w) = map fst (l @ m) @ rest'"
      using l(1,3) m(1) pa(2) s1 append_take_drop_id [of n "left (pw, w)"] by simp
    moreover have "logged w (snd s') (pw_pid pw) (pw_cur pw) ?ps (l @ m) ps''"
      using logged_append [OF l(2) [unfolded s1 snd_conv] m(2)] .
    ultimately show ?thesis using m(3,4) l(4) cur
      by (intro pump_resultI [of _ _ "l @ m" rest' _ ps'']) auto
  qed
qed

section \<open>Getting through\<close>

text \<open>
  When calls do not fail, the stored events are ones that validation lets through, and every
  lot on the way fits \<^verbatim>\<open>NUMERIC(20, 8)\<close>, no operation returns an error.
\<close>

definition fits_along :: "event_envelope list \<Rightarrow> 'd positions \<Rightarrow> bool" where
  "fits_along evs ps \<longleftrightarrow> (\<forall>k s. lot_fits val (lot_of D (replay D J (take k evs) ps) s))"

lemma fits_along_append:
  assumes "fits_along (xs @ ys) ps"
  shows "fits_along ys (replay D J xs ps)" and "fits_along xs ps"
proof -
  have "take (length xs + k) (xs @ ys) = xs @ take k ys" for k by simp
  then show "fits_along ys (replay D J xs ps)"
    using assms unfolding fits_along_def by (metis replay_append)
  have "take k xs = take (min k (length xs)) (xs @ ys)" for k by (simp add: min_def)
  then show "fits_along xs ps" using assms unfolding fits_along_def by metis
qed

definition good_events :: "event_envelope list \<Rightarrow> bool" where
  "good_events evs \<longleftrightarrow> (\<forall>e\<in>set evs. good_event D J e \<and> v_key V (cursor_from_event e) \<and> payload e \<noteq> RawMalformed)"

lemma flush_succeeds:
  assumes ok: "v_ok V w" and good: "good_events okb" and fits: "fits_along okb ps0"
    and l: "run_log D J (all_applied okb) ps0 = Some (positions_at (pw_agg pw) (pw_pid_str pw))"
  shows "fst (flush_apply_batch D R okb (pw, w)) = Inr ()"
proof (cases "okb = []")
  case False
  obtain ss where ss: "touched_symbols D J okb = Inr ss" using all_applied_touched [OF l] by blast
  have "positions_at (pw_agg pw) (pw_pid_str pw) = replay D J okb ps0"
    using run_log_replay [OF l] by simp
  then have "lot_fits val (lot_of D (positions_at (pw_agg pw) (pw_pid_str pw)) s)" for s
    using fits unfolding fits_along_def by (metis take_all order_refl)
  moreover have "\<forall>s\<in>set ss. is_valid_symbol s"
    using touched_symbols_valid [OF ss] good by (auto simp: good_events_def)
  ultimately have "fst (rp_apply_batch R (pw_pid pw) (pw_pid_str pw) okb (pw_agg pw) w) = Inr ()"
    by (intro batch_ok [OF ok ss]) auto
  then show ?thesis using False
    by (cases "rp_apply_batch R (pw_pid pw) (pw_pid_str pw) okb (pw_agg pw) w")
      (auto simp: flush_apply_batch_def Let_def)
qed (simp add: flush_apply_batch_def)

lemma dead_letter_succeeds:
  assumes "v_ok V w" and "payload ev \<noteq> RawMalformed"
  shows "fst (dead_letter R ev reason cause (pw, w)) = Inr ()"
  using dlq_ok [OF assms, of "pw_pid pw" "pw_pid_str pw" reason cause]
  by (cases "rp_persist_apply_dlq R (pw_pid pw) (pw_pid_str pw) ev reason cause w")
    (auto simp: dead_letter_def andthen_def on_world_def change_def)

lemma apply_eligible_succeeds:
  assumes "v_ok V w" and "pw_max_event_age pw \<le> 0" and "good_events (okb @ evs)"
    and "positions_wf val ps0" and "fits_along (okb @ evs) ps0"
    and "run_log D J (all_applied okb) ps0 = Some (positions_at (pw_agg pw) (pw_pid_str pw))"
  shows "fst (apply_eligible D J R okb evs (pw, w)) = Inr ()"
  using assms
proof (induction evs arbitrary: okb pw w ps0)
  case Nil
  then show ?case using flush_succeeds [of w okb ps0 pw] by simp
next
  case (Cons ev evs)
  let ?ps = "positions_at (pw_agg pw) (pw_pid_str pw)"
  have st: "event_too_stale_for_apply R ev (pw_max_event_age pw) w = (False, w)"
    using Cons.prems(2) by (simp add: event_too_stale_for_apply_def)
  have gev: "good_event D J ev" "v_key V (cursor_from_event ev)" "payload ev \<noteq> RawMalformed"
    and gok: "good_events okb" "good_events evs" "good_events ((okb @ [ev]) @ evs)"
    using Cons.prems(3) by (auto simp: good_events_def)
  have ps: "?ps = replay D J okb ps0" using run_log_replay [OF Cons.prems(6)] by simp
  have wf: "positions_wf val ?ps"
    using run_log_wf [OF Cons.prems(6) Cons.prems(4)] gok(1) by (auto simp: good_events_def)
  obtain ra agg where a: "apply_event D J (pw_agg pw) (pw_pid_str pw) ev = (ra, agg)" by (rule prod.exhaust)
  show ?case
  proof (cases ra)
    case (Inr u)
    then have "event_effect D J ev ?ps = Inr (positions_at agg (pw_pid_str pw))"
      using apply_event_result(1) a by auto
    then have "run_log D J (all_applied (okb @ [ev])) ps0 = Some (positions_at agg (pw_pid_str pw))"
      using Cons.prems(6) by (simp add: run_log_append)
    then have "fst (apply_eligible D J R (okb @ [ev]) evs (pw\<lparr>pw_agg := agg\<rparr>, w)) = Inr ()"
      using Cons.prems gok by (intro Cons.IH [of _ _ _ ps0]) auto
    then show ?thesis using a st Inr by simp
  next
    case (Inl e)
    then have ee: "event_effect D J ev ?ps = Inl e" "positions_at agg (pw_pid_str pw) = ?ps"
      using apply_event_result(2) [OF a [unfolded Inl]] by simp_all
    then have e: "e = EPositionUnderflow" using good_event_effect [OF gev(1) wf] by auto
    let ?pw = "pw\<lparr>pw_agg := agg\<rparr>"
    have fits: "fits_along okb ps0" "fits_along (ev # evs) ?ps"
      using fits_along_append [OF Cons.prems(5)] ps by simp_all
    obtain s1 where f: "flush_apply_batch D R okb (?pw, w) = (Inr (), s1)"
      using flush_succeeds [OF Cons.prems(1) gok(1) fits(1), of ?pw] Cons.prems(6) ee(2)
      by (cases "flush_apply_batch D R okb (?pw, w)") auto
    have kb: "okb = [] \<or> v_key V (cursor_from_event (last okb))" using gok(1) by (metis good_events_def last_in_set)
    note ff = flush_frame [OF kb f]
    obtain p1 u1 where s1: "s1 = (p1, u1)" by (cases s1)
    have ok1: "v_ok V u1" using ff worker_frameD(7) [of "(?pw, w)" s1] Cons.prems(1) s1 by simp
    obtain s2 where d: "dead_letter R ev ''POSITION_UNDERFLOW'' e s1 = (Inr (), s2)"
      using dead_letter_succeeds [OF ok1 gev(3), of "''POSITION_UNDERFLOW''" e p1] s1
      by (cases "dead_letter R ev ''POSITION_UNDERFLOW'' e s1") auto
    obtain p2 u2 where s2: "s2 = (p2, u2)" by (cases s2)
    have fd: "worker_frame s1 s2" "pw_agg p2 = agg"
      using dead_letter_frame [OF gev(2)] d s1 s2 ff by auto
    have fr: "worker_frame (?pw, w) s2" using ff fd(1) worker_frame_trans by blast
    have "fits_along evs ?ps" using fits_along_append(1) [of "[ev]" evs ?ps] fits(2) ee(1) by simp
    then have "fst (apply_eligible D J R [] evs (p2, u2)) = Inr ()"
      using worker_frameD [OF fr] s2 Cons.prems(1,2) gok(2) wf fd(2) ee(2)
      by (intro Cons.IH [of _ _ _ ?ps]) auto
    then show ?thesis using a st Inl e f d s2 by (simp add: andthen_def)
  qed
qed

lemma page_succeeds:
  assumes "in_sync (pw, w)" and "v_ok V w" and "pw_max_event_age pw \<le> 0"
    and "\<forall>e\<in>set (left (pw, w)). good_event D J e" and "positions_wf val (positions_at (pw_agg pw) (pw_pid_str pw))"
    and "fits_along (left (pw, w)) (positions_at (pw_agg pw) (pw_pid_str pw))" and "same_views V w w1"
  shows "fst (apply_eligible D J R [] (take n (left (pw, w))) (pw, w1)) = Inr ()"
proof (rule apply_eligible_succeeds)
  have "good_events (left (pw, w))"
    using left_facts(3,4) [of "(pw, w)"] in_sync_key [OF assms(1)] assms(4) by (simp add: good_events_def)
  then show "good_events ([] @ take n (left (pw, w)))" by (auto simp: good_events_def dest: in_set_takeD)
  show "v_ok V w1" using same_viewsD(6) [OF assms(7,2)] .
  show "fits_along ([] @ take n (left (pw, w))) (positions_at (pw_agg pw) (pw_pid_str pw))"
    using fits_along_append(2) [of "take n (left (pw, w))" "drop n (left (pw, w))"] assms(6) by simp
qed (use assms in simp_all)

lemma pump_succeeds:
  assumes "in_sync (pw, w)" and "v_ok V w" and "pw_max_event_age pw \<le> 0"
    and "\<forall>e\<in>set (left (pw, w)). good_event D J e" and "positions_wf val (positions_at (pw_agg pw) (pw_pid_str pw))"
    and "fits_along (left (pw, w)) (positions_at (pw_agg pw) (pw_pid_str pw))"
  shows "\<exists>s'. pump_after_cursor D J R (pw, w) = Some (Inr (), s')"
  using assms
proof (induction "length (left (pw, w))" arbitrary: pw w rule: less_induct)
  case less
  let ?ps = "positions_at (pw_agg pw) (pw_pid_str pw)" and ?E = "left (pw, w)"
  have ik: "v_inv V w" "v_key V (pw_cur pw)" using in_sync_key [OF less.prems(1)] by simp_all
  from ik show ?case
  proof (cases rule: pump_step)
    case (idle r w1)
    then show ?thesis using less.prems(2) by auto
  next
    case (final n r w1 s')
    then show ?thesis using page_succeeds [OF less.prems final(2), of n] by simp
  next
    case (more n w1 s1)
    obtain p1 u1 where s1: "s1 = (p1, u1)" by (cases s1)
    note pa = page_applied [OF ik(1) more(2,4,3)]
    note fr = worker_frameD [OF pa(1)]
    obtain l rest ps' where l: "take n ?E = map fst l @ rest"
      "logged w (snd s1) (pw_pid pw) (pw_cur pw) ?ps l ps'"
      "rest = [] \<and> positions_at (pw_agg (fst s1)) (pw_pid_str pw) = ps'"
      "pw_max_event_age pw \<le> 0 \<Longrightarrow> no_stale l"
      by (rule page_logged [OF less.prems(1) more(2,3)]) auto
    have rl: "run_log D J l ?ps = Some ps'" using l(2) by (simp add: logged_def)
    have ps': "ps' = replay D J (take n ?E) ?ps"
      using run_log_replay [OF rl] l(1,3,4) less.prems(3) by simp
    have lset: "\<forall>p\<in>set l. good_event D J (fst p)"
      using l(1,3) less.prems(4) by (metis append_Nil2 image_eqI in_set_takeD set_map)
    have cur: "pw_cur p1 = log_cursor (pw_cur pw) l"
      using pa(4) l(1,3) more(4) s1 by (auto simp: log_cursor_def last_map)
    have sync: "in_sync (p1, u1)" using l(2,3) cur fr ik(1) s1 by (simp add: in_sync_def logged_def)
    have L: "left (p1, u1) = drop n ?E" using pa(2) s1 by simp
    have "\<exists>s'. pump_after_cursor D J R (p1, u1) = Some (Inr (), s')"
    proof (rule less.hyps [OF _ sync])
      show "length (left (p1, u1)) < length ?E" using L more(4) by auto
      show "v_ok V u1" "pw_max_event_age p1 \<le> 0" using fr less.prems(2,3) s1 by simp_all
      show "\<forall>e\<in>set (left (p1, u1)). good_event D J e"
        using L less.prems(4) by (auto dest: in_set_dropD)
      have agg: "positions_at (pw_agg p1) (pw_pid_str p1) = ps'" using l(3) fr s1 by simp
      then show "positions_wf val (positions_at (pw_agg p1) (pw_pid_str p1))"
        using run_log_wf [OF rl less.prems(5) lset] by simp
      show "fits_along (left (p1, u1)) (positions_at (pw_agg p1) (pw_pid_str p1))"
        using fits_along_append(1) [of "take n ?E" "drop n ?E" ?ps] less.prems(6) L agg ps' by simp
    qed
    then show ?thesis using more(1) s1 by simp
  qed
qed

end

end
