(* ===== verification/Price_Worker.thy ===== *)
theory Price_Worker
  imports Trade_Pump
begin

text \<open>
  \<^verbatim>\<open>internal/events/price_worker_pool.go\<close>, the partition worker: the same loop as the trade
  worker over a synthetic price partition, without an aggregate. Events of another type are
  passed over, a payload that does not decode is put aside. The set of symbols of a batch is a
  list without repetitions; the order of the Go map only decides the order in which portfolios
  are handed to the scheduler.
\<close>

record price_partition_worker =
  pp_watermark :: duration
  pp_max_event_age :: duration
  pp_pid :: uuid
  pp_pid_str :: string
  pp_cur :: cursor
  pp_risk_scheduler :: bool

definition new_price_partition_worker :: "uuid_api \<Rightarrow> duration \<Rightarrow> duration \<Rightarrow> uuid \<Rightarrow> price_partition_worker" where
  "new_price_partition_worker U watermark max_event_age pid =
     \<lparr>pp_watermark = watermark, pp_max_event_age = max_event_age, pp_pid = pid,
      pp_pid_str = uuid_str U pid, pp_cur = zero_cursor, pp_risk_scheduler = False\<rparr>"

definition schedule_risk_for_symbols ::
  "('d, 'w) repo \<Rightarrow> string list \<Rightarrow> (price_partition_worker \<times> 'w, unit) prog" where
  "schedule_risk_for_symbols R symbols s =
     (if \<not> pp_risk_scheduler (fst s) \<or> symbols = [] then (Inr (), s)
      else case rp_list_portfolio_ids_by_open_symbols R symbols (snd s) of
          (Inl e, w') \<Rightarrow> (Inl e, (fst s, w'))
        | (Inr pids, w') \<Rightarrow> (Inr (), (fst s, fold (rp_schedule R) pids w')))"

text \<open>
  The three places that commit a batch. A failure of the scheduling is only logged.
\<close>

definition flush_price_batch ::
  "('d, 'w) repo \<Rightarrow> event_envelope list \<Rightarrow> string list \<Rightarrow> (price_partition_worker \<times> 'w, unit) prog" where
  "flush_price_batch R ok_batch symbols s =
     (if ok_batch = [] then (Inr (), s)
      else case rp_apply_price_batch R (pp_pid (fst s)) ok_batch (snd s) of
          (Inl e, w') \<Rightarrow> (Inl e, (fst s, w'))
        | (Inr u, w') \<Rightarrow> (case schedule_risk_for_symbols R symbols (fst s, w') of
            (r, s') \<Rightarrow> (Inr (), ((fst s')\<lparr>pp_cur := cursor_from_event (last ok_batch)\<rparr>, snd s'))))"

definition price_dead_letter ::
  "('d, 'w) repo \<Rightarrow> event_envelope \<Rightarrow> string \<Rightarrow> err \<Rightarrow> (price_partition_worker \<times> 'w, unit) prog" where
  "price_dead_letter R ev reason cause =
     andthen (\<lambda>s. on_world (rp_persist_apply_dlq R (pp_pid (fst s)) (pp_pid_str (fst s)) ev reason cause) s)
       (\<lambda>_. change (\<lambda>pw. pw\<lparr>pp_cur := cursor_from_event ev\<rparr>))"

fun apply_price_eligible ::
  "'d decimal_api \<Rightarrow> 'd json_api \<Rightarrow> ('d, 'w) repo \<Rightarrow> event_envelope list \<Rightarrow> string list \<Rightarrow> event_envelope list \<Rightarrow>
   (price_partition_worker \<times> 'w, unit) prog" where
  "apply_price_eligible D J R ok_batch symbols [] = flush_price_batch R ok_batch symbols"
| "apply_price_eligible D J R ok_batch symbols (ev # evs) = (\<lambda>s.
     (case event_too_stale_for_apply R ev (pp_max_event_age (fst s)) (snd s) of (stale, w1) \<Rightarrow>
       if stale then
         andthen (flush_price_batch R ok_batch symbols) (\<lambda>_.
           andthen (price_dead_letter R ev ''EVENT_TOO_STALE'' (EOther ''event_time too far behind apply time'')) (\<lambda>_.
             apply_price_eligible D J R [] [] evs)) (fst s, w1)
       else if event_type ev \<noteq> event_type_price_updated then
         apply_price_eligible D J R ok_batch symbols evs (fst s, w1)
       else
         (case decode_price D J (payload ev) of
            None \<Rightarrow>
              andthen (flush_price_batch R ok_batch symbols) (\<lambda>_.
                andthen (price_dead_letter R ev ''BAD_PRICE_PAYLOAD'' (EOther ''json'')) (\<lambda>_.
                  apply_price_eligible D J R [] [] evs)) (fst s, w1)
          | Some p \<Rightarrow>
              apply_price_eligible D J R (ok_batch @ [ev]) (List.insert (p_symbol p) symbols) evs (fst s, w1))))"

partial_function (option) price_pump_after_cursor ::
  "'d decimal_api \<Rightarrow> 'd json_api \<Rightarrow> ('d, 'w) repo \<Rightarrow> price_partition_worker \<times> 'w \<Rightarrow>
   (unit res \<times> price_partition_worker \<times> 'w) option" where
  "price_pump_after_cursor D J R s =
     (case rp_max_event_time R (pp_pid (fst s)) (snd s) of
        (Inl e, w1) \<Rightarrow> Some (Inl e, (fst s, w1))
      | (Inr max_t, w1) \<Rightarrow>
        (case rp_fetch_after R (pp_pid (fst s)) (pp_cur (fst s)) fetch_after_page_limit w1 of
          (Inl e, w2) \<Rightarrow> Some (Inl e, (fst s, w2))
        | (Inr batch, w2) \<Rightarrow>
          (let eligible = eligible_batch_after_watermark batch (max_t - pp_watermark (fst s))
                 (pp_watermark (fst s)) fetch_after_page_limit
           in if batch = [] then Some (Inr (), (fst s, w2))
              else if eligible = [] then Some (Inr (), (fst s, w2))
              else case apply_price_eligible D J R [] [] eligible (fst s, w2) of
                  (Inl e, s') \<Rightarrow> Some (Inl e, s')
                | (Inr u, s') \<Rightarrow>
                  (if length eligible < length batch \<or> int (length batch) < fetch_after_page_limit
                   then Some (Inr (), s')
                   else price_pump_after_cursor D J R s'))))"

definition price_rebuild ::
  "'d decimal_api \<Rightarrow> 'd json_api \<Rightarrow> ('d, 'w) repo \<Rightarrow> price_partition_worker \<times> 'w \<Rightarrow>
   (unit res \<times> price_partition_worker \<times> 'w) option" where
  "price_rebuild D J R s =
     (case rp_load_projection_cursor R (pp_pid (fst s)) (snd s) of
        (Inl e, w1) \<Rightarrow> Some (Inl e, (fst s, w1))
      | (Inr cur, w1) \<Rightarrow>
        (if cursor_is_zero cur then
           (case rp_fetch_all_for_portfolio R (pp_pid (fst s)) w1 of
              (Inl e, w2) \<Rightarrow> Some (Inl e, ((fst s)\<lparr>pp_cur := zero_cursor\<rparr>, w2))
            | (Inr evs, w2) \<Rightarrow>
                Some (apply_price_eligible D J R [] [] evs ((fst s)\<lparr>pp_cur := zero_cursor\<rparr>, w2)))
         else price_pump_after_cursor D J R ((fst s)\<lparr>pp_cur := cur\<rparr>, w1)))"

section \<open>The contract for prices\<close>

text \<open>
  The price marks: for each symbol the price rounded to the column and the key of the event it
  came from. \<open>mark_event\<close> is what one event does to them.
\<close>

type_synonym marks = "string \<Rightarrow> (rat \<times> cursor) option"

definition mark_event ::
  "'d decimal_api \<Rightarrow> 'd json_api \<Rightarrow> ('d \<Rightarrow> rat) \<Rightarrow> event_envelope \<Rightarrow> marks \<Rightarrow> marks" where
  "mark_event D J val ev m =
     (if event_type ev \<noteq> event_type_price_updated then m
      else case decode_price D J (payload ev) of
        None \<Rightarrow> m
      | Some p \<Rightarrow> m(p_symbol p := Some (round_away 8 (val (p_price p)), cursor_from_event ev)))"

definition bad_price :: "'d decimal_api \<Rightarrow> 'd json_api \<Rightarrow> event_envelope \<Rightarrow> bool" where
  "bad_price D J ev \<longleftrightarrow> decode_price D J (payload ev) = None"

locale price_repository = event_repository D val J R V
  for D :: "'d decimal_api" and val :: "'d \<Rightarrow> rat" and J :: "'d json_api"
    and R :: "('d, 'w) repo" and V :: "'w views" +
  fixes marks :: "'w \<Rightarrow> marks"
  assumes marks_same: "marks (snd (rp_max_event_time R pid w)) = marks w"
      "marks (snd (rp_fetch_after R pid c n w)) = marks w" "marks (snd (rp_now R w)) = marks w"
      "marks (rp_schedule R pid w) = marks w"
      "marks (snd (rp_persist_apply_dlq R pid key ev reason cause w)) = marks w"
      "marks (snd (rp_list_portfolio_ids_by_open_symbols R ss w)) = marks w"
    and open_symbols_same: "same_views V w (snd (rp_list_portfolio_ids_by_open_symbols R ss w))"
    and price_write: "evs \<noteq> [] \<Longrightarrow> \<forall>ev\<in>set evs. v_key V (cursor_from_event ev) \<Longrightarrow>
      w' = snd (rp_apply_price_batch R pid evs w) \<Longrightarrow>
      partition_write V pid w w' \<and> v_dead V w' = v_dead V w"
    and price_commit: "evs \<noteq> [] \<Longrightarrow> \<forall>ev\<in>set evs. v_key V (cursor_from_event ev) \<Longrightarrow>
      w' = snd (rp_apply_price_batch R pid evs w) \<Longrightarrow>
      v_cursor V w' pid = cursor_from_event (last evs) \<and> marks w' = fold (mark_event D J val) evs (marks w) \<or>
      (\<exists>e. fst (rp_apply_price_batch R pid evs w) = Inl e) \<and>
      v_cursor V w' pid = v_cursor V w pid \<and> marks w' = marks w"
begin

section \<open>Frames\<close>

definition price_frame :: "price_partition_worker \<times> 'w \<Rightarrow> price_partition_worker \<times> 'w \<Rightarrow> bool" where
  "price_frame s s' \<longleftrightarrow> (\<exists>c. fst s' = (fst s)\<lparr>pp_cur := c\<rparr>) \<and> partition_write V (pp_pid (fst s)) (snd s) (snd s')"

lemma price_frame_trans: "price_frame s s' \<Longrightarrow> price_frame s' s'' \<Longrightarrow> price_frame s s''"
  unfolding price_frame_def using partition_write_trans by fastforce

lemma price_frameD:
  assumes "price_frame s s'"
  shows "pp_pid (fst s') = pp_pid (fst s)" "pp_pid_str (fst s') = pp_pid_str (fst s)"
    "pp_max_event_age (fst s') = pp_max_event_age (fst s)" "pp_watermark (fst s') = pp_watermark (fst s)"
    "v_stream V (snd s') = v_stream V (snd s)" "v_inv V (snd s) \<Longrightarrow> v_inv V (snd s')"
  using assms by (auto simp: price_frame_def partition_write_def)

lemma price_frame_same: "same_views V w w' \<Longrightarrow> price_frame (pw, w) (pw, w')"
  by (auto simp: price_frame_def partition_write_same intro: exI [of _ "pp_cur pw"])

lemma fold_schedule_same: "same_views V w (fold (rp_schedule R) pids w) \<and> marks (fold (rp_schedule R) pids w) = marks w"
proof (induction pids arbitrary: w)
  case (Cons p pids)
  have "same_views V w (rp_schedule R p w)" by (rule schedule_same)
  then show ?case using Cons [of "rp_schedule R p w"] marks_same(4) by (auto intro: same_views_trans)
qed simp

lemma schedule_symbols_frame:
  assumes "schedule_risk_for_symbols R symbols (pw, w) = (r, s')"
  shows "fst s' = pw \<and> same_views V w (snd s') \<and> marks (snd s') = marks w"
  using assms open_symbols_same [of w symbols] marks_same(6) [of symbols w] fold_schedule_same
  by (auto simp: schedule_risk_for_symbols_def split: if_splits prod.splits sum.splits intro: same_views_trans)

lemma price_stale_same:
  "same_views V w (snd (event_too_stale_for_apply R ev a w)) \<and> marks (snd (event_too_stale_for_apply R ev a w)) = marks w"
  using now_same [of w] marks_same(3) [of w] by (auto simp: event_too_stale_for_apply_def split: prod.splits)

text \<open>A committed or a failed batch, and a committed or a failed dead letter.\<close>

lemma flush_price_cases:
  assumes "evs \<noteq> []" and k: "\<forall>ev\<in>set evs. v_key V (cursor_from_event ev)"
    and run: "flush_price_batch R evs symbols (pw, w) = (r, s')"
  shows "price_frame (pw, w) s' \<and> v_dead V (snd s') = v_dead V w \<and>
    (v_cursor V (snd s') (pp_pid pw) = cursor_from_event (last evs) \<and>
       marks (snd s') = fold (mark_event D J val) evs (marks w) \<and>
       (r = Inr () \<longrightarrow> pp_cur (fst s') = cursor_from_event (last evs)) \<or>
     (\<exists>e. r = Inl e) \<and> v_cursor V (snd s') (pp_pid pw) = v_cursor V w (pp_pid pw) \<and> marks (snd s') = marks w)"
proof -
  obtain rb w1 where b: "rp_apply_price_batch R (pp_pid pw) evs w = (rb, w1)" by (rule prod.exhaust)
  then have w1: "w1 = snd (rp_apply_price_batch R (pp_pid pw) evs w)" by simp
  note pw1 = price_write [OF assms(1) k w1] and pc1 = price_commit [OF assms(1) k w1]
  show ?thesis
  proof (cases rb)
    case (Inl e)
    then have "r = Inl e" "s' = (pw, w1)" using run b assms(1) by (auto simp: flush_price_batch_def)
    then show ?thesis using pw1 pc1 by (auto simp: price_frame_def intro: exI [of _ "pp_cur pw"])
  next
    case (Inr u)
    obtain rs s1 where s1: "schedule_risk_for_symbols R symbols (pw, w1) = (rs, s1)" by (rule prod.exhaust)
    have r: "r = Inr ()" "s' = (pw\<lparr>pp_cur := cursor_from_event (last evs)\<rparr>, snd s1)"
      using run b Inr assms(1) s1 schedule_symbols_frame [OF s1] by (auto simp: flush_price_batch_def)
    have v: "same_views V w1 (snd s1)" "marks (snd s1) = marks w1"
      using schedule_symbols_frame [OF s1] by simp_all
    have "partition_write V (pp_pid pw) w (snd s1)"
      using pw1 v(1) partition_write_same partition_write_trans by blast
    then show ?thesis using r v pc1 pw1 b Inr by (auto simp: price_frame_def same_viewsD)
  qed
qed

lemma price_dead_letter_cases:
  assumes k: "v_key V (cursor_from_event ev)"
    and run: "price_dead_letter R ev reason cause (pw, w) = (r, s')"
  shows "price_frame (pw, w) s' \<and> marks (snd s') = marks w \<and>
    (v_cursor V (snd s') (pp_pid pw) = cursor_from_event ev \<and>
       v_dead V (snd s') = v_dead V w @ [(pp_pid pw, ev)] \<and>
       (r = Inr () \<longrightarrow> pp_cur (fst s') = cursor_from_event ev) \<or>
     (\<exists>e. r = Inl e) \<and> v_cursor V (snd s') (pp_pid pw) = v_cursor V w (pp_pid pw) \<and> v_dead V (snd s') = v_dead V w)"
proof -
  obtain rd w1 where d: "rp_persist_apply_dlq R (pp_pid pw) (pp_pid_str pw) ev reason cause w = (rd, w1)"
    by (rule prod.exhaust)
  then have w1: "w1 = snd (rp_persist_apply_dlq R (pp_pid pw) (pp_pid_str pw) ev reason cause w)" by simp
  have m: "marks w1 = marks w" using marks_same(5) w1 by simp
  have s': "snd s' = w1" "fst s' = (case rd of Inl e \<Rightarrow> pw | Inr u \<Rightarrow> pw\<lparr>pp_cur := cursor_from_event ev\<rparr>)"
    "r = rd"
    using run d by (auto simp: price_dead_letter_def andthen_def on_world_def change_def split: sum.splits)
  have "price_frame (pw, w) s'"
    using dlq_write [OF k w1] s' by (cases rd) (auto simp: price_frame_def intro: exI [of _ "pp_cur pw"])
  then show ?thesis using dlq_commit [OF k w1] s' m d by auto
qed

end

end
