(* ===== verification/Price_Worker_Laws.thy ===== *)
theory Price_Worker_Laws
  imports Price_Worker
begin

text \<open>
  What the price worker does, for every store that keeps the contract \<open>price_repository\<close>, with
  the age limit switched off and price events only in the partition: at every return the price
  marks are those of a prefix of the events, later events over earlier ones; a call without an
  error has gone through all of them. The pump terminates.
\<close>

context price_repository begin

abbreviation mark_all :: "event_envelope list \<Rightarrow> marks \<Rightarrow> marks" where
  "mark_all \<equiv> fold (mark_event D J val)"

lemma mark_all_bad [simp]: "bad_price D J ev \<Longrightarrow> mark_event D J val ev m = m"
  by (simp add: mark_event_def bad_price_def)

definition price_result ::
  "price_partition_worker \<Rightarrow> 'w \<Rightarrow> event_envelope list \<Rightarrow> unit res \<Rightarrow> price_partition_worker \<times> 'w \<Rightarrow> bool" where
  "price_result pw w evs r s' \<longleftrightarrow> price_frame (pw, w) s' \<and> (\<exists>pre rest. evs = pre @ rest \<and>
     marks (snd s') = mark_all pre (marks w) \<and>
     v_dead V (snd s') = v_dead V w @ map (Pair (pp_pid pw)) (filter (bad_price D J) pre) \<and>
     v_cursor V (snd s') (pp_pid pw) = (if pre = [] then v_cursor V w (pp_pid pw) else cursor_from_event (last pre)) \<and>
     (r = Inr () \<longrightarrow> rest = [] \<and> pp_cur (fst s') = (if pre = [] then pp_cur pw else cursor_from_event (last pre))))"

lemma price_resultI:
  assumes "price_frame (pw, w) s'" and "evs = pre @ rest" and "marks (snd s') = mark_all pre (marks w)"
    and "v_dead V (snd s') = v_dead V w @ map (Pair (pp_pid pw)) (filter (bad_price D J) pre)"
    and "v_cursor V (snd s') (pp_pid pw) = (if pre = [] then v_cursor V w (pp_pid pw) else cursor_from_event (last pre))"
    and "r = Inr () \<Longrightarrow> rest = [] \<and> pp_cur (fst s') = (if pre = [] then pp_cur pw else cursor_from_event (last pre))"
  shows "price_result pw w evs r s'"
  using assms unfolding price_result_def by blast

lemma price_result_append:
  assumes "price_result pw w xs (Inr ()) (pw1, w1)" and "price_result pw1 w1 ys r s'"
  shows "price_result pw w (xs @ ys) r s'"
proof -
  have x: "price_frame (pw, w) (pw1, w1)" "marks w1 = mark_all xs (marks w)"
    "v_dead V w1 = v_dead V w @ map (Pair (pp_pid pw)) (filter (bad_price D J) xs)"
    "v_cursor V w1 (pp_pid pw) = (if xs = [] then v_cursor V w (pp_pid pw) else cursor_from_event (last xs))"
    "pp_cur pw1 = (if xs = [] then pp_cur pw else cursor_from_event (last xs))"
    using assms(1) unfolding price_result_def by auto
  have pid: "pp_pid pw1 = pp_pid pw" using price_frameD(1) [OF x(1)] by simp
  obtain pre rest where y: "price_frame (pw1, w1) s'" "ys = pre @ rest" "marks (snd s') = mark_all pre (marks w1)"
    "v_dead V (snd s') = v_dead V w1 @ map (Pair (pp_pid pw)) (filter (bad_price D J) pre)"
    "v_cursor V (snd s') (pp_pid pw) = (if pre = [] then v_cursor V w1 (pp_pid pw) else cursor_from_event (last pre))"
    "r = Inr () \<longrightarrow> rest = [] \<and> pp_cur (fst s') = (if pre = [] then pp_cur pw1 else cursor_from_event (last pre))"
    using assms(2) unfolding price_result_def pid by blast
  show ?thesis
    by (rule price_resultI [of _ _ _ _ "xs @ pre" rest])
      (use x y price_frame_trans [OF x(1) y(1)] in auto)
qed

lemma price_result_same:
  assumes "same_views V w w1" "marks w1 = marks w" "price_result pw w1 evs r s'"
  shows "price_result pw w evs r s'"
proof -
  have f: "price_frame (pw, w) (pw, w1)" by (rule price_frame_same [OF assms(1)])
  note v = same_viewsD(2,3) [OF assms(1)]
  have "price_frame (pw, w) s'" using price_frame_trans [OF f] assms(3) by (simp add: price_result_def)
  then show ?thesis using assms(3) unfolding price_result_def v assms(2) by blast
qed

lemma price_result_error:
  assumes "price_result pw w xs (Inl e) s'"
  shows "price_result pw w (xs @ ys) (Inl e) s'"
proof -
  obtain pre rest where p: "xs = pre @ rest" "marks (snd s') = mark_all pre (marks w)"
    "v_dead V (snd s') = v_dead V w @ map (Pair (pp_pid pw)) (filter (bad_price D J) pre)"
    "v_cursor V (snd s') (pp_pid pw) = (if pre = [] then v_cursor V w (pp_pid pw) else cursor_from_event (last pre))"
    and f: "price_frame (pw, w) s'"
    using assms unfolding price_result_def by blast
  show ?thesis by (rule price_resultI [OF f _ p(2-4), of _ "rest @ ys"]) (simp_all add: p(1))
qed

lemma flush_price_result:
  assumes k: "\<forall>ev\<in>set evs. v_key V (cursor_from_event ev) \<and> \<not> bad_price D J ev"
    and run: "flush_price_batch R evs symbols (pw, w) = (r, s')"
  shows "price_result pw w evs r s'"
proof (cases "evs = []")
  case True
  then show ?thesis using run price_frame_same [OF same_views_refl, of pw w]
    by (intro price_resultI [of _ _ _ _ "[]" "[]"]) (auto simp: flush_price_batch_def)
next
  case False
  have good: "filter (bad_price D J) evs = []" using k by (simp add: filter_empty_conv)
  have "\<forall>ev\<in>set evs. v_key V (cursor_from_event ev)" using k by simp
  from flush_price_cases [OF False this run]
  have c: "price_frame (pw, w) s'" "v_dead V (snd s') = v_dead V w"
    "v_cursor V (snd s') (pp_pid pw) = cursor_from_event (last evs) \<and> marks (snd s') = mark_all evs (marks w) \<and>
       (r = Inr () \<longrightarrow> pp_cur (fst s') = cursor_from_event (last evs)) \<or>
     (\<exists>e. r = Inl e) \<and> v_cursor V (snd s') (pp_pid pw) = v_cursor V w (pp_pid pw) \<and> marks (snd s') = marks w"
    by simp_all
  from c(3) show ?thesis
  proof (elim disjE conjE exE)
    assume "v_cursor V (snd s') (pp_pid pw) = cursor_from_event (last evs)"
      "marks (snd s') = mark_all evs (marks w)"
      "r = Inr () \<longrightarrow> pp_cur (fst s') = cursor_from_event (last evs)"
    then show ?thesis using c(1,2) good False by (intro price_resultI [of _ _ _ _ evs "[]"]) auto
  next
    fix e
    assume "r = Inl e" "v_cursor V (snd s') (pp_pid pw) = v_cursor V w (pp_pid pw)" "marks (snd s') = marks w"
    then show ?thesis using c(1,2) by (intro price_resultI [of _ _ _ _ "[]" evs]) auto
  qed
qed

lemma price_dead_letter_result:
  assumes "v_key V (cursor_from_event ev)" and "bad_price D J ev"
    and "price_dead_letter R ev reason cause (pw, w) = (r, s')"
  shows "price_result pw w [ev] r s'"
proof -
  have c: "price_frame (pw, w) s'" "marks (snd s') = marks w"
    "v_cursor V (snd s') (pp_pid pw) = cursor_from_event ev \<and> v_dead V (snd s') = v_dead V w @ [(pp_pid pw, ev)] \<and>
       (r = Inr () \<longrightarrow> pp_cur (fst s') = cursor_from_event ev) \<or>
     (\<exists>e. r = Inl e) \<and> v_cursor V (snd s') (pp_pid pw) = v_cursor V w (pp_pid pw) \<and> v_dead V (snd s') = v_dead V w"
    using price_dead_letter_cases [OF assms(1,3)] by simp_all
  from c(3) show ?thesis
  proof (elim disjE conjE exE)
    assume "v_cursor V (snd s') (pp_pid pw) = cursor_from_event ev"
      "v_dead V (snd s') = v_dead V w @ [(pp_pid pw, ev)]"
      "r = Inr () \<longrightarrow> pp_cur (fst s') = cursor_from_event ev"
    then show ?thesis using c(1,2) assms(2) by (intro price_resultI [of _ _ _ _ "[ev]" "[]"]) auto
  next
    fix e
    assume "r = Inl e" "v_cursor V (snd s') (pp_pid pw) = v_cursor V w (pp_pid pw)" "v_dead V (snd s') = v_dead V w"
    then show ?thesis using c(1,2) by (intro price_resultI [of _ _ _ _ "[]" "[ev]"]) auto
  qed
qed

lemma apply_price_eligible_result:
  assumes "pp_max_event_age pw \<le> 0"
    and "\<forall>ev\<in>set (okb @ evs). v_key V (cursor_from_event ev) \<and> event_type ev = event_type_price_updated"
    and "\<forall>ev\<in>set okb. \<not> bad_price D J ev"
    and "apply_price_eligible D J R okb symbols evs (pw, w) = (r, s')"
  shows "price_result pw w (okb @ evs) r s'"
  using assms
proof (induction evs arbitrary: okb symbols pw w)
  case Nil
  then show ?case using flush_price_result [of okb symbols pw w r s'] by simp
next
  case (Cons ev evs)
  have st: "event_too_stale_for_apply R ev (pp_max_event_age pw) w = (False, w)"
    using Cons.prems(1) by (simp add: event_too_stale_for_apply_def)
  have tp: "event_type ev = event_type_price_updated" and kev: "v_key V (cursor_from_event ev)"
    using Cons.prems(2) by auto
  show ?case
  proof (cases "decode_price D J (payload ev)")
    case (Some p)
    then have "price_result pw w ((okb @ [ev]) @ evs) r s'"
      using Cons.prems st tp by (intro Cons.IH) (auto simp: bad_price_def)
    then show ?thesis by simp
  next
    case None
    then have bad: "bad_price D J ev" by (simp add: bad_price_def)
    obtain r1 s1 where f: "flush_price_batch R okb symbols (pw, w) = (r1, s1)" by (rule prod.exhaust)
    have fr: "price_result pw w okb r1 s1"
      using Cons.prems(2,3) by (intro flush_price_result [OF _ f]) auto
    obtain pw1 w1 where s1: "s1 = (pw1, w1)" by (cases s1)
    obtain r2 s2 where d: "price_dead_letter R ev ''BAD_PRICE_PAYLOAD'' (EOther ''json'') s1 = (r2, s2)"
      by (rule prod.exhaust)
    have dr: "price_result pw1 w1 [ev] r2 s2" using price_dead_letter_result [OF kev bad] d s1 by simp
    obtain pw2 w2 where s2: "s2 = (pw2, w2)" by (cases s2)
    show ?thesis
    proof (cases r1)
      case (Inl e)
      then have "r = Inl e" "s' = s1" using Cons.prems(4) st tp None f by (simp_all add: andthen_def)
      then show ?thesis using price_result_error fr Inl by simp
    next
      case r1: (Inr u)
      then have od: "price_result pw w (okb @ [ev]) r2 s2" using price_result_append fr dr s1 by simp
      show ?thesis
      proof (cases r2)
        case (Inl e)
        then have "r = Inl e" "s' = s2" using Cons.prems(4) st tp None f d r1 by (simp_all add: andthen_def)
        then show ?thesis using price_result_error [of pw w "okb @ [ev]" e s2 evs] od Inl by simp
      next
        case (Inr u')
        then have run: "apply_price_eligible D J R [] [] evs (pw2, w2) = (r, s')"
          using Cons.prems(4) st tp None f d r1 s2 by (simp add: andthen_def)
        have "pp_max_event_age pw2 = pp_max_event_age pw"
          using od s2 price_frameD(3) by (auto simp: price_result_def)
        then have "price_result pw2 w2 ([] @ evs) r s'"
          using Cons.prems(1,2) run by (intro Cons.IH) auto
        then show ?thesis using price_result_append od Inr s2 by fastforce
      qed
    qed
  qed
qed

section \<open>The pump\<close>

abbreviation price_left :: "price_partition_worker \<times> 'w \<Rightarrow> event_envelope list" where
  "price_left s \<equiv> events_after (pp_cur (fst s)) (v_stream V (snd s) (pp_pid (fst s)))"

lemma price_left_facts:
  assumes "v_inv V w"
  shows "sorted_wrt (<) (map cursor_from_event (price_left (pw, w)))"
    and "set (price_left (pw, w)) \<subseteq> set (v_stream V w (pp_pid pw))"
    and "\<forall>e\<in>set (price_left (pw, w)). v_key V (cursor_from_event e) \<and> cursor_from_event e \<noteq> zero_cursor"
  using stream_sorted [OF assms] set_events_after stream_keys [OF assms]
  by (auto intro: events_after_sorted) blast+

lemma price_pump_step:
  assumes inv: "v_inv V w" and key: "v_key V (pp_cur pw)"
  obtains (idle) r w1 where "price_pump_after_cursor D J R (pw, w) = Some (r, (pw, w1))" "same_views V w w1"
      "marks w1 = marks w"
      "r = Inr () \<Longrightarrow> within_watermark (pp_watermark pw) (v_stream V w (pp_pid pw)) (price_left (pw, w))"
    | (final) n r w1 s' where "price_pump_after_cursor D J R (pw, w) = Some (r, s')" "same_views V w w1"
      "marks w1 = marks w"
      "apply_price_eligible D J R [] [] (take n (price_left (pw, w))) (pw, w1) = (r, s')"
      "r = Inr () \<Longrightarrow> within_watermark (pp_watermark pw) (v_stream V w (pp_pid pw)) (drop n (price_left (pw, w)))"
    | (more) n w1 s' where "price_pump_after_cursor D J R (pw, w) = price_pump_after_cursor D J R s'"
      "same_views V w w1" "marks w1 = marks w"
      "apply_price_eligible D J R [] [] (take n (price_left (pw, w))) (pw, w1) = (Inr (), s')"
      "take n (price_left (pw, w)) \<noteq> []"
proof -
  let ?E = "price_left (pw, w)" and ?S = "v_stream V w (pp_pid pw)"
  obtain rm w1 where m: "rp_max_event_time R (pp_pid pw) w = (rm, w1)" by (rule prod.exhaust)
  obtain rf w2 where f: "rp_fetch_after R (pp_pid pw) (pp_cur pw) fetch_after_page_limit w1 = (rf, w2)"
    by (rule prod.exhaust)
  have v1: "same_views V w w1" "marks w1 = marks w"
    using max_same [of w "pp_pid pw"] marks_same(1) [of "pp_pid pw" w] m by simp_all
  have v2: "same_views V w w2" "marks w2 = marks w"
    using same_views_trans [OF v1(1)] fetch_same [of w1 "pp_pid pw" "pp_cur pw" fetch_after_page_limit]
      marks_same(2) [of "pp_pid pw" "pp_cur pw" fetch_after_page_limit w1] f v1(2) by simp_all
  have inv1: "v_inv V w1" and S1: "v_stream V w1 (pp_pid pw) = ?S" using same_viewsD [OF v1(1)] inv by simp_all
  show thesis
  proof (cases rm)
    case (Inl e)
    then show thesis using m v1
      by (intro idle [of "Inl e" w1]) (auto simp: price_pump_after_cursor.simps)
  next
    case rm: (Inr t)
    show thesis
    proof (cases rf)
      case (Inl e)
      then show thesis using m rm f v2
        by (intro idle [of "Inl e" w2]) (auto simp: price_pump_after_cursor.simps)
    next
      case rf: (Inr batch)
      have page: "batch = take 200 ?E"
        using fetch [OF inv1 key, of fetch_after_page_limit "pp_pid pw" batch] f rf S1
        by (simp add: fetch_after_page_limit_def)
      define elig where "elig = eligible_batch_after_watermark batch (t - pp_watermark pw) (pp_watermark pw) 200"
      note unfold = price_pump_after_cursor.simps [of D J R "(pw, w)"] m rm rf elig_def [symmetric]
        fetch_after_page_limit_def f [unfolded fetch_after_page_limit_def]
      show thesis
      proof (cases "batch = []")
        case True
        then have "?E = []" using page by simp
        then show thesis using True v2
          by (intro idle [of "Inr ()" w2]) (auto simp: unfold within_watermark_def)
      next
        case False
        then have "?S \<noteq> []" using page set_events_after [of "pp_cur pw" ?S] by auto
        then have t: "t = Max (event_time ` set ?S)" using max_time [of "pp_pid pw" w t] m rm by simp
        have srt: "sorted (map event_time ?E)" and sub: "set ?E \<subseteq> set ?S"
          using cursor_sorted_times [OF price_left_facts(1) [OF inv, of pw]] price_left_facts(2) [OF inv, of pw] by simp_all
        note el = eligible_page [OF srt sub page elig_def [unfolded t]]
        show thesis
        proof (cases "elig = []")
          case True
          then have "within_watermark (pp_watermark pw) ?S ?E" using el(2) False by simp
          then show thesis using True False v2
            by (intro idle [of "Inr ()" w2]) (auto simp: unfold)
        next
          case ne: False
          obtain ra s' where a: "apply_price_eligible D J R [] [] elig (pw, w2) = (ra, s')" by (rule prod.exhaust)
          have at: "apply_price_eligible D J R [] [] (take (length elig) ?E) (pw, w2) = (ra, s')" using a el(1) by simp
          show thesis
          proof (cases "ra = Inr () \<and> \<not> (length elig < length batch \<or> length batch < 200)")
            case True
            then show thesis using at a ne False v2 el(1)
              by (intro more [of s' w2 "length elig"]) (auto simp: unfold)
          next
            case stop: False
            then have "price_pump_after_cursor D J R (pw, w) = Some (ra, s')"
              using a ne False by (auto simp: unfold split: sum.splits)
            then show thesis using at v2 el(2) stop
              by (intro final [of ra s' w2 "length elig"]) auto
          qed
        qed
      qed
    qed
  qed
qed

definition price_pump_result ::
  "price_partition_worker \<Rightarrow> 'w \<Rightarrow> unit res \<Rightarrow> price_partition_worker \<times> 'w \<Rightarrow> bool" where
  "price_pump_result pw w r s' \<longleftrightarrow> (\<exists>evs rest. price_left (pw, w) = evs @ rest \<and>
     price_result pw w evs r s' \<and>
     (r = Inr () \<longrightarrow> within_watermark (pp_watermark pw) (v_stream V w (pp_pid pw)) rest))"

lemma price_pump_logged:
  assumes "v_inv V w" and "v_key V (pp_cur pw)" and "pp_max_event_age pw \<le> 0"
    and "\<forall>ev\<in>set (v_stream V w (pp_pid pw)). event_type ev = event_type_price_updated"
  shows "\<exists>r s'. price_pump_after_cursor D J R (pw, w) = Some (r, s') \<and> price_pump_result pw w r s'"
  using assms
proof (induction "length (price_left (pw, w))" arbitrary: pw w rule: less_induct)
  case less
  let ?E = "price_left (pw, w)"
  have page: "price_result pw w (take n ?E) r s'"
    if "same_views V w w1" "marks w1 = marks w"
      "apply_price_eligible D J R [] [] (take n ?E) (pw, w1) = (r, s')" for n w1 r s'
    using apply_price_eligible_result [OF less.prems(3) _ _ that(3)] less.prems(4)
      price_left_facts(2,3) [OF less.prems(1), of pw]
    by (intro price_result_same [OF that(1,2)]) (auto dest!: in_set_takeD)
  from less.prems(1,2) show ?case
  proof (cases rule: price_pump_step)
    case (idle r w1)
    have "price_result pw w [] r (pw, w1)"
      using price_frame_same [OF idle(2)] idle(2,3) by (intro price_resultI [of _ _ _ _ "[]" "[]"]) (auto simp: same_viewsD)
    then show ?thesis using idle(1,4) unfolding price_pump_result_def by fastforce
  next
    case (final n r w1 s')
    then show ?thesis using page [OF final(2-4)] unfolding price_pump_result_def
      by (metis append_take_drop_id)
  next
    case (more n w1 s1)
    obtain pw1 u1 where s1: "s1 = (pw1, u1)" by (cases s1)
    have x: "price_result pw w (take n ?E) (Inr ()) (pw1, u1)" using page [OF more(2-4)] s1 by simp
    then have fr: "price_frame (pw, w) (pw1, u1)" by (simp add: price_result_def)
    note fd = price_frameD [OF fr, simplified]
    have cur: "pp_cur pw1 = cursor_from_event (last (take n ?E))"
      using x more(5) by (auto simp: price_result_def)
    have l: "last (take n ?E) \<in> set ?E" using more(5) by (metis in_set_takeD last_in_set)
    then have kz: "v_key V (pp_cur pw1)" "cursor_from_event (last (take n ?E)) \<noteq> zero_cursor"
      using price_left_facts(3) [OF less.prems(1), of pw] cur by auto
    have "events_after (cursor_from_event (last (take n ?E))) (v_stream V w (pp_pid pw)) = drop n ?E"
      using stream_sorted [OF less.prems(1)] more(5) kz(2) by (intro events_after_prefix) auto
    then have E1: "price_left (pw1, u1) = drop n ?E" using cur fd by simp
    have "length (price_left (pw1, u1)) < length ?E" using E1 more(5) by auto
    then obtain r s' where ih: "price_pump_after_cursor D J R (pw1, u1) = Some (r, s')"
      "price_pump_result pw1 u1 r s'"
      using less.hyps [of pw1 u1] kz(1) fd less.prems by auto
    then obtain evs rest where y: "drop n ?E = evs @ rest" "price_result pw1 u1 evs r s'"
      "r = Inr () \<longrightarrow> within_watermark (pp_watermark pw) (v_stream V w (pp_pid pw)) rest"
      using E1 fd unfolding price_pump_result_def by auto
    have "price_result pw w (take n ?E @ evs) r s'" by (rule price_result_append [OF x y(2)])
    moreover have "?E = (take n ?E @ evs) @ rest" using y(1) by (metis append_assoc append_take_drop_id)
    ultimately have "price_pump_result pw w r s'" using y(3) unfolding price_pump_result_def by blast
    then show ?thesis using more(1) ih(1) s1 by auto
  qed
qed

end

end
