(* ===== verification/Postgres_Prices.thy ===== *)
theory Postgres_Prices
  imports Postgres_Repository Price_Worker_Laws
begin

text \<open>
  \<^verbatim>\<open>PostgresStore\<close> keeps the contract of the price workers: the price transaction changes the
  marks, the daily returns and the cursor of its partition, and nothing else. The table of
  daily returns: at most 60 days per symbol, and no write touches another symbol.
\<close>

definition marks_at :: "db \<Rightarrow> marks" where
  "marks_at d s = map_option (\<lambda>r. (pc_price r, Cursor (pc_as_of r) (pc_as_of_event_id r))) (map_of (db_prices d) s)"

lemma trim_simps [simp]:
  "db_events (trim_symbol_returns_window s n d) = db_events d"
  "db_cursors (trim_symbol_returns_window s n d) = db_cursors d"
  "db_dlq (trim_symbol_returns_window s n d) = db_dlq d"
  "db_positions (trim_symbol_returns_window s n d) = db_positions d"
  "db_prices (trim_symbol_returns_window s n d) = db_prices d"
  by (simp_all add: trim_symbol_returns_window_def Let_def)

lemma upsert_return_frame:
  "upsert_symbol_return D P s close t eid d = Inr d' \<Longrightarrow>
    \<exists>x. d' = d\<lparr>db_returns := AList.update (s, event_utc_date t) x (db_returns d)\<rparr>"
  by (auto simp: upsert_symbol_return_def Let_def split: sum.splits)

lemma write_price_frame:
  assumes "write_price D J P now ev d = Inr d'"
  shows "keeps_events d d' \<and> book_at d' = book_at d"
proof -
  have "book_at d' = book_at d" if "db_positions d' = db_positions d"
    using that by (simp add: book_at_def fun_eq_iff)
  then show ?thesis using assms
    by (auto simp: write_price_def keeps_events_def split: if_splits option.splits sum.splits
        dest!: upsert_return_frame)
qed

lemma marks_at_keeps: "db_prices d' = db_prices d \<Longrightarrow> marks_at d' = marks_at d"
  by (simp add: marks_at_def fun_eq_iff)

context pg_laws begin

lemma write_price_marks:
  assumes "write_price D J P now ev d = Inr d'" and "pg_time P (event_time ev) = event_time ev"
  shows "marks_at d' = mark_event D J val ev (marks_at d)"
proof (cases "event_type ev = event_type_price_updated")
  case False
  then show ?thesis using assms by (simp add: write_price_def mark_event_def)
next
  case True
  then obtain p where p: "decode_price D J (payload ev) = Some p"
    using assms(1) by (auto simp: write_price_def split: option.splits)
  let ?row = "\<lambda>r. \<lparr>pc_price = r, pc_as_of = pg_time P (event_time ev), pc_updated_at = pg_time P now, pc_as_of_event_id = event_id ev\<rparr>"
  obtain r d1 where r: "numeric_param P 8 (d_string D (p_price p)) = Inr r"
    and d1: "upsert_symbol_return D P (p_symbol p) (p_price p) (event_time ev) (event_id ev)
      (d\<lparr>db_prices := AList.update (p_symbol p) (?row r) (db_prices d)\<rparr>) = Inr d1"
    and d': "d' = trim_symbol_returns_window (p_symbol p) symbol_returns_window_n d1"
    using assms(1) True p by (auto simp: write_price_def split: if_splits sum.splits)
  have "db_prices d' = AList.update (p_symbol p) (?row r) (db_prices d)"
    using upsert_return_frame [OF d1] d' by auto
  moreover have "r = round_away 8 (val (p_price p))"
    using r by (simp add: numeric_param_value split: if_splits)
  ultimately show ?thesis using True p assms(2)
    by (auto simp: marks_at_def mark_event_def fun_eq_iff update_conv' cursor_from_event_def)
qed

lemma write_prices:
  assumes "fold_res (write_price D J P now) evs d = Inr d'" and "\<forall>ev\<in>set evs. pg_time P (event_time ev) = event_time ev"
  shows "keeps_events d d' \<and> book_at d' = book_at d \<and> marks_at d' = fold (mark_event D J val) evs (marks_at d)"
  using assms
proof (induction evs arbitrary: d)
  case (Cons ev evs)
  then obtain d1 where d1: "write_price D J P now ev d = Inr d1" "fold_res (write_price D J P now) evs d1 = Inr d'"
    by (auto split: sum.splits)
  then show ?case
    using Cons.IH [OF d1(2)] Cons.prems(2) write_price_frame [OF d1(1)] write_price_marks [OF d1(1)]
    by (auto simp: keeps_events_def)
qed (simp add: keeps_events_def)

lemma apply_price_batch_law:
  fixes w :: world
  assumes "evs \<noteq> []" and k: "\<forall>ev\<in>set evs. pg_time P (cur_time (cursor_from_event ev)) = cur_time (cursor_from_event ev)"
    and w'_def: "w' = snd (apply_price_batch D J P pid evs w)"
  shows "partition_write (postgres_views U P) pid w w' \<and> dead_at (w_db w') = dead_at (w_db w) \<and>
    (cursor_at (w_db w') pid = cursor_from_event (last evs) \<and>
       marks_at (w_db w') = fold (mark_event D J val) evs (marks_at (w_db w)) \<or>
     (\<exists>e. fst (apply_price_batch D J P pid evs w) = Inl e) \<and>
       cursor_at (w_db w') pid = cursor_at (w_db w) pid \<and> marks_at (w_db w') = marks_at (w_db w))"
proof -
  define body where "body = (\<lambda>(now :: time) d. case fold_res (write_price D J P now) evs d of
     Inl e \<Rightarrow> Inl e | Inr d' \<Rightarrow> Inr ((), upsert_projection_cursor P pid (cursor_from_event (last evs)) d'))"
  have tx: "apply_price_batch D J P pid evs w = db_tx ''price batch'' body w"
    using assms(1) by (simp add: apply_price_batch_def body_def)
  have h: "healthy w \<longrightarrow> healthy w'" by (simp add: w'_def tx db_tx_healthy(1))
  have "w_db w' = w_db w \<and> (\<exists>e. fst (db_tx ''price batch'' body w) = Inl e) \<or>
      (\<exists>u t. body t (w_db w) = Inr (u, w_db w'))"
    using db_tx_db [of "''price batch''" body w] db_tx_result [of "''price batch''" body w]
    unfolding w'_def tx by (cases "fst (db_tx ''price batch'' body w)") auto
  then consider (same) "w_db w' = w_db w" "\<exists>e. fst (db_tx ''price batch'' body w) = Inl e"
    | (committed) u t where "body t (w_db w) = Inr (u, w_db w')"
    by blast
  then show ?thesis
  proof cases
    case same
    then show ?thesis using h unfolding tx by (simp add: partition_write_def)
  next
    case (committed u t)
    then obtain d1 where wr: "fold_res (write_price D J P t) evs (w_db w) = Inr d1"
      "w_db w' = upsert_projection_cursor P pid (cursor_from_event (last evs)) d1"
      by (auto simp: body_def split: sum.splits)
    have k1: "\<forall>ev\<in>set evs. pg_time P (event_time ev) = event_time ev" using k by (simp add: cursor_from_event_def)
    have kl: "pg_time P (cur_time (cursor_from_event (last evs))) = cur_time (cursor_from_event (last evs))"
      using k assms(1) by simp
    then have c: "Cursor (pg_time P (cur_time (cursor_from_event (last evs)))) (cur_id (cursor_from_event (last evs)))
        = cursor_from_event (last evs)" by simp
    note p = write_prices [OF wr(1) k1]
    then have pk: "keeps_events (w_db w) d1" by simp
    have "marks_at (w_db w') = marks_at d1"
      by (rule marks_at_keeps) (simp add: wr(2) upsert_projection_cursor_def)
    moreover have "book_at (w_db w') = book_at d1" by (simp add: wr(2) book_at_def fun_eq_iff)
    moreover have "stream_of U (w_db w') = stream_of U d1" "dead_at (w_db w') = dead_at d1"
      by (simp_all add: wr(2) stream_of_def partition_rows_def fun_eq_iff dead_at_def)
    moreover have "store_inv P (w_db w) \<longrightarrow> store_inv P (w_db w')"
      using store_inv_cursor [OF _ kl] store_inv_keeps [OF pk] wr(2) by simp
    moreover have "cursor_at (w_db w') q = (if q = pid then cursor_from_event (last evs) else cursor_at d1 q)" for q
      by (simp add: wr(2) c)
    ultimately show ?thesis
      using h p cursor_at_keeps [OF pk] by (simp add: partition_write_def)
  qed
qed

lemma marks_at_frame:
  "marks_at (w_db (snd (db_query what q w))) = marks_at (w_db w)"
  "marks_at (w_db (snd (fetch_after U P pid c n w))) = marks_at (w_db w)"
  "marks_at (w_db (snd (persist_apply_dlq P pid key ev reason cause w))) = marks_at (w_db w)"
proof -
  show "marks_at (w_db (snd (db_query what q w))) = marks_at (w_db w)" for what q
    by (simp add: store_simps)
  then show "marks_at (w_db (snd (fetch_after U P pid c n w))) = marks_at (w_db w)"
    by (simp add: fetch_after_def Let_def store_simps)
  define body where "body = (\<lambda>(now :: time) d. case insert_dlq ev pid reason cause d of
     Inl e \<Rightarrow> Inl e | Inr d' \<Rightarrow> Inr ((), upsert_projection_cursor P pid (cursor_from_event ev) d'))"
  have "db_prices d' = db_prices d" if "body t d = Inr (x, d')" for t d x d'
    using that by (auto simp: body_def insert_dlq_def upsert_projection_cursor_def split: if_splits)
  then have "db_prices (w_db (snd (db_tx ''persist dlq'' body w))) = db_prices (w_db w)"
    using db_tx_db [of "''persist dlq''" body w] by auto
  then show "marks_at (w_db (snd (persist_apply_dlq P pid key ev reason cause w))) = marks_at (w_db w)"
    by (intro marks_at_keeps) (simp add: persist_apply_dlq_def body_def)
qed

lemma price_store: "price_repository D val J (postgres_repo D J U P) (postgres_views U P) (\<lambda>w. marks_at (w_db w))"
proof -
  have e: "event_repository D val J (postgres_repo D J U P) (postgres_views U P)" by (rule repository)
  have o: "same_views (postgres_views U P) w (snd (list_portfolio_ids_by_open_symbols ss w)) \<and>
      marks_at (w_db (snd (list_portfolio_ids_by_open_symbols ss w))) = marks_at (w_db w)" for ss w
    by (simp add: list_portfolio_ids_by_open_symbols_def store_query_same marks_at_frame(1) ret_throw_same(1))
      (simp add: ret_def)
  show ?thesis
  proof (intro price_repository.intro [OF e] price_repository_axioms.intro, goal_cases)
    case (8 evs w' pid w)
    then show ?case using apply_price_batch_law [of evs w' J pid w U] by simp
  next
    case (9 evs w' pid w)
    then show ?case using apply_price_batch_law [of evs w' J pid w U] by simp
  qed (simp_all add: o marks_at_frame max_event_time_def)
qed

end

end
