(* ===== verification/Go_Strings.thy ===== *)
theory Go_Strings
  imports Domain_Model "HOL-Library.Sublist"
begin

text \<open>
  The string functions of Go's standard library that the code uses: \<^verbatim>\<open>strings.TrimSpace\<close>
  exactly, on the UTF-8 encodings of the Unicode white space characters, and
  \<^verbatim>\<open>strings.ToLower\<close>, \<^verbatim>\<open>strings.ToUpper\<close> on ASCII. The case tables for strings with other
  characters are the parameter \<open>case_api\<close>. Also the hash of \<^verbatim>\<open>hash/fnv\<close>.
\<close>

record case_api =
  uc_lower :: "string \<Rightarrow> string"
  uc_upper :: "string \<Rightarrow> string"

text \<open>An instance without other characters.\<close>

definition ref_case :: case_api where
  "ref_case = \<lparr>uc_lower = (\<lambda>s. s), uc_upper = (\<lambda>s. s)\<rparr>"

definition is_ascii :: "string \<Rightarrow> bool" where
  "is_ascii s \<longleftrightarrow> list_all (\<lambda>c. (of_char c :: nat) < 128) s"

definition ascii_lower :: "char \<Rightarrow> char" where
  "ascii_lower c = (let n = (of_char c :: nat) in if 65 \<le> n \<and> n \<le> 90 then char_of (n + 32) else c)"

definition to_lower :: "case_api \<Rightarrow> string \<Rightarrow> string" where
  "to_lower N s = (if is_ascii s then map ascii_lower s else uc_lower N s)"

definition to_upper :: "case_api \<Rightarrow> string \<Rightarrow> string" where
  "to_upper N s = (if is_ascii s then map ascii_upper s else uc_upper N s)"

text \<open>The white space of \<^verbatim>\<open>unicode.IsSpace\<close>, as byte sequences.\<close>

definition space_runes :: "string list" where
  "space_runes = map (map char_of) ([[9], [10], [11], [12], [13], [32], [194, 133], [194, 160], [225, 154, 128],
     [226, 128, 168], [226, 128, 169], [226, 128, 175], [226, 129, 159], [227, 128, 128 :: nat]] @
     map (\<lambda>i. [226, 128, i]) [128..<139])"

function trim_prefixes :: "string list \<Rightarrow> string \<Rightarrow> string" where
  "trim_prefixes rs s = (case find (\<lambda>r. r \<noteq> [] \<and> prefix r s) rs of
     None \<Rightarrow> s | Some r \<Rightarrow> trim_prefixes rs (drop (length r) s))"
  by auto
termination
proof (relation "measure (length \<circ> snd)")
  fix rs s r
  assume "find (\<lambda>r. r \<noteq> [] \<and> prefix r s) rs = Some (r :: string)"
  then have "r \<noteq> []" "prefix r s" by (auto simp: find_Some_iff)
  then have "r \<noteq> []" "length r \<le> length s" by (auto dest: prefix_length_le)
  then show "((rs, drop (length r) s), rs, s) \<in> measure (length \<circ> snd)" by (cases r) auto
qed simp

declare trim_prefixes.simps [simp del]

definition trim_left :: "string \<Rightarrow> string" where
  "trim_left s = trim_prefixes space_runes s"

definition trim_right :: "string \<Rightarrow> string" where
  "trim_right s = rev (trim_prefixes (map rev space_runes) (rev s))"

definition trim_space :: "string \<Rightarrow> string" where
  "trim_space s = trim_right (trim_left s)"

section \<open>Hashing\<close>

text \<open>32-bit FNV-1a, as \<^verbatim>\<open>hash/fnv\<close> computes it.\<close>

definition fnv1a_step :: "8 word \<Rightarrow> 32 word \<Rightarrow> 32 word" where
  "fnv1a_step b h = (xor h (ucast b)) * 16777619"

definition fnv1a :: "8 word list \<Rightarrow> 32 word" where
  "fnv1a bs = fold fnv1a_step bs 2166136261"

definition byte_of :: "char \<Rightarrow> 8 word" where
  "byte_of c = word_of_nat (of_char c)"

section \<open>Trimming\<close>

lemma trim_prefixes_stuck: "find (\<lambda>r. r \<noteq> [] \<and> prefix r (trim_prefixes rs s)) rs = None"
proof (induction rs s rule: trim_prefixes.induct)
  case (1 rs s)
  then show ?case by (subst trim_prefixes.simps) (auto split: option.splits)
qed

lemma trim_prefixes_id: "find (\<lambda>r. r \<noteq> [] \<and> prefix r s) rs = None \<Longrightarrow> trim_prefixes rs s = s"
  by (simp add: trim_prefixes.simps)

lemma trim_prefixes_suffix: "suffix (trim_prefixes rs s) s"
proof (induction rs s rule: trim_prefixes.induct)
  case (1 rs s)
  then show ?case
    by (subst trim_prefixes.simps) (auto split: option.splits intro: suffix_order.trans suffix_drop)
qed

lemma trim_right_prefix: "prefix (trim_right s) s"
  using trim_prefixes_suffix [of "map rev space_runes" "rev s"]
  by (metis suffix_to_prefix rev_rev_ident trim_right_def)

lemma trim_left_prefix: "prefix t (trim_left s) \<Longrightarrow> trim_left t = t"
  unfolding trim_left_def
  by (rule trim_prefixes_id)
    (use trim_prefixes_stuck [of space_runes s] in \<open>auto simp: find_None_iff dest: prefix_order.trans\<close>)

lemma trim_right_id [simp]: "trim_right (trim_right s) = trim_right s"
  using trim_prefixes_stuck [of "map rev space_runes" "rev s"]
  by (simp add: trim_right_def trim_prefixes_id)

lemma trim_space_idem [simp]: "trim_space (trim_space s) = trim_space s"
  using trim_left_prefix [OF trim_right_prefix, of s] by (simp add: trim_space_def)

section \<open>Case\<close>

lemma ascii_lower_idem [simp]: "ascii_lower (ascii_lower c) = ascii_lower c"
  by (auto simp: ascii_lower_def Let_def)

lemma ascii_upper_idem [simp]: "ascii_upper (ascii_upper c) = ascii_upper c"
  by (auto simp: ascii_upper_def Let_def)

lemma to_upper_ascii: "is_ascii s \<Longrightarrow> is_ascii (to_upper N s) \<and> to_upper N (to_upper N s) = to_upper N s"
  by (auto simp: to_upper_def is_ascii_def list_all_iff ascii_upper_def Let_def)

lemma to_lower_ascii: "is_ascii s \<Longrightarrow> is_ascii (to_lower N s) \<and> to_lower N (to_lower N s) = to_lower N s"
  by (auto simp: to_lower_def is_ascii_def list_all_iff ascii_lower_def Let_def)

text \<open>White space of an ASCII string is one of its bytes, and upper case neither adds nor hides any.\<close>

lemma space_rune_cases:
  "r \<in> set space_runes \<Longrightarrow> (\<exists>c. r = [c] \<and> (of_char c :: nat) \<le> 32) \<or> r \<noteq> [] \<and> 128 \<le> (of_char (hd r) :: nat) \<and> 128 \<le> (of_char (last r) :: nat)"
  unfolding space_runes_def by (auto simp: upt_rec)

lemma space_char_upper: "ascii_upper x = c \<Longrightarrow> (of_char c :: nat) \<le> 32 \<Longrightarrow> x = c"
  by (auto simp: ascii_upper_def Let_def split: if_splits)

lemma space_prefix_upper:
  assumes "r \<in> set space_runes" and "prefix r (map ascii_upper t)" and "is_ascii t"
  shows "prefix r t"
proof -
  from assms(2) obtain u where u: "map ascii_upper t = r @ u" by (auto elim: prefixE)
  have up: "(of_char (ascii_upper x) :: nat) < 128" if "x \<in> set t" for x
    using that assms(3) by (auto simp: is_ascii_def list_all_iff ascii_upper_def Let_def)
  from space_rune_cases [OF assms(1)] show ?thesis
  proof (elim disjE conjE exE)
    fix c assume c: "r = [c]" "(of_char c :: nat) \<le> 32"
    then obtain x t' where t: "t = x # t'" "ascii_upper x = c" using u by (cases t) auto
    then show ?thesis using space_char_upper [OF t(2) c(2)] c by simp
  next
    assume "r \<noteq> []" "128 \<le> (of_char (hd r) :: nat)"
    moreover then have "hd r \<in> ascii_upper ` set t" using u by (metis hd_in_set image_set in_set_conv_decomp_first set_append Un_iff)
    ultimately show ?thesis using up by fastforce
  qed
qed

lemma space_suffix_upper:
  assumes "r \<in> set space_runes" and "suffix r (map ascii_upper t)" and "is_ascii t"
  shows "suffix r t"
proof -
  from assms(2) obtain u where u: "map ascii_upper t = u @ r" by (auto elim: suffixE)
  have up: "(of_char (ascii_upper x) :: nat) < 128" if "x \<in> set t" for x
    using that assms(3) by (auto simp: is_ascii_def list_all_iff ascii_upper_def Let_def)
  from space_rune_cases [OF assms(1)] show ?thesis
  proof (elim disjE conjE exE)
    fix c assume c: "r = [c]" "(of_char c :: nat) \<le> 32"
    then obtain x t' where t: "t = t' @ [x]" "ascii_upper x = c" using u by (cases t rule: rev_cases) auto
    then show ?thesis using space_char_upper [OF t(2) c(2)] c by (simp add: suffix_def)
  next
    assume r: "r \<noteq> []" "128 \<le> (of_char (last r) :: nat)"
    then have "last r \<in> set (map ascii_upper t)" using u by simp
    then show ?thesis using up r(2) by fastforce
  qed
qed

lemma trim_left_fixed: "trim_left t = t \<longleftrightarrow> (\<forall>r\<in>set space_runes. r \<noteq> [] \<longrightarrow> \<not> prefix r t)"
  using trim_prefixes_stuck [of space_runes t]
  by (auto simp: trim_left_def find_None_iff intro!: trim_prefixes_id)

lemma trim_right_fixed: "trim_right t = t \<longleftrightarrow> (\<forall>r\<in>set space_runes. r \<noteq> [] \<longrightarrow> \<not> suffix r t)"
proof
  assume "trim_right t = t"
  then have "trim_prefixes (map rev space_runes) (rev t) = rev t" by (metis rev_rev_ident trim_right_def)
  then show "\<forall>r\<in>set space_runes. r \<noteq> [] \<longrightarrow> \<not> suffix r t"
    using trim_prefixes_stuck [of "map rev space_runes" "rev t"] by (auto simp: find_None_iff suffix_to_prefix)
next
  assume "\<forall>r\<in>set space_runes. r \<noteq> [] \<longrightarrow> \<not> suffix r t"
  then have "trim_prefixes (map rev space_runes) (rev t) = rev t"
    by (intro trim_prefixes_id) (auto simp: find_None_iff suffix_to_prefix)
  then show "trim_right t = t" by (simp add: trim_right_def)
qed

lemma trim_space_upper: "is_ascii t \<Longrightarrow> trim_space t = t \<Longrightarrow> trim_space (map ascii_upper t) = map ascii_upper t"
proof -
  assume a: "is_ascii t" "trim_space t = t"
  have l: "trim_left t = t" using a(2) trim_left_prefix [OF trim_right_prefix] by (metis trim_space_def)
  then have r: "trim_right t = t" using a(2) by (simp add: trim_space_def)
  have "trim_left (map ascii_upper t) = map ascii_upper t"
    using l space_prefix_upper a(1) unfolding trim_left_fixed by blast
  moreover have "trim_right (map ascii_upper t) = map ascii_upper t"
    using r space_suffix_upper a(1) unfolding trim_right_fixed by blast
  ultimately show ?thesis by (simp add: trim_space_def)
qed

lemma trim_space_ascii: "is_ascii s \<Longrightarrow> is_ascii (trim_space s)"
proof -
  have "set (trim_space s) \<subseteq> set s"
    using set_mono_prefix [OF trim_right_prefix] set_mono_suffix [OF trim_prefixes_suffix]
    by (metis order_trans trim_left_def trim_space_def)
  then show "is_ascii s \<Longrightarrow> is_ascii (trim_space s)" by (auto simp: is_ascii_def list_all_iff)
qed

lemma upper_trim_again: "is_ascii s \<Longrightarrow> to_upper N (trim_space (to_upper N (trim_space s))) = to_upper N (trim_space s)"
  using trim_space_ascii [of s] trim_space_upper [of "trim_space s"] to_upper_ascii [of "trim_space s" N]
  by (simp add: to_upper_def)

text \<open>A string of printable ASCII characters has nothing to trim, and a leading blank is dropped.\<close>

lemma trim_plain:
  assumes "list_all (\<lambda>c. 32 < (of_char c :: nat) \<and> (of_char c :: nat) < 128) s"
  shows "trim_left s = s" and "trim_space s = s"
proof -
  have p: "32 < (of_char c :: nat) \<and> (of_char c :: nat) < 128" if "c \<in> set s" for c
    using assms that by (simp add: list_all_iff)
  have "\<not> prefix r s \<and> \<not> suffix r s" if r: "r \<in> set space_runes" for r
  proof -
    have ne: "r \<noteq> []" using space_rune_cases [OF r] by auto
    have sub: "set r \<subseteq> set s" if "prefix r s \<or> suffix r s"
      using that set_mono_prefix set_mono_suffix by blast
    from space_rune_cases [OF r] show ?thesis
    proof (elim disjE conjE exE)
      fix c assume c: "r = [c]" "(of_char c :: nat) \<le> 32"
      then have "c \<notin> set s" using p [of c] by linarith
      then show ?thesis using sub c(1) by auto
    next
      assume "128 \<le> (of_char (hd r) :: nat)"
      then have "hd r \<notin> set s" using p [of "hd r"] by linarith
      then show ?thesis using sub ne hd_in_set by blast
    qed
  qed
  then have l: "trim_left s = s" and r: "trim_right s = s"
    unfolding trim_left_fixed trim_right_fixed by blast+
  then show "trim_left s = s" "trim_space s = s" by (simp_all add: trim_space_def)
qed

lemma find_Some_mem: "find Q xs = Some x \<Longrightarrow> x \<in> set xs \<and> Q x"
  by (induction xs) (auto split: if_splits)

lemma prefix_blank:
  assumes "r \<in> set space_runes" and "r \<noteq> []" and "prefix r (CHR '' '' # s)"
  shows "r = [CHR '' '']"
proof -
  obtain z where z: "r = CHR '' '' # z" using assms(2,3) by (cases r) auto
  have "(of_char (CHR '' '') :: nat) = 32" by code_simp
  then show ?thesis using space_rune_cases [OF assms(1)] z by auto
qed

lemma trim_blank: "trim_space (CHR '' '' # s) = trim_space s"
proof -
  let ?Q = "\<lambda>r. r \<noteq> [] \<and> prefix r (CHR '' '' # s)"
  have "char_of (32 :: nat) = CHR '' ''" by code_simp
  then have b: "[CHR '' ''] \<in> set space_runes" by (simp add: space_runes_def)
  have "find ?Q space_runes \<noteq> None"
  proof
    assume "find ?Q space_runes = None"
    then have "\<not> ?Q [CHR '' '']" using b unfolding find_None_iff by blast
    then show False by simp
  qed
  then obtain r where r: "find ?Q space_runes = Some r" by blast
  have "r = [CHR '' '']" using find_Some_mem [OF r] prefix_blank [of r s] by blast
  then have "trim_left (CHR '' '' # s) = trim_left s"
    using r by (simp add: trim_left_def trim_prefixes.simps [of space_runes "CHR '' '' # s"])
  then show ?thesis by (simp add: trim_space_def)
qed

end
