(* ===== verification/Worker_Pool.thy ===== *)
theory Worker_Pool
  imports Trade_Pump Price_Worker_Laws Go_Strings
begin

text \<open>
  The pools that drive the partition workers (\<^verbatim>\<open>trade_worker_pool.go\<close>, \<^verbatim>\<open>price_worker_pool.go\<close>)
  and the risk trigger (\<^verbatim>\<open>risk_trigger.go\<close>): configuration defaults, the assignment of a
  partition to a shard by FNV-1a, and one tick of a shard. The map from partitions to workers is
  an association list. A tick logs errors and goes on; a panic of a partition ends the process
  and is the result \<open>EPanic\<close>, a pump that does not return is \<open>None\<close>. Goroutines, tickers and
  the context are not modelled: the shards of a pool own disjoint sets of partitions
  (\<open>worker_shard_for\<close> is a function), so a run is a sequence of ticks.
\<close>

section \<open>Configuration\<close>

record trade_pool =
  wk_tick :: duration
  wk_watermark :: duration
  wk_max_event_age :: duration
  wk_shard_count :: int
  wk_exclude_price_partitions :: "uuid list"
  wk_risk_scheduler :: bool
  wk_snapshot_min_events :: int
  wk_snapshot_min_interval :: duration

definition new_worker :: "duration \<Rightarrow> duration \<Rightarrow> duration \<Rightarrow> int \<Rightarrow> uuid list \<Rightarrow> trade_pool" where
  "new_worker tick watermark max_event_age shard_count exclude =
     \<lparr>wk_tick = (if tick \<le> 0 then 500 * millisecond else tick), wk_watermark = watermark,
      wk_max_event_age = max_event_age, wk_shard_count = (if shard_count < 1 then 1 else shard_count),
      wk_exclude_price_partitions = exclude, wk_risk_scheduler = False,
      wk_snapshot_min_events = 0, wk_snapshot_min_interval = 0\<rparr>"

definition with_risk_scheduler :: "bool \<Rightarrow> trade_pool \<Rightarrow> trade_pool" where
  "with_risk_scheduler s w = w\<lparr>wk_risk_scheduler := s\<rparr>"

definition with_portfolio_snapshot_policy :: "int \<Rightarrow> duration \<Rightarrow> trade_pool \<Rightarrow> trade_pool" where
  "with_portfolio_snapshot_policy min_events min_interval w =
     w\<lparr>wk_snapshot_min_events := (if min_events < 0 then 0 else min_events),
       wk_snapshot_min_interval := (if min_interval < 0 then 0 else min_interval)\<rparr>"

record price_pool =
  pl_tick :: duration
  pl_watermark :: duration
  pl_max_event_age :: duration
  pl_worker_count :: int
  pl_partitions :: "uuid list"
  pl_risk_scheduler :: bool

definition new_price_pool :: "duration \<Rightarrow> duration \<Rightarrow> duration \<Rightarrow> int \<Rightarrow> uuid list \<Rightarrow> price_pool res" where
  "new_price_pool tick watermark max_event_age worker_count partitions =
     (if partitions = [] then Inl (EPanic ''events: NewPricePool requires at least one price partition'')
      else Inr \<lparr>pl_tick = (if tick \<le> 0 then 500 * millisecond else tick), pl_watermark = watermark,
        pl_max_event_age = max_event_age, pl_worker_count = (if worker_count < 1 then 1 else worker_count),
        pl_partitions = partitions, pl_risk_scheduler = False\<rparr>)"

section \<open>Sharding\<close>

text \<open>
  The conversion \<^verbatim>\<open>uint32(shardCount)\<close> keeps the low 32 bits; a multiple of \<open>2 ^ 32\<close> shards,
  where Go divides by zero, is out of reach of a pool of goroutines.
\<close>

definition worker_shard_for :: "uuid \<Rightarrow> int \<Rightarrow> int" where
  "worker_shard_for pid shard_count =
     (if shard_count \<le> 1 then 0
      else uint (fnv1a (uuid_bytes pid) mod (word_of_int shard_count)))"

lemma worker_shard_bounds:
  assumes "1 \<le> n" and "n < 2 ^ 32"
  shows "0 \<le> worker_shard_for pid n \<and> worker_shard_for pid n < n"
proof (cases "n \<le> 1")
  case True
  then show ?thesis using assms by (simp add: worker_shard_for_def)
next
  case False
  have "uint (word_of_int n :: 32 word) = n"
    using assms by (simp add: uint_word_of_int)
  then have "uint (fnv1a (uuid_bytes pid) mod word_of_int n) = uint (fnv1a (uuid_bytes pid)) mod n"
    by (simp add: uint_mod)
  then show ?thesis using False by (simp add: worker_shard_for_def)
qed

section \<open>One tick of a trade shard\<close>

type_synonym 'd portfolio_workers = "(uuid \<times> 'd partition_worker) list"

text \<open>What a tick makes of a partition's result: a panic goes up, any other error is logged.\<close>

definition logged_error :: "unit res \<Rightarrow> unit res" where
  "logged_error r = (case r of Inl (EPanic m) \<Rightarrow> Inl (EPanic m) | _ \<Rightarrow> Inr ())"

definition tick_known ::
  "'d decimal_api \<Rightarrow> 'd json_api \<Rightarrow> ('d, 'w) repo \<Rightarrow> uuid \<Rightarrow> 'd partition_worker \<Rightarrow>
   'd portfolio_workers \<times> 'w \<Rightarrow> (unit res \<times> 'd portfolio_workers \<times> 'w) option" where
  "tick_known D J R pid pw s =
     (case process_incremental D J R (pw, snd s) of
        None \<Rightarrow> None
      | Some (r, (pw', w')) \<Rightarrow> Some (logged_error r, (AList.update pid pw' (fst s), w')))"

definition tick_new ::
  "'d decimal_api \<Rightarrow> 'd json_api \<Rightarrow> uuid_api \<Rightarrow> ('d, 'w) repo \<Rightarrow> trade_pool \<Rightarrow> uuid \<Rightarrow>
   'd portfolio_workers \<times> 'w \<Rightarrow> (unit res \<times> 'd portfolio_workers \<times> 'w) option" where
  "tick_new D J U R wk pid s =
     (case new_partition_worker R U (wk_watermark wk) (wk_max_event_age wk) pid
             (wk_snapshot_min_events wk) (wk_snapshot_min_interval wk) (snd s) of (pw, w1) \<Rightarrow>
       (case rebuild D J R (pw\<lparr>pw_risk_scheduler := wk_risk_scheduler wk\<rparr>, w1) of
          None \<Rightarrow> None
        | Some (Inl e, (pw', w2)) \<Rightarrow> Some (logged_error (Inl e), (fst s, w2))
        | Some (Inr u, (pw', w2)) \<Rightarrow> tick_known D J R pid pw' (fst s, w2)))"

fun tick_portfolios ::
  "'d decimal_api \<Rightarrow> 'd json_api \<Rightarrow> uuid_api \<Rightarrow> ('d, 'w) repo \<Rightarrow> trade_pool \<Rightarrow> int \<Rightarrow> uuid list \<Rightarrow>
   'd portfolio_workers \<times> 'w \<Rightarrow> (unit res \<times> 'd portfolio_workers \<times> 'w) option" where
  "tick_portfolios D J U R wk shard [] s = Some (Inr (), s)"
| "tick_portfolios D J U R wk shard (pid # ids) s =
     (if worker_shard_for pid (wk_shard_count wk) \<noteq> shard then tick_portfolios D J U R wk shard ids s
      else case (case map_of (fst s) pid of
            None \<Rightarrow> tick_new D J U R wk pid s
          | Some pw \<Rightarrow> tick_known D J R pid pw s) of
          None \<Rightarrow> None
        | Some (Inl e, s') \<Rightarrow> Some (Inl e, s')
        | Some (Inr u, s') \<Rightarrow> tick_portfolios D J U R wk shard ids s')"

definition shard_tick ::
  "'d decimal_api \<Rightarrow> 'd json_api \<Rightarrow> uuid_api \<Rightarrow> ('d, 'w) repo \<Rightarrow> trade_pool \<Rightarrow> int \<Rightarrow>
   'd portfolio_workers \<times> 'w \<Rightarrow> (unit res \<times> 'd portfolio_workers \<times> 'w) option" where
  "shard_tick D J U R wk shard s =
     (case rp_list_portfolio_ids_not_in R (wk_exclude_price_partitions wk) (snd s) of
        (Inl e, w1) \<Rightarrow> Some (Inr (), (fst s, w1))
      | (Inr ids, w1) \<Rightarrow> tick_portfolios D J U R wk shard ids (fst s, w1))"

section \<open>One tick of a price shard\<close>

type_synonym price_workers = "(uuid \<times> price_partition_worker) list"

definition price_tick_known ::
  "'d decimal_api \<Rightarrow> 'd json_api \<Rightarrow> ('d, 'w) repo \<Rightarrow> uuid \<Rightarrow> price_partition_worker \<Rightarrow>
   price_workers \<times> 'w \<Rightarrow> (unit res \<times> price_workers \<times> 'w) option" where
  "price_tick_known D J R pid pw s =
     (case price_pump_after_cursor D J R (pw, snd s) of
        None \<Rightarrow> None
      | Some (r, (pw', w')) \<Rightarrow> Some (logged_error r, (AList.update pid pw' (fst s), w')))"

definition price_tick_new ::
  "'d decimal_api \<Rightarrow> 'd json_api \<Rightarrow> uuid_api \<Rightarrow> ('d, 'w) repo \<Rightarrow> price_pool \<Rightarrow> uuid \<Rightarrow>
   price_workers \<times> 'w \<Rightarrow> (unit res \<times> price_workers \<times> 'w) option" where
  "price_tick_new D J U R pl pid s =
     (let pw = (new_price_partition_worker U (pl_watermark pl) (pl_max_event_age pl) pid)
            \<lparr>pp_risk_scheduler := pl_risk_scheduler pl\<rparr>
      in case price_rebuild D J R (pw, snd s) of
          None \<Rightarrow> None
        | Some (Inl e, (pw', w2)) \<Rightarrow> Some (logged_error (Inl e), (fst s, w2))
        | Some (Inr u, (pw', w2)) \<Rightarrow> price_tick_known D J R pid pw' (fst s, w2))"

fun price_tick_partitions ::
  "'d decimal_api \<Rightarrow> 'd json_api \<Rightarrow> uuid_api \<Rightarrow> ('d, 'w) repo \<Rightarrow> price_pool \<Rightarrow> int \<Rightarrow> uuid list \<Rightarrow>
   price_workers \<times> 'w \<Rightarrow> (unit res \<times> price_workers \<times> 'w) option" where
  "price_tick_partitions D J U R pl shard [] s = Some (Inr (), s)"
| "price_tick_partitions D J U R pl shard (pid # ids) s =
     (if worker_shard_for pid (pl_worker_count pl) \<noteq> shard then price_tick_partitions D J U R pl shard ids s
      else case (case map_of (fst s) pid of
            None \<Rightarrow> price_tick_new D J U R pl pid s
          | Some pw \<Rightarrow> price_tick_known D J R pid pw s) of
          None \<Rightarrow> None
        | Some (Inl e, s') \<Rightarrow> Some (Inl e, s')
        | Some (Inr u, s') \<Rightarrow> price_tick_partitions D J U R pl shard ids s')"

definition price_shard_tick ::
  "'d decimal_api \<Rightarrow> 'd json_api \<Rightarrow> uuid_api \<Rightarrow> ('d, 'w) repo \<Rightarrow> price_pool \<Rightarrow> int \<Rightarrow>
   price_workers \<times> 'w \<Rightarrow> (unit res \<times> price_workers \<times> 'w) option" where
  "price_shard_tick D J U R pl shard s = price_tick_partitions D J U R pl shard (pl_partitions pl) s"

section \<open>The debounced risk trigger\<close>

text \<open>
  \<^verbatim>\<open>risk_trigger.go\<close> with an explicit clock: the timer of each portfolio is the instant it is due.
  \<^verbatim>\<open>Schedule\<close> replaces the timer, an elapsed timer calls back once and is removed.
\<close>

record risk_timers =
  rt_delay :: duration
  rt_timers :: "(uuid \<times> time) list"

definition new_debounced_risk_scheduler :: "duration \<Rightarrow> risk_timers" where
  "new_debounced_risk_scheduler delay =
     \<lparr>rt_delay = (if delay \<le> 0 then 250 * millisecond else delay), rt_timers = []\<rparr>"

definition schedule :: "time \<Rightarrow> uuid \<Rightarrow> risk_timers \<Rightarrow> risk_timers" where
  "schedule now pid s = s\<lparr>rt_timers := AList.update pid (now + rt_delay s) (AList.delete pid (rt_timers s))\<rparr>"

definition fire_timers :: "time \<Rightarrow> risk_timers \<Rightarrow> uuid list \<times> risk_timers" where
  "fire_timers now s = (map fst (filter (\<lambda>p. snd p \<le> now) (rt_timers s)),
     s\<lparr>rt_timers := filter (\<lambda>p. now < snd p) (rt_timers s)\<rparr>)"

definition stop_timers :: "risk_timers \<Rightarrow> risk_timers" where
  "stop_timers s = s\<lparr>rt_timers := []\<rparr>"

definition debounced :: "risk_timers \<Rightarrow> (time \<times> uuid) list \<Rightarrow> risk_timers" where
  "debounced s calls = fold (\<lambda>(t, p) s. schedule t p s) calls s"

lemma schedule_due:
  "map_of (rt_timers (schedule now pid s)) q = (if q = pid then Some (now + rt_delay s) else map_of (rt_timers s) q)"
  by (auto simp: schedule_def update_conv' delete_conv')

lemma schedule_keys: "distinct (map fst (rt_timers s)) \<Longrightarrow> distinct (map fst (rt_timers (schedule now pid s)))"
  by (simp add: schedule_def distinct_update distinct_delete)

end
