(* ===== verification/Worker_Properties.thy ===== *)
theory Worker_Properties
  imports Store_Properties Trade_Pump Postgres_Prices Worker_Pool
begin

text \<open>
  The apply workers on \<^verbatim>\<open>PostgresStore\<close>: what one tick of a partition does to the database and
  to the memory of the worker, for every pattern of failing calls. The proofs are those of
  \<open>Trade_Pump\<close> and \<open>Price_Worker_Laws\<close>, reached through the interpretation of the contract.
\<close>

interpretation refstore: event_repository ref_dec rval ref_json
  "postgres_repo ref_dec ref_json ref_uuid ref_pg" "postgres_views ref_uuid ref_pg"
  by (rule refp.repository)

interpretation refprices: price_repository ref_dec rval ref_json
  "postgres_repo ref_dec ref_json ref_uuid ref_pg" "postgres_views ref_uuid ref_pg" "\<lambda>w. marks_at (w_db w)"
  by (rule refp.price_store)

text \<open>The memory of the worker and the database agree.\<close>

definition synced :: "'d decimal_api \<Rightarrow> ('d \<Rightarrow> rat) \<Rightarrow> pg_api \<Rightarrow> 'd partition_worker \<times> world \<Rightarrow> bool" where
  "synced D val P s \<longleftrightarrow> store_inv P (w_db (snd s)) \<and>
     cursor_at (w_db (snd s)) (pw_pid (fst s)) = pw_cur (fst s) \<and>
     (\<forall>sy. book_at (w_db (snd s)) (pw_pid (fst s)) sy =
       projected val (lot_of D (positions_at (pw_agg (fst s)) (pw_pid_str (fst s))) sy))"

definition left_over :: "uuid_api \<Rightarrow> 'd partition_worker \<times> world \<Rightarrow> event_envelope list" where
  "left_over U s = events_after (pw_cur (fst s)) (stream_of U (w_db (snd s)) (pw_pid (fst s)))"

definition sample_worker :: "duration \<Rightarrow> rdec partition_worker" where
  "sample_worker wm = fst (new_partition_worker (postgres_repo ref_dec ref_json ref_uuid ref_pg) ref_uuid wm 0 7 0 0
     (sample_world empty_db []))"

lemma in_sync_synced:
  assumes "pg_laws D val P"
  shows "event_repository.in_sync D val (postgres_views U P) s = synced D val P s"
proof -
  have e: "event_repository D val J (postgres_repo D J U P) (postgres_views U P)" for J
    using pg_laws.repository [OF assms] .
  show ?thesis
    by (simp add: event_repository.in_sync_def [OF e] event_repository.projection_def [OF e] synced_def)
qed

lemma sample_worker_synced:
  assumes "db_cursors d = []" "db_positions d = []" "store_inv ref_pg d"
  shows "synced ref_dec rval ref_pg (sample_worker wm, sample_world d fs)"
  using assms
  by (simp add: synced_def sample_worker_def new_partition_worker_def split_beta cursor_at_def book_at_def
      positions_at_def new_aggregate_def projected_def lot_of_def zero_lot_def ref.val_zero)

lemma sample_db_inv: "store_inv ref_pg (empty_db\<lparr>db_events := [sample_row]\<rparr>)"
  by (simp add: store_inv_def sample_row_def empty_db_def ref_pg_def uuid_nil_def)

lemma sample_db_typed: "typed_store ref_dec ref_json ref_pg (empty_db\<lparr>db_events := [sample_row]\<rparr>)"
proof -
  have "typed_row ref_dec ref_json sample_row" by code_simp
  then show ?thesis using sample_db_inv by (simp add: typed_store_def empty_db_def)
qed

lemma sample_worker_simps [simp]: "pw_pid (sample_worker wm) = 7" "pw_cur (sample_worker wm) = zero_cursor"
  "pw_max_event_age (sample_worker wm) = 0" "positions_at (pw_agg (sample_worker wm)) k = []"
  "pw_watermark (sample_worker wm) = wm"
  by (simp_all add: sample_worker_def new_partition_worker_def split_beta new_aggregate_def positions_at_def)

lemma sample_left_over: "left_over ref_uuid (sample_worker wm, sample_world (empty_db\<lparr>db_events := [sample_row]\<rparr>) fs) =
    [scan_event_row ref_uuid sample_row]"
  by (simp add: left_over_def events_after_def stream_of_def partition_rows_def empty_db_def sample_row_def)

section \<open>The trade worker\<close>

lemma trade_pump_run:
  assumes "pg_laws D val P" and "synced D val P (pw, w)"
    and "process_incremental D J (postgres_repo D J U P) (pw, w) = Some (r, (pw', w'))"
  shows "\<exists>l rest ps. left_over U (pw, w) = map fst l @ rest \<and>
    run_log D J l (positions_at (pw_agg pw) (pw_pid_str pw)) = Some ps \<and>
    cursor_at (w_db w') (pw_pid pw) = log_cursor (pw_cur pw) l \<and>
    (\<forall>sy. book_at (w_db w') (pw_pid pw) sy = projected val (lot_of D ps sy)) \<and>
    dead_at (w_db w') = dead_at (w_db w) @ map (Pair (pw_pid pw)) (dead_events l) \<and>
    (r = Inr () \<longrightarrow> positions_at (pw_agg pw') (pw_pid_str pw) = ps \<and> synced D val P (pw', w'))"
proof -
  note e = pg_laws.repository [OF assms(1), of J U]
  have sync: "event_repository.in_sync D val (postgres_views U P) (pw, w)"
    using assms(2) in_sync_synced [OF assms(1)] by blast
  have run: "pump_after_cursor D J (postgres_repo D J U P) (pw, w) = Some (r, (pw', w'))"
    using assms(3) by (simp add: process_incremental_def)
  have inv: "store_inv P (w_db w)" "pg_time P (cur_time (pw_cur pw)) = cur_time (pw_cur pw)"
    using event_repository.in_sync_key [OF e sync] by simp_all
  obtain l rest ps where l: "left_over U (pw, w) = map fst l @ rest"
    "event_repository.logged D val J (postgres_views U P) w w' (pw_pid pw) (pw_cur pw)
      (positions_at (pw_agg pw) (pw_pid_str pw)) l ps"
    "r = Inr () \<longrightarrow> positions_at (pw_agg pw') (pw_pid_str pw) = ps \<and> pw_cur pw' = log_cursor (pw_cur pw) l"
    using event_repository.pump_logged [OF e sync run]
    by (auto simp: event_repository.pump_result_def [OF e] left_over_def)
  have f: "event_repository.worker_frame (postgres_views U P) (pw, w) (pw', w')"
    using event_repository.pump_terminates [OF e, of w pw] inv run by auto
  note fd = event_repository.worker_frameD [OF e f]
  have g: "run_log D J l (positions_at (pw_agg pw) (pw_pid_str pw)) = Some ps"
    "cursor_at (w_db w') (pw_pid pw) = log_cursor (pw_cur pw) l"
    "\<forall>sy. book_at (w_db w') (pw_pid pw) sy = projected val (lot_of D ps sy)"
    "dead_at (w_db w') = dead_at (w_db w) @ map (Pair (pw_pid pw)) (dead_events l)"
    using l(2) by (simp_all add: event_repository.logged_def [OF e] event_repository.projection_def [OF e])
  have "r = Inr () \<longrightarrow> synced D val P (pw', w')"
    using g l(3) fd inv by (simp add: synced_def)
  then show ?thesis using l(1,3) g by blast
qed

lemma trade_pump_returns:
  assumes "pg_laws D val P" and "store_inv P (w_db w)" and "pg_time P (cur_time (pw_cur pw)) = cur_time (pw_cur pw)"
  shows "\<exists>r s'. process_incremental D J (postgres_repo D J U P) (pw, w) = Some (r, s')"
  using event_repository.pump_terminates [OF pg_laws.repository [OF assms(1)], of U w pw J] assms(2,3)
  by (auto simp: process_incremental_def)

text \<open>
  (C11) The pump of a trade partition always returns, whatever calls of the database fail.
\<close>

theorem trade_pump_terminates:
  assumes "pg_laws D val P" and "store_inv P (w_db w)" and "pg_time P (cur_time (pw_cur pw)) = cur_time (pw_cur pw)"
  shows "\<exists>r s'. process_incremental D J (postgres_repo D J U P) (pw, w) = Some (r, s')"
  by (rule trade_pump_returns [OF assms])

theorem trade_pump_terminates_witness:
  "\<exists>r s'. process_incremental ref_dec ref_json (postgres_repo ref_dec ref_json ref_uuid ref_pg)
    (sample_worker 0, sample_world (empty_db\<lparr>db_events := [sample_row]\<rparr>) [NoFault, NoFault, FailAfter]) = Some (r, s')"
proof (rule trade_pump_terminates [OF refp.pg_laws_axioms])
  show "store_inv ref_pg (w_db (sample_world (empty_db\<lparr>db_events := [sample_row]\<rparr>) [NoFault, NoFault, FailAfter]))"
    by (simp add: store_inv_def sample_row_def empty_db_def ref_pg_def uuid_nil_def)
qed (simp add: sample_worker_def new_partition_worker_def split_beta zero_cursor_def refp.time_zero)

text \<open>
  (C5) A tick is crash consistent. From a state in which memory and database agree, whatever
  fails and whenever: the events left over split into those taken and the rest; the database
  is exactly at the end of the taken ones (cursor, projection rows, dead letters in order), no
  event half applied, skipped or applied twice; and when the tick reports no error, the memory
  agrees with the database again.
\<close>

theorem trade_pump_crash_consistent:
  assumes "pg_laws D val P" and "synced D val P (pw, w)"
    and "process_incremental D J (postgres_repo D J U P) (pw, w) = Some (r, (pw', w'))"
  shows "\<exists>l rest ps. left_over U (pw, w) = map fst l @ rest \<and>
    run_log D J l (positions_at (pw_agg pw) (pw_pid_str pw)) = Some ps \<and>
    cursor_at (w_db w') (pw_pid pw) = log_cursor (pw_cur pw) l \<and>
    (\<forall>sy. book_at (w_db w') (pw_pid pw) sy = projected val (lot_of D ps sy)) \<and>
    dead_at (w_db w') = dead_at (w_db w) @ map (Pair (pw_pid pw)) (dead_events l) \<and>
    (r = Inr () \<longrightarrow> positions_at (pw_agg pw') (pw_pid_str pw) = ps \<and> synced D val P (pw', w'))"
  by (rule trade_pump_run [OF assms])

theorem trade_pump_crash_consistent_witness:
  "\<exists>r pw' w' l rest. process_incremental ref_dec ref_json (postgres_repo ref_dec ref_json ref_uuid ref_pg)
      (sample_worker 0, sample_world (empty_db\<lparr>db_events := [sample_row]\<rparr>) [NoFault, NoFault, FailAfter]) = Some (r, (pw', w')) \<and>
    [scan_event_row ref_uuid sample_row] = map fst l @ rest \<and>
    cursor_at (w_db w') 7 = log_cursor zero_cursor l"
proof -
  let ?w = "sample_world (empty_db\<lparr>db_events := [sample_row]\<rparr>) [NoFault, NoFault, FailAfter]"
  have sy: "synced ref_dec rval ref_pg (sample_worker 0, ?w)"
    by (rule sample_worker_synced) (simp_all add: sample_db_inv, simp_all add: empty_db_def)
  obtain r s' where run: "process_incremental ref_dec ref_json (postgres_repo ref_dec ref_json ref_uuid ref_pg)
      (sample_worker 0, ?w) = Some (r, s')"
    using trade_pump_returns [OF refp.pg_laws_axioms, of ?w "sample_worker 0" ref_json ref_uuid]
      sample_db_inv by (auto simp: zero_cursor_def refp.time_zero)
  obtain pw' w' where "s' = (pw', w')" by (cases s')
  then have run': "process_incremental ref_dec ref_json (postgres_repo ref_dec ref_json ref_uuid ref_pg)
      (sample_worker 0, ?w) = Some (r, (pw', w'))" using run by simp
  from trade_pump_crash_consistent [OF refp.pg_laws_axioms sy run'] show ?thesis
  proof (elim exE conjE, goal_cases)
    case (1 l rest ps)
    show ?case
      by (intro exI [of _ r] exI [of _ pw'] exI [of _ w'] exI [of _ l] exI [of _ rest] conjI)
        (rule run', use 1(1) sample_left_over [of 0 "[NoFault, NoFault, FailAfter]"] in simp, use 1(3) in simp)
  qed
qed

lemma trade_pump_catch_up_run:
  assumes "pg_laws D val P" and "synced D val P (pw, w)" and "healthy w" and "pw_max_event_age pw \<le> 0"
    and "typed_store D J P (w_db w)" and "positions_wf val (positions_at (pw_agg pw) (pw_pid_str pw))"
    and "\<forall>k sy. lot_fits val (lot_of D (replay D J (take k (left_over U (pw, w)))
      (positions_at (pw_agg pw) (pw_pid_str pw))) sy)"
  shows "\<exists>pw' w' evs rest. process_incremental D J (postgres_repo D J U P) (pw, w) = Some (Inr (), (pw', w')) \<and>
    left_over U (pw, w) = evs @ rest \<and>
    within_watermark (pw_watermark pw) (stream_of U (w_db w) (pw_pid pw)) rest \<and>
    positions_at (pw_agg pw') (pw_pid_str pw) = replay D J evs (positions_at (pw_agg pw) (pw_pid_str pw)) \<and>
    synced D val P (pw', w') \<and> dead_at (w_db w') = dead_at (w_db w) @
      map (Pair (pw_pid pw)) (rejected D J evs (positions_at (pw_agg pw) (pw_pid_str pw)))"
proof -
  note e = pg_laws.repository [OF assms(1), of J U]
  let ?ps = "positions_at (pw_agg pw) (pw_pid_str pw)"
  have sync: "event_repository.in_sync D val (postgres_views U P) (pw, w)"
    using assms(2) in_sync_synced [OF assms(1)] by blast
  have good: "\<forall>ev\<in>set (left_over U (pw, w)). good_event D J ev"
    using assms(5) set_events_after typed_row_good
    by (fastforce simp: left_over_def typed_store_def list_all_iff set_stream_of)
  obtain pw' w' where run: "pump_after_cursor D J (postgres_repo D J U P) (pw, w) = Some (Inr (), (pw', w'))"
    using event_repository.pump_succeeds [OF e sync, of] good assms(3,4,6,7)
    by (auto simp: event_repository.fits_along_def [OF e] left_over_def)
  then have tick: "process_incremental D J (postgres_repo D J U P) (pw, w) = Some (Inr (), (pw', w'))"
    by (simp add: process_incremental_def)
  obtain l rest ps where l: "left_over U (pw, w) = map fst l @ rest"
    "event_repository.logged D val J (postgres_views U P) w w' (pw_pid pw) (pw_cur pw) ?ps l ps"
    "positions_at (pw_agg pw') (pw_pid_str pw) = ps" "no_stale l"
    "within_watermark (pw_watermark pw) (stream_of U (w_db w) (pw_pid pw)) rest"
    using event_repository.pump_logged [OF e sync run] assms(4)
    by (auto simp: event_repository.pump_result_def [OF e] left_over_def)
  have rl: "run_log D J l ?ps = Some ps" "dead_at (w_db w') = dead_at (w_db w) @ map (Pair (pw_pid pw)) (dead_events l)"
    using l(2) by (simp_all add: event_repository.logged_def [OF e])
  have "ps = replay D J (map fst l) ?ps" "dead_events l = rejected D J (map fst l) ?ps"
    using run_log_replay [OF rl(1) l(4)] by simp_all
  moreover have "synced D val P (pw', w')" using trade_pump_run [OF assms(1,2) tick] by auto
  ultimately show ?thesis using tick l(1,3,5) rl(2)
    by (intro exI [of _ pw'] exI [of _ w'] exI [of _ "map fst l"] exI [of _ rest]) simp
qed

lemma sample_synced: "synced ref_dec rval ref_pg (sample_worker wm, sample_world (empty_db\<lparr>db_events := [sample_row]\<rparr>) fs)"
  by (rule sample_worker_synced) (simp_all add: sample_db_inv, simp_all add: empty_db_def)

lemma sample_replay: "replay ref_dec ref_json [scan_event_row ref_uuid sample_row] [] =
    [(''AAPL'', \<lparr>lot_quantity = RDec 10 0, average_cost = RDec 50000000000000000 16, realized_pnl = RDec 0 0\<rparr>)]"
  by code_simp

lemma sample_fits: "lot_fits rval (lot_of ref_dec (replay ref_dec ref_json
    (take k [scan_event_row ref_uuid sample_row]) []) sy)"
proof -
  have z: "lot_fits rval (zero_lot ref_dec)"
    by (simp add: lot_fits_def fits_numeric_def zero_lot_def ref.val_zero round_away_def)
  have "lot_fits rval \<lparr>lot_quantity = RDec 10 0, average_cost = RDec 50000000000000000 16, realized_pnl = RDec 0 0\<rparr>"
    by code_simp
  then have "lot_fits rval (lot_of ref_dec [] sy)"
    "lot_fits rval (lot_of ref_dec (replay ref_dec ref_json [scan_event_row ref_uuid sample_row] []) sy)"
    unfolding sample_replay using z by (simp_all add: lot_of_def)
  then show ?thesis by (cases k) simp_all
qed

text \<open>
  (C6) A tick gets through: without an age limit for events (the default), when calls do not fail, the table holds what ingestion lets in and
  every lot on the way fits its columns, the tick returns without error, and it applied every
  event left over except those less than the watermark behind the newest; positions are those
  of applying the events one by one, sells that would go short are dead letters.
\<close>

theorem trade_pump_catches_up:
  assumes "pg_laws D val P" and "synced D val P (pw, w)" and "healthy w" and "pw_max_event_age pw \<le> 0"
    and "typed_store D J P (w_db w)" and "positions_wf val (positions_at (pw_agg pw) (pw_pid_str pw))"
    and "\<forall>k sy. lot_fits val (lot_of D (replay D J (take k (left_over U (pw, w)))
      (positions_at (pw_agg pw) (pw_pid_str pw))) sy)"
  shows "\<exists>pw' w' evs rest. process_incremental D J (postgres_repo D J U P) (pw, w) = Some (Inr (), (pw', w')) \<and>
    left_over U (pw, w) = evs @ rest \<and>
    within_watermark (pw_watermark pw) (stream_of U (w_db w) (pw_pid pw)) rest \<and>
    positions_at (pw_agg pw') (pw_pid_str pw) = replay D J evs (positions_at (pw_agg pw) (pw_pid_str pw)) \<and>
    synced D val P (pw', w') \<and> dead_at (w_db w') = dead_at (w_db w) @
      map (Pair (pw_pid pw)) (rejected D J evs (positions_at (pw_agg pw) (pw_pid_str pw)))"
  by (rule trade_pump_catch_up_run [OF assms])

theorem trade_pump_catches_up_witness:
  "\<exists>pw' w'. process_incremental ref_dec ref_json (postgres_repo ref_dec ref_json ref_uuid ref_pg)
      (sample_worker 0, sample_world (empty_db\<lparr>db_events := [sample_row]\<rparr>) []) = Some (Inr (), (pw', w')) \<and>
    synced ref_dec rval ref_pg (pw', w') \<and>
    positions_at (pw_agg pw') (pw_pid_str (sample_worker 0)) =
      [(''AAPL'', \<lparr>lot_quantity = RDec 10 0, average_cost = RDec 50000000000000000 16, realized_pnl = RDec 0 0\<rparr>)]"
  using trade_pump_catches_up [OF refp.pg_laws_axioms sample_synced [of 0 "[]"], of ref_json ref_uuid] sample_fits sample_db_typed
  unfolding sample_left_over by (auto simp: sample_replay within_watermark_def simp del: replay.simps rejected.simps)

section \<open>A failed batch\<close>

text \<open>
  (C13) A batch whose commit fails is applied again on top of itself: the trade is already in
  the memory of the worker, the cursor has not moved, and nothing restores the memory, so the
  next tick applies the same event once more and commits a projection that counts it twice.
\<close>

theorem failed_batch_counts_twice:
  assumes "pg_laws D val P" and "pg_time P (event_time ev) = event_time ev" and "pw_max_event_age pw \<le> 0"
    and "w_faults w = FailBefore # fs" and "\<forall>f\<in>set fs. f = NoFault" and "snapshot_policy_enabled pw = False"
    and "event_effect D J ev (positions_at (pw_agg pw) (pw_pid_str pw)) = Inr ps1"
    and "event_effect D J ev ps1 = Inr ps2" and "good_event D J ev"
    and "\<forall>sy. lot_fits val (lot_of D ps2 sy)"
    and "event_type ev = event_type_trade_executed" and "decode_trade D J (payload ev) = Some t"
  shows "\<exists>e pw1 w1 pw2 w2.
    apply_eligible D J (postgres_repo D J U P) [] [ev] (pw, w) = (Inl e, (pw1, w1)) \<and>
    w_db w1 = w_db w \<and> pw_cur pw1 = pw_cur pw \<and>
    apply_eligible D J (postgres_repo D J U P) [] [ev] (pw1, w1) = (Inr (), (pw2, w2)) \<and>
    book_at (w_db w2) (pw_pid pw) (symbol t) = projected val (lot_of D ps2 (symbol t))"
proof -
  let ?R = "postgres_repo D J U P" and ?k = "pw_pid_str pw"
  note e = pg_laws.repository [OF assms(1), of J U]
  have key: "v_key (postgres_views U P) (cursor_from_event (last [ev]))"
    using assms(2) by (simp add: cursor_from_event_def)
  have st: "event_too_stale_for_apply ?R ev (pw_max_event_age pw) u = (False, u)" for u
    using assms(3) by (simp add: event_too_stale_for_apply_def)
  obtain r1 agg1 where a1: "apply_event D J (pw_agg pw) ?k ev = (r1, agg1)" by (rule prod.exhaust)
  have p1: "r1 = Inr ()" "positions_at agg1 ?k = ps1"
    using apply_event_fst [of D J "pw_agg pw" ?k ev] apply_event_positions [of D J "pw_agg pw" ?k ev] a1 assms(7)
    by simp_all
  define pw1 where "pw1 = pw\<lparr>pw_agg := agg1\<rparr>"
  define w1 where "w1 = snd (next_call w)"
  have b1: "apply_batch D J P (pw_pid pw) ?k [ev] agg1 w = (Inl (EStore ''apply batch''), w1)"
    using assms(4) by (simp add: apply_batch_def db_tx_def w1_def next_call_def)
  have run1: "apply_eligible D J ?R [] [ev] (pw, w) = (Inl (EStore ''apply batch''), (pw1, w1))"
    using a1 p1(1) b1 st by (simp add: flush_apply_batch_def pw1_def)
  have h1: "healthy w1" using assms(4,5) by (simp add: w1_def next_call_def healthy_def)
  obtain r2 agg2 where a2: "apply_event D J agg1 ?k ev = (r2, agg2)" by (rule prod.exhaust)
  have p2: "r2 = Inr ()" "positions_at agg2 ?k = ps2"
    using apply_event_fst [of D J agg1 ?k ev] apply_event_positions [of D J agg1 ?k ev] a2 p1(2) assms(8)
    by simp_all
  have tc: "touched_symbols D J [ev] = Inr [symbol t]" using assms(11,12) by simp
  obtain u w2 where b2: "apply_batch D J P (pw_pid pw) ?k [ev] agg2 w1 = (u, w2)" by (rule prod.exhaust)
  have u: "u = Inr ()"
    using event_repository.batch_ok [OF e, of w1 "[ev]" "[symbol t]" agg2 ?k "pw_pid pw"] h1 tc b2 p2(2) assms(9-12)
    by (simp add: good_event_def good_trade_def)
  have bk: "book_at (w_db w2) (pw_pid pw) (symbol t) = projected val (lot_of D ps2 (symbol t))"
    using event_repository.batch_commit [OF e _ key, of w2 "pw_pid pw" ?k agg2 w1] b2 u tc p2(2) by simp
  define s2 where "s2 = ((pw1\<lparr>pw_agg := agg2, pw_cur := cursor_from_event ev\<rparr>),
    (if pw_risk_scheduler pw then risk_request (pw_pid pw) w2 else w2))"
  have ns: "\<not> snapshot_policy_enabled (fst s2)"
    using assms(6) by (simp add: s2_def pw1_def snapshot_policy_enabled_def)
  have "apply_eligible D J ?R [] [ev] (pw1, w1) = (Inr (), maybe_snapshot_after_apply D ?R [ev] s2)"
    using a2 p2(1) b2 u st by (simp add: flush_apply_batch_def pw1_def s2_def Let_def)
  then have run2: "apply_eligible D J ?R [] [ev] (pw1, w1) = (Inr (), (fst s2, snd s2))"
    using ns by (simp add: maybe_snapshot_after_apply_def)
  have "w_db (snd s2) = w_db w2" by (simp add: s2_def)
  then show ?thesis using run1 run2 bk
    by (intro exI [of _ "EStore ''apply batch''"] exI [of _ pw1] exI [of _ w1] exI [of _ "fst s2"] exI [of _ "snd s2"])
      (simp add: pw1_def w1_def)
qed

theorem failed_batch_counts_twice_witness:
  "\<exists>e pw1 w1 pw2 w2.
    apply_eligible ref_dec ref_json (postgres_repo ref_dec ref_json ref_uuid ref_pg) [] [scan_event_row ref_uuid sample_row]
      (sample_worker 0, sample_world (empty_db\<lparr>db_events := [sample_row]\<rparr>) [FailBefore]) = (Inl e, (pw1, w1)) \<and>
    apply_eligible ref_dec ref_json (postgres_repo ref_dec ref_json ref_uuid ref_pg) [] [scan_event_row ref_uuid sample_row]
      (pw1, w1) = (Inr (), (pw2, w2)) \<and> book_at (w_db w2) 7 ''AAPL'' = (20, 5, 0)"
proof -
  let ?ev = "scan_event_row ref_uuid sample_row"
    and ?w = "sample_world (empty_db\<lparr>db_events := [sample_row]\<rparr>) [FailBefore]"
  let ?lot = "\<lambda>n. \<lparr>lot_quantity = RDec n 0, average_cost = RDec 50000000000000000 16, realized_pnl = RDec 0 0\<rparr>"
  have t: "pg_time ref_pg (event_time ?ev) = event_time ?ev" by (simp add: ref_pg_def sample_row_def)
  have f: "w_faults ?w = FailBefore # []" by (simp add: sample_world_def)
  have sp: "snapshot_policy_enabled (sample_worker 0) = False"
    by (simp add: snapshot_policy_enabled_def sample_worker_def new_partition_worker_def split_beta)
  have e1: "event_effect ref_dec ref_json ?ev (positions_at (pw_agg (sample_worker 0)) (pw_pid_str (sample_worker 0))) =
      Inr [(''AAPL'', ?lot 10)]"
    unfolding sample_worker_simps by code_simp
  have e2: "event_effect ref_dec ref_json ?ev [(''AAPL'', ?lot 10)] = Inr [(''AAPL'', ?lot 20)]" by code_simp
  have g: "good_event ref_dec ref_json ?ev" by code_simp
  have z: "lot_fits rval (zero_lot ref_dec)"
    by (simp add: lot_fits_def fits_numeric_def zero_lot_def ref.val_zero round_away_def)
  have l: "lot_fits rval (?lot 20)" by code_simp
  have fit: "\<forall>sy. lot_fits rval (lot_of ref_dec [(''AAPL'', ?lot 20)] sy)" using z l by (simp add: lot_of_def)
  have ty: "event_type ?ev = event_type_trade_executed" by (simp add: sample_row_def)
  have dc: "decode_trade ref_dec ref_json (payload ?ev) = Some (sample_trade side_buy ''AAPL'' 10 5)" by code_simp
  have bk: "projected rval (lot_of ref_dec [(''AAPL'', ?lot 20)] ''AAPL'') = (20, 5, 0)" by code_simp
  have a: "pw_max_event_age (sample_worker 0) \<le> 0" "\<forall>f\<in>set []. f = NoFault" by simp_all
  have sy: "symbol (sample_trade side_buy ''AAPL'' 10 5) = ''AAPL''" by (simp add: sample_trade_def)
  from failed_batch_counts_twice [OF refp.pg_laws_axioms t a(1) f a(2) sp e1 e2 g fit ty dc, of ref_uuid]
  show ?thesis
  proof (elim exE conjE, goal_cases)
    case (1 e pw1 w1 pw2 w2)
    have "book_at (w_db w2) 7 ''AAPL'' = (20, 5, 0)" using 1(5) bk unfolding sy sample_worker_simps(1) by simp
    then show ?case using 1(1,4) by (intro exI conjI)
  qed
qed

section \<open>The price worker\<close>

text \<open>
  (C12) Without an age limit for events (the default) the pump of a price partition returns, and when it returns the price marks are those of
  applying the events taken one after another (the last price of a symbol wins), the cursor is
  at the last of them, and exactly the payloads that do not decode were put aside; without an
  error only events less than the watermark behind the newest are left.
\<close>

theorem price_pump_applies_prices:
  assumes "pg_laws D val P" and "store_inv P (w_db w)" and "pg_time P (cur_time (pp_cur pw)) = cur_time (pp_cur pw)"
    and "pp_max_event_age pw \<le> 0"
    and "\<forall>ev\<in>set (stream_of U (w_db w) (pp_pid pw)). event_type ev = event_type_price_updated"
  shows "\<exists>r pw' w' evs rest. price_pump_after_cursor D J (postgres_repo D J U P) (pw, w) = Some (r, (pw', w')) \<and>
    events_after (pp_cur pw) (stream_of U (w_db w) (pp_pid pw)) = evs @ rest \<and>
    marks_at (w_db w') = fold (mark_event D J val) evs (marks_at (w_db w)) \<and>
    dead_at (w_db w') = dead_at (w_db w) @ map (Pair (pp_pid pw)) (filter (bad_price D J) evs) \<and>
    cursor_at (w_db w') (pp_pid pw) = (if evs = [] then cursor_at (w_db w) (pp_pid pw) else cursor_from_event (last evs)) \<and>
    (r = Inr () \<longrightarrow> pp_cur pw' = (if evs = [] then pp_cur pw else cursor_from_event (last evs)) \<and>
      within_watermark (pp_watermark pw) (stream_of U (w_db w) (pp_pid pw)) rest)"
proof -
  note e = pg_laws.price_store [OF assms(1), of J U]
  obtain r s' where run: "price_pump_after_cursor D J (postgres_repo D J U P) (pw, w) = Some (r, s')"
    and res: "price_repository.price_pump_result D val J (postgres_views U P) (\<lambda>w. marks_at (w_db w)) pw w r s'"
    using price_repository.price_pump_logged [OF e, of w pw] assms(2-5) by auto
  obtain xs rest where x: "events_after (pp_cur pw) (stream_of U (w_db w) (pp_pid pw)) = xs @ rest"
    "price_repository.price_result D val J (postgres_views U P) (\<lambda>w. marks_at (w_db w)) pw w xs r s'"
    "r = Inr () \<longrightarrow> within_watermark (pp_watermark pw) (stream_of U (w_db w) (pp_pid pw)) rest"
    using res by (auto simp: price_repository.price_pump_result_def [OF e])
  obtain pre post where p: "xs = pre @ post" "marks_at (w_db (snd s')) = fold (mark_event D J val) pre (marks_at (w_db w))"
    "dead_at (w_db (snd s')) = dead_at (w_db w) @ map (Pair (pp_pid pw)) (filter (bad_price D J) pre)"
    "cursor_at (w_db (snd s')) (pp_pid pw) = (if pre = [] then cursor_at (w_db w) (pp_pid pw) else cursor_from_event (last pre))"
    "r = Inr () \<longrightarrow> post = [] \<and> pp_cur (fst s') = (if pre = [] then pp_cur pw else cursor_from_event (last pre))"
    using x(2) [unfolded price_repository.price_result_def [OF e]] that by (elim conjE exE) (simp cong: if_cong)
  have "events_after (pp_cur pw) (stream_of U (w_db w) (pp_pid pw)) = pre @ (post @ rest)" using x(1) p(1) by simp
  then show ?thesis using run p(2-5) x(3)
    by (intro exI [of _ r] exI [of _ "fst s'"] exI [of _ "snd s'"] exI [of _ pre] exI [of _ "post @ rest"]) simp
qed

definition sample_price_row :: "uuid \<Rightarrow> time \<Rightarrow> int \<Rightarrow> event_row" where
  "sample_price_row i t p = \<lparr>er_event_id = i, er_portfolio_id = 9, er_event_time = t,
     er_event_type = event_type_price_updated, er_idempotency_key = ref_uuid_str i, er_source = ''feed'',
     er_payload = JObj (price_members ref_json \<lparr>p_symbol = ''AAPL'', p_price = RDec p 0, p_currency = ''USD'',
       source_sequence = 3\<rparr>), er_created_at = 0\<rparr>"

theorem price_pump_applies_prices_witness:
  "\<exists>r s'. price_pump_after_cursor ref_dec ref_json (postgres_repo ref_dec ref_json ref_uuid ref_pg)
    (new_price_partition_worker ref_uuid 0 0 9,
     sample_world (empty_db\<lparr>db_events := [sample_price_row 1 1000000 5, sample_price_row 2 2000000 6]\<rparr>) []) = Some (r, s')"
proof -
  let ?d = "empty_db\<lparr>db_events := [sample_price_row 1 1000000 5, sample_price_row 2 2000000 6]\<rparr>"
    and ?pw = "new_price_partition_worker ref_uuid 0 0 9"
  have k: "ref_uuid_str 1 \<noteq> ref_uuid_str 2" using refu.str_inject [of 1 2] by (simp add: ref_uuid_def)
  have inv: "store_inv ref_pg (w_db (sample_world ?d []))"
    using k by (simp add: store_inv_def sample_price_row_def empty_db_def ref_pg_def uuid_nil_def event_key_def)
  have pw: "pg_time ref_pg (cur_time (pp_cur ?pw)) = cur_time (pp_cur ?pw)" "pp_max_event_age ?pw \<le> 0" "pp_pid ?pw = 9"
    by (simp_all add: new_price_partition_worker_def zero_cursor_def refp.time_zero)
  have ty: "\<forall>ev\<in>set (stream_of ref_uuid (w_db (sample_world ?d [])) (pp_pid ?pw)). event_type ev = event_type_price_updated"
    by (auto simp: set_stream_of empty_db_def sample_price_row_def)
  from price_pump_applies_prices [OF refp.pg_laws_axioms inv pw(1,2) ty, of ref_json]
  show ?thesis by (elim exE conjE) (intro exI)
qed

end
