(* ===== verification/Go_Time.thy ===== *)
theory Go_Time
  imports Decimal_Ref
begin

text \<open>
  Instants in JSON: \<^verbatim>\<open>time.Time.UnmarshalJSON\<close>, which reads RFC 3339 strictly (two-digit fields,
  days of the month, fractions truncated to nanoseconds, a zone of \<^verbatim>\<open>Z\<close> or hours and minutes).
\<close>

definition leap_year :: "int \<Rightarrow> bool" where
  "leap_year y \<longleftrightarrow> y mod 4 = 0 \<and> (y mod 100 \<noteq> 0 \<or> y mod 400 = 0)"

definition month_days :: "int \<Rightarrow> int list" where
  "month_days y = [31, if leap_year y then 29 else 28, 31, 30, 31, 30, 31, 31, 30, 31, 30, 31]"

definition days_before_year :: "int \<Rightarrow> int" where
  "days_before_year y = 365 * (y - 1) + (y - 1) div 4 - (y - 1) div 100 + (y - 1) div 400"

text \<open>The date and time of day in UTC, as nanoseconds since January 1, year 1.\<close>

definition civil_time :: "int \<Rightarrow> nat \<Rightarrow> int \<Rightarrow> int \<Rightarrow> int \<Rightarrow> int \<Rightarrow> int \<Rightarrow> int" where
  "civil_time y m d h mi s ns =
     (((days_before_year y + sum_list (take (m - 1) (month_days y)) + d - 1) * 24 + h) * 60 + mi) * 60 * 1000000000
       + s * 1000000000 + ns"

definition num :: "nat \<Rightarrow> nat \<Rightarrow> nat \<Rightarrow> string \<Rightarrow> (nat \<times> string) option" where
  "num n lo hi s = (let ds = take n s; v = digits_value ds
     in if length ds = n \<and> list_all is_digit ds \<and> lo \<le> v \<and> v \<le> hi then Some (v, drop n s) else None)"

definition lit :: "char \<Rightarrow> string \<Rightarrow> string option" where
  "lit c s = (if s \<noteq> [] \<and> hd s = c then Some (tl s) else None)"

definition fraction :: "string \<Rightarrow> nat \<times> string" where
  "fraction s = (if length s \<ge> 2 \<and> hd s = CHR ''.'' \<and> is_digit (s ! 1)
     then let ds = takeWhile is_digit (tl s); ns = take 9 ds
          in (digits_value ns * 10 ^ (9 - length ns), drop (length ds + 1) s)
     else (0, s))"

definition zone :: "string \<Rightarrow> int option" where
  "zone s = (if s = ''Z'' then Some 0
     else if length s \<noteq> 6 \<or> s ! 3 \<noteq> CHR '':'' \<or> (hd s \<noteq> CHR ''-'' \<and> hd s \<noteq> CHR ''+'') then None
     else case num 2 0 23 (drop 1 s) of None \<Rightarrow> None
       | Some (h, _) \<Rightarrow> (case num 2 0 59 (drop 4 s) of None \<Rightarrow> None
         | Some (m, _) \<Rightarrow> Some ((if hd s = CHR ''-'' then - 1 else 1) * (int h * 60 + int m) * 60)))"

definition date_part :: "string \<Rightarrow> (int \<times> nat \<times> int \<times> string) option" where
  "date_part s = (case num 4 0 9999 s of None \<Rightarrow> None | Some (y, s1) \<Rightarrow>
     (case lit CHR ''-'' s1 of None \<Rightarrow> None | Some s2 \<Rightarrow>
     (case num 2 1 12 s2 of None \<Rightarrow> None | Some (m, s3) \<Rightarrow>
     (case lit CHR ''-'' s3 of None \<Rightarrow> None | Some s4 \<Rightarrow>
     (case num 2 1 (nat (month_days (int y) ! (m - 1))) s4 of None \<Rightarrow> None | Some (d, s5) \<Rightarrow>
       map_option (\<lambda>s6. (int y, m, int d, s6)) (lit CHR ''T'' s5))))))"

definition clock_part :: "string \<Rightarrow> (int \<times> int \<times> int \<times> string) option" where
  "clock_part s = (case num 2 0 23 s of None \<Rightarrow> None | Some (h, s1) \<Rightarrow>
     (case lit CHR '':'' s1 of None \<Rightarrow> None | Some s2 \<Rightarrow>
     (case num 2 0 59 s2 of None \<Rightarrow> None | Some (m, s3) \<Rightarrow>
     (case lit CHR '':'' s3 of None \<Rightarrow> None | Some s4 \<Rightarrow>
       map_option (\<lambda>(c, s5). (int h, int m, int c, s5)) (num 2 0 59 s4)))))"

definition parse_rfc3339 :: "string \<Rightarrow> int option" where
  "parse_rfc3339 s = (case date_part s of None \<Rightarrow> None
     | Some (y, m, d, s1) \<Rightarrow> (case clock_part s1 of None \<Rightarrow> None
       | Some (h, mi, c, s2) \<Rightarrow> (case fraction s2 of (ns, s3) \<Rightarrow>
           map_option (\<lambda>off. civil_time y m d h mi c (int ns) - off * 1000000000) (zone s3))))"

end
