(* ===== verification/Http_Api.thy ===== *)
theory Http_Api
  imports Domain_Model Go_Strings Go_Time
begin

text \<open>
  What the HTTP handlers share: responses, the error envelope of \<^verbatim>\<open>api_error.go\<close>, the mapping of
  errors in \<^verbatim>\<open>domain_http.go\<close>, and the binding of request bodies (\<^verbatim>\<open>ShouldBindJSON\<close> of the gin
  framework: \<^verbatim>\<open>encoding/json\<close> into a struct, then \<^verbatim>\<open>binding:"required"\<close>, which refuses an empty
  string and an absent raw message). Responses are status and JSON body; headers are left out
  except the session cookie of \<open>Auth_Api\<close>.
\<close>

record http_response =
  rs_status :: int
  rs_body :: json

definition api_error :: "string \<Rightarrow> int \<Rightarrow> string \<Rightarrow> string \<Rightarrow> http_response" where
  "api_error rid st code msg = \<lparr>rs_status = st, rs_body = JObj [(''error_code'', JStr code),
     (''message'', JStr msg), (''details'', JObj []), (''request_id'', JStr rid)]\<rparr>"

definition err_code_validation :: string where "err_code_validation = ''VALIDATION_ERROR''"
definition err_code_idempotency_conflict :: string where "err_code_idempotency_conflict = ''IDEMPOTENCY_CONFLICT''"
definition err_code_late_event :: string where "err_code_late_event = ''LATE_EVENT_BEYOND_WATERMARK''"
definition err_code_position_underflow :: string where "err_code_position_underflow = ''POSITION_UNDERFLOW''"
definition err_code_internal :: string where "err_code_internal = ''INTERNAL_ERROR''"
definition err_code_not_found :: string where "err_code_not_found = ''NOT_FOUND''"
definition err_code_unauthorized :: string where "err_code_unauthorized = ''UNAUTHORIZED''"
definition err_code_forbidden :: string where "err_code_forbidden = ''FORBIDDEN''"

section \<open>Errors\<close>

text \<open>
  The first sentinel that \<^verbatim>\<open>errors.Is\<close> finds, and the text after it, trimmed. As everywhere in the
  model, the texts of standard library errors that the code appends are left out of messages.
\<close>

definition map_domain_errors :: "err \<Rightarrow> (int \<times> string \<times> string) option" where
  "map_domain_errors e = (case e of
     EValidation m \<Rightarrow> Some (400, err_code_validation, trim_space m)
   | EInvalidPayload m \<Rightarrow> Some (400, err_code_validation, trim_space m)
   | EInvalidEvent m \<Rightarrow> Some (400, err_code_validation, trim_space m)
   | EUnknownType m \<Rightarrow> Some (400, err_code_validation, trim_space m)
   | EPositionUnderflow \<Rightarrow> Some (409, err_code_position_underflow, ''trade would exceed position'')
   | EDuplicateEvent m \<Rightarrow> Some (409, err_code_idempotency_conflict, trim_space m)
   | EOutOfOrderEvent m \<Rightarrow> Some (409, err_code_late_event, trim_space m)
   | _ \<Rightarrow> None)"

definition map_domain_ingest_error :: "err \<Rightarrow> int \<times> string \<times> string" where
  "map_domain_ingest_error e = (case map_domain_errors e of
     Some r \<Rightarrow> r | None \<Rightarrow> (500, err_code_internal, ''internal error''))"

definition validation_failed :: "string \<Rightarrow> string \<Rightarrow> http_response" where
  "validation_failed rid msg = api_error rid 400 err_code_validation msg"

definition internal_error :: "string \<Rightarrow> http_response" where
  "internal_error rid = api_error rid 500 err_code_internal ''internal error''"

section \<open>Binding\<close>

text \<open>
  A body is decoded into the zero value of a request record by its members, in order; \<open>assign\<close> is the
  assignment of one member to the field its name selects.
\<close>

definition bind_members ::
  "string list \<Rightarrow> (string \<Rightarrow> json \<Rightarrow> 'r \<Rightarrow> 'r option) \<Rightarrow> (string \<times> json) list \<Rightarrow> 'r \<Rightarrow> 'r option" where
  "bind_members names assign ms r = fold (\<lambda>m acc. case acc of None \<Rightarrow> None
     | Some x \<Rightarrow> (case field_match names (fst m) of None \<Rightarrow> Some x | Some f \<Rightarrow> assign f (snd m) x)) ms (Some r)"

fun bind_body ::
  "string list \<Rightarrow> (string \<Rightarrow> json \<Rightarrow> 'r \<Rightarrow> 'r option) \<Rightarrow> raw_message \<Rightarrow> 'r \<Rightarrow> 'r option" where
  "bind_body names assign (RawDoc (JObj ms)) r = bind_members names assign ms r"
| "bind_body names assign (RawDoc JNull) r = Some r"
| "bind_body names assign _ r = None"

fun decode_time_ptr :: "json \<Rightarrow> time option option" where
  "decode_time_ptr JNull = Some None"
| "decode_time_ptr (JStr s) = map_option Some (parse_rfc3339 s)"
| "decode_time_ptr _ = None"

end
