(* ===== verification/Account_Store.thy ===== *)
theory Account_Store
  imports Event_Store Go_Strings
begin

text \<open>
  The account side of \<^verbatim>\<open>internal/events/postgres.go\<close>: the portfolio catalog, users, sessions and
  the persisted watchlist of the price feed, over the tables of \<^verbatim>\<open>migrations/000009\<close> to
  \<^verbatim>\<open>000011\<close> with their keys. Two things belong to PostgreSQL and its driver and are the fields of
  \<open>account_api\<close>: the SQL function \<^verbatim>\<open>LOWER\<close>, and what scanning a \<^verbatim>\<open>NULL\<close> owner into a UUID gives
  (\<open>None\<close> when it is an error).
\<close>

record account_api =
  sql_lower :: "string \<Rightarrow> string"
  scan_null_uuid :: "uuid option"

record portfolio_catalog_entry =
  pe_portfolio_id :: uuid
  pe_owner_user_id :: uuid
  pe_name :: string
  pe_base_currency :: string
  pe_created_at :: time
  pe_updated_at :: time

record user_account =
  ua_user_id :: uuid
  ua_display_name :: string
  ua_work_email :: string
  ua_password_hash :: string
  ua_created_at :: time
  ua_updated_at :: time

record user_session =
  us_session_id :: uuid
  us_session_user_id :: uuid
  us_expires_at :: time
  us_revoked_at :: "time option"
  us_session_created_at :: time

section \<open>The portfolio catalog\<close>

definition scan_portfolio :: "account_api \<Rightarrow> portfolio_row \<Rightarrow> portfolio_catalog_entry res" where
  "scan_portfolio A r =
     (case (case pf_owner_user_id r of None \<Rightarrow> scan_null_uuid A | Some u \<Rightarrow> Some u) of
        None \<Rightarrow> Inl (EStore ''scan portfolio catalog row'')
      | Some u \<Rightarrow> Inr \<lparr>pe_portfolio_id = pf_portfolio_id r, pe_owner_user_id = u, pe_name = pf_name r,
          pe_base_currency = pf_base_currency r, pe_created_at = pf_created_at r,
          pe_updated_at = pf_updated_at r\<rparr>)"

fun scan_portfolios :: "account_api \<Rightarrow> portfolio_row list \<Rightarrow> portfolio_catalog_entry list res" where
  "scan_portfolios A [] = Inr []"
| "scan_portfolios A (r # rs) = (case scan_portfolio A r of
     Inl e \<Rightarrow> Inl e
   | Inr x \<Rightarrow> (case scan_portfolios A rs of Inl e \<Rightarrow> Inl e | Inr xs \<Rightarrow> Inr (x # xs)))"

text \<open>\<^verbatim>\<open>ORDER BY created_at DESC, portfolio_id ASC\<close>.\<close>

definition catalog_order :: "portfolio_row list \<Rightarrow> portfolio_row list" where
  "catalog_order rs = sort_key (\<lambda>r. Cursor (- pf_created_at r) (pf_portfolio_id r)) rs"

definition list_portfolios :: "account_api \<Rightarrow> (world, portfolio_catalog_entry list) prog" where
  "list_portfolios A = db_query ''list portfolios catalog''
     (\<lambda>now d. scan_portfolios A (catalog_order (db_portfolios d)))"

definition list_portfolios_by_owner ::
  "account_api \<Rightarrow> uuid \<Rightarrow> (world, portfolio_catalog_entry list) prog" where
  "list_portfolios_by_owner A owner = db_query ''list portfolios by owner''
     (\<lambda>now d. scan_portfolios A (catalog_order (filter (\<lambda>r. pf_owner_user_id r = Some owner) (db_portfolios d))))"

definition insert_portfolio ::
  "account_api \<Rightarrow> pg_api \<Rightarrow> uuid option \<Rightarrow> uuid \<Rightarrow> string \<Rightarrow> string \<Rightarrow> time \<Rightarrow> db \<Rightarrow>
   (portfolio_catalog_entry res \<times> db) res" where
  "insert_portfolio A P owner pid name ccy now d =
     (if \<not> (pg_text_ok P name \<and> pg_text_ok P ccy) then Inl (EStore ''create portfolio'')
      else if pid \<in> pf_portfolio_id ` set (db_portfolios d) then Inl (EStore ''create portfolio'')
      else if (case owner of None \<Rightarrow> False | Some u \<Rightarrow> u \<notin> us_user_id ` set (db_users d))
        then Inl (EStore ''create portfolio'')
      else let r = \<lparr>pf_portfolio_id = pid, pf_owner_user_id = owner, pf_name = name, pf_base_currency = ccy,
                 pf_created_at = pg_time P now, pf_updated_at = pg_time P now\<rparr>
           in Inr (scan_portfolio A r, d\<lparr>db_portfolios := db_portfolios d @ [r]\<rparr>))"

text \<open>The row is written by the statement before the returned columns are scanned.\<close>

definition create_portfolio_row ::
  "account_api \<Rightarrow> pg_api \<Rightarrow> uuid option \<Rightarrow> uuid \<Rightarrow> string \<Rightarrow> string \<Rightarrow> (world, portfolio_catalog_entry) prog" where
  "create_portfolio_row A P owner pid name ccy w =
     (case db_tx ''create portfolio'' (insert_portfolio A P owner pid name ccy) w of
        (Inl e, w') \<Rightarrow> (Inl e, w')
      | (Inr r, w') \<Rightarrow> (r, w'))"

definition create_portfolio ::
  "account_api \<Rightarrow> pg_api \<Rightarrow> uuid \<Rightarrow> string \<Rightarrow> string \<Rightarrow> (world, portfolio_catalog_entry) prog" where
  "create_portfolio A P pid name ccy = create_portfolio_row A P None pid name ccy"

definition create_portfolio_for_owner ::
  "account_api \<Rightarrow> pg_api \<Rightarrow> uuid \<Rightarrow> uuid \<Rightarrow> string \<Rightarrow> string \<Rightarrow> (world, portfolio_catalog_entry) prog" where
  "create_portfolio_for_owner A P owner pid name ccy = create_portfolio_row A P (Some owner) pid name ccy"

definition portfolio_owned_by_user :: "uuid \<Rightarrow> uuid \<Rightarrow> (world, bool) prog" where
  "portfolio_owned_by_user pid owner = db_query ''check portfolio owner''
     (\<lambda>now d. Inr (\<exists>r\<in>set (db_portfolios d). pf_portfolio_id r = pid \<and> pf_owner_user_id r = Some owner))"

section \<open>Users\<close>

definition scan_user :: "user_row \<Rightarrow> user_account" where
  "scan_user r = \<lparr>ua_user_id = us_user_id r, ua_display_name = us_display_name r, ua_work_email = us_work_email r,
     ua_password_hash = us_password_hash r, ua_created_at = us_created_at r, ua_updated_at = us_updated_at r\<rparr>"

definition create_user ::
  "case_api \<Rightarrow> account_api \<Rightarrow> pg_api \<Rightarrow> user_account \<Rightarrow> (world, user_account) prog" where
  "create_user N A P u = db_tx ''create user'' (\<lambda>now d.
     let email = to_lower N (trim_space (ua_work_email u));
         r = \<lparr>us_user_id = ua_user_id u, us_display_name = ua_display_name u, us_work_email = email,
           us_password_hash = ua_password_hash u, us_created_at = pg_time P now, us_updated_at = pg_time P now\<rparr>
     in if \<not> (pg_text_ok P (ua_display_name u) \<and> pg_text_ok P email \<and> pg_text_ok P (ua_password_hash u))
          then Inl (EStore ''create user'')
        else if ua_user_id u \<in> us_user_id ` set (db_users d) then Inl (EStore ''create user'')
        else if sql_lower A email \<in> (\<lambda>r. sql_lower A (us_work_email r)) ` set (db_users d)
          then Inl (EStore ''create user'')
        else Inr (scan_user r, d\<lparr>db_users := db_users d @ [r]\<rparr>))"

definition get_user_by_email ::
  "case_api \<Rightarrow> account_api \<Rightarrow> string \<Rightarrow> (world, user_account option) prog" where
  "get_user_by_email N A email = db_query ''get user by email'' (\<lambda>now d.
     Inr (map_option scan_user (find (\<lambda>r. sql_lower A (us_work_email r) =
       sql_lower A (to_lower N (trim_space email))) (db_users d))))"

definition get_user_by_id :: "uuid \<Rightarrow> (world, user_account option) prog" where
  "get_user_by_id uid = db_query ''get user by id'' (\<lambda>now d.
     Inr (map_option scan_user (find (\<lambda>r. us_user_id r = uid) (db_users d))))"

section \<open>Sessions\<close>

definition scan_session :: "session_row \<Rightarrow> user_session" where
  "scan_session r = \<lparr>us_session_id = se_session_id r, us_session_user_id = se_user_id r,
     us_expires_at = se_expires_at r, us_revoked_at = se_revoked_at r, us_session_created_at = se_created_at r\<rparr>"

definition create_session :: "pg_api \<Rightarrow> user_session \<Rightarrow> (world, user_session) prog" where
  "create_session P s = db_tx ''create session'' (\<lambda>now d.
     let r = \<lparr>se_session_id = us_session_id s, se_user_id = us_session_user_id s,
           se_expires_at = pg_time P (us_expires_at s), se_revoked_at = None, se_created_at = pg_time P now\<rparr>
     in if us_session_id s \<in> se_session_id ` set (db_sessions d) then Inl (EStore ''create session'')
        else if us_session_user_id s \<notin> us_user_id ` set (db_users d) then Inl (EStore ''create session'')
        else Inr (scan_session r, d\<lparr>db_sessions := db_sessions d @ [r]\<rparr>))"

definition get_session_by_id :: "uuid \<Rightarrow> (world, user_session option) prog" where
  "get_session_by_id sid = db_query ''get session'' (\<lambda>now d.
     Inr (map_option scan_session (find (\<lambda>r. se_session_id r = sid) (db_sessions d))))"

definition revoke_session :: "pg_api \<Rightarrow> uuid \<Rightarrow> (world, unit) prog" where
  "revoke_session P sid = db_tx ''revoke session'' (\<lambda>now d.
     Inr ((), d\<lparr>db_sessions := map (\<lambda>r. if se_session_id r = sid then r\<lparr>se_revoked_at := Some (pg_time P now)\<rparr> else r)
       (db_sessions d)\<rparr>))"

section \<open>The watchlist of the price feed\<close>

fun normalize_from :: "case_api \<Rightarrow> string list \<Rightarrow> string list \<Rightarrow> string list" where
  "normalize_from N seen [] = []"
| "normalize_from N seen (s # ss) =
     (let v = to_upper N (trim_space s)
      in if v = [] then normalize_from N seen ss
         else if v \<in> set seen then normalize_from N seen ss
         else v # normalize_from N (v # seen) ss)"

definition normalize_watchlist_symbols :: "case_api \<Rightarrow> string list \<Rightarrow> string list" where
  "normalize_watchlist_symbols N ss = normalize_from N [] ss"

text \<open>\<^verbatim>\<open>json.Unmarshal\<close> into \<^verbatim>\<open>[]string\<close>: a \<^verbatim>\<open>null\<close> document is no list, a \<^verbatim>\<open>null\<close> element the empty string.\<close>

fun decode_strings :: "json list \<Rightarrow> string list option" where
  "decode_strings [] = Some []"
| "decode_strings (j # js) = (case decode_string j [] of
     None \<Rightarrow> None
   | Some s \<Rightarrow> map_option (\<lambda>ss. s # ss) (decode_strings js))"

fun decode_watchlist :: "json \<Rightarrow> string list option" where
  "decode_watchlist JNull = Some []"
| "decode_watchlist (JArr js) = decode_strings js"
| "decode_watchlist _ = None"

definition watchlist_key :: string where
  "watchlist_key = ''price_feed_watchlist''"

definition load_price_feed_watchlist :: "case_api \<Rightarrow> (world, string list option) prog" where
  "load_price_feed_watchlist N = db_query ''load price feed watchlist'' (\<lambda>now d.
     case map_of (db_settings d) watchlist_key of
       None \<Rightarrow> Inr None
     | Some j \<Rightarrow> (case decode_watchlist j of
         None \<Rightarrow> Inl (EOther ''decode price feed watchlist'')
       | Some ss \<Rightarrow> Inr (Some (normalize_watchlist_symbols N ss))))"

definition upsert_price_feed_watchlist :: "case_api \<Rightarrow> pg_api \<Rightarrow> string list \<Rightarrow> (world, unit) prog" where
  "upsert_price_feed_watchlist N P ss = db_tx ''upsert price feed watchlist'' (\<lambda>now d.
     case pg_jsonb P (JArr (map JStr (normalize_watchlist_symbols N ss))) of
       None \<Rightarrow> Inl (EStore ''upsert price feed watchlist'')
     | Some j \<Rightarrow> Inr ((), d\<lparr>db_settings := AList.update watchlist_key j (db_settings d)\<rparr>))"

section \<open>Lemmas\<close>

text \<open>A normalized list is in normal form: trimmed, not empty, upper case, no repetitions.\<close>

lemma normalize_from_props:
  "distinct (normalize_from N seen ss) \<and> set (normalize_from N seen ss) \<inter> set seen = {} \<and>
   (\<forall>v\<in>set (normalize_from N seen ss). v \<noteq> [] \<and> (\<exists>s\<in>set ss. v = to_upper N (trim_space s)))"
proof (induction ss arbitrary: seen)
  case (Cons s ss)
  from Cons [of seen] Cons [of "to_upper N (trim_space s) # seen"] show ?case
    by (auto simp: Let_def)
qed simp

lemma normalize_covers:
  "to_upper N (trim_space s) \<noteq> [] \<Longrightarrow> s \<in> set ss \<Longrightarrow>
    to_upper N (trim_space s) \<in> set (normalize_from N seen ss) \<union> set seen"
proof (induction ss arbitrary: seen)
  case (Cons t ss)
  from Cons.IH [of seen] Cons.IH [of "to_upper N (trim_space t) # seen"] Cons.prems show ?case
    by (auto simp: Let_def)
qed simp

lemma decode_strings_map [simp]: "decode_strings (map JStr ss) = Some ss"
  by (induction ss) auto

lemma normalize_again:
  assumes "\<forall>v\<in>set ss. v \<noteq> [] \<and> to_upper N (trim_space v) = v" and "distinct ss" and "set ss \<inter> set seen = {}"
  shows "normalize_from N seen ss = ss"
  using assms
proof (induction ss arbitrary: seen)
  case (Cons v ss)
  from Cons.IH [of "v # seen"] Cons.prems show ?case by (auto simp: Let_def)
qed simp

lemma normalize_twice:
  "\<forall>s\<in>set ss. is_ascii s \<Longrightarrow>
    normalize_watchlist_symbols N (normalize_watchlist_symbols N ss) = normalize_watchlist_symbols N ss"
  using normalize_from_props [of N "[]" ss] upper_trim_again
  by (auto simp: normalize_watchlist_symbols_def intro!: normalize_again)

end
