(* ===== verification/Auth_Api.thy ===== *)
theory Auth_Api
  imports Http_Api Account_Store
begin

text \<open>
  \<^verbatim>\<open>internal/api/auth.go\<close>: registration, login, logout and the session check in front of every
  protected route, on \<^verbatim>\<open>PostgresStore\<close>. The bcrypt package is the parameter \<open>password_api\<close>, of
  which the code uses that a password matches the hash made from it; \<^verbatim>\<open>uuid.New\<close> is the argument
  \<open>fresh\<close>. A handler returns its response with the session cookie it sets, if any.
\<close>

record password_api =
  pw_generate :: "string \<Rightarrow> string option"
  pw_compare :: "string \<Rightarrow> string \<Rightarrow> bool"

locale password_laws =
  fixes B :: password_api
  assumes compare_generated: "pw_generate B p = Some h \<Longrightarrow> pw_compare B h p"

definition ref_password :: password_api where
  "ref_password = \<lparr>pw_generate = (\<lambda>p. if length p \<le> 72 then Some (''$2a$'' @ p) else None),
     pw_compare = (\<lambda>h p. h = ''$2a$'' @ p)\<rparr>"

interpretation refb: password_laws ref_password
  by unfold_locales (auto simp: ref_password_def split: if_splits)

record auth_user =
  au_user_id :: uuid
  au_display_name :: string
  au_work_email :: string

record session_cookie =
  ck_value :: string
  ck_max_age :: int

record auth_response =
  ar_response :: http_response
  ar_cookie :: "session_cookie option"

definition plain :: "http_response \<Rightarrow> auth_response" where
  "plain r = \<lparr>ar_response = r, ar_cookie = None\<rparr>"

definition unauthorized :: "string \<Rightarrow> string \<Rightarrow> http_response" where
  "unauthorized rid msg = api_error rid 401 err_code_unauthorized msg"

definition normalize_email :: "case_api \<Rightarrow> string \<Rightarrow> string" where
  "normalize_email N v = to_lower N (trim_space v)"

definition auth_user_of :: "user_account \<Rightarrow> auth_user" where
  "auth_user_of u = \<lparr>au_user_id = ua_user_id u, au_display_name = ua_display_name u, au_work_email = ua_work_email u\<rparr>"

definition auth_user_json :: "uuid_api \<Rightarrow> auth_user \<Rightarrow> json" where
  "auth_user_json U u = JObj [(''user_id'', JStr (uuid_str U (au_user_id u))),
     (''display_name'', JStr (au_display_name u)), (''work_email'', JStr (au_work_email u))]"

definition session_ttl :: "duration \<Rightarrow> duration" where
  "session_ttl ttl = (if ttl \<le> 0 then 14 * 24 * 3600 * second else ttl)"

text \<open>\<^verbatim>\<open>int(ttl.Seconds())\<close>: whole seconds of a positive duration.\<close>

definition set_session_cookie :: "uuid_api \<Rightarrow> duration \<Rightarrow> uuid \<Rightarrow> session_cookie" where
  "set_session_cookie U ttl sid = \<lparr>ck_value = uuid_str U sid, ck_max_age = session_ttl ttl div second\<rparr>"

definition clear_session_cookie :: session_cookie where
  "clear_session_cookie = \<lparr>ck_value = [], ck_max_age = - 1\<rparr>"

section \<open>The session check\<close>

definition require_auth ::
  "uuid_api \<Rightarrow> string \<Rightarrow> string option \<Rightarrow> world \<Rightarrow> (http_response + auth_user) \<times> world" where
  "require_auth U rid raw w =
     (case raw of
        None \<Rightarrow> (Inl (unauthorized rid ''authentication required''), w)
      | Some c \<Rightarrow>
        (if trim_space c = [] then (Inl (unauthorized rid ''authentication required''), w)
         else case uuid_parse U (trim_space c) of
             None \<Rightarrow> (Inl (unauthorized rid ''invalid session''), w)
           | Some sid \<Rightarrow> (case get_session_by_id sid w of
               (Inl e, w1) \<Rightarrow> (Inl (internal_error rid), w1)
             | (Inr None, w1) \<Rightarrow> (Inl (unauthorized rid ''session expired''), w1)
             | (Inr (Some s), w1) \<Rightarrow>
               (if us_revoked_at s \<noteq> None then (Inl (unauthorized rid ''session expired''), w1)
                else case read_clock w1 of (t, w2) \<Rightarrow>
                  (if t > us_expires_at s then (Inl (unauthorized rid ''session expired''), w2)
                   else case get_user_by_id (us_session_user_id s) w2 of
                       (Inl e, w3) \<Rightarrow> (Inl (internal_error rid), w3)
                     | (Inr None, w3) \<Rightarrow> (Inl (unauthorized rid ''invalid session user''), w3)
                     | (Inr (Some u), w3) \<Rightarrow> (Inr (auth_user_of u), w3))))))"

section \<open>Handlers\<close>

record register_request =
  rq_display_name :: string
  rq_work_email :: string
  rq_password :: string

definition assign_register_field :: "string \<Rightarrow> json \<Rightarrow> register_request \<Rightarrow> register_request option" where
  "assign_register_field f j r =
     (if f = ''display_name'' then map_option (\<lambda>v. r\<lparr>rq_display_name := v\<rparr>) (decode_string j (rq_display_name r))
      else if f = ''work_email'' then map_option (\<lambda>v. r\<lparr>rq_work_email := v\<rparr>) (decode_string j (rq_work_email r))
      else map_option (\<lambda>v. r\<lparr>rq_password := v\<rparr>) (decode_string j (rq_password r)))"

definition bind_register :: "raw_message \<Rightarrow> register_request option" where
  "bind_register body =
     (case bind_body [''display_name'', ''work_email'', ''password''] assign_register_field body
        \<lparr>rq_display_name = [], rq_work_email = [], rq_password = []\<rparr> of
        None \<Rightarrow> None
      | Some r \<Rightarrow> (if rq_display_name r = [] \<or> rq_work_email r = [] \<or> rq_password r = [] then None else Some r))"

record login_request =
  lq_work_email :: string
  lq_password :: string

definition assign_login_field :: "string \<Rightarrow> json \<Rightarrow> login_request \<Rightarrow> login_request option" where
  "assign_login_field f j r =
     (if f = ''work_email'' then map_option (\<lambda>v. r\<lparr>lq_work_email := v\<rparr>) (decode_string j (lq_work_email r))
      else map_option (\<lambda>v. r\<lparr>lq_password := v\<rparr>) (decode_string j (lq_password r)))"

definition bind_login :: "raw_message \<Rightarrow> login_request option" where
  "bind_login body =
     (case bind_body [''work_email'', ''password''] assign_login_field body \<lparr>lq_work_email = [], lq_password = []\<rparr> of
        None \<Rightarrow> None
      | Some r \<Rightarrow> (if lq_work_email r = [] \<or> lq_password r = [] then None else Some r))"

definition register_handler ::
  "uuid_api \<Rightarrow> case_api \<Rightarrow> account_api \<Rightarrow> pg_api \<Rightarrow> password_api \<Rightarrow> string \<Rightarrow> uuid \<Rightarrow> raw_message \<Rightarrow>
   world \<Rightarrow> auth_response \<times> world" where
  "register_handler U N A P B rid fresh body w =
     (case bind_register body of
        None \<Rightarrow> (plain (validation_failed rid ''invalid request body including JSON shape''), w)
      | Some req \<Rightarrow>
        (let display_name = trim_space (rq_display_name req); email = normalize_email N (rq_work_email req);
             password = trim_space (rq_password req)
         in if display_name = [] \<or> email = [] \<or> length password < 8
            then (plain (validation_failed rid
              ''display_name, work_email, and password (min 8 chars) are required''), w)
            else case get_user_by_email N A email w of
                (Inl e, w1) \<Rightarrow> (plain (internal_error rid), w1)
              | (Inr (Some u), w1) \<Rightarrow>
                  (plain (api_error rid 409 err_code_idempotency_conflict ''account already exists''), w1)
              | (Inr None, w1) \<Rightarrow> (case pw_generate B password of
                  None \<Rightarrow> (plain (internal_error rid), w1)
                | Some hash \<Rightarrow> (case create_user N A P \<lparr>ua_user_id = fresh, ua_display_name = display_name,
                      ua_work_email = email, ua_password_hash = hash, ua_created_at = 0, ua_updated_at = 0\<rparr> w1 of
                    (Inl e, w2) \<Rightarrow> (plain (internal_error rid), w2)
                  | (Inr u, w2) \<Rightarrow>
                      (plain \<lparr>rs_status = 201, rs_body = auth_user_json U (auth_user_of u)\<rparr>, w2)))))"

definition login_handler ::
  "uuid_api \<Rightarrow> case_api \<Rightarrow> account_api \<Rightarrow> pg_api \<Rightarrow> password_api \<Rightarrow> duration \<Rightarrow> string \<Rightarrow> uuid \<Rightarrow>
   raw_message \<Rightarrow> world \<Rightarrow> auth_response \<times> world" where
  "login_handler U N A P B ttl rid fresh body w =
     (case bind_login body of
        None \<Rightarrow> (plain (validation_failed rid ''invalid request body including JSON shape''), w)
      | Some req \<Rightarrow> (case get_user_by_email N A (normalize_email N (lq_work_email req)) w of
          (Inl e, w1) \<Rightarrow> (plain (internal_error rid), w1)
        | (Inr None, w1) \<Rightarrow> (plain (unauthorized rid ''invalid credentials''), w1)
        | (Inr (Some u), w1) \<Rightarrow>
          (if \<not> pw_compare B (ua_password_hash u) (lq_password req)
           then (plain (unauthorized rid ''invalid credentials''), w1)
           else case read_clock w1 of (t, w2) \<Rightarrow>
             (case create_session P \<lparr>us_session_id = fresh, us_session_user_id = ua_user_id u,
                  us_expires_at = t + session_ttl ttl, us_revoked_at = None, us_session_created_at = 0\<rparr> w2 of
                (Inl e, w3) \<Rightarrow> (plain (internal_error rid), w3)
              | (Inr s, w3) \<Rightarrow>
                  (\<lparr>ar_response = \<lparr>rs_status = 200, rs_body = auth_user_json U (auth_user_of u)\<rparr>,
                    ar_cookie = Some (set_session_cookie U ttl (us_session_id s))\<rparr>, w3)))))"

definition logout_handler ::
  "uuid_api \<Rightarrow> pg_api \<Rightarrow> string option \<Rightarrow> world \<Rightarrow> auth_response \<times> world" where
  "logout_handler U P raw w =
     (let w' = (case raw of None \<Rightarrow> w
          | Some c \<Rightarrow> (if trim_space c = [] then w else case uuid_parse U (trim_space c) of
              None \<Rightarrow> w | Some sid \<Rightarrow> snd (revoke_session P sid w)))
      in (\<lparr>ar_response = \<lparr>rs_status = 200, rs_body = JObj [(''ok'', JBool True)]\<rparr>,
          ar_cookie = Some clear_session_cookie\<rparr>, w'))"

definition me_handler :: "uuid_api \<Rightarrow> string \<Rightarrow> auth_user option \<Rightarrow> http_response" where
  "me_handler U rid user = (case user of
     None \<Rightarrow> unauthorized rid ''authentication required''
   | Some u \<Rightarrow> \<lparr>rs_status = 200, rs_body = auth_user_json U u\<rparr>)"

end
