(* ===== verification/Auth_Properties.thy ===== *)
theory Auth_Properties
  imports Auth_Api
begin

text \<open>
  What accounts and sessions promise: who passes the session check, what a login opens, that a
  logout closes it, and which password opens a new account.
\<close>

locale uuid_text = uuid_laws U for U +
  assumes str_printable: "list_all (\<lambda>c. 32 < (of_char c :: nat) \<and> (of_char c :: nat) < 128) (uuid_str U u)"
    and str_nonempty: "uuid_str U u \<noteq> []"
begin

lemma trim_str [simp]: "trim_space (uuid_str U u) = uuid_str U u"
  by (rule trim_plain(2) [OF str_printable])

end

lemma hex_char_printable: "d < 16 \<Longrightarrow> 32 < (of_char (hex_char d) :: nat) \<and> (of_char (hex_char d) :: nat) < 128"
  by (auto simp: hex_char_def)

lemma hex_digits_printable: "\<forall>c\<in>set (hex_digits n m). 32 < (of_char c :: nat) \<and> (of_char c :: nat) < 128"
  by (induction n m rule: hex_digits.induct) (auto simp: hex_char_printable)

interpretation refut: uuid_text ref_uuid
proof
  fix u
  have c: "c \<in> set (canonical_form h) \<Longrightarrow> c \<in> set h \<or> c = CHR ''-''" for c h
    by (auto simp: canonical_form_def dest: in_set_takeD in_set_dropD)
  show "list_all (\<lambda>c. 32 < (of_char c :: nat) \<and> (of_char c :: nat) < 128) (uuid_str ref_uuid u)"
    using hex_digits_printable [of 32 "unat u"] c
    by (fastforce simp: list_all_iff ref_uuid_def ref_uuid_str_def)
  show "uuid_str ref_uuid u \<noteq> []" by (simp add: ref_uuid_def ref_uuid_str_def canonical_form_def)
qed

lemma read_clock_time: "fst (read_clock w) = w_now (snd (read_clock w))"
  by (simp add: read_clock_def split: list.splits)

lemma read_clock_healthy: "healthy (snd (read_clock w)) = healthy w"
  by (simp add: healthy_def)

lemma find_mapped: "Some y = map_option f (find Q xs) \<Longrightarrow> \<exists>x\<in>set xs. Q x \<and> y = f x"
  by (cases "find Q xs") (auto simp: find_Some_iff)

lemmas account_query_defs = get_session_by_id_def get_user_by_id_def get_user_by_email_def

lemma account_queries:
  "get_session_by_id sid w = (Inr so, w1) \<Longrightarrow>
    so = map_option scan_session (find (\<lambda>r. se_session_id r = sid) (db_sessions (w_db w))) \<and>
    w_db w1 = w_db w \<and> w_now w1 = w_now w"
  "get_user_by_id i w = (Inr uo, w1) \<Longrightarrow>
    uo = map_option scan_user (find (\<lambda>r. us_user_id r = i) (db_users (w_db w))) \<and>
    w_db w1 = w_db w \<and> w_now w1 = w_now w"
  "get_user_by_email N A m w = (Inr uo, w1) \<Longrightarrow>
    uo = map_option scan_user (find (\<lambda>r. sql_lower A (us_work_email r) =
       sql_lower A (to_lower N (trim_space m))) (db_users (w_db w))) \<and> w_db w1 = w_db w \<and> w_now w1 = w_now w"
  by (auto simp: account_query_defs dest!: db_query_Inr)

section \<open>The session check\<close>

lemma require_auth_facts:
  assumes "require_auth U rid raw w = (Inr u, w')"
  shows "\<exists>c sid r ur. raw = Some c \<and> uuid_parse U (trim_space c) = Some sid \<and>
    r \<in> set (db_sessions (w_db w)) \<and> se_session_id r = sid \<and> se_revoked_at r = None \<and>
    w_now w' \<le> se_expires_at r \<and> ur \<in> set (db_users (w_db w)) \<and> us_user_id ur = se_user_id r \<and>
    u = auth_user_of (scan_user ur)"
proof -
  obtain c where c: "raw = Some c" using assms by (cases raw) (simp_all add: require_auth_def)
  have "trim_space c \<noteq> []" using assms c by (auto simp: require_auth_def)
  then obtain sid where sid: "uuid_parse U (trim_space c) = Some sid"
    using assms c by (cases "uuid_parse U (trim_space c)") (simp_all add: require_auth_def)
  note unf = assms [unfolded require_auth_def c option.case sid, simplified \<open>trim_space c \<noteq> []\<close> if_False]
  obtain rs w1 where g: "get_session_by_id sid w = (rs, w1)" by (rule prod.exhaust)
  obtain s where s: "rs = Inr (Some s)" "us_revoked_at s = None"
    using unf g by (auto split: sum.splits option.splits if_splits)
  obtain t w2 where t: "read_clock w1 = (t, w2)" by (rule prod.exhaust)
  have le: "t \<le> us_expires_at s" using unf g s t by (auto split: if_splits)
  obtain ru w3 where gu: "get_user_by_id (us_session_user_id s) w2 = (ru, w3)" by (rule prod.exhaust)
  obtain ua where ua: "ru = Inr (Some ua)" "u = auth_user_of ua" "w' = w3"
    using unf g s t le gu by (auto split: sum.splits option.splits)
  note q1 = account_queries(1) [OF g [unfolded s(1)]] and q2 = account_queries(2) [OF gu [unfolded ua(1)]]
  have w2: "w_db w2 = w_db w" "w_now w2 = t"
    using q1 t read_clock_simps(1) [of w1] read_clock_time [of w1] by simp_all
  have now: "w_now w' = t" using q2 w2 ua(3) by simp
  obtain r where r: "r \<in> set (db_sessions (w_db w))" "se_session_id r = sid" "s = scan_session r"
    using find_mapped [OF conjunct1 [OF q1]] by blast
  obtain ur where ur: "ur \<in> set (db_users (w_db w))" "us_user_id ur = us_session_user_id s" "ua = scan_user ur"
    using find_mapped [OF conjunct1 [OF q2]] w2 by auto
  show ?thesis using c sid r ur s(2) le now ua(2)
    by (intro exI [of _ c] exI [of _ sid] exI [of _ r] exI [of _ ur]) (simp add: scan_session_def)
qed

text \<open>
  (C14) Whoever passes the session check presented the id of a session that is in the table, not
  revoked and not past its expiry at the time of the check, and is the user of that session.
\<close>

theorem require_auth_sound:
  assumes "require_auth U rid raw w = (Inr u, w')"
  shows "\<exists>c sid r ur. raw = Some c \<and> uuid_parse U (trim_space c) = Some sid \<and>
    r \<in> set (db_sessions (w_db w)) \<and> se_session_id r = sid \<and> se_revoked_at r = None \<and>
    w_now w' \<le> se_expires_at r \<and> ur \<in> set (db_users (w_db w)) \<and> us_user_id ur = se_user_id r \<and>
    u = auth_user_of (scan_user ur)"
  by (rule require_auth_facts [OF assms])

definition sample_accounts :: "time option \<Rightarrow> time \<Rightarrow> world" where
  "sample_accounts revoked now = \<lparr>w_db = empty_db\<lparr>
      db_users := [\<lparr>us_user_id = 3, us_display_name = ''Ann'', us_work_email = ''ann@x.io'',
        us_password_hash = ''$2a$secret123'', us_created_at = 0, us_updated_at = 0\<rparr>],
      db_sessions := [\<lparr>se_session_id = 5, se_user_id = 3, se_expires_at = 100, se_revoked_at = revoked,
        se_created_at = 0\<rparr>]\<rparr>,
      w_now = now, w_ticks = [], w_db_now = 0, w_db_ticks = [], w_faults = [], w_risk = []\<rparr>"

theorem require_auth_sound_witness:
  "\<exists>u w'. require_auth ref_uuid ''r'' (Some (uuid_str ref_uuid 5)) (sample_accounts None 7) = (Inr u, w') \<and>
    u = \<lparr>au_user_id = 3, au_display_name = ''Ann'', au_work_email = ''ann@x.io''\<rparr> \<and> w_now w' \<le> 100"
proof -
  obtain u w' where run: "require_auth ref_uuid ''r'' (Some (uuid_str ref_uuid 5)) (sample_accounts None 7) = (Inr u, w')"
    by (simp add: require_auth_def account_query_defs db_query_def next_call_def read_clock_def refu.parse_str
        refut.str_nonempty sample_accounts_def scan_session_def)
  have "\<exists>c sid r ur. Some (uuid_str ref_uuid 5) = Some c \<and> uuid_parse ref_uuid (trim_space c) = Some sid \<and>
    r \<in> set (db_sessions (w_db (sample_accounts None 7))) \<and> se_session_id r = sid \<and> se_revoked_at r = None \<and>
    w_now w' \<le> se_expires_at r \<and> ur \<in> set (db_users (w_db (sample_accounts None 7))) \<and> us_user_id ur = se_user_id r \<and>
    u = auth_user_of (scan_user ur)"
    by (rule require_auth_sound [OF run])
  then show ?thesis using run
    by (auto simp: sample_accounts_def auth_user_of_def scan_user_def)
qed

section \<open>Login and logout\<close>

lemma create_session_Inr:
  assumes "create_session P s w = (Inr x, w')"
  shows "us_session_id s \<notin> se_session_id ` set (db_sessions (w_db w)) \<and> us_session_id x = us_session_id s \<and>
    (\<exists>created. w_db w' = (w_db w)\<lparr>db_sessions := db_sessions (w_db w) @ [\<lparr>se_session_id = us_session_id s,
      se_user_id = us_session_user_id s, se_expires_at = pg_time P (us_expires_at s), se_revoked_at = None,
      se_created_at = created\<rparr>]\<rparr>) \<and> w_now w' = w_now w"
  using assms
  by (auto simp: create_session_def db_tx_def split_beta Let_def scan_session_def split: if_splits)

lemma create_session_healthy:
  assumes "healthy w" and "us_session_id s \<notin> se_session_id ` set (db_sessions (w_db w))"
    and "us_session_user_id s \<in> us_user_id ` set (db_users (w_db w))"
  shows "\<exists>x w'. create_session P s w = (Inr x, w')"
proof (cases "create_session P s w")
  case (Pair r w')
  have "fst (create_session P s w) \<noteq> Inl e" for e
    using next_call_healthy [OF assms(1)] assms(2,3)
    by (simp add: create_session_def db_tx_def split_beta Let_def)
  then show ?thesis using Pair by (cases r) auto
qed

text \<open>What a successful login did.\<close>

lemma login_ok:
  assumes run: "login_handler U N A P B ttl rid fresh body w = (resp, w')" and ok: "rs_status (ar_response resp) = 200"
  obtains req ur created where "bind_login body = Some req" "ur \<in> set (db_users (w_db w))"
    "sql_lower A (us_work_email ur) = sql_lower A (to_lower N (trim_space (normalize_email N (lq_work_email req))))"
    "pw_compare B (us_password_hash ur) (lq_password req)" "fresh \<notin> se_session_id ` set (db_sessions (w_db w))"
    "w_db w' = (w_db w)\<lparr>db_sessions := db_sessions (w_db w) @ [\<lparr>se_session_id = fresh, se_user_id = us_user_id ur,
      se_expires_at = pg_time P (w_now w' + session_ttl ttl), se_revoked_at = None, se_created_at = created\<rparr>]\<rparr>"
    "ar_cookie resp = Some (set_session_cookie U ttl fresh)"
proof -
  have st: "rs_status (validation_failed r m) = 400" "rs_status (internal_error r) = 500"
    "rs_status (unauthorized r m) = 401" for r m
    by (simp_all add: validation_failed_def internal_error_def unauthorized_def api_error_def)
  obtain req where req: "bind_login body = Some req"
    using run ok st by (cases "bind_login body") (auto simp: login_handler_def plain_def)
  note r1 = run [unfolded login_handler_def req option.case]
  obtain ru w1 where g: "get_user_by_email N A (normalize_email N (lq_work_email req)) w = (ru, w1)"
    by (rule prod.exhaust)
  obtain u where u: "ru = Inr (Some u)" "pw_compare B (ua_password_hash u) (lq_password req)"
    using r1 g ok st by (auto simp: plain_def split: sum.splits option.splits if_splits)
  note q = account_queries(3) [OF g [unfolded u(1)]]
  obtain t w2 where t: "read_clock w1 = (t, w2)" by (rule prod.exhaust)
  obtain rs w3 where c: "create_session P \<lparr>us_session_id = fresh, us_session_user_id = ua_user_id u,
      us_expires_at = t + session_ttl ttl, us_revoked_at = None, us_session_created_at = 0\<rparr> w2 = (rs, w3)"
    by (rule prod.exhaust)
  obtain x where x: "rs = Inr x"
    using r1 g u t c ok st by (cases rs) (auto simp: plain_def)
  then have fin: "w' = w3" "ar_cookie resp = Some (set_session_cookie U ttl (us_session_id x))"
    using r1 g u t c by (auto simp: plain_def)
  note cs = create_session_Inr [OF c [unfolded x]]
  have w2: "w_db w2 = w_db w" "w_now w2 = t"
    using q t read_clock_simps(1) [of w1] read_clock_time [of w1] by simp_all
  obtain ur where ur: "ur \<in> set (db_users (w_db w))" "u = scan_user ur"
    "sql_lower A (us_work_email ur) = sql_lower A (to_lower N (trim_space (normalize_email N (lq_work_email req))))"
    using find_mapped [OF conjunct1 [OF q]] by blast
  obtain created where "w_db w3 = (w_db w2)\<lparr>db_sessions := db_sessions (w_db w2) @ [\<lparr>se_session_id = fresh,
      se_user_id = ua_user_id u, se_expires_at = pg_time P (t + session_ttl ttl), se_revoked_at = None,
      se_created_at = created\<rparr>]\<rparr>" "w_now w3 = t"
    using cs w2(2) by auto
  note cr = this
  show thesis
  proof (rule that [OF req ur(1,3)])
    show "pw_compare B (us_password_hash ur) (lq_password req)" using u(2) ur(2) by (simp add: scan_user_def)
    show "fresh \<notin> se_session_id ` set (db_sessions (w_db w))" using cs w2 by simp
    show "w_db w' = (w_db w)\<lparr>db_sessions := db_sessions (w_db w) @ [\<lparr>se_session_id = fresh, se_user_id = us_user_id ur,
      se_expires_at = pg_time P (w_now w' + session_ttl ttl), se_revoked_at = None, se_created_at = created\<rparr>]\<rparr>"
      using cr w2 fin(1) ur(2) by (simp add: scan_user_def)
    show "ar_cookie resp = Some (set_session_cookie U ttl fresh)" using fin(2) cs by simp
  qed
qed

text \<open>
  (C33) A successful login presented the password of an account whose address is, in lower case and
  trimmed, the one that was sent, and the cookie it returns is accepted by the session check as that user,
  exactly until the session expires, as long as nothing else is done to the account and the session.
\<close>

theorem login_opens_session:
  assumes "uuid_text U" and "login_handler U N A P B ttl rid fresh body w = (resp, w')"
    and "rs_status (ar_response resp) = 200" and "distinct (map us_user_id (db_users (w_db w)))"
    and "healthy w2" and "db_sessions (w_db w2) = db_sessions (w_db w')" and "db_users (w_db w2) = db_users (w_db w')"
  shows "\<exists>req ur ck. bind_login body = Some req \<and> ur \<in> set (db_users (w_db w)) \<and>
    sql_lower A (us_work_email ur) = sql_lower A (normalize_email N (normalize_email N (lq_work_email req))) \<and>
    pw_compare B (us_password_hash ur) (lq_password req) \<and> ar_cookie resp = Some ck \<and>
    fst (require_auth U rid2 (Some (ck_value ck)) w2) =
      (if fst (read_clock w2) \<le> pg_time P (w_now w' + session_ttl ttl) then Inr (auth_user_of (scan_user ur))
       else Inl (unauthorized rid2 ''session expired''))"
proof -
  obtain req ur created where l: "bind_login body = Some req" "ur \<in> set (db_users (w_db w))"
    and email: "sql_lower A (us_work_email ur) = sql_lower A (to_lower N (trim_space (normalize_email N (lq_work_email req))))"
    and l2: "pw_compare B (us_password_hash ur) (lq_password req)" "fresh \<notin> se_session_id ` set (db_sessions (w_db w))"
    "w_db w' = (w_db w)\<lparr>db_sessions := db_sessions (w_db w) @ [\<lparr>se_session_id = fresh, se_user_id = us_user_id ur,
      se_expires_at = pg_time P (w_now w' + session_ttl ttl), se_revoked_at = None, se_created_at = created\<rparr>]\<rparr>"
    "ar_cookie resp = Some (set_session_cookie U ttl fresh)"
    by (rule login_ok [OF assms(2,3)])
  let ?exp = "pg_time P (w_now w' + session_ttl ttl)"
  let ?row = "\<lparr>se_session_id = fresh, se_user_id = us_user_id ur, se_expires_at = ?exp, se_revoked_at = None,
    se_created_at = created\<rparr>"
  have "find (\<lambda>r. se_session_id r = fresh) (xs @ [?row]) = Some ?row" if "fresh \<notin> se_session_id ` set xs" for xs
    using that by (induction xs) auto
  then have fs: "find (\<lambda>r. se_session_id r = fresh) (db_sessions (w_db w2)) = Some ?row"
    using l2(2,3) assms(6) by simp
  have fu: "find (\<lambda>r. us_user_id r = us_user_id ur) (db_users (w_db w2)) = Some ur"
  proof -
    have "find (\<lambda>r. us_user_id r = us_user_id ur) xs = Some ur" if "ur \<in> set xs" "distinct (map us_user_id xs)" for xs
      using that by (induction xs) (auto simp: rev_image_eqI)
    then show ?thesis using l(2) l2(3) assms(4,7) by simp
  qed
  have plain: "trim_space (uuid_str U fresh) = uuid_str U fresh" "uuid_str U fresh \<noteq> []"
    "uuid_parse U (uuid_str U fresh) = Some fresh"
    using uuid_text.trim_str [OF assms(1)] uuid_text.str_nonempty [OF assms(1)]
      uuid_laws.parse_str [OF uuid_text.axioms(1) [OF assms(1)]] by simp_all
  obtain w3 where g: "get_session_by_id fresh w2 = (Inr (Some (scan_session ?row)), w3)" "w_db w3 = w_db w2"
    "healthy w3" "fst (read_clock w3) = fst (read_clock w2)"
  proof
    let ?q = "\<lambda>now d. Inr (map_option scan_session (find (\<lambda>r. se_session_id r = fresh) (db_sessions d)))"
    show "get_session_by_id fresh w2 = (Inr (Some (scan_session ?row)), snd (get_session_by_id fresh w2))"
      using db_query_healthy [OF assms(5), of "''get session''" ?q] fs
      by (simp add: get_session_by_id_def prod_eq_iff)
    show "w_db (snd (get_session_by_id fresh w2)) = w_db w2" by (simp add: get_session_by_id_def db_query_db)
    show "healthy (snd (get_session_by_id fresh w2))"
      by (simp add: get_session_by_id_def db_query_healthy [OF assms(5)])
    show "fst (read_clock (snd (get_session_by_id fresh w2))) = fst (read_clock w2)"
      by (simp add: get_session_by_id_def db_query_def split_beta read_clock_def split: list.splits)
  qed
  obtain t w4 where t: "read_clock w3 = (t, w4)" by (rule prod.exhaust)
  have w4: "w_db w4 = w_db w2" "healthy w4" "t = fst (read_clock w2)"
    using t g read_clock_simps(1) [of w3] read_clock_healthy [of w3] by simp_all
  let ?qu = "\<lambda>now d. Inr (map_option scan_user (find (\<lambda>r. us_user_id r = us_user_id ur) (db_users d)))"
  obtain w5 where u: "get_user_by_id (us_user_id ur) w4 = (Inr (Some (scan_user ur)), w5)"
    using db_query_healthy [OF w4(2), of "''get user by id''" ?qu] fu w4(1)
    by (cases "get_user_by_id (us_user_id ur) w4") (auto simp: get_user_by_id_def)
  have "fst (require_auth U rid2 (Some (uuid_str U fresh)) w2) =
      (if t \<le> ?exp then Inr (auth_user_of (scan_user ur)) else Inl (unauthorized rid2 ''session expired''))"
    using plain g(1) t u by (simp add: require_auth_def scan_session_def)
  then show ?thesis using l email [folded normalize_email_def] l2 w4(3)
    by (intro exI [of _ req] exI [of _ ur] exI [of _ "set_session_cookie U ttl fresh"]) (simp add: set_session_cookie_def)
qed

definition ref_account :: account_api where
  "ref_account = \<lparr>sql_lower = map ascii_lower, scan_null_uuid = None\<rparr>"

definition sample_login :: "string \<Rightarrow> raw_message" where
  "sample_login pw = RawDoc (JObj [(''work_email'', JStr ''ann@x.io''), (''password'', JStr pw)])"

lemma bind_sample_login: "bind_login (sample_login ''secret123'') =
    Some \<lparr>lq_work_email = ''ann@x.io'', lq_password = ''secret123''\<rparr>"
  by code_simp

lemma sample_normal: "normalize_email ref_case ''ann@x.io'' = ''ann@x.io''" "trim_space ''ann@x.io'' = ''ann@x.io''"
    "to_lower ref_case ''ann@x.io'' = ''ann@x.io''"
proof -
  have p: "list_all (\<lambda>c. 32 < (of_char c :: nat) \<and> (of_char c :: nat) < 128) ''ann@x.io''" by code_simp
  show l: "to_lower ref_case ''ann@x.io'' = ''ann@x.io''" by code_simp
  show "trim_space ''ann@x.io'' = ''ann@x.io''" using p by (rule trim_plain)
  then show "normalize_email ref_case ''ann@x.io'' = ''ann@x.io''" using l by (simp add: normalize_email_def)
qed

lemma sample_email: "to_lower ref_case (trim_space (normalize_email ref_case ''ann@x.io'')) = ''ann@x.io''"
  by (simp add: sample_normal)

theorem login_opens_session_witness:
  "\<exists>resp w' ck. login_handler ref_uuid ref_case ref_account ref_pg ref_password 3600000000000 ''r'' 6
      (sample_login ''secret123'') (sample_accounts None 7000) = (resp, w') \<and> ar_cookie resp = Some ck \<and>
    fst (require_auth ref_uuid ''r2'' (Some (ck_value ck)) (w'\<lparr>w_now := 8000\<rparr>)) =
      Inr \<lparr>au_user_id = 3, au_display_name = ''Ann'', au_work_email = ''ann@x.io''\<rparr>"
proof -
  let ?w = "sample_accounts None 7000" and ?ttl = "3600000000000 :: int"
  obtain resp w' where run: "login_handler ref_uuid ref_case ref_account ref_pg ref_password ?ttl ''r'' 6
      (sample_login ''secret123'') ?w = (resp, w')" by (rule prod.exhaust)
  have ok: "rs_status (ar_response resp) = 200 \<and> w_now w' = 7000 \<and> w_faults w' = [] \<and> db_users (w_db w') = db_users (w_db ?w) \<and>
      w_ticks w' = []"
    using run unfolding login_handler_def bind_sample_login option.case
    by (auto simp: account_query_defs db_query_def next_call_def read_clock_def create_session_def db_tx_def
        sample_accounts_def scan_user_def ref_account_def ref_password_def sample_email Let_def scan_session_def
        ascii_lower_def)
  have d: "distinct (map us_user_id (db_users (w_db ?w)))" by (simp add: sample_accounts_def)
  have h: "healthy (w'\<lparr>w_now := 8000\<rparr>)" using ok by (simp add: healthy_def)
  obtain req ur ck where c: "ur \<in> set (db_users (w_db ?w))" "ar_cookie resp = Some ck"
    "fst (require_auth ref_uuid ''r2'' (Some (ck_value ck)) (w'\<lparr>w_now := 8000\<rparr>)) =
      (if fst (read_clock (w'\<lparr>w_now := 8000\<rparr>)) \<le> pg_time ref_pg (w_now w' + session_ttl ?ttl)
       then Inr (auth_user_of (scan_user ur)) else Inl (unauthorized ''r2'' ''session expired''))"
    using login_opens_session [OF refut.uuid_text_axioms run conjunct1 [OF ok] d h, of "''r2''"] by auto
  have "fst (read_clock (w'\<lparr>w_now := 8000\<rparr>)) \<le> pg_time ref_pg (w_now w' + session_ttl ?ttl)"
    using ok by (simp add: read_clock_def ref_pg_def session_ttl_def)
  then show ?thesis using run c
    by (intro exI [of _ resp] exI [of _ w'] exI [of _ ck])
      (auto simp: sample_accounts_def auth_user_of_def scan_user_def)
qed

text \<open>
  (C34) Logging out closes the session: from then on the cookie is refused, as long as the table
  of sessions is not changed otherwise.
\<close>

theorem logout_closes_session:
  assumes "logout_handler U P (Some c) w = (resp, w')" and "healthy w"
    and "trim_space c \<noteq> []" and "uuid_parse U (trim_space c) = Some sid"
    and "db_sessions (w_db w2) = db_sessions (w_db w')"
  shows "\<exists>r. fst (require_auth U rid (Some c) w2) = Inl r \<and> rs_status r \<in> {401, 500}"
proof -
  let ?f = "\<lambda>now r. if se_session_id r = sid then r\<lparr>se_revoked_at := Some (pg_time P now)\<rparr> else r"
  have "w' = snd (revoke_session P sid w)" using assms(1,3,4) by (simp add: logout_handler_def Let_def)
  then have rows: "db_sessions (w_db w') = map (?f (call_time w)) (db_sessions (w_db w))"
    using db_tx_healthy(3) [OF assms(2), of "\<lambda>now d. Inr ((), d\<lparr>db_sessions := map (?f now) (db_sessions d)\<rparr>)"]
    by (simp add: revoke_session_def)
  have st: "rs_status (unauthorized rid m) = 401" "rs_status (internal_error rid) = 500" for m
    by (simp_all add: unauthorized_def internal_error_def api_error_def)
  obtain rs w3 where g: "get_session_by_id sid w2 = (rs, w3)" by (rule prod.exhaust)
  show ?thesis
  proof (cases "\<exists>s. rs = Inr (Some s)")
    case True
    then obtain s where s: "rs = Inr (Some s)" by blast
    obtain r where r: "r \<in> set (db_sessions (w_db w2))" "se_session_id r = sid" "s = scan_session r"
      using find_mapped [OF conjunct1 [OF account_queries(1) [OF g [unfolded s]]]] by blast
    obtain r0 where "r = ?f (call_time w) r0" using r(1) unfolding assms(5) rows by fastforce
    then have "us_revoked_at s \<noteq> None" using r(2,3) by (auto simp: scan_session_def)
    then show ?thesis using g s assms(3,4) st by (simp add: require_auth_def)
  next
    case False
    then show ?thesis using g assms(3,4) st
      by (cases rs) (auto simp: require_auth_def split: option.splits)
  qed
qed

theorem logout_closes_session_witness:
  "\<exists>resp w' r. logout_handler ref_uuid ref_pg (Some (uuid_str ref_uuid 5)) (sample_accounts None 7) = (resp, w') \<and>
    fst (require_auth ref_uuid ''r'' (Some (uuid_str ref_uuid 5)) w') = Inl r \<and> rs_status r \<in> {401, 500}"
proof -
  obtain resp w' where run: "logout_handler ref_uuid ref_pg (Some (uuid_str ref_uuid 5)) (sample_accounts None 7) = (resp, w')"
    by (rule prod.exhaust)
  have h: "healthy (sample_accounts None 7)" by (simp add: healthy_def sample_accounts_def)
  have "\<exists>r. fst (require_auth ref_uuid ''r'' (Some (uuid_str ref_uuid 5)) w') = Inl r \<and> rs_status r \<in> {401, 500}"
    by (rule logout_closes_session [OF run h _ _ refl]) (simp_all add: refut.str_nonempty refu.parse_str)
  then show ?thesis using run by blast
qed

section \<open>Registration\<close>

lemma register_ok:
  assumes run: "register_handler U N A P B rid fresh body w = (resp, w')" and ok: "rs_status (ar_response resp) = 201"
  obtains req hash created where "bind_register body = Some req" "pw_generate B (trim_space (rq_password req)) = Some hash"
    "sql_lower A (to_lower N (trim_space (normalize_email N (rq_work_email req)))) \<notin>
       (\<lambda>r. sql_lower A (us_work_email r)) ` set (db_users (w_db w))"
    "w_db w' = (w_db w)\<lparr>db_users := db_users (w_db w) @ [\<lparr>us_user_id = fresh,
      us_display_name = trim_space (rq_display_name req),
      us_work_email = to_lower N (trim_space (normalize_email N (rq_work_email req))), us_password_hash = hash,
      us_created_at = created, us_updated_at = created\<rparr>]\<rparr>"
proof -
  have st: "rs_status (validation_failed r m) = 400" "rs_status (internal_error r) = 500"
    "rs_status (api_error r c k m) = c" for r m c k
    by (simp_all add: validation_failed_def internal_error_def api_error_def)
  obtain req where req: "bind_register body = Some req"
    using run ok st by (cases "bind_register body") (auto simp: register_handler_def plain_def)
  let ?e = "normalize_email N (rq_work_email req)" and ?p = "trim_space (rq_password req)"
  have v: "\<not> (trim_space (rq_display_name req) = [] \<or> ?e = [] \<or> length ?p < 8)"
    using run ok st by (auto simp: register_handler_def req plain_def Let_def)
  note r1 = run [unfolded register_handler_def req option.case Let_def if_not_P [OF v]]
  obtain ru w1 where g: "get_user_by_email N A ?e w = (ru, w1)" by (rule prod.exhaust)
  have ru: "ru = Inr None" using r1 g ok st by (auto simp: plain_def split: sum.splits option.splits)
  obtain hash where h: "pw_generate B ?p = Some hash"
    using r1 g ru ok st by (cases "pw_generate B ?p") (auto simp: plain_def)
  let ?u = "\<lparr>ua_user_id = fresh, ua_display_name = trim_space (rq_display_name req), ua_work_email = ?e,
    ua_password_hash = hash, ua_created_at = 0, ua_updated_at = 0\<rparr>"
  obtain rc w2 where c: "create_user N A P ?u w1 = (rc, w2)" by (rule prod.exhaust)
  obtain x where x: "rc = Inr x" "w' = w2" using r1 g ru h c ok st by (cases rc) (auto simp: plain_def)
  note q = account_queries(3) [OF g [unfolded ru]]
  have w1: "w_db w1 = w_db w" using q by simp
  from c [unfolded x(1)] obtain created where
    "sql_lower A (to_lower N (trim_space ?e)) \<notin> (\<lambda>r. sql_lower A (us_work_email r)) ` set (db_users (w_db w1))"
    "w_db w2 = (w_db w1)\<lparr>db_users := db_users (w_db w1) @ [\<lparr>us_user_id = fresh,
      us_display_name = trim_space (rq_display_name req), us_work_email = to_lower N (trim_space ?e),
      us_password_hash = hash, us_created_at = created, us_updated_at = created\<rparr>]\<rparr>"
    unfolding create_user_def db_tx_def by (auto simp: split_beta Let_def split: if_splits)
  then show thesis using that [OF req h] w1 x(2) by simp
qed

text \<open>
  (C35) Which password opens an account: registration keeps the hash of the trimmed password,
  and a later login with the same address succeeds exactly when the password it sends, which is
  not trimmed, matches that hash.
\<close>

theorem register_then_login:
  assumes "register_handler U N A P B rid fresh body w = (resp, w')" and "rs_status (ar_response resp) = 201"
    and "bind_register body = Some req" and "bind_login body2 = Some \<lparr>lq_work_email = rq_work_email req, lq_password = q\<rparr>"
    and "healthy w2" and "w_db w2 = w_db w'" and "fresh2 \<notin> se_session_id ` set (db_sessions (w_db w2))"
  shows "\<exists>hash. pw_generate B (trim_space (rq_password req)) = Some hash \<and>
    (rs_status (ar_response (fst (login_handler U N A P B ttl rid2 fresh2 body2 w2))) = 200 \<longleftrightarrow> pw_compare B hash q)"
proof -
  obtain hash created where r: "pw_generate B (trim_space (rq_password req)) = Some hash"
    "sql_lower A (to_lower N (trim_space (normalize_email N (rq_work_email req)))) \<notin>
       (\<lambda>r. sql_lower A (us_work_email r)) ` set (db_users (w_db w))"
    "w_db w' = (w_db w)\<lparr>db_users := db_users (w_db w) @ [\<lparr>us_user_id = fresh,
      us_display_name = trim_space (rq_display_name req),
      us_work_email = to_lower N (trim_space (normalize_email N (rq_work_email req))), us_password_hash = hash,
      us_created_at = created, us_updated_at = created\<rparr>]\<rparr>"
    using register_ok [OF assms(1,2)] assms(3) by (metis option.inject)
  let ?e = "to_lower N (trim_space (normalize_email N (rq_work_email req)))"
  let ?row = "\<lparr>us_user_id = fresh, us_display_name = trim_space (rq_display_name req), us_work_email = ?e,
    us_password_hash = hash, us_created_at = created, us_updated_at = created\<rparr>"
  let ?Q = "\<lambda>r. sql_lower A (us_work_email r) = sql_lower A ?e"
  have "find ?Q (xs @ [?row]) = Some ?row" if "sql_lower A ?e \<notin> (\<lambda>r. sql_lower A (us_work_email r)) ` set xs" for xs
    using that by (induction xs) auto
  then have f: "find ?Q (db_users (w_db w2)) = Some ?row" using r(2,3) assms(6) by simp
  let ?q = "\<lambda>now d. Inr (map_option scan_user (find ?Q (db_users d)))"
  obtain w3 where g: "get_user_by_email N A (normalize_email N (rq_work_email req)) w2 = (Inr (Some (scan_user ?row)), w3)"
    using db_query_healthy [OF assms(5), of "''get user by email''" ?q] f
    by (cases "get_user_by_email N A (normalize_email N (rq_work_email req)) w2") (auto simp: get_user_by_email_def)
  have w3: "w_db w3 = w_db w2" "healthy w3"
  proof -
    show "w_db w3 = w_db w2" using account_queries(3) [OF g] by simp
    have "w3 = snd (get_user_by_email N A (normalize_email N (rq_work_email req)) w2)" using g by simp
    then show "healthy w3" by (simp add: get_user_by_email_def db_query_healthy [OF assms(5)])
  qed
  obtain t w4 where t: "read_clock w3 = (t, w4)" by (rule prod.exhaust)
  have w4: "w_db w4 = w_db w2" "healthy w4"
    using t w3 read_clock_simps(1) [of w3] read_clock_healthy [of w3] by simp_all
  let ?s = "\<lparr>us_session_id = fresh2, us_session_user_id = fresh, us_expires_at = t + session_ttl ttl,
    us_revoked_at = None, us_session_created_at = 0\<rparr>"
  have mem: "fresh \<in> us_user_id ` set (db_users (w_db w4))" using w4(1) r(3) assms(6) by simp
  obtain x w5 where c: "create_session P ?s w4 = (Inr x, w5)"
    using create_session_healthy [OF w4(2), of ?s P] mem assms(7) w4(1) by auto
  have st: "rs_status (unauthorized rid2 m) = 401" for m by (simp add: unauthorized_def api_error_def)
  have "rs_status (ar_response (fst (login_handler U N A P B ttl rid2 fresh2 body2 w2))) = 200 \<longleftrightarrow> pw_compare B hash q"
    using assms(4) g t c st by (simp add: login_handler_def scan_user_def plain_def)
  then show ?thesis using r(1) by blast
qed

definition sample_register :: "string \<Rightarrow> raw_message" where
  "sample_register pw = RawDoc (JObj [(''display_name'', JStr ''Ann''), (''work_email'', JStr ''ann@x.io''),
     (''password'', JStr pw)])"

lemma bind_samples:
  "bind_register (sample_register '' secret12'') = Some \<lparr>rq_display_name = ''Ann'', rq_work_email = ''ann@x.io'',
     rq_password = '' secret12''\<rparr>"
  "bind_login (sample_login '' secret12'') = Some \<lparr>lq_work_email = ''ann@x.io'', lq_password = '' secret12''\<rparr>"
  by code_simp+

lemma trim_samples: "trim_space ''Ann'' = ''Ann''" "trim_space '' secret12'' = ''secret12''"
proof -
  have "list_all (\<lambda>c. 32 < (of_char c :: nat) \<and> (of_char c :: nat) < 128) ''Ann''"
    "list_all (\<lambda>c. 32 < (of_char c :: nat) \<and> (of_char c :: nat) < 128) ''secret12''" by code_simp+
  then show "trim_space ''Ann'' = ''Ann''" "trim_space '' secret12'' = ''secret12''"
    by (simp_all add: trim_plain trim_blank)
qed

lemma text_samples: "pg_text_ok ref_pg ''Ann''" "pg_text_ok ref_pg ''ann@x.io''"
    "pg_text_ok ref_pg ''$2a$secret12''"
  unfolding ref_pg_def pg_api.simps by code_simp+

text \<open>
  The password a user registered with, sent again as it was, is refused when it begins with a
  blank.
\<close>

theorem register_then_login_witness:
  "\<exists>resp w'. register_handler ref_uuid ref_case ref_account ref_pg ref_password ''r'' 3
      (sample_register '' secret12'') ((sample_accounts None 7)\<lparr>w_db := empty_db\<rparr>) = (resp, w') \<and>
    rs_status (ar_response resp) = 201 \<and>
    rs_status (ar_response (fst (login_handler ref_uuid ref_case ref_account ref_pg ref_password 0 ''r2'' 6
      (sample_login '' secret12'') w'))) \<noteq> 200"
proof -
  let ?w = "(sample_accounts None 7)\<lparr>w_db := empty_db\<rparr>"
  obtain resp w' where run: "register_handler ref_uuid ref_case ref_account ref_pg ref_password ''r'' 3
      (sample_register '' secret12'') ?w = (resp, w')" by (rule prod.exhaust)
  have r: "rs_status (ar_response resp) = 201 \<and> w_faults w' = [] \<and> db_sessions (w_db w') = []"
    using run unfolding register_handler_def bind_samples(1) option.case
    by (auto simp: account_query_defs db_query_def next_call_def create_user_def db_tx_def plain_def
        sample_accounts_def empty_db_def ref_account_def ref_password_def sample_normal trim_samples text_samples Let_def)
  have "\<exists>hash. pw_generate ref_password (trim_space '' secret12'') = Some hash \<and>
    (rs_status (ar_response (fst (login_handler ref_uuid ref_case ref_account ref_pg ref_password 0 ''r2'' 6
      (sample_login '' secret12'') w'))) = 200 \<longleftrightarrow> pw_compare ref_password hash '' secret12'')"
    using register_then_login [OF run conjunct1 [OF r] bind_samples(1), of "sample_login '' secret12''"
        "'' secret12''" w' 6 0 "''r2''"] bind_samples(2) r
    by (simp add: healthy_def)
  then show ?thesis using run r
    by (intro exI [of _ resp] exI [of _ w']) (auto simp: ref_password_def trim_samples)
qed

end
