(* ===== verification/Go_Text.thy ===== *)
theory Go_Text
  imports Go_Strings Payload_Json
begin

text \<open>
  More of Go's standard library: \<^verbatim>\<open>strings.Split\<close> and \<^verbatim>\<open>strings.Join\<close> with a one-byte separator,
  \<^verbatim>\<open>strconv.Itoa\<close> and \<^verbatim>\<open>strconv.Atoi\<close>, the wrap-around of \<^verbatim>\<open>int64\<close> arithmetic, and the times of
  \<^verbatim>\<open>time.Time\<close> in Unix seconds and milliseconds.
\<close>

fun split_on :: "char \<Rightarrow> string \<Rightarrow> string list" where
  "split_on c [] = [[]]"
| "split_on c (x # xs) = (if x = c then [] # split_on c xs
     else case split_on c xs of [] \<Rightarrow> [[x]] | p # ps \<Rightarrow> (x # p) # ps)"

fun join_with :: "string \<Rightarrow> string list \<Rightarrow> string" where
  "join_with sep [] = []"
| "join_with sep [s] = s"
| "join_with sep (s # t # ss) = s @ sep @ join_with sep (t # ss)"

definition itoa :: "int \<Rightarrow> string" where
  "itoa i = int_literal i"

text \<open>An optional sign and decimal digits, in the range of \<^verbatim>\<open>int\<close> (64 bits).\<close>

definition atoi :: "string \<Rightarrow> int option" where
  "atoi s = (let neg = (s \<noteq> [] \<and> hd s = CHR ''-''); ds = (if s \<noteq> [] \<and> hd s \<in> {CHR ''+'', CHR ''-''} then tl s else s);
       v = (if neg then - int (digits_value ds) else int (digits_value ds))
     in if ds = [] \<or> \<not> list_all is_digit ds \<or> \<not> int64 v then None else Some v)"

definition int64_wrap :: "int \<Rightarrow> int" where
  "int64_wrap i = sint (word_of_int i :: 64 word)"

lemma int64_wrap_id: "int64 i \<Longrightarrow> int64_wrap i = i"
  by (simp add: int64_wrap_def int64_def signed_of_int signed_take_bit_int_eq_self)

lemma int64_int64_wrap: "int64 (int64_wrap i)"
  using signed_take_bit_int_greater_eq_minus_exp [of 63 i] signed_take_bit_int_less_exp [of 63 i]
  by (simp add: int64_wrap_def int64_def signed_of_int)

lemma split_on_nonempty [simp]: "split_on c s \<noteq> []"
  by (induction s) (auto split: list.splits)

lemma split_on_join: "join_with [c] (split_on c s) = s"
proof (induction s)
  case (Cons x xs)
  obtain p ps where p: "split_on c xs = p # ps" using split_on_nonempty [of c xs] by (cases "split_on c xs") auto
  show ?case using Cons p by (cases ps) auto
qed simp

lemma atoi_itoa: "int64 i \<Longrightarrow> atoi (itoa i) = Some i"
proof -
  assume i: "int64 i"
  have ds: "nat_string n \<noteq> []" "\<forall>c\<in>set (nat_string n). is_digit c" for n
    using nat_string_digits by auto
  then have h: "hd (nat_string n) \<noteq> CHR ''-'' \<and> hd (nat_string n) \<noteq> CHR ''+''" for n
  proof -
    have "is_digit (hd (nat_string n))" using ds(2) hd_in_set [OF ds(1)] by blast
    then show ?thesis using digit_bounds [of "hd (nat_string n)"] by auto
  qed
  have a: "list_all is_digit (nat_string n)" for n using ds(2) by (simp add: list_all_iff)
  show ?thesis using i h a ds(1)
    by (auto simp: atoi_def itoa_def int_literal_def Let_def digits_value_nat_string)
qed

section \<open>Unix times\<close>

text \<open>January 1, 1970 in nanoseconds since January 1, year 1.\<close>

definition unix_epoch :: time where
  "unix_epoch = 62135596800 * second"

definition unix_seconds :: "time \<Rightarrow> int" where
  "unix_seconds t = (t - unix_epoch) div second"

definition unix_milli :: "time \<Rightarrow> int" where
  "unix_milli t = (t - unix_epoch) div millisecond"

text \<open>\<^verbatim>\<open>time.Time.Truncate\<close>: down to a multiple of the duration since the zero time.\<close>

definition truncate_time :: "time \<Rightarrow> duration \<Rightarrow> time" where
  "truncate_time t d = (if d \<le> 0 then t else t - t mod d)"

end
