(* ===== verification/Price_Source.thy ===== *)
theory Price_Source
  imports Go_Text Http_Api
begin

text \<open>
  \<^verbatim>\<open>internal/pricesource\<close>: the quotes of a provider (\<^verbatim>\<open>types.go\<close>), the normalization of symbols
  (\<^verbatim>\<open>normalize.go\<close>) and the Twelve Data adapter (\<^verbatim>\<open>twelvedata.go\<close>). The HTTP client is a function
  from the URL and its query, as sorted parameters, to a reply: a transport error with its text and
  whether it is the cancellation of the context (\<^verbatim>\<open>errors.Is\<close>), or a status and the JSON value the body starts with (\<open>None\<close> when there is none). The clock is a
  function of the world. Texts of standard library errors are left out of messages.
\<close>

record 'd price_quote =
  qt_symbol :: string
  qt_provider_symbol :: string
  qt_price :: 'd
  qt_currency :: string
  qt_as_of :: time
  qt_source_sequence :: int

record 'd fetch_result =
  fr_provider :: string
  fr_fetched_at :: time
  fr_quotes :: "'d price_quote list"
  fr_partial :: bool

record health_metadata =
  hm_provider :: string
  hm_healthy :: bool
  hm_checked_at :: time
  hm_last_fetch_latency :: duration
  hm_last_error :: string
  hm_rate_limit_rpm :: int
  hm_last_request_count :: nat
  hm_last_success_at :: "time option"

text \<open>
  The errors of a fetch: a \<^verbatim>\<open>ProviderError\<close> (status, retryable, whether what it wraps is the cancellation of
  the context, text), any other error, and the cancellation of the context.
\<close>

datatype fetch_err =
    ProviderError int bool bool string
  | FetchError string
  | FetchCanceled

definition provider_error :: "string \<Rightarrow> int \<Rightarrow> bool \<Rightarrow> bool \<Rightarrow> string \<Rightarrow> fetch_err" where
  "provider_error name st retryable canceled msg = ProviderError st retryable canceled
     (if st > 0 then name @ '' status '' @ itoa st @ '': '' @ msg else name @ '': '' @ msg)"

fun fetch_err_text :: "fetch_err \<Rightarrow> string" where
  "fetch_err_text (ProviderError st r c m) = m"
| "fetch_err_text (FetchError m) = m"
| "fetch_err_text FetchCanceled = ''context canceled''"

text \<open>\<^verbatim>\<open>errors.Is(err, context.Canceled)\<close>.\<close>

fun is_canceled :: "fetch_err \<Rightarrow> bool" where
  "is_canceled (ProviderError st r c m) = c"
| "is_canceled (FetchError m) = False"
| "is_canceled FetchCanceled = True"

record ('d, 'w) provider =
  pv_name :: string
  pv_fetch :: "string list \<Rightarrow> 'w \<Rightarrow> (fetch_err + 'd fetch_result) \<times> 'w"

section \<open>Symbols\<close>

definition replace_separator :: "char \<Rightarrow> string" where
  "replace_separator c = (if c = CHR ''/'' \<or> c = CHR '':'' then ''-''
     else if c = CHR '' '' \<or> c = char_of (9 :: nat) then [] else [c])"

definition normalize_to_internal_symbol :: "case_api \<Rightarrow> string \<Rightarrow> string res" where
  "normalize_to_internal_symbol N raw =
     (let s = to_upper N (trim_space raw)
      in if s = [] then Inl (EOther ''symbol is required'')
         else let s = concat (map replace_separator s)
         in case validate_symbol s of Inl e \<Rightarrow> Inl e | Inr u \<Rightarrow> Inr s)"

fun requested_from :: "case_api \<Rightarrow> string list \<Rightarrow> string list \<Rightarrow> string list" where
  "requested_from N seen [] = []"
| "requested_from N seen (s # ss) =
     (let v = trim_space s; u = to_upper N v
      in if v = [] then requested_from N seen ss
         else if u \<in> set seen then requested_from N seen ss
         else u # requested_from N (u # seen) ss)"

definition normalize_requested_symbols :: "case_api \<Rightarrow> string list \<Rightarrow> string list" where
  "normalize_requested_symbols N ss = requested_from N [] ss"

definition to_twelve_data_symbol :: "case_api \<Rightarrow> string \<Rightarrow> string" where
  "to_twelve_data_symbol N internal =
     (let s = to_upper N (trim_space internal)
      in if s = [] then s
         else case split_on CHR ''-'' s of
             [a, b] \<Rightarrow> (if length a \<ge> 3 \<and> length b \<ge> 3 then a @ ''/'' @ b else s)
           | _ \<Rightarrow> s)"

section \<open>The Twelve Data adapter\<close>

record twelve_data_provider =
  td_api_key :: string
  td_base_url :: string
  td_rate_limit_rpm :: int
  td_timeout :: duration

definition new_twelve_data_provider :: "string \<Rightarrow> duration \<Rightarrow> int \<Rightarrow> twelve_data_provider \<times> health_metadata" where
  "new_twelve_data_provider key timeout rpm =
     (\<lparr>td_api_key = trim_space key, td_base_url = ''https://api.twelvedata.com'', td_rate_limit_rpm = rpm,
        td_timeout = (if timeout \<le> 0 then 5 * second else timeout)\<rparr>,
      \<lparr>hm_provider = ''twelvedata'', hm_healthy = False, hm_checked_at = 0, hm_last_fetch_latency = 0,
        hm_last_error = [], hm_rate_limit_rpm = rpm, hm_last_request_count = 0, hm_last_success_at = None\<rparr>)"

record twelve_data_request_symbols =
  ts_ordered_internal :: "string list"
  ts_internal_to_api :: "(string \<times> string) list"
  ts_api_to_internal :: "(string \<times> string) list"

definition build_twelve_data_request_symbols :: "case_api \<Rightarrow> string list \<Rightarrow> twelve_data_request_symbols" where
  "build_twelve_data_request_symbols N ss = fold (\<lambda>s out.
     out\<lparr>ts_ordered_internal := ts_ordered_internal out @ [s],
       ts_internal_to_api := AList.update s (to_twelve_data_symbol N s) (ts_internal_to_api out),
       ts_api_to_internal := AList.update (to_twelve_data_symbol N s) s (ts_api_to_internal out)\<rparr>) ss
     \<lparr>ts_ordered_internal = [], ts_internal_to_api = [], ts_api_to_internal = []\<rparr>"

definition api_symbol :: "twelve_data_request_symbols \<Rightarrow> string \<Rightarrow> string" where
  "api_symbol q s = (case map_of (ts_internal_to_api q) s of None \<Rightarrow> [] | Some a \<Rightarrow> a)"

definition provider_list :: "twelve_data_request_symbols \<Rightarrow> string list" where
  "provider_list q = map (api_symbol q) (ts_ordered_internal q)"

text \<open>The clock is read twice: for \<^verbatim>\<open>CheckedAt\<close> and for the latency.\<close>

definition update_health ::
  "('w \<Rightarrow> time \<times> 'w) \<Rightarrow> twelve_data_provider \<Rightarrow> time \<Rightarrow> nat \<Rightarrow> 'd fetch_result option \<Rightarrow> fetch_err option \<Rightarrow>
   'w \<Rightarrow> health_metadata \<times> 'w" where
  "update_health clock p start requested res e w =
     (case clock w of (now, w1) \<Rightarrow> (case clock w1 of (t, w2) \<Rightarrow>
       (\<lparr>hm_provider = ''twelvedata'', hm_healthy = (e = None), hm_checked_at = now,
         hm_last_fetch_latency = time_sub t start,
         hm_last_error = (case e of None \<Rightarrow> [] | Some x \<Rightarrow> fetch_err_text x),
         hm_rate_limit_rpm = td_rate_limit_rpm p, hm_last_request_count = requested,
         hm_last_success_at = (case (e, res) of
            (None, Some r) \<Rightarrow> if fr_quotes r \<noteq> [] then Some now else None
          | _ \<Rightarrow> None)\<rparr>, w2)))"

text \<open>A body that is an object, as a map: the last of equal names wins.\<close>

fun body_members :: "json option \<Rightarrow> (string \<Rightarrow> json option) option" where
  "body_members (Some (JObj ms)) = Some (map_of (rev ms))"
| "body_members (Some JNull) = Some (\<lambda>k. None)"
| "body_members _ = None"

definition parse_price_string :: "'d decimal_api \<Rightarrow> json \<Rightarrow> fetch_err + 'd" where
  "parse_price_string D raw = (case decode_string raw [] of
     None \<Rightarrow> Inl (FetchError ''decode twelvedata price'')
   | Some s \<Rightarrow> (case d_parse D (trim_space s) of
       None \<Rightarrow> Inl (FetchError ''parse twelvedata price'')
     | Some p \<Rightarrow> Inr p))"

record twelve_data_row =
  tr_price :: string
  tr_currency :: string

definition assign_row_field :: "string \<Rightarrow> json \<Rightarrow> twelve_data_row \<Rightarrow> twelve_data_row option" where
  "assign_row_field f j r =
     (if f = ''price'' then map_option (\<lambda>v. r\<lparr>tr_price := v\<rparr>) (decode_string j (tr_price r))
      else map_option (\<lambda>v. r\<lparr>tr_currency := v\<rparr>) (decode_string j (tr_currency r)))"

definition parse_row ::
  "'d decimal_api \<Rightarrow> case_api \<Rightarrow> time \<Rightarrow> string \<Rightarrow> string \<Rightarrow> json \<Rightarrow> 'd price_quote option" where
  "parse_row D N now internal req_sym raw =
     (case bind_body [''price'', ''currency''] assign_row_field (RawDoc raw) \<lparr>tr_price = [], tr_currency = []\<rparr> of
        None \<Rightarrow> None
      | Some row \<Rightarrow>
        (if trim_space (tr_price row) = [] then None
         else case d_parse D (trim_space (tr_price row)) of
             None \<Rightarrow> None
           | Some p \<Rightarrow> (let currency = to_upper N (trim_space (tr_currency row))
             in Some \<lparr>qt_symbol = internal, qt_provider_symbol = req_sym, qt_price = p,
                  qt_currency = (if currency = [] then ''USD'' else currency), qt_as_of = now,
                  qt_source_sequence = unix_milli now\<rparr>)))"

definition parse_rows ::
  "'d decimal_api \<Rightarrow> case_api \<Rightarrow> time \<Rightarrow> (string \<Rightarrow> json option) \<Rightarrow> twelve_data_request_symbols \<Rightarrow>
   'd price_quote list" where
  "parse_rows D N now body q = List.map_filter (\<lambda>s. case body (api_symbol q s) of
     None \<Rightarrow> None | Some raw \<Rightarrow> parse_row D N now s (api_symbol q s) raw) (ts_ordered_internal q)"

definition parse_twelve_data_price_response ::
  "'d decimal_api \<Rightarrow> case_api \<Rightarrow> ('w \<Rightarrow> time \<times> 'w) \<Rightarrow> json option \<Rightarrow> twelve_data_request_symbols \<Rightarrow> 'w \<Rightarrow>
   (fetch_err + 'd price_quote list) \<times> 'w" where
  "parse_twelve_data_price_response D N clock reply q w =
     (case body_members reply of
        None \<Rightarrow> (Inl (FetchError ''decode twelvedata response''), w)
      | Some body \<Rightarrow>
        (if body ''code'' \<noteq> None then (Inl (FetchError ''twelvedata error response''), w)
         else case clock w of (now, w1) \<Rightarrow>
           (case (ts_ordered_internal q, body ''price'') of
              ([internal], Some raw) \<Rightarrow> (case parse_price_string D raw of
                  Inl e \<Rightarrow> (Inl e, w1)
                | Inr p \<Rightarrow> (Inr [\<lparr>qt_symbol = internal, qt_provider_symbol = api_symbol q internal, qt_price = p,
                    qt_currency = ''USD'', qt_as_of = now, qt_source_sequence = unix_milli now\<rparr>], w1))
            | _ \<Rightarrow> (let quotes = parse_rows D N now body q
                in if quotes = [] then (Inl (FetchError ''twelvedata returned no parseable quotes''), w1)
                   else (Inr quotes, w1)))))"

definition fetch_quotes ::
  "'d decimal_api \<Rightarrow> case_api \<Rightarrow> ('w \<Rightarrow> time \<times> 'w) \<Rightarrow>
   (string \<Rightarrow> (string \<times> string) list \<Rightarrow> 'w \<Rightarrow> ((string \<times> bool) + int \<times> json option) \<times> 'w) \<Rightarrow> twelve_data_provider \<Rightarrow>
   string list \<Rightarrow> 'w \<Rightarrow> (fetch_err + 'd fetch_result) \<times> health_metadata \<times> 'w" where
  "fetch_quotes D N clock http p symbols w =
     (case clock w of (start, w1) \<Rightarrow>
       (let clean = normalize_requested_symbols N symbols;
            failed = (\<lambda>n e w'. case update_health clock p start n (None :: 'd fetch_result option) (Some e) w' of
              (h, w'') \<Rightarrow> (Inl e, h, w''))
        in if clean = [] then failed 0 (FetchError ''symbols are required'') w1
           else let q = build_twelve_data_request_symbols N clean
           in case http (td_base_url p @ ''/price'')
                  [(''apikey'', td_api_key p), (''symbol'', join_with '','' (provider_list q))] w1 of
               (Inl (msg, canceled), w2) \<Rightarrow> failed (length clean) (provider_error ''twelvedata'' 0 True canceled msg) w2
             | (Inr (st, reply), w2) \<Rightarrow>
               (if st < 200 \<or> st \<ge> 300
                then failed (length clean) (provider_error ''twelvedata'' st (st = 429 \<or> st \<ge> 500) False ''unexpected status'') w2
                else case parse_twelve_data_price_response D N clock reply q w2 of
                    (Inl e, w3) \<Rightarrow> failed (length clean) e w3
                  | (Inr quotes, w3) \<Rightarrow> (case clock w3 of (t, w4) \<Rightarrow>
                      (let res = \<lparr>fr_provider = ''twelvedata'', fr_fetched_at = t, fr_quotes = quotes,
                             fr_partial = (length quotes \<noteq> length clean)\<rparr>
                       in case update_health clock p start (length clean) (Some res) None w4 of
                           (h, w5) \<Rightarrow> (Inr res, h, w5))))))"

text \<open>The adapter as a provider: its health is part of the world.\<close>

definition twelve_data ::
  "'d decimal_api \<Rightarrow> case_api \<Rightarrow> ('w \<Rightarrow> time \<times> 'w) \<Rightarrow>
   (string \<Rightarrow> (string \<times> string) list \<Rightarrow> 'w \<Rightarrow> ((string \<times> bool) + int \<times> json option) \<times> 'w) \<Rightarrow> (health_metadata \<Rightarrow> 'w \<Rightarrow> 'w) \<Rightarrow>
   twelve_data_provider \<Rightarrow> ('d, 'w) provider" where
  "twelve_data D N clock http put_health p = \<lparr>pv_name = ''twelvedata'',
     pv_fetch = (\<lambda>symbols w. case fetch_quotes D N clock http p symbols w of
       (r, h, w') \<Rightarrow> (r, put_health h w'))\<rparr>"

end
