(* ===== verification/Api_Ingest.thy ===== *)
theory Api_Ingest
  imports Http_Api Store_Typing Account_Store
begin

text \<open>
  \<^verbatim>\<open>internal/api/handlers.go\<close>: the two ingestion endpoints, with the routing of a symbol to its
  price partition (\<^verbatim>\<open>config.PricePartitionForSymbol\<close>). The service is a function from an envelope
  to a program, the ownership check another; \<^verbatim>\<open>uuid.New\<close> is the argument \<open>fresh\<close>, the clock a
  function of the world. Logging is left out.
\<close>

definition price_partition_for_symbol :: "uuid list \<Rightarrow> string \<Rightarrow> uuid res" where
  "price_partition_for_symbol partitions s =
     (if partitions = [] then Inl (EOther ''no price partitions configured'')
      else Inr (partitions ! nat (uint (fnv1a (map byte_of s) mod word_of_int (int (length partitions))))))"

lemma price_partition_member:
  assumes "partitions \<noteq> []" and "length partitions < 2 ^ 32"
  shows "\<exists>p\<in>set partitions. price_partition_for_symbol partitions s = Inr p"
proof -
  let ?n = "int (length partitions)"
  have "uint (word_of_int ?n :: 32 word) = ?n"
    using assms(2) by (simp add: unsigned_of_nat take_bit_nat_eq_self)
  then have "uint (fnv1a (map byte_of s) mod word_of_int ?n) = uint (fnv1a (map byte_of s)) mod ?n"
    by (simp add: uint_mod)
  moreover have "uint (fnv1a (map byte_of s)) mod ?n < ?n" using assms(1) by simp
  ultimately have "nat (uint (fnv1a (map byte_of s) mod word_of_int ?n)) < length partitions"
    by (metis nat_less_iff uint_ge_0)
  then show ?thesis using assms(1) by (auto simp: price_partition_for_symbol_def)
qed

section \<open>Requests\<close>

record post_trade_request =
  tr_portfolio_id :: string
  tr_idempotency_key :: string
  tr_source :: string
  tr_event_time :: "time option"
  tr_trade :: raw_message

definition post_trade_fields :: "string list" where
  "post_trade_fields = [''portfolio_id'', ''idempotency_key'', ''source'', ''event_time'', ''trade'']"

definition assign_trade_field :: "string \<Rightarrow> json \<Rightarrow> post_trade_request \<Rightarrow> post_trade_request option" where
  "assign_trade_field f j r =
     (if f = ''portfolio_id'' then map_option (\<lambda>v. r\<lparr>tr_portfolio_id := v\<rparr>) (decode_string j (tr_portfolio_id r))
      else if f = ''idempotency_key'' then map_option (\<lambda>v. r\<lparr>tr_idempotency_key := v\<rparr>) (decode_string j (tr_idempotency_key r))
      else if f = ''source'' then map_option (\<lambda>v. r\<lparr>tr_source := v\<rparr>) (decode_string j (tr_source r))
      else if f = ''event_time'' then map_option (\<lambda>v. r\<lparr>tr_event_time := v\<rparr>) (decode_time_ptr j)
      else Some (r\<lparr>tr_trade := RawDoc j\<rparr>))"

definition bind_post_trade :: "raw_message \<Rightarrow> post_trade_request option" where
  "bind_post_trade body =
     (case bind_body post_trade_fields assign_trade_field body
        \<lparr>tr_portfolio_id = [], tr_idempotency_key = [], tr_source = [], tr_event_time = None, tr_trade = RawEmpty\<rparr> of
        None \<Rightarrow> None
      | Some r \<Rightarrow> (if tr_portfolio_id r = [] \<or> tr_idempotency_key r = [] \<or> tr_source r = [] \<or> tr_trade r = RawEmpty
          then None else Some r))"

record post_price_request =
  pr_idempotency_key :: string
  pr_source :: string
  pr_event_time :: "time option"
  pr_price :: raw_message

definition post_price_fields :: "string list" where
  "post_price_fields = [''idempotency_key'', ''source'', ''event_time'', ''price'']"

definition assign_price_field :: "string \<Rightarrow> json \<Rightarrow> post_price_request \<Rightarrow> post_price_request option" where
  "assign_price_field f j r =
     (if f = ''idempotency_key'' then map_option (\<lambda>v. r\<lparr>pr_idempotency_key := v\<rparr>) (decode_string j (pr_idempotency_key r))
      else if f = ''source'' then map_option (\<lambda>v. r\<lparr>pr_source := v\<rparr>) (decode_string j (pr_source r))
      else if f = ''event_time'' then map_option (\<lambda>v. r\<lparr>pr_event_time := v\<rparr>) (decode_time_ptr j)
      else Some (r\<lparr>pr_price := RawDoc j\<rparr>))"

definition bind_post_price :: "raw_message \<Rightarrow> post_price_request option" where
  "bind_post_price body =
     (case bind_body post_price_fields assign_price_field body
        \<lparr>pr_idempotency_key = [], pr_source = [], pr_event_time = None, pr_price = RawEmpty\<rparr> of
        None \<Rightarrow> None
      | Some r \<Rightarrow> (if pr_idempotency_key r = [] \<or> pr_source r = [] \<or> pr_price r = RawEmpty
          then None else Some r))"

section \<open>Handlers\<close>

text \<open>The common end of both handlers: the answer to the service's result.\<close>

definition ingest_response :: "uuid_api \<Rightarrow> string \<Rightarrow> append_result res \<Rightarrow> http_response" where
  "ingest_response U rid r = (case r of
     Inl e \<Rightarrow> (case map_domain_ingest_error e of (st, code, msg) \<Rightarrow> api_error rid st code msg)
   | Inr res \<Rightarrow> \<lparr>rs_status = (if ar_inserted res then 201 else 200),
       rs_body = JObj [(''event_id'', JStr (uuid_str U (ar_event_id res))),
         (''status'', JStr (if ar_inserted res then ''created'' else ''duplicate''))]\<rparr>)"

definition event_clock :: "('w \<Rightarrow> time \<times> 'w) \<Rightarrow> time option \<Rightarrow> 'w \<Rightarrow> time \<times> time \<times> 'w" where
  "event_clock now given w = (case now w of (t1, w1) \<Rightarrow> (case now w1 of (t2, w2) \<Rightarrow>
     (case given of None \<Rightarrow> t1 | Some t \<Rightarrow> t, t2, w2)))"

definition trade_event ::
  "'d json_api \<Rightarrow> post_trade_request \<Rightarrow> 'd trade_payload \<Rightarrow> uuid \<Rightarrow> time \<Rightarrow> time \<Rightarrow> event_envelope" where
  "trade_event J req t fresh ev_time now = \<lparr>event_id = fresh, event_type = event_type_trade_executed,
     event_time = ev_time, processing_time = now, source = tr_source req, portfolio_id = tr_portfolio_id req,
     idempotency_key = tr_idempotency_key req, payload = encode_trade J t\<rparr>"

definition trade_access ::
  "string \<Rightarrow> (uuid \<Rightarrow> uuid \<Rightarrow> ('w, bool) prog) option \<Rightarrow> uuid option \<Rightarrow> uuid \<Rightarrow> 'w \<Rightarrow> http_response option \<times> 'w" where
  "trade_access rid ownership user pid w =
     (case (user, ownership) of
        (Some u, Some owned) \<Rightarrow> (case owned pid u w of
            (Inl e, w') \<Rightarrow> (Some (internal_error rid), w')
          | (Inr False, w') \<Rightarrow> (Some (api_error rid 403 err_code_forbidden ''forbidden''), w')
          | (Inr True, w') \<Rightarrow> (None, w'))
      | _ \<Rightarrow> (None, w))"

definition post_trade_handler ::
  "'d decimal_api \<Rightarrow> 'd json_api \<Rightarrow> uuid_api \<Rightarrow> (event_envelope \<Rightarrow> ('w, append_result) prog) \<Rightarrow> ('w \<Rightarrow> time \<times> 'w) \<Rightarrow>
   uuid list \<Rightarrow> (uuid \<Rightarrow> uuid \<Rightarrow> ('w, bool) prog) option \<Rightarrow> string \<Rightarrow> uuid option \<Rightarrow> uuid \<Rightarrow> raw_message \<Rightarrow>
   'w \<Rightarrow> http_response \<times> 'w" where
  "post_trade_handler D J U svc now partitions ownership rid user fresh body w =
     (case bind_post_trade body of
        None \<Rightarrow> (validation_failed rid ''invalid request body including JSON shape'', w)
      | Some req \<Rightarrow> (case uuid_parse U (tr_portfolio_id req) of
          None \<Rightarrow> (validation_failed rid ''portfolio_id must be a UUID'', w)
        | Some pid \<Rightarrow>
          (if pid \<in> set partitions
           then (validation_failed rid ''portfolio_id is reserved for the market price stream'', w)
           else case trade_access rid ownership user pid w of
               (Some r, w1) \<Rightarrow> (r, w1)
             | (None, w1) \<Rightarrow> (case decode_trade D J (tr_trade req) of
                 None \<Rightarrow> (validation_failed rid ''invalid trade object'', w1)
               | Some t \<Rightarrow> (case event_clock now (tr_event_time req) w1 of (ev_time, t_now, w2) \<Rightarrow>
                   (case svc (trade_event J req t fresh ev_time t_now) w2 of (r, w3) \<Rightarrow>
                     (ingest_response U rid r, w3)))))))"

definition price_event ::
  "'d json_api \<Rightarrow> uuid_api \<Rightarrow> post_price_request \<Rightarrow> 'd price_payload \<Rightarrow> uuid \<Rightarrow> uuid \<Rightarrow> time \<Rightarrow> time \<Rightarrow> event_envelope" where
  "price_event J U req p target fresh ev_time now = \<lparr>event_id = fresh, event_type = event_type_price_updated,
     event_time = ev_time, processing_time = now, source = pr_source req, portfolio_id = uuid_str U target,
     idempotency_key = pr_idempotency_key req, payload = encode_price J p\<rparr>"

definition post_price_handler ::
  "'d decimal_api \<Rightarrow> 'd json_api \<Rightarrow> uuid_api \<Rightarrow> (event_envelope \<Rightarrow> ('w, append_result) prog) \<Rightarrow> ('w \<Rightarrow> time \<times> 'w) \<Rightarrow>
   uuid list \<Rightarrow> string \<Rightarrow> uuid \<Rightarrow> raw_message \<Rightarrow> 'w \<Rightarrow> http_response \<times> 'w" where
  "post_price_handler D J U svc now partitions rid fresh body w =
     (case bind_post_price body of
        None \<Rightarrow> (validation_failed rid ''invalid request body including JSON shape'', w)
      | Some req \<Rightarrow> (case decode_price D J (pr_price req) of
          None \<Rightarrow> (validation_failed rid ''invalid price object'', w)
        | Some p \<Rightarrow> (case price_partition_for_symbol partitions (p_symbol p) of
            Inl e \<Rightarrow> (internal_error rid, w)
          | Inr target \<Rightarrow> (case event_clock now (pr_event_time req) w of (ev_time, t_now, w1) \<Rightarrow>
              (case svc (price_event J U req p target fresh ev_time t_now) w1 of (r, w2) \<Rightarrow>
                (ingest_response U rid r, w2))))))"

end
