(* ===== verification/Price_Feed.thy ===== *)
theory Price_Feed
  imports Price_Source Api_Ingest
begin

text \<open>
  \<^verbatim>\<open>internal/ingestion/pricefeed\<close>: the poller of \<^verbatim>\<open>runner.go\<close> and the tracker of
  \<^verbatim>\<open>runtime_tracker.go\<close>. The maps of the poller are association lists; what it takes from its
  surroundings (the clock, \<^verbatim>\<open>uuid.New\<close>, the random jitter, the wait of the back-off, which says
  whether its timer fired, and whether an error is a cancellation) is the record \<open>feed_env\<close>.
  Logging and metrics are left out.
\<close>

record 'w feed_env =
  fe_now :: "'w \<Rightarrow> time \<times> 'w"
  fe_uuid :: "'w \<Rightarrow> uuid \<times> 'w"
  fe_jitter :: "'w \<Rightarrow> int \<times> 'w"
  fe_wait :: "duration \<Rightarrow> 'w \<Rightarrow> bool \<times> 'w"
  fe_canceled :: "err \<Rightarrow> bool"

section \<open>The runtime tracker\<close>

record runtime_tracker =
  rt_last_tick_started_at :: "time option"
  rt_last_tick_finished_at :: "time option"
  rt_last_success_at :: "time option"
  rt_last_error :: string
  rt_active_provider :: string
  rt_last_tick_used_failover :: bool
  rt_last_tick_ingested :: nat

definition new_runtime_tracker :: runtime_tracker where
  "new_runtime_tracker = \<lparr>rt_last_tick_started_at = None, rt_last_tick_finished_at = None, rt_last_success_at = None,
     rt_last_error = [], rt_active_provider = [], rt_last_tick_used_failover = False, rt_last_tick_ingested = 0\<rparr>"

definition on_tick_start :: "time \<Rightarrow> runtime_tracker \<Rightarrow> runtime_tracker" where
  "on_tick_start now t = t\<lparr>rt_last_tick_started_at := Some now\<rparr>"

definition on_tick_failure :: "time \<Rightarrow> fetch_err option \<Rightarrow> runtime_tracker \<Rightarrow> runtime_tracker" where
  "on_tick_failure now e t = (case e of
     None \<Rightarrow> t\<lparr>rt_last_tick_finished_at := Some now, rt_last_tick_ingested := 0\<rparr>
   | Some x \<Rightarrow> t\<lparr>rt_last_tick_finished_at := Some now, rt_last_error := fetch_err_text x, rt_last_tick_ingested := 0\<rparr>)"

definition on_tick_success :: "time \<Rightarrow> string \<Rightarrow> bool \<Rightarrow> nat \<Rightarrow> runtime_tracker \<Rightarrow> runtime_tracker" where
  "on_tick_success now provider used_failover ingested t =
     t\<lparr>rt_last_tick_finished_at := Some now, rt_last_success_at := Some now, rt_last_error := [],
       rt_active_provider := provider, rt_last_tick_used_failover := used_failover, rt_last_tick_ingested := ingested\<rparr>"

text \<open>\<^verbatim>\<open>Snapshot\<close> copies the fields; without a tracker they are zero.\<close>

definition runtime_snapshot :: "runtime_tracker option \<Rightarrow> runtime_tracker" where
  "runtime_snapshot t = (case t of None \<Rightarrow> new_runtime_tracker | Some r \<Rightarrow> r)"

section \<open>The poller\<close>

record ('d, 'w) feed_config =
  fc_interval :: duration
  fc_symbols :: "string list"
  fc_providers :: "('d, 'w) provider list"
  fc_partitions :: "uuid list"
  fc_max_retries :: int
  fc_retry_delay :: duration
  fc_source_prefix :: string
  fc_max_quote_age :: duration
  fc_dedup_window :: duration

record 'd dedup_state =
  dd_price :: 'd
  dd_last_seen :: time

record 'd price_ingestor =
  pi_symbols :: "string list"
  pi_last_seq :: "(string \<times> int) list"
  pi_dedup :: "(string \<times> 'd dedup_state) list"
  pi_runtime :: "runtime_tracker option"

definition new_price_ingestor ::
  "runtime_tracker option \<Rightarrow> ('d, 'w) feed_config \<Rightarrow> (('d, 'w) feed_config \<times> 'd price_ingestor) res" where
  "new_price_ingestor rt cfg =
     (if fc_providers cfg = [] then Inl (EOther ''at least one provider is required'')
      else if fc_partitions cfg = [] then Inl (EOther ''price stream partitions are required'')
      else Inr (cfg\<lparr>fc_interval := (if fc_interval cfg \<le> 0 then 60 * second else fc_interval cfg),
             fc_retry_delay := (if fc_retry_delay cfg \<le> 0 then 500 * millisecond else fc_retry_delay cfg),
             fc_max_retries := (if fc_max_retries cfg < 0 then 0 else fc_max_retries cfg),
             fc_source_prefix := (if fc_source_prefix cfg = [] then ''pricefeed'' else fc_source_prefix cfg)\<rparr>,
           \<lparr>pi_symbols = fc_symbols cfg, pi_last_seq = [], pi_dedup = [], pi_runtime = rt\<rparr>))"

text \<open>The receiver may be nil.\<close>

definition watchlist :: "'d price_ingestor option \<Rightarrow> string list" where
  "watchlist r = (case r of None \<Rightarrow> [] | Some f \<Rightarrow> pi_symbols f)"

definition normalize_symbols :: "case_api \<Rightarrow> string list \<Rightarrow> string list" where
  "normalize_symbols N ss = normalize_from N [] ss"

definition set_watchlist :: "case_api \<Rightarrow> string list \<Rightarrow> 'd price_ingestor option \<Rightarrow> 'd price_ingestor option" where
  "set_watchlist N ss r = map_option (\<lambda>f. f\<lparr>pi_symbols := normalize_symbols N ss\<rparr>) r"

subsection \<open>Fetching\<close>

text \<open>\<^verbatim>\<open>1 << attempt\<close> and the products are 64 bits wide.\<close>

definition backoff_delay :: "duration \<Rightarrow> nat \<Rightarrow> int \<Rightarrow> duration" where
  "backoff_delay retry_delay attempt jitter =
     (let base = (if retry_delay \<le> 0 then 500 * millisecond else retry_delay);
          multiplier = sint (push_bit attempt 1 :: 64 word);
          multiplier = (if multiplier > 16 then 16 else multiplier)
      in int64_wrap (int64_wrap (multiplier * base) + jitter))"

definition sleep_backoff :: "'w feed_env \<Rightarrow> duration \<Rightarrow> nat \<Rightarrow> 'w \<Rightarrow> bool \<times> 'w" where
  "sleep_backoff E retry_delay attempt w =
     (case fe_jitter E w of (j, w1) \<Rightarrow> fe_wait E (backoff_delay retry_delay attempt j) w1)"

fun is_retryable_fetch_error :: "fetch_err \<Rightarrow> bool" where
  "is_retryable_fetch_error (ProviderError st r c m) = r"
| "is_retryable_fetch_error _ = False"

fun wrap_fetch_error :: "string \<Rightarrow> fetch_err \<Rightarrow> fetch_err" where
  "wrap_fetch_error name (ProviderError st r c m) = ProviderError st r c (name @ '' fetch failed: '' @ m)"
| "wrap_fetch_error name (FetchError m) = FetchError (name @ '' fetch failed: '' @ m)"
| "wrap_fetch_error name FetchCanceled = FetchCanceled"

text \<open>The loop over attempts; \<open>n\<close> is the number of attempts left.\<close>

fun fetch_attempts ::
  "'w feed_env \<Rightarrow> duration \<Rightarrow> ('d, 'w) provider \<Rightarrow> string list \<Rightarrow> nat \<Rightarrow> nat \<Rightarrow> 'w \<Rightarrow>
   (fetch_err + 'd fetch_result) \<times> 'w" where
  "fetch_attempts E delay p symbols 0 attempt w =
     (Inl (wrap_fetch_error (pv_name p) (FetchError ''fetch failed'')), w)"
| "fetch_attempts E delay p symbols (Suc n) attempt w =
     (case pv_fetch p symbols w of
        (Inr res, w1) \<Rightarrow> (Inr res, w1)
      | (Inl e, w1) \<Rightarrow>
        (if \<not> is_retryable_fetch_error e \<or> n = 0 then (Inl (wrap_fetch_error (pv_name p) e), w1)
         else case sleep_backoff E delay attempt w1 of
             (False, w2) \<Rightarrow> (Inl FetchCanceled, w2)
           | (True, w2) \<Rightarrow> fetch_attempts E delay p symbols n (Suc attempt) w2))"

definition fetch_from_provider_with_retry ::
  "'w feed_env \<Rightarrow> ('d, 'w) feed_config \<Rightarrow> string list \<Rightarrow> ('d, 'w) provider \<Rightarrow> 'w \<Rightarrow> (fetch_err + 'd fetch_result) \<times> 'w" where
  "fetch_from_provider_with_retry E cfg symbols p w =
     fetch_attempts E (fc_retry_delay cfg) p symbols (nat (int64_wrap (fc_max_retries cfg + 1))) 0 w"

text \<open>The result with the name of the provider that gave it, and whether it was not the first.\<close>

fun failover_from ::
  "'w feed_env \<Rightarrow> ('d, 'w) feed_config \<Rightarrow> string list \<Rightarrow> bool \<Rightarrow> fetch_err option \<Rightarrow> ('d, 'w) provider list \<Rightarrow> 'w \<Rightarrow>
   (fetch_err + 'd fetch_result \<times> string \<times> bool) \<times> 'w" where
  "failover_from E cfg symbols failed last_err [] w =
     (Inl (case last_err of None \<Rightarrow> FetchError ''no providers configured'' | Some e \<Rightarrow> e), w)"
| "failover_from E cfg symbols failed last_err (p # ps) w =
     (case fetch_from_provider_with_retry E cfg symbols p w of
        (Inr res, w1) \<Rightarrow> (Inr (res, pv_name p, failed), w1)
      | (Inl e, w1) \<Rightarrow> failover_from E cfg symbols True (Some e) ps w1)"

definition fetch_with_failover ::
  "'w feed_env \<Rightarrow> ('d, 'w) feed_config \<Rightarrow> string list \<Rightarrow> 'w \<Rightarrow> (fetch_err + 'd fetch_result \<times> string \<times> bool) \<times> 'w" where
  "fetch_with_failover E cfg symbols w = failover_from E cfg symbols False None (fc_providers cfg) w"

subsection \<open>Quotes\<close>

definition should_dedup :: "'d decimal_api \<Rightarrow> ('d, 'w) feed_config \<Rightarrow> string \<Rightarrow> 'd \<Rightarrow> time \<Rightarrow> 'd price_ingestor \<Rightarrow> bool" where
  "should_dedup D cfg s p as_of f =
     (if fc_dedup_window cfg \<le> 0 then False
      else case map_of (pi_dedup f) s of
          None \<Rightarrow> False
        | Some prev \<Rightarrow>
          (if time_sub as_of (dd_last_seen prev) > fc_dedup_window cfg then False
           else d_equal D (dd_price prev) p))"

definition record_dedup :: "('d, 'w) feed_config \<Rightarrow> string \<Rightarrow> 'd \<Rightarrow> time \<Rightarrow> 'd price_ingestor \<Rightarrow> 'd price_ingestor" where
  "record_dedup cfg s p as_of f = (if fc_dedup_window cfg \<le> 0 then f
     else f\<lparr>pi_dedup := AList.update s \<lparr>dd_price = p, dd_last_seen = as_of\<rparr> (pi_dedup f)\<rparr>)"

definition last_sequence :: "'d price_ingestor \<Rightarrow> string \<Rightarrow> int" where
  "last_sequence f s = (case map_of (pi_last_seq f) s of None \<Rightarrow> 0 | Some n \<Rightarrow> n)"

definition next_monotonic_sequence ::
  "'w feed_env \<Rightarrow> string \<Rightarrow> int \<Rightarrow> 'd price_ingestor \<times> 'w \<Rightarrow> int \<times> 'd price_ingestor \<times> 'w" where
  "next_monotonic_sequence E s candidate st =
     (let prev = last_sequence (fst st) s
      in case (if candidate \<le> 0 then case fe_now E (snd st) of (t, w) \<Rightarrow> (unix_milli t, w)
               else (candidate, snd st)) of
          (c, w) \<Rightarrow> (let c = (if c \<le> prev then int64_wrap (prev + 1) else c)
            in (c, (fst st)\<lparr>pi_last_seq := AList.update s c (pi_last_seq (fst st))\<rparr>, w)))"

definition feed_idempotency_key :: "('d, 'w) feed_config \<Rightarrow> string \<Rightarrow> string \<Rightarrow> time \<Rightarrow> string" where
  "feed_idempotency_key cfg provider s ts =
     provider @ '':'' @ s @ '':'' @ itoa (unix_seconds (truncate_time ts (fc_interval cfg)))"

datatype emit_outcome = Ingested | DroppedStale | DedupSkipped

text \<open>The event of a quote; the clock is read for the processing time.\<close>

definition quote_event ::
  "'d json_api \<Rightarrow> uuid_api \<Rightarrow> ('d, 'w) feed_config \<Rightarrow> string \<Rightarrow> string \<Rightarrow> 'd price_quote \<Rightarrow> int \<Rightarrow> uuid \<Rightarrow> time \<Rightarrow>
   uuid \<Rightarrow> time \<Rightarrow> event_envelope" where
  "quote_event J U cfg provider s q seq target as_of fresh now =
     \<lparr>event_id = fresh, event_type = event_type_price_updated, event_time = as_of, processing_time = now,
      source = fc_source_prefix cfg @ '':'' @ provider, portfolio_id = uuid_str U target,
      idempotency_key = feed_idempotency_key cfg provider s as_of,
      payload = encode_price J \<lparr>p_symbol = s, p_price = qt_price q, p_currency = qt_currency q, source_sequence = seq\<rparr>\<rparr>"

definition quote_time :: "'w feed_env \<Rightarrow> 'd price_quote \<Rightarrow> 'w \<Rightarrow> time \<times> 'w" where
  "quote_time E q w = (if qt_as_of q = 0 then fe_now E w else (qt_as_of q, w))"

definition quote_is_stale :: "'w feed_env \<Rightarrow> ('d, 'w) feed_config \<Rightarrow> time \<Rightarrow> 'w \<Rightarrow> bool \<times> 'w" where
  "quote_is_stale E cfg as_of w = (if fc_max_quote_age cfg \<le> 0 then (False, w)
     else case fe_now E w of (t, w1) \<Rightarrow> (time_sub t as_of > fc_max_quote_age cfg, w1))"

definition emit_quote ::
  "'d decimal_api \<Rightarrow> 'd json_api \<Rightarrow> uuid_api \<Rightarrow> case_api \<Rightarrow> 'w feed_env \<Rightarrow> (event_envelope \<Rightarrow> ('w, append_result) prog) \<Rightarrow>
   ('d, 'w) feed_config \<Rightarrow> string \<Rightarrow> 'd price_quote \<Rightarrow> ('d price_ingestor \<times> 'w, emit_outcome) prog" where
  "emit_quote D J U N E svc cfg provider q st =
     (case normalize_to_internal_symbol N (qt_symbol q) of
        Inl e \<Rightarrow> (Inl e, st)
      | Inr s \<Rightarrow> (case price_partition_for_symbol (fc_partitions cfg) s of
          Inl e \<Rightarrow> (Inl e, st)
        | Inr target \<Rightarrow> (case quote_time E q (snd st) of (as_of, w1) \<Rightarrow>
            (case quote_is_stale E cfg as_of w1 of
               (True, w2) \<Rightarrow> (Inr DroppedStale, (fst st, w2))
             | (False, w2) \<Rightarrow>
               (if should_dedup D cfg s (qt_price q) as_of (fst st) then (Inr DedupSkipped, (fst st, w2))
                else case next_monotonic_sequence E s (qt_source_sequence q) (fst st, w2) of (seq, f1, w3) \<Rightarrow>
                  (case fe_uuid E w3 of (fresh, w4) \<Rightarrow> (case fe_now E w4 of (now, w5) \<Rightarrow>
                    (case svc (quote_event J U cfg provider s q seq target as_of fresh now) w5 of
                       (Inl e, w6) \<Rightarrow> (Inl e, (f1, w6))
                     | (Inr r, w6) \<Rightarrow> (Inr Ingested, (record_dedup cfg s (qt_price q) as_of f1, w6))))))))))"

text \<open>The loop over the quotes of a fetch counts what was ingested and stops on a cancellation.\<close>

fun emit_quotes ::
  "'d decimal_api \<Rightarrow> 'd json_api \<Rightarrow> uuid_api \<Rightarrow> case_api \<Rightarrow> 'w feed_env \<Rightarrow> (event_envelope \<Rightarrow> ('w, append_result) prog) \<Rightarrow>
   ('d, 'w) feed_config \<Rightarrow> string \<Rightarrow> nat \<Rightarrow> 'd price_quote list \<Rightarrow> ('d price_ingestor \<times> 'w, nat) prog" where
  "emit_quotes D J U N E svc cfg provider n [] st = (Inr n, st)"
| "emit_quotes D J U N E svc cfg provider n (q # qs) st =
     (case emit_quote D J U N E svc cfg provider q st of
        (Inl e, st1) \<Rightarrow> (if fe_canceled E e then (Inl e, st1) else emit_quotes D J U N E svc cfg provider n qs st1)
      | (Inr Ingested, st1) \<Rightarrow> emit_quotes D J U N E svc cfg provider (Suc n) qs st1
      | (Inr _, st1) \<Rightarrow> emit_quotes D J U N E svc cfg provider n qs st1)"

definition track :: "(runtime_tracker \<Rightarrow> runtime_tracker) \<Rightarrow> 'd price_ingestor \<Rightarrow> 'd price_ingestor" where
  "track g f = f\<lparr>pi_runtime := map_option g (pi_runtime f)\<rparr>"

text \<open>The error of a tick is the fetch error or the cancellation.\<close>

definition run_tick ::
  "'d decimal_api \<Rightarrow> 'd json_api \<Rightarrow> uuid_api \<Rightarrow> case_api \<Rightarrow> 'w feed_env \<Rightarrow> (event_envelope \<Rightarrow> ('w, append_result) prog) \<Rightarrow>
   ('d, 'w) feed_config \<Rightarrow> 'd price_ingestor \<times> 'w \<Rightarrow> (fetch_err + nat) \<times> 'd price_ingestor \<times> 'w" where
  "run_tick D J U N E svc cfg st =
     (case fe_now E (snd st) of (start, w1) \<Rightarrow>
       (let f1 = track (on_tick_start start) (fst st)
        in case fetch_with_failover E cfg (pi_symbols f1) w1 of
            (Inl e, w2) \<Rightarrow> (case fe_now E w2 of (t, w3) \<Rightarrow>
               (Inl e, track (on_tick_failure t (Some e)) f1, if pi_runtime f1 = None then w2 else w3))
          | (Inr (res, provider, used_failover), w2) \<Rightarrow>
            (case emit_quotes D J U N E svc cfg provider 0 (fr_quotes res) (f1, w2) of
               (Inl e, st3) \<Rightarrow> (Inl FetchCanceled, st3)
             | (Inr n, (f3, w3)) \<Rightarrow> (case fe_now E w3 of (t, w4) \<Rightarrow>
                 (Inr n, track (on_tick_success t provider used_failover n) f3,
                  if pi_runtime f3 = None then w3 else w4)))))"

subsection \<open>The loop\<close>

text \<open>
  \<^verbatim>\<open>Start\<close> ticks once, whatever comes of it, and then at every turn of its ticker until a tick is
  cancelled or the context is done, which is the end of the list of turns. Between two ticks other
  goroutines may set the watchlist. The loop ends in an error only, a cancellation.
\<close>

datatype poller_turn = Ticked | WatchlistSet "string list"

fun poll_loop ::
  "'d decimal_api \<Rightarrow> 'd json_api \<Rightarrow> uuid_api \<Rightarrow> case_api \<Rightarrow> 'w feed_env \<Rightarrow> (event_envelope \<Rightarrow> ('w, append_result) prog) \<Rightarrow>
   ('d, 'w) feed_config \<Rightarrow> poller_turn list \<Rightarrow> 'd price_ingestor \<times> 'w \<Rightarrow> fetch_err \<times> 'd price_ingestor \<times> 'w" where
  "poll_loop D J U N E svc cfg [] st = (FetchCanceled, st)"
| "poll_loop D J U N E svc cfg (Ticked # ts) st =
     (case run_tick D J U N E svc cfg st of
        (Inl e, st1) \<Rightarrow> (if is_canceled e then (e, st1) else poll_loop D J U N E svc cfg ts st1)
      | (Inr n, st1) \<Rightarrow> poll_loop D J U N E svc cfg ts st1)"
| "poll_loop D J U N E svc cfg (WatchlistSet ss # ts) st =
     poll_loop D J U N E svc cfg ts ((fst st)\<lparr>pi_symbols := normalize_symbols N ss\<rparr>, snd st)"

definition start_poller ::
  "'d decimal_api \<Rightarrow> 'd json_api \<Rightarrow> uuid_api \<Rightarrow> case_api \<Rightarrow> 'w feed_env \<Rightarrow> (event_envelope \<Rightarrow> ('w, append_result) prog) \<Rightarrow>
   ('d, 'w) feed_config \<Rightarrow> poller_turn list \<Rightarrow> 'd price_ingestor \<times> 'w \<Rightarrow> fetch_err \<times> 'd price_ingestor \<times> 'w" where
  "start_poller D J U N E svc cfg ts st = poll_loop D J U N E svc cfg ts (snd (run_tick D J U N E svc cfg st))"

end
