(* ===== verification/Feed_Properties.thy ===== *)
theory Feed_Properties
  imports Price_Feed Store_Properties
begin

text \<open>
  The poller against the ingestion service: the sequence numbers it gives out, and what the
  combination of its idempotency key and its memory of the last price does to a price that moves
  within one polling interval.
\<close>

section \<open>One quote\<close>

text \<open>What the poller takes from its surroundings leaves a view of the world alone.\<close>

definition quiet :: "'w feed_env \<Rightarrow> ('w \<Rightarrow> 'v) \<Rightarrow> bool" where
  "quiet E v \<longleftrightarrow> (\<forall>w. v (snd (fe_now E w)) = v w \<and> v (snd (fe_uuid E w)) = v w)"

lemma quiet_steps:
  assumes "quiet E v"
  shows "v (snd (quote_time E q w)) = v w" "v (snd (quote_is_stale E cfg t w)) = v w"
    "v (snd (snd (next_monotonic_sequence E s c st))) = v (snd st)"
  using assms
  by (auto simp: quiet_def quote_time_def quote_is_stale_def next_monotonic_sequence_def split_beta Let_def)

lemma next_monotonic_sequence_result:
  assumes "next_monotonic_sequence E s c (f, w) = (n, f', w')"
  shows "f' = f\<lparr>pi_last_seq := AList.update s n (pi_last_seq f)\<rparr>"
    and "last_sequence f s < 2 ^ 63 - 1 \<Longrightarrow> - (2 ^ 63) \<le> last_sequence f s \<Longrightarrow> last_sequence f s < n"
    and "last_sequence f s \<le> B \<Longrightarrow> - (2 ^ 63) \<le> last_sequence f s \<Longrightarrow> c \<le> B \<Longrightarrow>
      (\<And>w. unix_milli (fst (fe_now E w)) \<le> B) \<Longrightarrow> B + 1 < 2 ^ 63 \<Longrightarrow> n \<le> B + 1"
proof -
  let ?p = "last_sequence f s"
  obtain c' w1 where c': "(if c \<le> 0 then case fe_now E w of (t, w) \<Rightarrow> (unix_milli t, w) else (c, w)) = (c', w1)"
    by (rule prod.exhaust)
  have n: "n = (if c' \<le> ?p then int64_wrap (?p + 1) else c')"
    "f' = f\<lparr>pi_last_seq := AList.update s n (pi_last_seq f)\<rparr>"
    using assms c' by (cases "c \<le> 0"; auto simp: next_monotonic_sequence_def Let_def split: prod.splits)+
  show "f' = f\<lparr>pi_last_seq := AList.update s n (pi_last_seq f)\<rparr>" by (rule n(2))
  have w: "?p < 2 ^ 63 - 1 \<Longrightarrow> - (2 ^ 63) \<le> ?p \<Longrightarrow> int64_wrap (?p + 1) = ?p + 1"
    by (rule int64_wrap_id) (simp add: int64_def)
  show "?p < 2 ^ 63 - 1 \<Longrightarrow> - (2 ^ 63) \<le> ?p \<Longrightarrow> ?p < n" using n(1) w by auto
  assume b: "?p \<le> B" "- (2 ^ 63) \<le> ?p" "c \<le> B" "\<And>w. unix_milli (fst (fe_now E w)) \<le> B" "B + 1 < 2 ^ 63"
  have "c' \<le> B" using c' b(3) b(4) [of w] by (auto split: if_splits prod.splits)
  then show "n \<le> B + 1" using n(1) w b by auto
qed

lemma emit_quote_cases:
  assumes "quiet E v" and run: "emit_quote D J U N E svc cfg provider q (f, w) = (r, (f', w'))"
  obtains (silent) "r \<noteq> Inr Ingested" "f' = f" "v w' = v w"
    | (sent) s target as_of seq fresh now w5 f1 x w2 w3 where
      "normalize_to_internal_symbol N (qt_symbol q) = Inr s"
      "price_partition_for_symbol (fc_partitions cfg) s = Inr target"
      "as_of = fst (quote_time E q w)"
      "next_monotonic_sequence E s (qt_source_sequence q) (f, w2) = (seq, f1, w3)"
      "svc (quote_event J U cfg provider s q seq target as_of fresh now) w5 = (x, w')" "v w5 = v w"
      "case x of Inl e \<Rightarrow> r = Inl e \<and> f' = f1 | Inr y \<Rightarrow> r = Inr Ingested \<and> f' = record_dedup cfg s (qt_price q) as_of f1"
proof (cases "normalize_to_internal_symbol N (qt_symbol q)")
  case (Inl e)
  then show thesis using run silent by (auto simp: emit_quote_def)
next
  case s: (Inr s)
  show thesis
  proof (cases "price_partition_for_symbol (fc_partitions cfg) s")
    case (Inl e)
    then show thesis using run s silent by (auto simp: emit_quote_def)
  next
    case target: (Inr target)
    obtain as_of w1 where as_of: "quote_time E q w = (as_of, w1)" by (rule prod.exhaust)
    obtain stale w2 where stale: "quote_is_stale E cfg as_of w1 = (stale, w2)" by (rule prod.exhaust)
    have v2: "v w2 = v w"
      using quiet_steps(1) [OF assms(1), of q w] quiet_steps(2) [OF assms(1), of cfg as_of w1] as_of stale by simp
    show thesis
    proof (cases "stale \<or> should_dedup D cfg s (qt_price q) as_of f")
      case True
      then show thesis using run s target as_of stale v2 silent
        by (cases stale) (auto simp: emit_quote_def)
    next
      case False
      obtain seq f1 w3 where seq: "next_monotonic_sequence E s (qt_source_sequence q) (f, w2) = (seq, f1, w3)"
        by (metis prod.exhaust)
      obtain fresh w4 where fresh: "fe_uuid E w3 = (fresh, w4)" by (rule prod.exhaust)
      obtain now w5 where now: "fe_now E w4 = (now, w5)" by (rule prod.exhaust)
      obtain x w6 where x: "svc (quote_event J U cfg provider s q seq target as_of fresh now) w5 = (x, w6)"
        by (rule prod.exhaust)
      have v5: "v w5 = v w"
        using quiet_steps(3) [OF assms(1), of s "qt_source_sequence q" "(f, w2)"] seq fresh now v2 assms(1)
        unfolding quiet_def by (metis fst_conv snd_conv)
      note run' = run [unfolded emit_quote_def s target sum.case fst_conv snd_conv as_of prod.case stale]
      have res: "w6 = w'" "case x of Inl e \<Rightarrow> r = Inl e \<and> f' = f1
          | Inr y \<Rightarrow> r = Inr Ingested \<and> f' = record_dedup cfg s (qt_price q) as_of f1"
        using run' False seq fresh now x by (auto split: sum.splits)
      show thesis
        using sent [OF s target _ seq x [unfolded res(1)] v5 res(2)] as_of by simp
    qed
  qed
qed

section \<open>Sequence numbers\<close>

lemma last_sequence_update:
  "last_sequence (f\<lparr>pi_last_seq := AList.update s n (pi_last_seq f)\<rparr>) t = (if t = s then n else last_sequence f t)"
  by (simp add: last_sequence_def update_conv')

lemma last_sequence_dedup [simp]: "last_sequence (record_dedup cfg s p t f) = last_sequence f"
  by (simp add: last_sequence_def record_dedup_def fun_eq_iff)

text \<open>The symbol and sequence number an event carries.\<close>

definition sequenced :: "'d decimal_api \<Rightarrow> 'd json_api \<Rightarrow> event_envelope \<Rightarrow> (string \<times> int) option" where
  "sequenced D J e = map_option (\<lambda>p. (p_symbol p, source_sequence p)) (decode_price D J (payload e))"

definition in_sequence :: "'d decimal_api \<Rightarrow> 'd json_api \<Rightarrow> event_envelope \<Rightarrow> event_envelope \<Rightarrow> bool" where
  "in_sequence D J a b \<longleftrightarrow> (\<forall>s m n. sequenced D J a = Some (s, m) \<and> sequenced D J b = Some (s, n) \<longrightarrow> m < n)"

lemma quote_event_sequenced:
  assumes "decimal_json D val J" and "int64 seq"
  shows "sequenced D J (quote_event J U cfg provider s q seq target as_of fresh now) = Some (s, seq)"
  using decimal_json.decode_encode_price [OF assms(1), of "\<lparr>p_symbol = s, p_price = qt_price q,
      p_currency = qt_currency q, source_sequence = seq\<rparr>"] assms(2)
  by (auto simp: sequenced_def quote_event_def)

lemma seq_bounds:
  fixes f :: "'d price_ingestor"
  assumes "next_monotonic_sequence E s c (f, w) = (n, f1, w')"
    and "\<forall>t. 0 \<le> last_sequence f t \<and> last_sequence f t \<le> B" and "c \<le> B"
    and "\<And>w. unix_milli (fst (fe_now E w)) \<le> B" and "B + 1 < 2 ^ 63"
  shows "last_sequence f s < n \<and> n \<le> B + 1 \<and> int64 n \<and> last_sequence f1 s = n"
    and "\<forall>t. last_sequence f t \<le> last_sequence f1 t \<and> last_sequence f1 t \<le> B + 1"
proof -
  have l: "0 \<le> last_sequence f s" "last_sequence f s \<le> B" using assms(2) by blast+
  have f1: "last_sequence f1 t = (if t = s then n else last_sequence f t)" for t
    using next_monotonic_sequence_result(1) [OF assms(1)] last_sequence_update [of s n f t] by simp
  have n: "last_sequence f s < n" "n \<le> B + 1"
    using next_monotonic_sequence_result(2,3) [OF assms(1)] l assms(3-5) by auto
  then show "last_sequence f s < n \<and> n \<le> B + 1 \<and> int64 n \<and> last_sequence f1 s = n"
    using l assms(5) f1 by (simp add: int64_def)
  show "\<forall>t. last_sequence f t \<le> last_sequence f1 t \<and> last_sequence f1 t \<le> B + 1"
    using n f1 assms(2) by (auto intro: order_trans)
qed

text \<open>Events that carry, for each symbol, increasing numbers above those of \<open>f\<close> and up to those of \<open>f'\<close>.\<close>

definition numbered ::
  "'d decimal_api \<Rightarrow> 'd json_api \<Rightarrow> 'd price_ingestor \<Rightarrow> event_envelope list \<Rightarrow> 'd price_ingestor \<Rightarrow> bool" where
  "numbered D J f es f' \<longleftrightarrow> sorted_wrt (in_sequence D J) es \<and>
    (\<forall>e\<in>set es. \<exists>s n. sequenced D J e = Some (s, n) \<and> last_sequence f s < n \<and> n \<le> last_sequence f' s) \<and>
    (\<forall>s. last_sequence f s \<le> last_sequence f' s)"

lemma numbered_Nil: "last_sequence f' = last_sequence f \<Longrightarrow> numbered D J f [] f'"
  by (simp add: numbered_def)

lemma numbered_cong:
  "last_sequence g = last_sequence f \<Longrightarrow> last_sequence g' = last_sequence f' \<Longrightarrow> numbered D J g es g' = numbered D J f es f'"
  by (simp add: numbered_def)

lemma numbered_append:
  assumes "numbered D J f es f1" and "numbered D J f1 es' f'"
  shows "numbered D J f (es @ es') f'"
proof -
  note n = assms [unfolded numbered_def]
  have "in_sequence D J a b" if "a \<in> set es" "b \<in> set es'" for a b
  proof -
    have "\<exists>s m. sequenced D J a = Some (s, m) \<and> m \<le> last_sequence f1 s" using n that(1) by blast
    moreover have "\<exists>t k. sequenced D J b = Some (t, k) \<and> last_sequence f1 t < k" using n that(2) by blast
    ultimately obtain s m t k where "sequenced D J a = Some (s, m)" "m \<le> last_sequence f1 s"
      "sequenced D J b = Some (t, k)" "last_sequence f1 t < k"
      by blast
    then show ?thesis by (auto simp: in_sequence_def)
  qed
  moreover have "\<exists>s n. sequenced D J e = Some (s, n) \<and> last_sequence f s < n \<and> n \<le> last_sequence f' s"
    if "e \<in> set es \<or> e \<in> set es'" for e
    using that n by (meson order_trans order.strict_trans1)
  moreover have "\<forall>t. last_sequence f t \<le> last_sequence f' t" using n by (meson order_trans)
  ultimately show ?thesis using n by (simp add: numbered_def sorted_wrt_append Un_def)
qed

lemma emit_quote_log:
  assumes "decimal_json D val J" and "quiet E lg" and "\<And>e w. lg (snd (svc e w)) = lg w @ [e]"
    and run: "emit_quote D J U N E svc cfg provider q (f, w) = (r, (f', w'))"
    and "\<forall>t. 0 \<le> last_sequence f t \<and> last_sequence f t \<le> B" and "qt_source_sequence q \<le> B"
    and "\<And>w. unix_milli (fst (fe_now E w)) \<le> B" and "B + 1 < 2 ^ 63"
  shows "\<exists>es. lg w' = lg w @ es \<and> numbered D J f es f' \<and> (\<forall>t. last_sequence f' t \<le> B + 1)"
  using assms(2) run
proof (cases rule: emit_quote_cases)
  case silent
  have "last_sequence f t \<le> B + 1" for t using assms(5) by (meson order_trans less_imp_le less_add_one)
  then show ?thesis using silent by (intro exI [of _ "[]"]) (simp add: numbered_Nil)
next
  case (sent s target as_of seq fresh now w5 f1 x w2 w3)
  let ?e = "quote_event J U cfg provider s q seq target as_of fresh now"
  note b = seq_bounds [OF sent(4) assms(5-8)]
  have l: "last_sequence f' = last_sequence f1" using sent(7) by (cases x) auto
  have "lg w' = lg w @ [?e]" using assms(3) [of ?e w5] sent(5,6) by simp
  moreover have "sequenced D J ?e = Some (s, seq)"
    using quote_event_sequenced [OF assms(1)] b(1) by blast
  ultimately show ?thesis using b l by (intro exI [of _ "[?e]"]) (auto simp: numbered_def)
qed

text \<open>The bound moves by one with every quote.\<close>

lemma emit_quotes_log:
  assumes "decimal_json D val J" and "quiet E lg" and "\<And>e w. lg (snd (svc e w)) = lg w @ [e]"
    and "emit_quotes D J U N E svc cfg provider n qs (f, w) = (r, (f', w'))"
    and "\<forall>t. 0 \<le> last_sequence f t \<and> last_sequence f t \<le> B" and "\<forall>q\<in>set qs. qt_source_sequence q \<le> B"
    and "\<And>w. unix_milli (fst (fe_now E w)) \<le> B" and "B + int (length qs) < 2 ^ 63"
  shows "\<exists>es. lg w' = lg w @ es \<and> numbered D J f es f' \<and> (\<forall>t. last_sequence f' t \<le> B + int (length qs))"
  using assms(4-8)
proof (induction qs arbitrary: n f w B)
  case Nil
  then show ?case by (intro exI [of _ "[]"]) (simp add: numbered_Nil)
next
  case (Cons q qs)
  obtain r1 f1 w1 where e: "emit_quote D J U N E svc cfg provider q (f, w) = (r1, (f1, w1))"
    by (metis prod.exhaust)
  obtain es where es: "lg w1 = lg w @ es" "numbered D J f es f1" "\<forall>t. last_sequence f1 t \<le> B + 1"
    using emit_quote_log [OF assms(1-3) e Cons.prems(2) _ Cons.prems(4)] Cons.prems(3,5) by auto
  show ?case
  proof (cases "\<exists>x. r1 = Inl x \<and> fe_canceled E x")
    case True
    then have "f' = f1" "w' = w1" using Cons.prems(1) e by auto
    moreover have "last_sequence f1 t \<le> B + int (length (q # qs))" for t using es(3) [rule_format, of t] by simp
    ultimately show ?thesis using es by blast
  next
    case False
    obtain m where rest: "emit_quotes D J U N E svc cfg provider m qs (f1, w1) = (r, (f', w'))"
      using Cons.prems(1) e False by (auto split: sum.splits emit_outcome.splits)
    have "\<forall>t. 0 \<le> last_sequence f1 t \<and> last_sequence f1 t \<le> B + 1"
      using Cons.prems(2) es(2,3) unfolding numbered_def by (meson order_trans)
    moreover have "\<forall>q\<in>set qs. qt_source_sequence q \<le> B + 1" using Cons.prems(3) by fastforce
    moreover have "unix_milli (fst (fe_now E w)) \<le> B + 1" for w using Cons.prems(4) [of w] by simp
    ultimately obtain es' where es': "lg w' = lg w1 @ es'" "numbered D J f1 es' f'"
      "\<forall>t. last_sequence f' t \<le> B + 1 + int (length qs)"
      using Cons.IH [OF rest, of "B + 1"] Cons.prems(5) by auto
    have "lg w' = lg w @ es @ es'" "\<forall>t. last_sequence f' t \<le> B + int (length (q # qs))"
      using es(1) es'(1,3) by (simp_all add: add.assoc)
    then show ?thesis using numbered_append [OF es(2) es'(2)] by blast
  qed
qed

definition quiet_feed :: "'w feed_env \<Rightarrow> ('d, 'w) feed_config \<Rightarrow> ('w \<Rightarrow> 'v) \<Rightarrow> bool" where
  "quiet_feed E cfg v \<longleftrightarrow> quiet E v \<and> (\<forall>w. v (snd (fe_jitter E w)) = v w) \<and> (\<forall>d w. v (snd (fe_wait E d w)) = v w) \<and>
     (\<forall>p\<in>set (fc_providers cfg). \<forall>ss w. v (snd (pv_fetch p ss w)) = v w)"

lemma fetch_attempts_result:
  assumes "\<And>w. v (snd (fe_jitter E w)) = v w" "\<And>d w. v (snd (fe_wait E d w)) = v w" "\<And>ss w. v (snd (pv_fetch p ss w)) = v w"
    and "fetch_attempts E delay p symbols n attempt w = (r, w')"
  shows "v w' = v w \<and> (\<forall>res. r = Inr res \<longrightarrow> (\<exists>u. fst (pv_fetch p symbols u) = Inr res))"
  using assms(4)
proof (induction n arbitrary: attempt w)
  case (Suc n)
  obtain x w1 where x: "pv_fetch p symbols w = (x, w1)" by (rule prod.exhaust)
  have v1: "v w1 = v w" using assms(3) [of symbols w] x by simp
  show ?case
  proof (cases x)
    case (Inr res)
    then show ?thesis using Suc.prems x v1 by (auto intro: exI [of _ w])
  next
    case e: (Inl e)
    obtain b w2 where b: "sleep_backoff E delay attempt w1 = (b, w2)" by (rule prod.exhaust)
    have v2: "v w2 = v w"
    proof -
      obtain j u where "fe_jitter E w1 = (j, u)" by (rule prod.exhaust)
      then show ?thesis using b v1 assms(1) [of w1] assms(2) [of _ u]
        by (metis (no_types, lifting) prod.case sleep_backoff_def snd_conv)
    qed
    show ?thesis
    proof (cases "\<not> is_retryable_fetch_error e \<or> n = 0 \<or> \<not> b")
      case True
      then show ?thesis using Suc.prems x e b v1 v2 by (auto split: if_splits)
    next
      case False
      then have "fetch_attempts E delay p symbols n (Suc attempt) w2 = (r, w')" using Suc.prems x e b by simp
      then show ?thesis using Suc.IH v2 by metis
    qed
  qed
qed auto

lemma failover_result:
  assumes "\<And>w. v (snd (fe_jitter E w)) = v w" "\<And>d w. v (snd (fe_wait E d w)) = v w"
    and "\<forall>p\<in>set ps. \<forall>ss w. v (snd (pv_fetch p ss w)) = v w"
    and "failover_from E cfg symbols failed e ps w = (r, w')"
  shows "v w' = v w \<and> (\<forall>res name fo. r = Inr (res, name, fo) \<longrightarrow>
    (\<exists>p\<in>set ps. \<exists>u. pv_name p = name \<and> fst (pv_fetch p symbols u) = Inr res))"
  using assms(3,4)
proof (induction ps arbitrary: failed e w)
  case (Cons p ps)
  obtain x w1 where x: "fetch_from_provider_with_retry E cfg symbols p w = (x, w1)" by (rule prod.exhaust)
  have f: "v w1 = v w \<and> (\<forall>res. x = Inr res \<longrightarrow> (\<exists>u. fst (pv_fetch p symbols u) = Inr res))"
    using fetch_attempts_result [of v E p, OF assms(1,2)] Cons.prems(1) x
    unfolding fetch_from_provider_with_retry_def by simp
  show ?case
  proof (cases x)
    case (Inr res)
    then show ?thesis using Cons.prems(2) x f by auto
  next
    case (Inl y)
    then have "failover_from E cfg symbols True (Some y) ps w1 = (r, w')" using Cons.prems(2) x by simp
    then show ?thesis using Cons.IH [of True "Some y" w1] Cons.prems(1) f by auto
  qed
qed auto

lemma last_sequence_track [simp]: "last_sequence (track g f) = last_sequence f"
  by (simp add: last_sequence_def track_def fun_eq_iff)

text \<open>All numbers in sight, of the memory, the clock and the providers, stay below \<open>B\<close>.\<close>

definition numbers_within :: "'w feed_env \<Rightarrow> ('d, 'w) feed_config \<Rightarrow> nat \<Rightarrow> int \<Rightarrow> 'd price_ingestor \<Rightarrow> bool" where
  "numbers_within E cfg Q B f \<longleftrightarrow> (\<forall>s. 0 \<le> last_sequence f s \<and> last_sequence f s \<le> B) \<and>
     (\<forall>w. unix_milli (fst (fe_now E w)) \<le> B) \<and>
     (\<forall>p\<in>set (fc_providers cfg). \<forall>ss w res. fst (pv_fetch p ss w) = Inr res \<longrightarrow>
       length (fr_quotes res) \<le> Q \<and> (\<forall>q\<in>set (fr_quotes res). qt_source_sequence q \<le> B))"

lemma numbers_within_next:
  assumes "numbers_within E cfg Q B f" and "numbered D J f es f'" and "\<forall>s. last_sequence f' s \<le> B + int Q"
  shows "numbers_within E cfg Q (B + int Q) f'"
proof -
  have le: "x \<le> B + int Q" if "x \<le> B" for x using that by simp
  have "0 \<le> last_sequence f' s" for s
    using assms(1,2) unfolding numbers_within_def numbered_def by (meson order_trans)
  then show ?thesis using assms(1,3) by (simp add: numbers_within_def le)
qed

lemma tick_log:
  assumes "decimal_json D val J" and "quiet_feed E cfg lg" and "\<And>e w. lg (snd (svc e w)) = lg w @ [e]"
    and "run_tick D J U N E svc cfg (f, w) = (r, (f', w'))"
    and inv: "numbers_within E cfg Q B f" and "B + int Q < 2 ^ 63"
  shows "\<exists>es. lg w' = lg w @ es \<and> numbered D J f es f' \<and> numbers_within E cfg Q (B + int Q) f'"
proof -
  have b: "\<forall>s. 0 \<le> last_sequence f s \<and> last_sequence f s \<le> B" "\<And>w. unix_milli (fst (fe_now E w)) \<le> B"
    using inv by (simp_all add: numbers_within_def)
  have q: "quiet E lg" "\<And>w. lg (snd (fe_jitter E w)) = lg w" "\<And>d w. lg (snd (fe_wait E d w)) = lg w"
    "\<forall>p\<in>set (fc_providers cfg). \<forall>ss w. lg (snd (pv_fetch p ss w)) = lg w"
    using assms(2) by (auto simp: quiet_feed_def)
  have now: "lg (snd (fe_now E u)) = lg u" for u using q(1) by (simp add: quiet_def)
  obtain start w1 where start: "fe_now E w = (start, w1)" by (rule prod.exhaust)
  let ?f1 = "track (on_tick_start start) f"
  obtain x w2 where x: "fetch_with_failover E cfg (pi_symbols ?f1) w1 = (x, w2)" by (rule prod.exhaust)
  have v2: "lg w2 = lg w" and src: "\<forall>res name fo. x = Inr (res, name, fo) \<longrightarrow>
      (\<exists>p\<in>set (fc_providers cfg). \<exists>u. pv_name p = name \<and> fst (pv_fetch p (pi_symbols ?f1) u) = Inr res)"
    using failover_result [of lg E, OF q(2,3,4) x [unfolded fetch_with_failover_def]] now [of w] start by auto
  show ?thesis
  proof (cases x)
    case (Inl e)
    then have same: "lg w' = lg w" "last_sequence f' = last_sequence f"
      using assms(4) start x v2 now [of w2] by (auto simp: run_tick_def Let_def split: prod.splits if_splits)
    have "last_sequence f' s \<le> B + int Q" for s using b(1) [rule_format, of s] same by simp
    then show ?thesis
      using same(1) numbered_Nil [OF same(2), of D J] numbers_within_next [OF inv] by (metis append_Nil2)
  next
    case (Inr y)
    obtain res name fo where y: "y = (res, name, fo)" by (metis prod.exhaust)
    obtain p u where p: "p \<in> set (fc_providers cfg)" "fst (pv_fetch p (pi_symbols ?f1) u) = Inr res"
      using src Inr y by blast
    obtain z f3 w3 where z: "emit_quotes D J U N E svc cfg name 0 (fr_quotes res) (?f1, w2) = (z, (f3, w3))"
      by (metis prod.exhaust)
    have n: "length (fr_quotes res) \<le> Q" "\<forall>q\<in>set (fr_quotes res). qt_source_sequence q \<le> B"
      using inv p unfolding numbers_within_def by blast+
    have "\<forall>s. 0 \<le> last_sequence ?f1 s \<and> last_sequence ?f1 s \<le> B" using b(1) by simp
    moreover have "B + int (length (fr_quotes res)) < 2 ^ 63" using n(1) assms(6) by linarith
    ultimately obtain es where es: "lg w3 = lg w2 @ es" "numbered D J ?f1 es f3"
      "\<forall>t. last_sequence f3 t \<le> B + int (length (fr_quotes res))"
      using emit_quotes_log [OF assms(1) q(1) assms(3) z _ n(2) b(2)] by blast
    have same: "lg w' = lg w3" "last_sequence f' = last_sequence f3"
      using assms(4) start x Inr y z now [of w3]
      by (auto simp: run_tick_def Let_def split: prod.splits if_splits sum.splits)
    have "last_sequence f' t \<le> B + int Q" for t using es(3) [rule_format, of t] n(1) same(2) by simp
    moreover have "numbered D J f es f'"
      using es(2) numbered_cong [of f ?f1 f' f3 D J es, OF last_sequence_track [symmetric] same(2)] by blast
    ultimately show ?thesis using es(1) v2 same numbers_within_next [OF inv] by (metis (no_types, lifting))
  qed
qed

lemma last_sequence_symbols [simp]: "last_sequence (f\<lparr>pi_symbols := ss\<rparr>) = last_sequence f"
  by (simp add: last_sequence_def fun_eq_iff)

text \<open>The bound moves by \<open>Q\<close> with every tick.\<close>

lemma poll_loop_log:
  assumes "decimal_json D val J" and "quiet_feed E cfg lg" and "\<And>e w. lg (snd (svc e w)) = lg w @ [e]"
    and "poll_loop D J U N E svc cfg ts (f, w) = (r, (f', w'))"
    and "numbers_within E cfg Q B f" and "B + int (length ts * Q) < 2 ^ 63"
  shows "\<exists>es. lg w' = lg w @ es \<and> numbered D J f es f'"
  using assms(4-6)
proof (induction ts arbitrary: f w B)
  case Nil
  then show ?case by (intro exI [of _ "[]"]) (simp add: numbered_Nil)
next
  case (Cons t ts)
  have Q: "B + int Q + int (length ts * Q) < 2 ^ 63" using Cons.prems(3) by simp
  show ?case
  proof (cases t)
    case (WatchlistSet ss)
    let ?f = "f\<lparr>pi_symbols := normalize_symbols N ss\<rparr>"
    have "poll_loop D J U N E svc cfg ts (?f, w) = (r, (f', w'))" using Cons.prems(1) WatchlistSet by simp
    moreover have "numbers_within E cfg Q B ?f" using Cons.prems(2) by (simp add: numbers_within_def)
    moreover have "B + int (length ts * Q) < 2 ^ 63" using Q by linarith
    ultimately obtain es where "lg w' = lg w @ es" "numbered D J ?f es f'" using Cons.IH by blast
    then show ?thesis using numbered_cong [of ?f f f' f' D J es] by auto
  next
    case Ticked
    obtain x f1 w1 where x: "run_tick D J U N E svc cfg (f, w) = (x, (f1, w1))" by (metis prod.exhaust)
    have "B + int Q < 2 ^ 63" using Q by linarith
    then obtain es where es: "lg w1 = lg w @ es" "numbered D J f es f1" "numbers_within E cfg Q (B + int Q) f1"
      using tick_log [OF assms(1-3) x Cons.prems(2)] by blast
    show ?thesis
    proof (cases "\<exists>e. x = Inl e \<and> is_canceled e")
      case True
      then show ?thesis using Cons.prems(1) Ticked x es by auto
    next
      case False
      then have "poll_loop D J U N E svc cfg ts (f1, w1) = (r, (f', w'))"
        using Cons.prems(1) Ticked x by (auto split: sum.splits fetch_err.splits)
      from Cons.IH [OF this es(3) Q] show ?thesis using es(1) numbered_append [OF es(2)] by auto
    qed
  qed
qed

text \<open>
  (C36) The sequence numbers of the poller increase: in a run of its loop, with any number of ticks and changes of the
  watchlist between them, the events it submits carry, for each symbol, numbers above all those given
  out before, in increasing order, whatever the providers answer and the service replies, as long as
  the numbers stay below the bound of 64 bits (\<open>Q\<close> bounds the quotes of a fetch).
\<close>

theorem feed_sequences_increase:
  assumes "decimal_json D val J" and "quiet_feed E cfg lg" and "\<And>e w. lg (snd (svc e w)) = lg w @ [e]"
    and "start_poller D J U N E svc cfg ts (f, w) = (r, (f', w'))"
    and "\<forall>s. 0 \<le> last_sequence f s \<and> last_sequence f s \<le> B" and "\<And>w. unix_milli (fst (fe_now E w)) \<le> B"
    and "\<And>p ss w res. p \<in> set (fc_providers cfg) \<Longrightarrow> fst (pv_fetch p ss w) = Inr res \<Longrightarrow>
      length (fr_quotes res) \<le> Q \<and> (\<forall>q\<in>set (fr_quotes res). qt_source_sequence q \<le> B)"
    and "B + int (Suc (length ts) * Q) < 2 ^ 63"
  shows "\<exists>es. lg w' = lg w @ es \<and> sorted_wrt (in_sequence D J) es \<and>
    (\<forall>e\<in>set es. \<exists>s n. sequenced D J e = Some (s, n) \<and> last_sequence f s < n \<and> n \<le> last_sequence f' s) \<and>
    (\<forall>s. last_sequence f s \<le> last_sequence f' s)"
proof -
  obtain x f1 w1 where x: "run_tick D J U N E svc cfg (f, w) = (x, (f1, w1))" by (metis prod.exhaust)
  have rest: "poll_loop D J U N E svc cfg ts (f1, w1) = (r, (f', w'))" using assms(4) x by (simp add: start_poller_def)
  have Q: "B + int Q + int (length ts * Q) < 2 ^ 63" using assms(8) by simp
  then have B: "B + int Q < 2 ^ 63" by linarith
  have "numbers_within E cfg Q B f" using assms(5-7) by (simp add: numbers_within_def)
  from tick_log [OF assms(1-3) x this B] obtain es where
    es: "lg w1 = lg w @ es" "numbered D J f es f1" "numbers_within E cfg Q (B + int Q) f1" by blast
  from poll_loop_log [OF assms(1-3) rest es(3) Q] obtain es' where "lg w' = lg w1 @ es'" "numbered D J f1 es' f'" by blast
  then have "lg w' = lg w @ es @ es'" "numbered D J f (es @ es') f'" using es numbered_append by simp_all blast
  then show ?thesis unfolding numbered_def by blast
qed

section \<open>A sample feed\<close>

lemma surj_pair3: "(\<And>a b c. x = (a, (b, c)) \<Longrightarrow> thesis) \<Longrightarrow> thesis"
  by (cases x) auto

definition sample_quote :: "int \<Rightarrow> time \<Rightarrow> int \<Rightarrow> rdec price_quote" where
  "sample_quote p t n = \<lparr>qt_symbol = ''AAPL'', qt_provider_symbol = ''AAPL'', qt_price = RDec p 0, qt_currency = ''USD'',
     qt_as_of = t, qt_source_sequence = n\<rparr>"

definition sample_feed :: "rdec price_quote list \<Rightarrow> duration \<Rightarrow> (rdec, 'w) feed_config" where
  "sample_feed qs window = \<lparr>fc_interval = 60 * second, fc_symbols = [''AAPL''],
     fc_providers = [\<lparr>pv_name = ''p'', pv_fetch = (\<lambda>ss w. (Inr \<lparr>fr_provider = ''p'', fr_fetched_at = 0, fr_quotes = qs,
       fr_partial = False\<rparr>, w))\<rparr>],
     fc_partitions = [9], fc_max_retries = 0, fc_retry_delay = second, fc_source_prefix = ''pricefeed'',
     fc_max_quote_age = 0, fc_dedup_window = window\<rparr>"

definition sample_ingestor :: "rdec price_ingestor" where
  "sample_ingestor = \<lparr>pi_symbols = [''AAPL''], pi_last_seq = [], pi_dedup = [], pi_runtime = None\<rparr>"

definition sample_feed_env :: "time \<Rightarrow> ('w \<Rightarrow> uuid) \<Rightarrow> 'w feed_env" where
  "sample_feed_env t ids = \<lparr>fe_now = (\<lambda>w. (t, w)), fe_uuid = (\<lambda>w. (ids w, w)), fe_jitter = (\<lambda>w. (0, w)),
     fe_wait = (\<lambda>d w. (True, w)), fe_canceled = (\<lambda>e. False)\<rparr>"

lemma quiet_sample_feed: "quiet_feed (sample_feed_env t ids) (sample_feed qs window) v"
  by (simp add: quiet_feed_def quiet_def sample_feed_env_def sample_feed_def)

lemma normalize_sample: "normalize_to_internal_symbol ref_case ''AAPL'' = Inr ''AAPL''"
proof -
  have "list_all (\<lambda>c. 32 < (of_char c :: nat) \<and> (of_char c :: nat) < 128) ''AAPL''" by code_simp
  then have t: "trim_space ''AAPL'' = ''AAPL''" by (rule trim_plain)
  have u: "to_upper ref_case ''AAPL'' = ''AAPL''" "concat (map replace_separator ''AAPL'') = ''AAPL''"
    "validate_symbol ''AAPL'' = Inr ()" by code_simp+
  show ?thesis unfolding normalize_to_internal_symbol_def Let_def t u by simp
qed

lemma one_partition: "price_partition_for_symbol [t] s = Inr t"
proof -
  have "\<exists>p\<in>set [t]. price_partition_for_symbol [t] s = Inr p" by (rule price_partition_member) simp_all
  then show ?thesis by simp
qed

lemma sample_feed_fields:
  "fc_partitions (sample_feed qs window) = [9]" "fc_max_quote_age (sample_feed qs window) = 0"
  "fc_dedup_window (sample_feed qs window) = window"
  by (simp_all add: sample_feed_def)

lemma emit_sample:
  fixes cfg :: "(rdec, 'w) feed_config" and E :: "'w feed_env"
  assumes "\<And>u. fe_now E u = (t0, u)" "\<And>u. fe_uuid E u = (ids u, u)" "as_of \<noteq> 0" "0 < seq"
    and cfg: "cfg = sample_feed qs window" and "\<not> should_dedup ref_dec cfg ''AAPL'' (RDec p 0) as_of f"
    and n: "n = (if seq \<le> last_sequence f ''AAPL'' then int64_wrap (last_sequence f ''AAPL'' + 1) else seq)"
  shows "emit_quote ref_dec ref_json U ref_case E svc cfg ''p'' (sample_quote p as_of seq) (f, w) =
    (let f1 = f\<lparr>pi_last_seq := AList.update ''AAPL'' n (pi_last_seq f)\<rparr>
     in case svc (quote_event ref_json U cfg ''p'' ''AAPL'' (sample_quote p as_of seq) n 9 as_of (ids w) t0) w of
          (Inl e, w') \<Rightarrow> (Inl e, (f1, w'))
        | (Inr r, w') \<Rightarrow> (Inr Ingested, (record_dedup cfg ''AAPL'' (RDec p 0) as_of f1, w')))"
proof -
  have s: "qt_symbol (sample_quote p as_of seq) = ''AAPL''" "qt_price (sample_quote p as_of seq) = RDec p 0"
    "qt_source_sequence (sample_quote p as_of seq) = seq" by (simp_all add: sample_quote_def)
  have q: "quote_time E (sample_quote p as_of seq) u = (as_of, u)" "quote_is_stale E cfg as_of u = (False, u)" for u
    using assms(3) cfg by (simp_all add: quote_time_def quote_is_stale_def sample_quote_def sample_feed_fields)
  have nx: "next_monotonic_sequence E ''AAPL'' seq (f, w) =
      (n, f\<lparr>pi_last_seq := AList.update ''AAPL'' n (pi_last_seq f)\<rparr>, w)"
    using assms(4) n by (simp add: next_monotonic_sequence_def Let_def)
  have "fc_partitions cfg = [9]" using cfg by (simp add: sample_feed_fields)
  then show ?thesis
    using assms(1,2,6) by (simp add: emit_quote_def s q nx normalize_sample one_partition Let_def
        split: prod.split sum.split)
qed

theorem feed_sequences_increase_witness:
  "\<exists>r f' w'. start_poller ref_dec ref_json ref_uuid ref_case (sample_feed_env 5 (\<lambda>w. 1))
      (\<lambda>e w. (Inr \<lparr>ar_event_id = event_id e, ar_inserted = True\<rparr>, w @ [e]))
      (sample_feed [sample_quote 100 9 7, sample_quote 110 9 7] 0) [WatchlistSet [''AAPL''], Ticked] (sample_ingestor, []) =
      (r, (f', w')) \<and>
    length w' = 4 \<and> sorted_wrt (in_sequence ref_dec ref_json) w'"
proof -
  let ?E = "sample_feed_env 5 (\<lambda>w :: event_envelope list. 1)" and ?qs = "[sample_quote 100 9 7, sample_quote 110 9 7]"
  let ?svc = "\<lambda>e w. (Inr \<lparr>ar_event_id = event_id e, ar_inserted = True\<rparr> :: append_result res, w @ [e])"
  let ?cfg = "sample_feed ?qs 0 :: (rdec, event_envelope list) feed_config"
  have E: "\<And>u. fe_now ?E u = (5, u)" "\<And>u. fe_uuid ?E u = (1, u)" by (simp_all add: sample_feed_env_def)
  have d: "\<not> should_dedup ref_dec ?cfg s p t f" for s p t f by (simp add: should_dedup_def sample_feed_def)
  have fetch: "fetch_with_failover ?E ?cfg ss w =
      (Inr (\<lparr>fr_provider = ''p'', fr_fetched_at = 0, fr_quotes = ?qs, fr_partial = False\<rparr>, ''p'', False), w)" for ss w
  proof -
    have "int64_wrap 1 = 1" by (rule int64_wrap_id) (simp add: int64_def)
    then show ?thesis
      by (simp add: fetch_with_failover_def fetch_from_provider_with_retry_def sample_feed_def numeral_eq_Suc)
  qed
  have tick: "\<exists>f2 es. run_tick ref_dec ref_json ref_uuid ref_case ?E ?svc ?cfg (f, w) = (Inr 2, (f2, w @ es)) \<and> length es = 2" for f w
  proof -
    have e: "\<exists>f2 e. emit_quote ref_dec ref_json ref_uuid ref_case ?E ?svc ?cfg ''p'' (sample_quote p 9 7) (f, w) =
        (Inr Ingested, (f2, w @ [e]))" for p f w
      using emit_sample [OF E _ _ refl d refl, where as_of = 9 and seq = 7 and p = p and f = f and U = ref_uuid
          and svc = ?svc and w = w] by (simp add: Let_def)
    obtain f2 e2 where 1: "emit_quote ref_dec ref_json ref_uuid ref_case ?E ?svc ?cfg ''p'' (sample_quote 100 9 7)
        (track (on_tick_start 5) f, w) = (Inr Ingested, (f2, w @ [e2]))" using e by blast
    obtain f3 e3 where 2: "emit_quote ref_dec ref_json ref_uuid ref_case ?E ?svc ?cfg ''p'' (sample_quote 110 9 7)
        (f2, w @ [e2]) = (Inr Ingested, (f3, (w @ [e2]) @ [e3]))" using e by blast
    show ?thesis
      by (rule exI [of _ "track (on_tick_success 5 ''p'' False 2) f3"], rule exI [of _ "[e2, e3]"])
        (simp add: run_tick_def E fetch Let_def 1 2 numeral_eq_Suc)
  qed
  obtain f1 es where t1: "run_tick ref_dec ref_json ref_uuid ref_case ?E ?svc ?cfg (sample_ingestor, []) = (Inr 2, (f1, [] @ es))"
    "length es = 2" using tick by blast
  obtain f' es' where t2: "run_tick ref_dec ref_json ref_uuid ref_case ?E ?svc ?cfg
      (f1\<lparr>pi_symbols := normalize_symbols ref_case [''AAPL'']\<rparr>, es) = (Inr 2, (f', es @ es'))"
    "length es' = 2" using tick by blast
  have run: "start_poller ref_dec ref_json ref_uuid ref_case ?E ?svc ?cfg [WatchlistSet [''AAPL''], Ticked] (sample_ingestor, []) =
      (FetchCanceled, (f', es @ es'))"
    using t1(1) t2(1) by (simp add: start_poller_def)
  have J: "decimal_json ref_dec rval ref_json" by unfold_locales
  let ?log = "\<lambda>w :: event_envelope list. w"
  have sv: "?log (snd (?svc e w)) = ?log w @ [e]" for e w by simp
  have l: "\<forall>s. 0 \<le> last_sequence sample_ingestor s \<and> last_sequence sample_ingestor s \<le> 7"
    by (simp add: last_sequence_def sample_ingestor_def)
  have n: "unix_milli (fst (fe_now ?E w)) \<le> 7" for w
    by (simp add: E unix_milli_def unix_epoch_def second_def millisecond_def)
  have b: "length (fr_quotes res) \<le> 2 \<and> (\<forall>q\<in>set (fr_quotes res). qt_source_sequence q \<le> 7)"
    if "p \<in> set (fc_providers ?cfg)" "fst (pv_fetch p ss w) = Inr res" for p ss w res
    using that by (auto simp: sample_feed_def sample_quote_def)
  have "sorted_wrt (in_sequence ref_dec ref_json) (es @ es')"
    using feed_sequences_increase [OF J quiet_sample_feed [of 5 _ ?qs 0 ?log] sv run l n b] by simp
  then show ?thesis using run t1(2) t2(2) by (intro exI [of _ FetchCanceled] exI [of _ f'] exI [of _ "es @ es'"]) simp
qed

section \<open>A price that moves within an interval\<close>

text \<open>A valid event whose key is taken, in a healthy world: accepted, and nothing is written.\<close>

lemma ingest_taken_key:
  assumes "healthy w" and "\<And>w. ingest D J (append_event U P) e w = append_event U P e w"
    and "uuid_parse U (portfolio_id e) = Some pid" and "row \<in> set (db_events (w_db w))"
    and "event_key row = (pid, idempotency_key e)" and "Option.bind (raw_json (payload e)) (pg_jsonb P) \<noteq> None"
    and "pg_text_ok P (event_type e)" "pg_text_ok P (idempotency_key e)" "pg_text_ok P (source e)"
  obtains i w' where "ingest D J (append_event U P) e w = (Inr \<lparr>ar_event_id = i, ar_inserted = False\<rparr>, w')" "w_db w' = w_db w"
proof -
  let ?Q = "\<lambda>r. er_portfolio_id r = pid \<and> er_idempotency_key r = idempotency_key e"
  have "?Q row" using assms(5) by (simp add: event_key_def)
  then obtain r where r: "find ?Q (db_events (w_db w)) = Some r"
    using assms(4) by (metis (mono_tags, lifting) find_None_iff option.exhaust)
  have "append_body P pid e (call_time w) (w_db w) = Inr (\<lparr>ar_event_id = er_event_id r, ar_inserted = False\<rparr>, w_db w)"
    using r assms(6-9) by (auto simp: append_body_def)
  then show thesis
    using db_tx_healthy(3) [OF assms(1), of "append_body P pid e"] that assms(2,3) by (simp add: append_event_def prod_eq_iff)
qed

text \<open>A quote that is neither stale nor a repetition is sent.\<close>

lemma emit_quote_sends:
  assumes "quiet E v" and "normalize_to_internal_symbol N (qt_symbol q) = Inr s"
    and "price_partition_for_symbol (fc_partitions cfg) s = Inr target" and "qt_as_of q \<noteq> 0"
    and "\<not> fst (quote_is_stale E cfg (qt_as_of q) w)" and "\<not> should_dedup D cfg s (qt_price q) (qt_as_of q) f"
  obtains seq f1 w2 w3 w4 now w5 where
    "next_monotonic_sequence E s (qt_source_sequence q) (f, w2) = (seq, f1, w3)" "v w5 = v w"
    "emit_quote D J U N E svc cfg provider q (f, w) =
      (case svc (quote_event J U cfg provider s q seq target (qt_as_of q) (fst (fe_uuid E w4)) now) w5 of
         (Inl e, w6) \<Rightarrow> (Inl e, (f1, w6))
       | (Inr r, w6) \<Rightarrow> (Inr Ingested, (record_dedup cfg s (qt_price q) (qt_as_of q) f1, w6)))"
proof -
  obtain w2 where stale: "quote_is_stale E cfg (qt_as_of q) w = (False, w2)"
    using assms(5) by (cases "quote_is_stale E cfg (qt_as_of q) w") auto
  obtain seq f1 w3 where seq: "next_monotonic_sequence E s (qt_source_sequence q) (f, w2) = (seq, f1, w3)"
    by (metis prod.exhaust)
  obtain fresh w4 where fresh: "fe_uuid E w3 = (fresh, w4)" by (rule prod.exhaust)
  obtain now w5 where now: "fe_now E w4 = (now, w5)" by (rule prod.exhaust)
  have "v w2 = v w" using quiet_steps(2) [OF assms(1), of cfg "qt_as_of q" w] stale by simp
  then have v: "v w5 = v w"
    using quiet_steps(3) [OF assms(1), of s "qt_source_sequence q" "(f, w2)"] seq fresh now assms(1)
    unfolding quiet_def by (metis fst_conv snd_conv)
  show thesis
    by (rule that [OF seq v, of w3 now])
      (use assms(2-4,6) stale seq fresh now in \<open>simp add: emit_quote_def quote_time_def\<close>)
qed

lemma next_sequence_int64:
  assumes "int64 c" and "\<And>w. int64 (unix_milli (fst (fe_now E w)))" and "next_monotonic_sequence E s c (f, w) = (n, f1, w')"
  shows "int64 n"
proof -
  obtain c' w1 where c': "(if c \<le> 0 then case fe_now E w of (t, w) \<Rightarrow> (unix_milli t, w) else (c, w)) = (c', w1)"
    by (rule prod.exhaust)
  have "int64 c'" using c' assms(1) assms(2) [of w] by (auto split: if_splits prod.splits)
  then show ?thesis using assms(3) c' int64_int64_wrap
    by (cases "c \<le> 0") (auto simp: next_monotonic_sequence_def Let_def split: prod.splits if_splits)
qed

lemma symbol_normalized: "normalize_to_internal_symbol N q = Inr s \<Longrightarrow> is_valid_symbol s"
  by (auto simp: normalize_to_internal_symbol_def Let_def validate_symbol_def split: if_splits sum.splits)

text \<open>The event of a good quote passes validation.\<close>

lemma quote_event_valid:
  assumes "decimal_json D val J" and "is_valid_symbol s" and "0 < val (qt_price q)" and "qt_currency q \<noteq> []"
    and "int64 seq" and "fresh \<noteq> uuid_nil" and "as_of \<noteq> 0" and "uuid_str U target \<noteq> []"
  shows "ingest D J app (quote_event J U cfg provider s q seq target as_of fresh now) w =
    app (quote_event J U cfg provider s q seq target as_of fresh now) w"
proof -
  let ?p = "\<lparr>p_symbol = s, p_price = qt_price q, p_currency = qt_currency q, source_sequence = seq\<rparr>"
  obtain p' where p': "decode_price D J (encode_price J ?p) = Some p'" "p_symbol p' = s" "p_currency p' = qt_currency q"
    "val (p_price p') = val (qt_price q)"
    using decimal_json.decode_encode_price [OF assms(1), of ?p] assms(5) by auto
  show ?thesis
  proof (rule ingest_valid_price)
    show "validate_event_envelope (quote_event J U cfg provider s q seq target as_of fresh now) = Inr ()"
      using assms(6-8) by (simp add: validate_event_envelope_def quote_event_def encode_price_def feed_idempotency_key_def)
    show "good_price D p'" using p' assms(2-4) decimal_laws.is_positive_iff [OF decimal_json.axioms(1) [OF assms(1)]]
      by (simp add: good_price_def)
  qed (use p' in \<open>simp_all add: quote_event_def\<close>)
qed

text \<open>
  (C37) A price that moves within a polling interval is lost. Take a good quote that is neither stale nor a
  repetition, and a healthy database in which the symbol already has an event with the key of the
  interval. Then the poller reports the quote as ingested although nothing is written, and remembers it as seen: a
  quote of the same price is refused as a repetition for a whole deduplication window, in every later
  fetch, of any provider.
\<close>

theorem feed_price_lost:
  assumes "ingest_laws D val P J" and "uuid_laws U" and "uuid_str U target \<noteq> []"
    and "quiet E (\<lambda>w. (w_db w, healthy w))" and "\<And>w. fst (fe_uuid E w) \<noteq> uuid_nil"
    and "\<And>w. int64 (unix_milli (fst (fe_now E w)))" and "int64 (qt_source_sequence q)" and "0 < fc_dedup_window cfg"
    and "normalize_to_internal_symbol N (qt_symbol q) = Inr s"
    and "price_partition_for_symbol (fc_partitions cfg) s = Inr target" and "qt_as_of q \<noteq> 0"
    and "0 < val (qt_price q)" and "qt_currency q \<noteq> []"
    and "pg_text_ok P s" "pg_text_ok P (qt_currency q)" "pg_text_ok P (fc_source_prefix cfg @ '':'' @ provider)"
    and "pg_text_ok P (feed_idempotency_key cfg provider s (qt_as_of q))"
    and "\<not> fst (quote_is_stale E cfg (qt_as_of q) w)" and "\<not> should_dedup D cfg s (qt_price q) (qt_as_of q) f"
    and "healthy w" and "row \<in> set (db_events (w_db w))"
    and "event_key row = (target, feed_idempotency_key cfg provider s (qt_as_of q))"
    and "normalize_to_internal_symbol N (qt_symbol q2) = Inr s" and "qt_as_of q2 \<noteq> 0"
    and "time_sub (qt_as_of q2) (qt_as_of q) \<le> fc_dedup_window cfg" and "d_equal D (qt_price q) (qt_price q2)"
  shows "\<exists>f' w'. emit_quote D J U N E (ingest D J (append_event U P)) cfg provider q (f, w) = (Inr Ingested, (f', w')) \<and>
    w_db w' = w_db w \<and> (\<forall>provider2 w2. \<exists>oc w3.
      emit_quote D J U N E (ingest D J (append_event U P)) cfg provider2 q2 (f', w2) = (Inr oc, (f', w3)) \<and>
      oc \<noteq> Ingested \<and> w_db w3 = w_db w2)"
proof -
  let ?svc = "ingest D J (append_event U P)"
  note pg = ingest_laws.axioms(1) [OF assms(1)] and dj = ingest_laws.axioms(2) [OF assms(1)]
  obtain seq f1 w2 w3 w4 now w5 where seq: "next_monotonic_sequence E s (qt_source_sequence q) (f, w2) = (seq, f1, w3)"
    and v: "(w_db w5, healthy w5) = (w_db w, healthy w)"
    and run: "emit_quote D J U N E ?svc cfg provider q (f, w) =
      (case ?svc (quote_event J U cfg provider s q seq target (qt_as_of q) (fst (fe_uuid E w4)) now) w5 of
         (Inl e, w6) \<Rightarrow> (Inl e, (f1, w6))
       | (Inr r, w6) \<Rightarrow> (Inr Ingested, (record_dedup cfg s (qt_price q) (qt_as_of q) f1, w6)))"
    by (rule emit_quote_sends [OF assms(4,9-11,18,19)])
  let ?e = "quote_event J U cfg provider s q seq target (qt_as_of q) (fst (fe_uuid E w4)) now"
  let ?f = "record_dedup cfg s (qt_price q) (qt_as_of q) f1"
  have i64: "int64 seq" by (rule next_sequence_int64 [OF assms(7,6) seq])
  have valid: "?svc ?e u = append_event U P ?e u" for u
    by (rule quote_event_valid [OF dj symbol_normalized [OF assms(9)] assms(12,13) i64 assms(5,11,3)])
  have e: "uuid_parse U (portfolio_id ?e) = Some target" "event_key row = (target, idempotency_key ?e)"
    "pg_text_ok P (event_type ?e)" "pg_text_ok P (idempotency_key ?e)" "pg_text_ok P (source ?e)"
    using uuid_laws.parse_str [OF assms(2)] assms(16,17,22) pg_laws.text_ascii [OF pg, of "event_type_price_updated"]
    by (simp_all add: quote_event_def event_type_price_updated_def)
  have doc: "Option.bind (raw_json (payload ?e)) (pg_jsonb P) \<noteq> None"
    using ingest_laws.jsonb_price [OF assms(1), of "\<lparr>p_symbol = s, p_price = qt_price q, p_currency = qt_currency q, source_sequence = seq\<rparr>"] assms(14,15)
    by (auto simp: quote_event_def encode_price_members)
  obtain i w' where "?svc ?e w5 = (Inr \<lparr>ar_event_id = i, ar_inserted = False\<rparr>, w')" "w_db w' = w_db w5"
    using ingest_taken_key [of w5 D J U P ?e target row, OF _ valid e(1) _ e(2) doc e(3-5)] v assms(20,21) by auto
  then have sent: "emit_quote D J U N E ?svc cfg provider q (f, w) = (Inr Ingested, (?f, w'))" "w_db w' = w_db w"
    using run v by simp_all
  have dd: "should_dedup D cfg s (qt_price q2) (qt_as_of q2) ?f"
    using assms(8,25,26) by (simp add: should_dedup_def record_dedup_def update_conv')
  have "\<exists>oc w3. emit_quote D J U N E ?svc cfg provider2 q2 (?f, w2) = (Inr oc, (?f, w3)) \<and> oc \<noteq> Ingested \<and> w_db w3 = w_db w2"
    for provider2 w2
  proof -
    obtain stale w3 where st: "quote_is_stale E cfg (qt_as_of q2) w2 = (stale, w3)" by (rule prod.exhaust)
    have "w_db w3 = w_db w2" using quiet_steps(2) [OF assms(4), of cfg "qt_as_of q2" w2] st by simp
    then show ?thesis using assms(10,23,24) st dd by (cases stale) (simp_all add: emit_quote_def quote_time_def)
  qed
  then show ?thesis using sent by blast
qed

definition lost_quote :: "rdec price_quote" where
  "lost_quote = sample_quote 110 (unix_epoch + 90 * second) 8"

definition earlier_row :: event_row where
  "earlier_row = \<lparr>er_event_id = 1, er_portfolio_id = 9, er_event_time = unix_epoch + 60 * second,
     er_event_type = event_type_price_updated, er_idempotency_key = ''p:AAPL:60'', er_source = ''pricefeed:p'',
     er_payload = JObj [], er_created_at = 0\<rparr>"

text \<open>
  Seconds 60 to 119 are one interval. A price of 110 at second 90 is not stored, because there is
  an event of that interval, and at second 150, in the next interval, it is not stored either.
\<close>

theorem feed_price_lost_witness:
  "\<exists>f' w'. emit_quote ref_dec ref_json ref_uuid ref_case (sample_feed_env 0 (\<lambda>w. 2))
      (ingest ref_dec ref_json (append_event ref_uuid ref_pg)) (sample_feed [] (60 * second)) ''p'' lost_quote
      (sample_ingestor, sample_world (empty_db\<lparr>db_events := [earlier_row]\<rparr>) []) = (Inr Ingested, (f', w')) \<and>
    w_db w' = empty_db\<lparr>db_events := [earlier_row]\<rparr> \<and>
    (\<exists>oc w3. emit_quote ref_dec ref_json ref_uuid ref_case (sample_feed_env 0 (\<lambda>w. 2))
      (ingest ref_dec ref_json (append_event ref_uuid ref_pg)) (sample_feed [] (60 * second)) ''p''
      (sample_quote 110 (unix_epoch + 150 * second) 9) (f', w') = (Inr oc, (f', w3)) \<and> oc \<noteq> Ingested \<and> w_db w3 = w_db w')"
proof -
  let ?w = "sample_world (empty_db\<lparr>db_events := [earlier_row]\<rparr>) []" and ?E = "sample_feed_env 0 (\<lambda>w. 2) :: world feed_env"
  let ?cfg = "sample_feed [] (60 * second) :: (rdec, world) feed_config"
  let ?q2 = "sample_quote 110 (unix_epoch + 150 * second) 9"
  let ?emit = "emit_quote ref_dec ref_json ref_uuid ref_case ?E (ingest ref_dec ref_json (append_event ref_uuid ref_pg)) ?cfg"
  have q: "qt_symbol lost_quote = ''AAPL''" "qt_as_of lost_quote = unix_epoch + 90 * second" "qt_price lost_quote = RDec 110 0"
    "qt_source_sequence lost_quote = 8" "qt_currency lost_quote = ''USD''"
    by (simp_all add: lost_quote_def sample_quote_def)
  have k: "itoa (unix_seconds (truncate_time (unix_epoch + 90 * second) (60 * second))) = ''60''" by code_simp
  have key: "feed_idempotency_key ?cfg ''p'' ''AAPL'' (qt_as_of lost_quote) = ''p:AAPL:60''"
    using k q by (simp add: feed_idempotency_key_def sample_feed_def)
  have t: "pg_text_ok ref_pg s = (char_of (0::nat) \<notin> set s)" for s by (simp add: ref_pg_def)
  have ok: "pg_text_ok ref_pg ''AAPL''" "pg_text_ok ref_pg (qt_currency lost_quote)"
    "pg_text_ok ref_pg (fc_source_prefix ?cfg @ '':'' @ ''p'')" "pg_text_ok ref_pg (feed_idempotency_key ?cfg ''p'' ''AAPL'' (qt_as_of lost_quote))"
    unfolding t key q(5) sample_feed_def feed_config.simps by code_simp+
  have U: "uuid_laws ref_uuid" by unfold_locales
  have Q: "quiet ?E (\<lambda>w. (w_db w, healthy w))" by (simp add: quiet_def sample_feed_env_def)
  have str: "uuid_str ref_uuid 9 \<noteq> []" by (simp add: ref_uuid_def ref_uuid_str_def canonical_form_def)
  have sq: "int64 (qt_source_sequence lost_quote)" by (simp add: q(4) int64_def)
  have clock: "int64 (unix_milli (fst (fe_now ?E w)))" for w
    by (simp add: sample_feed_env_def unix_milli_def unix_epoch_def second_def millisecond_def int64_def)
  have "\<exists>f' w'. ?emit ''p'' lost_quote (sample_ingestor, ?w) = (Inr Ingested, (f', w')) \<and> w_db w' = w_db ?w \<and>
      (\<forall>provider2 w2. \<exists>oc w3. ?emit provider2 ?q2 (f', w2) = (Inr oc, (f', w3)) \<and> oc \<noteq> Ingested \<and> w_db w3 = w_db w2)"
  proof (rule feed_price_lost [OF refi.ingest_laws_axioms U str Q _ clock sq])
    show "event_key earlier_row = (9, feed_idempotency_key ?cfg ''p'' ''AAPL'' (qt_as_of lost_quote))"
      unfolding key by (simp add: event_key_def earlier_row_def)
    show "\<not> should_dedup ref_dec ?cfg ''AAPL'' (qt_price lost_quote) (qt_as_of lost_quote) sample_ingestor"
      by (simp add: should_dedup_def sample_ingestor_def)
    show "\<not> fst (quote_is_stale ?E ?cfg (qt_as_of lost_quote) ?w)" by (simp add: quote_is_stale_def sample_feed_fields)
    show "healthy ?w" by (rule healthy_sample)
    show "fst (fe_uuid ?E w) \<noteq> uuid_nil" for w by (simp add: sample_feed_env_def uuid_nil_def)
  qed (use ok in \<open>simp_all add: q sample_quote_def sample_feed_fields unix_epoch_def normalize_sample one_partition
        second_def time_sub_def max_duration_def min_duration_def ref_dec_def rval_RDec\<close>)
  then obtain f' w' where "?emit ''p'' lost_quote (sample_ingestor, ?w) = (Inr Ingested, (f', w'))" "w_db w' = w_db ?w"
    "\<exists>oc w3. ?emit ''p'' ?q2 (f', w') = (Inr oc, (f', w3)) \<and> oc \<noteq> Ingested \<and> w_db w3 = w_db w'" by blast
  then show ?thesis by (intro exI [of _ f'] exI [of _ w'] conjI) simp_all
qed

end
