(* ===== verification/Config.thy ===== *)
theory Config
  imports Go_Text Cursor Uuid Http_Api
begin

text \<open>
  \<^verbatim>\<open>internal/config/config.go\<close>: reading the configuration from the environment, a function from
  names to values (empty when unset). Integers are Go's 64-bit \<^verbatim>\<open>int\<close>: products wrap. The name-based
  UUID \<^verbatim>\<open>uuid.NewSHA1\<close> is the parameter \<open>sha1\<close>.
\<close>

record config =
  cf_port :: string
  cf_database_url :: string
  cf_shutdown_timeout :: duration
  cf_ordering_watermark :: duration
  cf_ordering_max_event_age :: duration
  cf_apply_worker_tick :: duration
  cf_apply_worker_count :: int
  cf_price_stream_namespace :: uuid
  cf_price_stream_partitions :: "uuid list"
  cf_price_stream_shard_count :: int
  cf_price_apply_worker_count :: int
  cf_risk_recompute_debounce :: duration
  cf_risk_sigma_window_n :: int
  cf_risk_snapshot_write_enabled :: bool
  cf_snapshot_enabled :: bool
  cf_portfolio_snapshot_min_events :: int
  cf_portfolio_snapshot_interval :: duration
  cf_rate_limit_ingest_enabled :: bool
  cf_rate_limit_ingest_rps :: int
  cf_rate_limit_ingest_burst :: int
  cf_rate_limit_get_enabled :: bool
  cf_rate_limit_get_rps :: int
  cf_rate_limit_get_burst :: int
  cf_openai_api_key :: string
  cf_openai_base_url :: string
  cf_openai_model :: string
  cf_prometheus_enabled :: bool
  cf_price_feed_enabled :: bool
  cf_price_feed_provider :: string
  cf_price_feed_poll_interval :: duration
  cf_price_feed_symbols :: "string list"
  cf_price_feed_http_timeout :: duration
  cf_price_feed_max_retries :: int
  cf_price_feed_retry_delay :: duration
  cf_price_feed_max_quote_age :: duration
  cf_price_feed_dedup_window :: duration
  cf_twelve_data_api_key :: string
  cf_twelve_data_rate_limit_rpm :: int
  cf_auth_session_ttl :: duration
  cf_auth_cookie_secure :: bool

definition default_price_stream_portfolio_id :: string where
  "default_price_stream_portfolio_id = ''00000000-0000-4000-8000-000000000001''"

definition default_price_feed_provider :: string where
  "default_price_feed_provider = ''twelvedata''"

section \<open>Reading a variable\<close>

definition get_env :: "(string \<Rightarrow> string) \<Rightarrow> string \<Rightarrow> string \<Rightarrow> string" where
  "get_env env key fallback = (if env key \<noteq> [] then env key else fallback)"

definition get_env_bool :: "(string \<Rightarrow> string) \<Rightarrow> string \<Rightarrow> bool \<Rightarrow> bool" where
  "get_env_bool env key fallback =
     (let raw = env key
      in if raw = [] then fallback
         else if raw \<in> {''1'', ''true'', ''TRUE'', ''True'', ''yes'', ''YES''} then True
         else if raw \<in> {''0'', ''false'', ''FALSE'', ''False'', ''no'', ''NO''} then False
         else fallback)"

definition get_env_int :: "(string \<Rightarrow> string) \<Rightarrow> string \<Rightarrow> int \<Rightarrow> int" where
  "get_env_int env key fallback =
     (if env key = [] then fallback else case atoi (env key) of None \<Rightarrow> fallback | Some v \<Rightarrow> v)"

fun get_env_int_from_keys :: "(string \<Rightarrow> string) \<Rightarrow> string list \<Rightarrow> int \<Rightarrow> int" where
  "get_env_int_from_keys env [] fallback = fallback"
| "get_env_int_from_keys env (key # keys) fallback =
     (if env key = [] then get_env_int_from_keys env keys fallback
      else case atoi (env key) of None \<Rightarrow> get_env_int_from_keys env keys fallback | Some v \<Rightarrow> v)"

fun csv_from :: "case_api \<Rightarrow> string list \<Rightarrow> string list \<Rightarrow> string list" where
  "csv_from N seen [] = []"
| "csv_from N seen (part # parts) =
     (let s = to_upper N (trim_space part)
      in if s = [] then csv_from N seen parts
         else if s \<in> set seen then csv_from N seen parts
         else s # csv_from N (s # seen) parts)"

definition parse_csv_symbols :: "case_api \<Rightarrow> string \<Rightarrow> string list" where
  "parse_csv_symbols N raw = (if trim_space raw = [] then [] else csv_from N [] (split_on CHR '','' raw))"

section \<open>Derived values\<close>

text \<open>The division is of non-negative numbers.\<close>

definition apply_twelve_data_rate_limit_safety :: "int \<Rightarrow> int \<Rightarrow> int \<Rightarrow> int" where
  "apply_twelve_data_rate_limit_safety poll_seconds symbol_count rpm =
     (let poll_seconds = (if poll_seconds < 1 then 1 else poll_seconds)
      in if symbol_count < 1 \<or> rpm < 1 then poll_seconds
         else let min_poll = int64_wrap (symbol_count * 60 + rpm - 1) div rpm;
                  min_poll = (if min_poll < 1 then 1 else min_poll)
              in if poll_seconds < min_poll then min_poll else poll_seconds)"

definition derive_price_stream_partitions :: "(uuid \<Rightarrow> string \<Rightarrow> uuid) \<Rightarrow> uuid \<Rightarrow> int \<Rightarrow> uuid list" where
  "derive_price_stream_partitions sha1 ns shard_count =
     map (\<lambda>i. sha1 ns (''v1-price-partition'' @ [char_of (0 :: nat)] @ itoa (int i)))
       [0..<nat (if shard_count < 1 then 1 else shard_count)]"

definition dur :: "int \<Rightarrow> duration \<Rightarrow> duration" where
  "dur n unit = int64_wrap (n * unit)"

definition at_least :: "int \<Rightarrow> int \<Rightarrow> int \<Rightarrow> int" where
  "at_least lo fallback v = (if v < lo then fallback else v)"

section \<open>Load\<close>

definition load_config ::
  "uuid_api \<Rightarrow> case_api \<Rightarrow> (uuid \<Rightarrow> string \<Rightarrow> uuid) \<Rightarrow> (string \<Rightarrow> string) \<Rightarrow> config res" where
  "load_config U N sha1 env =
     (case (case uuid_parse U (get_env env ''PRICE_STREAM_PORTFOLIO_ID'' default_price_stream_portfolio_id) of
          None \<Rightarrow> uuid_parse U default_price_stream_portfolio_id | Some u \<Rightarrow> Some u) of
        None \<Rightarrow> Inl (EPanic ''uuid.MustParse'')
      | Some price_ns \<Rightarrow>
     (let wm_ms = at_least 0 2000 (get_env_int env ''ORDERING_WATERMARK_MS'' 2000);
          tick_ms = at_least 1 500 (get_env_int env ''APPLY_WORKER_TICK_MS'' 500);
          workers = at_least 1 1 (get_env_int env ''APPLY_WORKER_COUNT'' 8);
          price_shards = at_least 1 16 (get_env_int env ''PRICE_STREAM_SHARD_COUNT'' 16);
          price_workers = at_least 1 1 (get_env_int env ''PRICE_APPLY_WORKER_COUNT'' 16);
          debounce_ms = at_least 100 100 (get_env_int env ''RISK_RECOMPUTE_DEBOUNCE_MS'' 250);
          debounce_ms = (if debounce_ms > 500 then 500 else debounce_ms);
          window_n = at_least 2 60 (get_env_int env ''RISK_SIGMA_WINDOW_N'' 60);
          snapshot_enabled = get_env_bool env ''SNAPSHOT_ENABLED'' True;
          snap_n = at_least 0 0 (get_env_int_from_keys env [''SNAPSHOT_EVERY_N_EVENTS'', ''PORTFOLIO_SNAPSHOT_MIN_EVENTS''] 0);
          snap_sec = at_least 0 0 (get_env_int_from_keys env [''SNAPSHOT_MIN_INTERVAL_SEC'', ''PORTFOLIO_SNAPSHOT_INTERVAL_SEC''] 0);
          snap_n = (if snapshot_enabled then snap_n else 0);
          snap_sec = (if snapshot_enabled then snap_sec else 0);
          max_age_ms = at_least 0 0 (get_env_int env ''ORDERING_MAX_EVENT_AGE_MS'' 0);
          ingest_rps = at_least 1 20 (get_env_int env ''HTTP_RATE_LIMIT_INGEST_RPS'' 20);
          ingest_burst = at_least 1 (int64_wrap (ingest_rps * 2))
            (get_env_int env ''HTTP_RATE_LIMIT_INGEST_BURST'' (int64_wrap (ingest_rps * 2)));
          get_rps = at_least 1 60 (get_env_int env ''HTTP_RATE_LIMIT_GET_RPS'' 60);
          get_burst = at_least 1 (int64_wrap (get_rps * 2))
            (get_env_int env ''HTTP_RATE_LIMIT_GET_BURST'' (int64_wrap (get_rps * 2)));
          provider = to_lower N (trim_space (get_env env ''PRICE_FEED_PROVIDER'' default_price_feed_provider));
          provider = (if provider = [] \<or> provider \<noteq> default_price_feed_provider then default_price_feed_provider else provider);
          poll_seconds = at_least 1 60 (get_env_int env ''PRICE_FEED_POLL_SECONDS'' 60);
          timeout_ms = at_least 100 5000 (get_env_int env ''PRICE_FEED_HTTP_TIMEOUT_MS'' 5000);
          retry_count = at_least 0 0 (get_env_int env ''PRICE_FEED_RETRY_COUNT'' 3);
          retry_delay_ms = at_least 0 500 (get_env_int env ''PRICE_FEED_RETRY_DELAY_MS'' 500);
          max_quote_age_ms = at_least 0 0 (get_env_int env ''PRICE_FEED_MAX_QUOTE_AGE_MS'' (30 * 60 * 1000));
          dedup_window_ms = at_least 0 0 (get_env_int env ''PRICE_FEED_DEDUP_WINDOW_MS'' (60 * 1000));
          rpm = at_least 1 8 (get_env_int env ''PRICE_FEED_TWELVEDATA_RATE_LIMIT_RPM'' 8);
          auth_ttl_sec = at_least 300 (14 * 24 * 60 * 60) (get_env_int env ''AUTH_SESSION_TTL_SECONDS'' (14 * 24 * 60 * 60));
          symbols = parse_csv_symbols N (env ''PRICE_FEED_SYMBOLS'');
          poll_seconds = apply_twelve_data_rate_limit_safety poll_seconds (int (length symbols)) rpm
      in if env ''DATABASE_URL'' = [] then Inl (EOther ''DATABASE_URL is required'')
         else Inr
          \<lparr>cf_port = get_env env ''PORT'' ''8080'',
           cf_database_url = env ''DATABASE_URL'',
           cf_shutdown_timeout = dur (get_env_int env ''SHUTDOWN_TIMEOUT_SECONDS'' 10) second,
           cf_ordering_watermark = dur wm_ms millisecond,
           cf_ordering_max_event_age = dur max_age_ms millisecond,
           cf_apply_worker_tick = dur tick_ms millisecond,
           cf_apply_worker_count = workers,
           cf_price_stream_namespace = price_ns,
           cf_price_stream_partitions = derive_price_stream_partitions sha1 price_ns price_shards,
           cf_price_stream_shard_count = price_shards,
           cf_price_apply_worker_count = price_workers,
           cf_risk_recompute_debounce = dur debounce_ms millisecond,
           cf_risk_sigma_window_n = window_n,
           cf_risk_snapshot_write_enabled = get_env_bool env ''RISK_SNAPSHOT_WRITE_ENABLED'' False,
           cf_snapshot_enabled = snapshot_enabled,
           cf_portfolio_snapshot_min_events = snap_n,
           cf_portfolio_snapshot_interval = dur snap_sec second,
           cf_rate_limit_ingest_enabled = get_env_bool env ''HTTP_RATE_LIMIT_INGEST_ENABLED'' False,
           cf_rate_limit_ingest_rps = ingest_rps,
           cf_rate_limit_ingest_burst = ingest_burst,
           cf_rate_limit_get_enabled = get_env_bool env ''HTTP_RATE_LIMIT_GET_ENABLED'' False,
           cf_rate_limit_get_rps = get_rps,
           cf_rate_limit_get_burst = get_burst,
           cf_openai_api_key = trim_space (env ''OPENAI_API_KEY''),
           cf_openai_base_url = trim_space (env ''OPENAI_BASE_URL''),
           cf_openai_model = trim_space (env ''OPENAI_MODEL''),
           cf_prometheus_enabled = get_env_bool env ''PROMETHEUS_ENABLED'' False,
           cf_price_feed_enabled = get_env_bool env ''PRICE_FEED_ENABLED'' False,
           cf_price_feed_provider = provider,
           cf_price_feed_poll_interval = dur poll_seconds second,
           cf_price_feed_symbols = symbols,
           cf_price_feed_http_timeout = dur timeout_ms millisecond,
           cf_price_feed_max_retries = retry_count,
           cf_price_feed_retry_delay = dur retry_delay_ms millisecond,
           cf_price_feed_max_quote_age = dur max_quote_age_ms millisecond,
           cf_price_feed_dedup_window = dur dedup_window_ms millisecond,
           cf_twelve_data_api_key = trim_space (env ''PRICE_FEED_TWELVEDATA_API_KEY''),
           cf_twelve_data_rate_limit_rpm = rpm,
           cf_auth_session_ttl = dur auth_ttl_sec second,
           cf_auth_cookie_secure = get_env_bool env ''AUTH_COOKIE_SECURE'' False\<rparr>))"

section \<open>Lemmas\<close>

lemma at_least_bounds: "lo \<le> fallback \<Longrightarrow> lo \<le> at_least lo fallback v"
  "fallback \<le> M \<Longrightarrow> v \<le> M \<Longrightarrow> at_least lo fallback v \<le> M"
  by (simp_all add: at_least_def)

text \<open>Every integer in the environment is at most \<open>M\<close>.\<close>

definition small_env :: "int \<Rightarrow> (string \<Rightarrow> string) \<Rightarrow> bool" where
  "small_env M env \<longleftrightarrow> (\<forall>k v. atoi (env k) = Some v \<longrightarrow> v \<le> M)"

lemma get_env_int_le: "small_env M env \<Longrightarrow> fallback \<le> M \<Longrightarrow> get_env_int env k fallback \<le> M"
  by (auto simp: get_env_int_def small_env_def split: option.splits)

lemma get_env_int_from_keys_le: "small_env M env \<Longrightarrow> fallback \<le> M \<Longrightarrow> get_env_int_from_keys env ks fallback \<le> M"
  by (induction ks) (auto simp: small_env_def split: option.splits)

lemma dur_exact:
  assumes "lo \<le> n" "n \<le> hi" "- (2 ^ 63) \<le> lo * u" "hi * u < 2 ^ 63" "0 < u"
  shows "dur n u = n * u"
proof -
  have "lo * u \<le> n * u" "n * u \<le> hi * u" using assms by (simp_all add: mult_right_mono)
  then have "int64 (n * u)" unfolding int64_def using assms(3,4) by linarith
  then show ?thesis by (simp add: dur_def int64_wrap_id)
qed

lemma csv_from_length: "length (csv_from N seen parts) \<le> length parts"
  by (induction parts arbitrary: seen) (auto simp: Let_def le_SucI)

lemma derive_price_stream_partitions_length:
  "int (length (derive_price_stream_partitions sha1 ns n)) = max 1 n"
  by (simp add: derive_price_stream_partitions_def max_def)

lemma rate_limit_safety:
  assumes "0 \<le> n" "1 \<le> rpm" "1 \<le> p" "n * 60 + rpm < 2 ^ 63"
  shows "60 * n \<le> apply_twelve_data_rate_limit_safety p n rpm * rpm"
    and "1 \<le> apply_twelve_data_rate_limit_safety p n rpm"
    and "p \<le> M \<Longrightarrow> n * 60 \<le> M \<Longrightarrow> 1 \<le> M \<Longrightarrow> apply_twelve_data_rate_limit_safety p n rpm \<le> M"
proof -
  let ?m = "(n * 60 + rpm - 1) div rpm"
  have w: "int64_wrap (n * 60 + rpm - 1) = n * 60 + rpm - 1"
    using assms by (intro int64_wrap_id) (simp add: int64_def)
  have "rpm * ?m + (n * 60 + rpm - 1) mod rpm = n * 60 + rpm - 1" by (rule mult_div_mod_eq)
  moreover have "(n * 60 + rpm - 1) mod rpm < rpm" using assms(2) by simp
  ultimately have m: "60 * n \<le> ?m * rpm" unfolding mult.commute [of ?m rpm] by linarith
  let ?r = "apply_twelve_data_rate_limit_safety p n rpm"
  have r: "1 \<le> ?r" "n < 1 \<or> ?m \<le> ?r"
    using assms(2,3) w by (auto simp: apply_twelve_data_rate_limit_safety_def Let_def)
  show "60 * n \<le> ?r * rpm"
  proof (cases "n < 1")
    case True
    then have "n = 0" using assms(1) by simp
    then show ?thesis using r(1) assms(2) by simp
  next
    case False
    then have "?m * rpm \<le> ?r * rpm" using r(2) assms(2) by (intro mult_right_mono) simp_all
    then show ?thesis using m by (rule order_trans [rotated])
  qed
  show "1 \<le> apply_twelve_data_rate_limit_safety p n rpm"
    using assms by (auto simp: apply_twelve_data_rate_limit_safety_def Let_def)
  assume M: "p \<le> M" "n * 60 \<le> M" "1 \<le> M"
  have "?m \<le> M"
  proof -
    have "?m \<le> n * 60" if "1 \<le> n"
    proof -
      have "n * 60 + rpm - 1 \<le> n * 60 * rpm"
      proof -
        have "0 \<le> (n * 60 - 1) * (rpm - 1)" using that assms(2) by (intro mult_nonneg_nonneg) simp_all
        then show ?thesis by (simp add: algebra_simps)
      qed
      then have "?m \<le> (n * 60 * rpm) div rpm" using assms(2) by (intro zdiv_mono1) simp_all
      then show ?thesis using assms(2) by simp
    qed
    moreover have "?m = 0" if "n < 1"
      using that assms by (simp add: div_pos_pos_trivial)
    ultimately show ?thesis using M by (cases "n < 1") auto
  qed
  then show "apply_twelve_data_rate_limit_safety p n rpm \<le> M"
    using M w by (auto simp: apply_twelve_data_rate_limit_safety_def Let_def)
qed

end
