(* ===== verification/Config_Properties.thy ===== *)
theory Config_Properties
  imports Config
begin

text \<open>
  The ranges of a loaded configuration, and the rate of the price feed it allows.
\<close>

section \<open>What is loaded\<close>

text \<open>A number of the environment with its lower end, and as a duration.\<close>

lemma env_number:
  assumes "small_env 1000000000 env" and "lo \<le> fb" "fb \<le> 1000000000" "d \<le> 1000000000"
  shows "lo \<le> at_least lo fb (get_env_int env k d)" "at_least lo fb (get_env_int env k d) \<le> 1000000000"
  using at_least_bounds(1) [OF assms(2)] at_least_bounds(2) [OF assms(3) get_env_int_le [OF assms(1,4)]] by simp_all

lemma dur_small:
  assumes "0 \<le> n" "n \<le> 1000000000" and "u = millisecond \<or> u = second"
  shows "dur n u = n * u"
  using assms by (intro dur_exact [of 0 n 1000000000]) (auto simp: millisecond_def second_def)

lemma env_duration:
  assumes "small_env 1000000000 env" and "0 \<le> lo" "lo \<le> fb" "fb \<le> 1000000000" "d \<le> 1000000000"
    and "u = millisecond \<or> u = second"
  shows "lo * u \<le> dur (at_least lo fb (get_env_int env k d)) u"
proof -
  note b = env_number [OF assms(1,3-5), of k]
  have "0 \<le> u" using assms(6) by (auto simp: millisecond_def second_def)
  then show ?thesis using b dur_small [OF _ b(2) assms(6)] assms(2) by (simp add: mult_right_mono)
qed

lemma snapshot_duration:
  assumes "small_env 1000000000 env"
  shows "0 \<le> dur (at_least 0 0 (get_env_int_from_keys env ks 0)) second"
proof -
  have "at_least 0 0 (get_env_int_from_keys env ks 0) \<le> 1000000000"
    using at_least_bounds(2) get_env_int_from_keys_le [OF assms] by simp
  then show ?thesis using at_least_bounds(1) [of 0 0] by (subst dur_small) (simp_all add: second_def)
qed

lemma burst_positive:
  assumes "small_env 1000000000 env" and "1 \<le> d" "d \<le> 1000000000"
  shows "1 \<le> at_least 1 (int64_wrap (at_least 1 d (get_env_int env k d) * 2)) v"
proof -
  note b = env_number [OF assms(1-3,3), of k]
  then have "int64_wrap (at_least 1 d (get_env_int env k d) * 2) = at_least 1 d (get_env_int env k d) * 2"
    by (intro int64_wrap_id) (simp add: int64_def)
  then show ?thesis using b(1) by (intro at_least_bounds(1)) simp
qed

text \<open>The interval of the poller against the requests per minute of the provider.\<close>

lemma polling_rate:
  assumes "small_env 1000000000 env" and "0 \<le> n" "n \<le> 1000000"
    and "rpm = at_least 1 8 (get_env_int env k1 8)" and "poll = at_least 1 60 (get_env_int env k2 60)"
  shows "second \<le> dur (apply_twelve_data_rate_limit_safety poll n rpm) second"
    and "n * (60 * second) \<le> dur (apply_twelve_data_rate_limit_safety poll n rpm) second * rpm"
proof -
  let ?s = "apply_twelve_data_rate_limit_safety poll n rpm"
  have b: "1 \<le> rpm" "rpm \<le> 1000000000" "1 \<le> poll" "poll \<le> 1000000000"
    using env_number [OF assms(1), of 1 8 8 k1] env_number [OF assms(1), of 1 60 60 k2] assms(4,5) by simp_all
  have q: "n * 60 + rpm < 2 ^ 63" using assms(3) b(2) by simp
  have s: "60 * n \<le> ?s * rpm" "1 \<le> ?s" "?s \<le> 1000000000"
    using rate_limit_safety [OF assms(2) b(1,3) q] b assms(3) by simp_all
  have d: "dur ?s second = ?s * second" using s by (intro dur_small) simp_all
  show "second \<le> dur ?s second" using mult_right_mono [OF s(2), of second] unfolding d by (simp add: second_def)
  show "n * (60 * second) \<le> dur ?s second * rpm"
    using mult_right_mono [OF s(1), of second] unfolding d by (simp add: second_def mult_ac)
qed

text \<open>
  (C38) What \<^verbatim>\<open>Load\<close> promises, when no integer in the environment is above a billion and the
  watchlist has at most a million symbols: every count, rate, interval and window is in its range except the
  deadline of the shutdown, which is taken as it is given, negative too; there are as many price
  partitions as shards and at least one, disabled snapshots have no trigger, and polling every symbol
  once per interval stays within the provider's requests per minute.
\<close>

theorem load_config_in_range:
  assumes "load_config U N sha1 env = Inr cfg" and "small_env 1000000000 env"
    and "length (cf_price_feed_symbols cfg) \<le> 1000000"
  shows "cf_database_url cfg \<noteq> [] \<and> 0 \<le> cf_ordering_watermark cfg \<and> 0 \<le> cf_ordering_max_event_age cfg \<and>
    millisecond \<le> cf_apply_worker_tick cfg \<and> 1 \<le> cf_apply_worker_count cfg \<and> 1 \<le> cf_price_apply_worker_count cfg \<and>
    1 \<le> cf_price_stream_shard_count cfg \<and>
    int (length (cf_price_stream_partitions cfg)) = cf_price_stream_shard_count cfg \<and>
    100 * millisecond \<le> cf_risk_recompute_debounce cfg \<and> cf_risk_recompute_debounce cfg \<le> 500 * millisecond \<and>
    2 \<le> cf_risk_sigma_window_n cfg \<and> 300 * second \<le> cf_auth_session_ttl cfg \<and>
    (\<not> cf_snapshot_enabled cfg \<longrightarrow> cf_portfolio_snapshot_min_events cfg = 0 \<and> cf_portfolio_snapshot_interval cfg = 0) \<and>
    0 \<le> cf_portfolio_snapshot_min_events cfg \<and> 0 \<le> cf_portfolio_snapshot_interval cfg \<and>
    1 \<le> cf_rate_limit_ingest_rps cfg \<and> 1 \<le> cf_rate_limit_ingest_burst cfg \<and>
    1 \<le> cf_rate_limit_get_rps cfg \<and> 1 \<le> cf_rate_limit_get_burst cfg \<and>
    cf_price_feed_provider cfg = default_price_feed_provider \<and> second \<le> cf_price_feed_poll_interval cfg \<and>
    100 * millisecond \<le> cf_price_feed_http_timeout cfg \<and> 0 \<le> cf_price_feed_max_retries cfg \<and>
    0 \<le> cf_price_feed_retry_delay cfg \<and> 0 \<le> cf_price_feed_max_quote_age cfg \<and>
    0 \<le> cf_price_feed_dedup_window cfg \<and> 1 \<le> cf_twelve_data_rate_limit_rpm cfg \<and>
    int (length (cf_price_feed_symbols cfg)) * (60 * second) \<le>
      cf_price_feed_poll_interval cfg * cf_twelve_data_rate_limit_rpm cfg \<and>
    cf_shutdown_timeout cfg = dur (get_env_int env ''SHUTDOWN_TIMEOUT_SECONDS'' 10) second"
proof -
  obtain ns where ns: "(case uuid_parse U (get_env env ''PRICE_STREAM_PORTFOLIO_ID'' default_price_stream_portfolio_id) of
      None \<Rightarrow> uuid_parse U default_price_stream_portfolio_id | Some u \<Rightarrow> Some u) = Some ns"
    using assms(1) by (auto simp: load_config_def split: option.splits)
  note ld = assms(1) [unfolded load_config_def ns option.case Let_def]
  have db: "env ''DATABASE_URL'' \<noteq> []" using ld by (simp split: if_splits)
  note cfg = ld [unfolded if_not_P [OF db] sum.inject, symmetric]
  note num = env_number(1) [OF assms(2)] and ms = env_duration [OF assms(2), where u = millisecond]
  have b: "0 \<le> at_least 100 100 (get_env_int env k 250)" for k using num [of 100 100 250 k] by simp
  have "0 \<le> cf_ordering_watermark cfg \<and> 0 \<le> cf_ordering_max_event_age cfg \<and> millisecond \<le> cf_apply_worker_tick cfg"
    using ms [of 0 2000 2000] ms [of 0 0 0] ms [of 1 500 500] by (simp add: cfg)
  moreover have "1 \<le> cf_apply_worker_count cfg \<and> 1 \<le> cf_price_apply_worker_count cfg \<and> 2 \<le> cf_risk_sigma_window_n cfg"
    using num [of 1 1] num [of 2 60] by (simp add: cfg)
  moreover have "1 \<le> cf_price_stream_shard_count cfg \<and>
      int (length (cf_price_stream_partitions cfg)) = cf_price_stream_shard_count cfg"
    using num [of 1 16 16] by (simp add: cfg derive_price_stream_partitions_length max_absorb2)
  moreover have "100 * millisecond \<le> cf_risk_recompute_debounce cfg \<and> cf_risk_recompute_debounce cfg \<le> 500 * millisecond"
    using b num [of 100 100 250] dur_small [of _ millisecond] by (simp add: cfg millisecond_def)
  moreover have "300 * second \<le> cf_auth_session_ttl cfg"
    using env_duration [OF assms(2), of 300 "14 * 24 * 60 * 60" "14 * 24 * 60 * 60" second] by (simp add: cfg)
  moreover have "(\<not> cf_snapshot_enabled cfg \<longrightarrow> cf_portfolio_snapshot_min_events cfg = 0 \<and> cf_portfolio_snapshot_interval cfg = 0) \<and>
      0 \<le> cf_portfolio_snapshot_min_events cfg \<and> 0 \<le> cf_portfolio_snapshot_interval cfg"
    using at_least_bounds(1) [of 0 0] snapshot_duration [OF assms(2)] dur_small [of 0 second]
    by (simp add: cfg del: get_env_int_from_keys.simps)
  moreover have "1 \<le> cf_rate_limit_ingest_rps cfg \<and> 1 \<le> cf_rate_limit_get_rps cfg \<and> 1 \<le> cf_twelve_data_rate_limit_rpm cfg \<and>
      0 \<le> cf_price_feed_max_retries cfg"
    using num [of 1 20 20] num [of 1 60 60] num [of 1 8 8] num [of 0 0 3] by (simp add: cfg)
  moreover have "1 \<le> cf_rate_limit_ingest_burst cfg \<and> 1 \<le> cf_rate_limit_get_burst cfg"
    using burst_positive [OF assms(2), of 20] burst_positive [OF assms(2), of 60] by (simp add: cfg)
  moreover have "100 * millisecond \<le> cf_price_feed_http_timeout cfg \<and> 0 \<le> cf_price_feed_retry_delay cfg \<and>
      0 \<le> cf_price_feed_max_quote_age cfg \<and> 0 \<le> cf_price_feed_dedup_window cfg"
    using ms [of 100 5000 5000] ms [of 0 500 500] ms [of 0 0 "30 * 60 * 1000"] ms [of 0 0 "60 * 1000"] by (simp add: cfg)
  moreover have "second \<le> cf_price_feed_poll_interval cfg \<and> int (length (cf_price_feed_symbols cfg)) * (60 * second) \<le>
      cf_price_feed_poll_interval cfg * cf_twelve_data_rate_limit_rpm cfg"
    using polling_rate [OF assms(2) _ _ refl refl, of "int (length (cf_price_feed_symbols cfg))"] assms(3) by (simp add: cfg)
  moreover have "cf_price_feed_provider cfg = default_price_feed_provider \<and> cf_database_url cfg \<noteq> [] \<and>
      cf_shutdown_timeout cfg = dur (get_env_int env ''SHUTDOWN_TIMEOUT_SECONDS'' 10) second"
    using db by (simp add: cfg)
  ultimately show ?thesis by blast
qed

definition sample_env :: "string \<Rightarrow> string" where
  "sample_env k = (if k = ''DATABASE_URL'' then ''x'' else [])"

lemma small_sample_env: "small_env 1000000000 sample_env"
proof -
  have "\<not> is_digit CHR ''x''" by code_simp
  then have "atoi ''x'' = None" "atoi [] = None" by (simp_all add: atoi_def Let_def)
  then show ?thesis by (auto simp: small_env_def sample_env_def split: if_splits)
qed

theorem load_config_in_range_witness:
  "\<exists>cfg. load_config (ref_uuid\<lparr>uuid_parse := (\<lambda>s. Some 5)\<rparr>) ref_case (\<lambda>u s. u) sample_env = Inr cfg \<and>
    int (length (cf_price_stream_partitions cfg)) = cf_price_stream_shard_count cfg \<and> 1 \<le> cf_price_stream_shard_count cfg \<and>
    300 * second \<le> cf_auth_session_ttl cfg"
proof -
  have t: "trim_space [] = []" using trim_plain(2) [of "[]"] by simp
  obtain cfg where cfg: "load_config (ref_uuid\<lparr>uuid_parse := (\<lambda>s. Some 5)\<rparr>) ref_case (\<lambda>u s. u) sample_env = Inr cfg"
    "cf_price_feed_symbols cfg = []"
    using t by (simp add: load_config_def sample_env_def Let_def parse_csv_symbols_def)
  show ?thesis
    using load_config_in_range [OF cfg(1) small_sample_env] cfg by (intro exI [of _ cfg]) simp
qed

end
