(* ===== verification/Pipeline.thy ===== *)
theory Pipeline
  imports Worker_Properties
begin

text \<open>
  Ingestion, the event table and the apply worker of one portfolio together: an inductive
  relation of the runs in which submissions arrive at any time between the ticks of the worker
  and everything else in the system works on other partitions. The labels of a run are the
  events its ticks consumed and the events that arrived behind the cursor.
\<close>

section \<open>Steps\<close>

text \<open>Whatever happens elsewhere: the rows of this partition stay as they are.\<close>

definition dead_of :: "db \<Rightarrow> uuid \<Rightarrow> event_envelope list" where
  "dead_of d pid = map snd (filter (\<lambda>p. fst p = pid) (dead_at d))"

definition elsewhere :: "uuid_api \<Rightarrow> pg_api \<Rightarrow> uuid \<Rightarrow> world \<Rightarrow> world \<Rightarrow> bool" where
  "elsewhere U P pid w w' \<longleftrightarrow> (store_inv P (w_db w) \<longrightarrow> store_inv P (w_db w')) \<and>
     stream_of U (w_db w') pid = stream_of U (w_db w) pid \<and> cursor_at (w_db w') pid = cursor_at (w_db w) pid \<and>
     book_at (w_db w') pid = book_at (w_db w) pid \<and> dead_of (w_db w') pid = dead_of (w_db w) pid"

text \<open>The events that the move of the cursor passed, and those that arrived behind the cursor.\<close>

definition consumed :: "uuid_api \<Rightarrow> 'd partition_worker \<Rightarrow> 'd partition_worker \<Rightarrow> world \<Rightarrow> event_envelope list" where
  "consumed U pw pw' w = filter (\<lambda>e. e \<notin> set (left_over U (pw', w))) (left_over U (pw, w))"

definition arrived_late :: "uuid_api \<Rightarrow> 'd partition_worker \<Rightarrow> world \<Rightarrow> world \<Rightarrow> event_envelope list" where
  "arrived_late U pw w w' = filter (\<lambda>e. e \<notin> set (stream_of U (w_db w) (pw_pid pw)) \<and> e \<notin> set (left_over U (pw, w')))
     (stream_of U (w_db w') (pw_pid pw))"

inductive pipeline ::
  "'d decimal_api \<Rightarrow> 'd json_api \<Rightarrow> uuid_api \<Rightarrow> pg_api \<Rightarrow> 'd partition_worker \<times> world \<Rightarrow>
   event_envelope list \<Rightarrow> event_envelope list \<Rightarrow> 'd partition_worker \<times> world \<Rightarrow> bool"
  for D J U P s0 where
  start: "pipeline D J U P s0 [] [] s0"
| rest_of_system: "pipeline D J U P s0 evs missed (pw, w) \<Longrightarrow> elsewhere U P (pw_pid pw) w w' \<Longrightarrow>
    pipeline D J U P s0 evs missed (pw, w')"
| submit: "pipeline D J U P s0 evs missed (pw, w) \<Longrightarrow> ingest D J (append_event U P) e w = (r, w') \<Longrightarrow>
    pipeline D J U P s0 evs (missed @ arrived_late U pw w w') (pw, w')"
| tick: "pipeline D J U P s0 evs missed (pw, w) \<Longrightarrow>
    process_incremental D J (postgres_repo D J U P) (pw, w) = Some (Inr (), (pw', w')) \<Longrightarrow>
    pipeline D J U P s0 (evs @ consumed U pw pw' w) missed (pw', w')"

section \<open>What each step keeps\<close>

lemma ingest_effect:
  assumes "pg_laws D val P" and "ingest D J (append_event U P) e w = (r, w')"
  shows "store_inv P (w_db w) \<Longrightarrow> store_inv P (w_db w')" "cursor_at (w_db w') = cursor_at (w_db w)"
    "book_at (w_db w') = book_at (w_db w)" "dead_at (w_db w') = dead_at (w_db w)"
    "set (stream_of U (w_db w) pid) \<subseteq> set (stream_of U (w_db w') pid)"
proof -
  have "(store_inv P (w_db w) \<longrightarrow> store_inv P (w_db w')) \<and> cursor_at (w_db w') = cursor_at (w_db w) \<and>
    book_at (w_db w') = book_at (w_db w) \<and> dead_at (w_db w') = dead_at (w_db w) \<and>
    set (stream_of U (w_db w) pid) \<subseteq> set (stream_of U (w_db w') pid)"
  proof (cases D J "append_event U P" e rule: ingest_cases)
    case (refused x)
    then show ?thesis using assms(2) by simp
  next
    case passed
    have nz: "event_id e \<noteq> uuid_nil" using passed(2) by (auto simp: validate_event_envelope_def split: if_splits)
    have w': "w' = snd (append_event U P e w)" using assms(2) passed(1) [of w] by simp
    show ?thesis
    proof (cases U P e w rule: append_event_db)
      case same
      then show ?thesis using w' by simp
    next
      case (wrote q res)
      have "store_inv P (w_db w) \<longrightarrow> store_inv P (w_db w')"
        using append_body_inv [OF wrote(2) _ nz pg_laws.time_idem [OF assms(1)]] w' by simp
      moreover from wrote(2) have "db_cursors (w_db w') = db_cursors (w_db w) \<and> db_positions (w_db w') = db_positions (w_db w) \<and>
        db_dlq (w_db w') = db_dlq (w_db w) \<and> set (db_events (w_db w)) \<subseteq> set (db_events (w_db w'))"
        unfolding w' by (cases rule: append_body_cases) auto
      ultimately show ?thesis
        by (auto simp: cursor_at_def book_at_def dead_at_def set_stream_of fun_eq_iff)
    qed
  qed
  then show "store_inv P (w_db w) \<Longrightarrow> store_inv P (w_db w')" "cursor_at (w_db w') = cursor_at (w_db w)"
    "book_at (w_db w') = book_at (w_db w)" "dead_at (w_db w') = dead_at (w_db w)"
    "set (stream_of U (w_db w) pid) \<subseteq> set (stream_of U (w_db w') pid)" by simp_all
qed

lemma tick_effect:
  assumes "pg_laws D val P" and "synced D val P (pw, w)" and "pw_max_event_age pw \<le> 0"
    and "process_incremental D J (postgres_repo D J U P) (pw, w) = Some (Inr (), (pw', w'))"
  obtains evs where "left_over U (pw, w) = evs @ left_over U (pw', w')" "synced D val P (pw', w')"
    "positions_at (pw_agg pw') (pw_pid_str pw) = replay D J evs (positions_at (pw_agg pw) (pw_pid_str pw))"
    "dead_at (w_db w') = dead_at (w_db w) @
      map (Pair (pw_pid pw)) (rejected D J evs (positions_at (pw_agg pw) (pw_pid_str pw)))"
    "stream_of U (w_db w') = stream_of U (w_db w)" "same_config pw pw'"
    "pw_cur pw' = (if evs = [] then pw_cur pw else cursor_from_event (last evs))" "healthy w \<longrightarrow> healthy w'"
proof -
  note e = pg_laws.repository [OF assms(1), of J U]
  let ?ps = "positions_at (pw_agg pw) (pw_pid_str pw)"
  have sync: "event_repository.in_sync D val (postgres_views U P) (pw, w)"
    using assms(2) in_sync_synced [OF assms(1)] by blast
  have run: "pump_after_cursor D J (postgres_repo D J U P) (pw, w) = Some (Inr (), (pw', w'))"
    using assms(4) by (simp add: process_incremental_def)
  have inv: "store_inv P (w_db w)" "pg_time P (cur_time (pw_cur pw)) = cur_time (pw_cur pw)"
    using event_repository.in_sync_key [OF e sync] by simp_all
  obtain l rest ps where l: "left_over U (pw, w) = map fst l @ rest"
    "event_repository.logged D val J (postgres_views U P) w w' (pw_pid pw) (pw_cur pw) ?ps l ps"
    "no_stale l" "positions_at (pw_agg pw') (pw_pid_str pw) = ps" "pw_cur pw' = log_cursor (pw_cur pw) l"
    using event_repository.pump_logged [OF e sync run] assms(3)
    by (auto simp: event_repository.pump_result_def [OF e] left_over_def)
  have f: "event_repository.worker_frame (postgres_views U P) (pw, w) (pw', w')"
    using event_repository.pump_terminates [OF e, of w pw] inv run by auto
  have c: "same_config pw pw'" "stream_of U (w_db w') = stream_of U (w_db w)" "healthy w \<longrightarrow> healthy w'"
    using f by (simp_all add: event_repository.worker_frame_def [OF e] partition_write_def)
  have rl: "run_log D J l ?ps = Some ps" "dead_at (w_db w') = dead_at (w_db w) @ map (Pair (pw_pid pw)) (dead_events l)"
    using l(2) by (simp_all add: event_repository.logged_def [OF e])
  have cur: "pw_cur pw' = (if map fst l = [] then pw_cur pw else cursor_from_event (last (map fst l)))"
    using l(5) by (auto simp: log_cursor_def last_map)
  have srt: "sorted_wrt (<) (map cursor_from_event (stream_of U (w_db w) (pw_pid pw)))"
    using inv(1) by (intro stream_of_sorted) (simp add: store_inv_def)
  have nz: "cursor_from_event (last (map fst l)) \<noteq> zero_cursor" if "map fst l \<noteq> []"
  proof -
    have "last (map fst l) \<in> set (left_over U (pw, w))"
      using that l(1) last_in_set [OF that] by (auto simp del: last_map)
    then show ?thesis
      using event_repository.left_facts(3) [OF e, of "(pw, w)"] inv(1) by (auto simp: left_over_def)
  qed
  have "left_over U (pw', w') = rest"
  proof (cases "map fst l = []")
    case True
    then show ?thesis using l(1) cur c by (simp add: left_over_def same_config_def)
  next
    case False
    then show ?thesis
      using events_after_prefix [OF srt, of "pw_cur pw" "map fst l" rest] l(1) cur c nz
      by (simp add: left_over_def same_config_def)
  qed
  then show thesis
    using that [of "map fst l"] l(1,4) cur c rl run_log_replay [OF rl(1) l(3)] trade_pump_run [OF assms(1,2,4)]
    by auto
qed

text \<open>A tick of another worker happens elsewhere, whatever its result.\<close>

lemma other_tick_elsewhere:
  assumes "pg_laws D val P" and "synced D val P (pw2, w)" and "pw_pid pw2 \<noteq> pid"
    and "process_incremental D J (postgres_repo D J U P) (pw2, w) = Some (r, (pw2', w'))"
  shows "elsewhere U P pid w w'"
proof -
  note e = pg_laws.repository [OF assms(1), of J U]
  have sync: "event_repository.in_sync D val (postgres_views U P) (pw2, w)"
    using assms(2) in_sync_synced [OF assms(1)] by blast
  have inv: "store_inv P (w_db w)" "pg_time P (cur_time (pw_cur pw2)) = cur_time (pw_cur pw2)"
    using event_repository.in_sync_key [OF e sync] by simp_all
  have f: "event_repository.worker_frame (postgres_views U P) (pw2, w) (pw2', w')"
    using event_repository.pump_terminates [OF e, of w pw2] inv assms(4) by (auto simp: process_incremental_def)
  obtain l where "dead_at (w_db w') = dead_at (w_db w) @ map (Pair (pw_pid pw2)) l"
    using trade_pump_run [OF assms(1,2,4)] by blast
  then have "dead_of (w_db w') pid = dead_of (w_db w) pid"
    using assms(3) by (simp add: dead_of_def)
  then show ?thesis
    using f assms(3) by (simp add: elsewhere_def event_repository.worker_frame_def [OF e] partition_write_def)
qed

section \<open>The invariant of a run\<close>

text \<open>\<open>behind c E\<close>: the cursor has passed the events \<open>E\<close>, so that no tick will fetch them.\<close>

definition behind :: "cursor \<Rightarrow> event_envelope set \<Rightarrow> bool" where
  "behind c E \<longleftrightarrow> (\<forall>e\<in>E. c \<noteq> zero_cursor \<and> cursor_from_event e \<le> c)"

definition processed :: "uuid_api \<Rightarrow> 'd partition_worker \<times> world \<Rightarrow> event_envelope set" where
  "processed U s = set (stream_of U (w_db (snd s)) (pw_pid (fst s))) - set (left_over U s)"

definition run_inv ::
  "'d decimal_api \<Rightarrow> ('d \<Rightarrow> rat) \<Rightarrow> 'd json_api \<Rightarrow> uuid_api \<Rightarrow> pg_api \<Rightarrow> 'd partition_worker \<times> world \<Rightarrow>
   event_envelope list \<Rightarrow> event_envelope list \<Rightarrow> 'd partition_worker \<times> world \<Rightarrow> bool" where
  "run_inv D val J U P s0 evs missed s \<longleftrightarrow>
     (let pid = pw_pid (fst s0); ps0 = positions_at (pw_agg (fst s0)) (pw_pid_str (fst s0)) in
     synced D val P s \<and> same_config (fst s0) (fst s) \<and> sorted_wrt (<) (map cursor_from_event evs) \<and>
     set (stream_of U (w_db (snd s)) pid) = processed U s0 \<union> set evs \<union> set missed \<union> set (left_over U s) \<and>
     behind (pw_cur (fst s)) (processed U s0 \<union> set evs \<union> set missed) \<and>
     set evs \<inter> (processed U s0 \<union> set missed) = {} \<and>
     positions_at (pw_agg (fst s)) (pw_pid_str (fst s0)) = replay D J evs ps0 \<and>
     dead_of (w_db (snd s)) pid = dead_of (w_db (snd s0)) pid @ rejected D J evs ps0)"

lemma behind_simps [simp]: "behind c {}" "behind c (A \<union> B) \<longleftrightarrow> behind c A \<and> behind c B"
  by (auto simp: behind_def)

lemma behind_left: "behind c E \<Longrightarrow> E \<inter> set (events_after c evs) = {}"
  by (auto simp: behind_def events_after_def)

lemma behind_rest: "e \<in> set evs \<Longrightarrow> e \<notin> set (events_after c evs) \<Longrightarrow> c \<noteq> zero_cursor \<and> cursor_from_event e \<le> c"
  by (auto simp: events_after_def split: if_splits)

lemma behind_less:
  assumes "behind (pw_cur pw) E" "x \<in> E" "y \<in> set (left_over U (pw, w))"
  shows "cursor_from_event x < cursor_from_event y"
proof -
  have "cursor_from_event x \<le> pw_cur pw" "pw_cur pw < cursor_from_event y"
    using assms by (auto simp: behind_def left_over_def events_after_def)
  then show ?thesis by (rule le_less_trans)
qed

lemma processed_behind: "behind (pw_cur (fst s)) (processed U s)"
  by (auto simp: behind_def processed_def left_over_def dest: behind_rest)

lemma run_inv_start:
  assumes "synced D val P s0"
  shows "run_inv D val J U P s0 [] [] s0"
proof -
  have "set (left_over U s0) \<subseteq> set (stream_of U (w_db (snd s0)) (pw_pid (fst s0)))"
    unfolding left_over_def by (rule set_events_after)
  then show ?thesis using assms by (auto simp: run_inv_def processed_behind) (auto simp: processed_def)
qed

lemma run_inv_elsewhere:
  assumes "run_inv D val J U P s0 evs missed (pw, w)" and "elsewhere U P (pw_pid pw) w w'"
  shows "run_inv D val J U P s0 evs missed (pw, w')"
proof -
  have sy: "synced D val P (pw, w)" and cfg: "same_config (fst s0) pw"
    using assms(1) by (simp_all add: run_inv_def Let_def)
  have "synced D val P (pw, w')" using sy assms(2) by (simp add: synced_def elsewhere_def)
  moreover have "left_over U (pw, w') = left_over U (pw, w)" using assms(2) by (simp add: left_over_def elsewhere_def)
  moreover have "pw_pid pw = pw_pid (fst s0)" using cfg by (simp add: same_config_def)
  ultimately show ?thesis using assms by (simp add: run_inv_def Let_def elsewhere_def)
qed

lemma run_inv_submit:
  assumes "pg_laws D val P" and inv: "run_inv D val J U P s0 evs missed (pw, w)"
    and "ingest D J (append_event U P) e w = (r, w')"
  shows "run_inv D val J U P s0 evs (missed @ arrived_late U pw w w') (pw, w')"
proof -
  note ie = ingest_effect [OF assms(1,3)]
  have pid: "pw_pid pw = pw_pid (fst s0)" using inv by (simp add: run_inv_def Let_def same_config_def)
  let ?S = "set (stream_of U (w_db w) (pw_pid pw))" and ?S' = "set (stream_of U (w_db w') (pw_pid pw))"
    and ?new = "set (arrived_late U pw w w')" and ?L = "set (left_over U (pw, w))" and ?L' = "set (left_over U (pw, w'))"
  have sub: "?S \<subseteq> ?S'" by (rule ie(5))
  have new: "?new = {e \<in> ?S'. e \<notin> ?S \<and> e \<notin> ?L'}" by (auto simp: arrived_late_def)
  have L: "?L = ?S \<inter> ?L'" "?L' \<subseteq> ?S'" using sub by (auto simp: left_over_def events_after_def)
  have S: "?S = processed U s0 \<union> set evs \<union> set missed \<union> ?L"
    and b: "behind (pw_cur pw) (processed U s0 \<union> set evs \<union> set missed)"
    using inv pid by (simp_all add: run_inv_def Let_def)
  have "behind (pw_cur pw) ?new" using new by (auto simp: behind_def left_over_def dest: behind_rest)
  moreover have "?S' = processed U s0 \<union> set evs \<union> (set missed \<union> ?new) \<union> ?L'"
    using S L sub new by blast
  moreover have "set evs \<inter> ?new = {}" using S new by auto
  moreover have "synced D val P (pw, w')" using inv ie by (simp add: run_inv_def Let_def synced_def)
  moreover have "dead_of (w_db w') (pw_pid pw) = dead_of (w_db w) (pw_pid pw)" using ie(4) by (simp add: dead_of_def)
  ultimately show ?thesis using inv b pid by (auto simp: run_inv_def Let_def)
qed

lemma run_inv_tick:
  assumes "pg_laws D val P" and inv: "run_inv D val J U P s0 evs missed (pw, w)" and "pw_max_event_age (fst s0) \<le> 0"
    and "process_incremental D J (postgres_repo D J U P) (pw, w) = Some (Inr (), (pw', w'))"
  shows "run_inv D val J U P s0 (evs @ consumed U pw pw' w) missed (pw', w')"
proof -
  have cfg: "same_config (fst s0) pw" and sy: "synced D val P (pw, w)"
    using inv by (simp_all add: run_inv_def Let_def)
  have cf: "pw_pid pw = pw_pid (fst s0)" "pw_pid_str pw = pw_pid_str (fst s0)" "pw_max_event_age pw \<le> 0"
    using cfg assms(3) by (simp_all add: same_config_def)
  obtain new where t: "left_over U (pw, w) = new @ left_over U (pw', w')" "synced D val P (pw', w')"
    "positions_at (pw_agg pw') (pw_pid_str pw) = replay D J new (positions_at (pw_agg pw) (pw_pid_str pw))"
    "dead_at (w_db w') = dead_at (w_db w) @
      map (Pair (pw_pid pw)) (rejected D J new (positions_at (pw_agg pw) (pw_pid_str pw)))"
    "stream_of U (w_db w') = stream_of U (w_db w)" "same_config pw pw'"
    "pw_cur pw' = (if new = [] then pw_cur pw else cursor_from_event (last new))"
    by (rule tick_effect [OF assms(1) sy cf(3) assms(4)])
  note e = pg_laws.repository [OF assms(1), of J U]
  have si: "store_inv P (w_db w)" using sy by (simp add: synced_def)
  note lf = event_repository.left_facts [OF e, of "(pw, w)"]
  have srt: "sorted_wrt (<) (map cursor_from_event (new @ left_over U (pw', w')))"
    and nz: "\<forall>e\<in>set new. cursor_from_event e \<noteq> zero_cursor"
    using lf(1,3) si t(1) by (simp_all add: left_over_def)
  have L': "left_over U (pw', w) = left_over U (pw', w')" using t(5) by (simp add: left_over_def)
  have disj: "set new \<inter> set (left_over U (pw', w')) = {}"
    using srt by (force simp: sorted_wrt_append sorted_wrt_map)
  then have new: "consumed U pw pw' w = new"
    unfolding consumed_def L' t(1) by (auto simp: filter_id_conv filter_empty_conv)
  let ?past = "processed U s0 \<union> set evs \<union> set missed"
  have S: "set (stream_of U (w_db w) (pw_pid pw)) = ?past \<union> set (left_over U (pw, w))"
    and b: "behind (pw_cur pw) ?past" and sevs: "sorted_wrt (<) (map cursor_from_event evs)"
    using inv cf by (simp_all add: run_inv_def Let_def)
  have "?past \<inter> set (left_over U (pw, w)) = {}" using behind_left [OF b] by (simp add: left_over_def)
  then have past: "?past \<inter> set new = {}" unfolding t(1) by auto
  have above: "cursor_from_event x < cursor_from_event y" if "x \<in> ?past" "y \<in> set new" for x y
    using behind_less [OF b that(1), of y U w] that(2) t(1) by simp
  have "behind (pw_cur pw') (?past \<union> set new)"
  proof (cases "new = []")
    case True
    then show ?thesis using b t(7) by simp
  next
    case False
    then have c: "pw_cur pw' = cursor_from_event (last new)" "last new \<in> set new" using t(7) by simp_all
    have "cursor_from_event x \<le> cursor_from_event (last new)" if "x \<in> set new" for x
    proof -
      have "sorted_wrt (<) (map cursor_from_event (butlast new @ [last new]))"
        using srt False by (simp add: sorted_wrt_append sorted_wrt_map)
      moreover have "x \<in> set (butlast new @ [last new])" using that False by simp
      ultimately show ?thesis by (auto simp: sorted_wrt_append sorted_wrt_map simp del: append_butlast_last_id)
    qed
    then show ?thesis using above c nz by (fastforce simp: behind_def)
  qed
  moreover have "sorted_wrt (<) (map cursor_from_event (evs @ new))"
    using sevs srt above by (simp add: sorted_wrt_append sorted_wrt_map)
  moreover have "set (stream_of U (w_db w') (pw_pid pw)) = ?past \<union> set new \<union> set (left_over U (pw', w'))"
    using S t(1,5) by auto
  moreover have "dead_of (w_db w') (pw_pid pw) = dead_of (w_db w) (pw_pid pw) @
      rejected D J new (positions_at (pw_agg pw) (pw_pid_str pw))"
    using t(4) by (simp add: dead_of_def comp_def)
  moreover have "same_config (fst s0) pw'" using cfg t(6) same_config_trans by blast
  moreover have "set (evs @ new) \<inter> (processed U s0 \<union> set missed) = {}"
    using inv past by (auto simp: run_inv_def Let_def)
  ultimately show ?thesis
    using inv t(2,3) cf by (auto simp: run_inv_def Let_def new replay_append rejected_append)
qed

lemma pipeline_run_inv:
  assumes "pg_laws D val P" and "synced D val P s0" and "pw_max_event_age (fst s0) \<le> 0"
    and "pipeline D J U P s0 evs missed s"
  shows "run_inv D val J U P s0 evs missed s"
  using assms(4)
proof (induction rule: pipeline.induct)
  case start
  show ?case by (rule run_inv_start [OF assms(2)])
next
  case (rest_of_system evs missed pw w w')
  then show ?case by (blast intro: run_inv_elsewhere)
next
  case (submit evs missed pw w e r w')
  then show ?case by (blast intro: run_inv_submit [OF assms(1)])
next
  case (tick evs missed pw w pw' w')
  then show ?case by (blast intro: run_inv_tick [OF assms(1) _ assms(3)])
qed

section \<open>Exactly once, but for late arrivals\<close>

text \<open>
  (C1) In every run of submissions and ticks that return no error, from a state in which memory
  and database agree, without an age limit for events (the default), the events of the portfolio fall into four parts: those processed before
  the run, those its ticks consumed, those that arrived behind the cursor, and those left over.
  What was consumed and what is left over is in strictly ascending cursor order, each event at
  most once, and nothing processed before or late among it. The positions are those of applying the consumed
  events one by one, the dead letters are the consumed trades that would have gone short, and
  the projection agrees. A late event was accepted and stored like any other, but is applied
  never and put aside never.
\<close>

theorem pipeline_exactly_once:
  assumes "pg_laws D val P" and "synced D val P (pw0, w0)" and "pw_max_event_age pw0 \<le> 0"
    and "pipeline D J U P (pw0, w0) evs missed (pw, w)"
  shows "set (stream_of U (w_db w) (pw_pid pw0)) =
      processed U (pw0, w0) \<union> set evs \<union> set missed \<union> set (left_over U (pw, w)) \<and>
    sorted_wrt (<) (map cursor_from_event (evs @ left_over U (pw, w))) \<and>
    (processed U (pw0, w0) \<union> set missed) \<inter> (set evs \<union> set (left_over U (pw, w))) = {} \<and>
    positions_at (pw_agg pw) (pw_pid_str pw0) = replay D J evs (positions_at (pw_agg pw0) (pw_pid_str pw0)) \<and>
    dead_of (w_db w) (pw_pid pw0) = dead_of (w_db w0) (pw_pid pw0) @
      rejected D J evs (positions_at (pw_agg pw0) (pw_pid_str pw0)) \<and>
    synced D val P (pw, w)"
proof -
  have inv: "run_inv D val J U P (pw0, w0) evs missed (pw, w)"
    using pipeline_run_inv [OF assms(1,2) _ assms(4)] assms(3) by simp
  let ?L = "left_over U (pw, w)"
  have sy: "synced D val P (pw, w)" and pid: "pw_pid pw = pw_pid pw0"
    and b: "behind (pw_cur pw) (processed U (pw0, w0) \<union> set evs \<union> set missed)"
    and srt: "sorted_wrt (<) (map cursor_from_event evs)"
    using inv by (simp_all add: run_inv_def Let_def same_config_def)
  have "sorted_wrt (<) (map cursor_from_event ?L)"
    using sy by (auto simp: left_over_def synced_def store_inv_def intro!: events_after_sorted stream_of_sorted)
  moreover have "cursor_from_event x < cursor_from_event y" if "x \<in> set evs" "y \<in> set ?L" for x y
    using behind_less [OF b _ that(2)] that(1) by simp
  ultimately have "sorted_wrt (<) (map cursor_from_event (evs @ ?L))"
    using srt by (simp add: sorted_wrt_append sorted_wrt_map)
  moreover have "(processed U (pw0, w0) \<union> set missed) \<inter> set ?L = {}"
    using behind_left [OF b, of "stream_of U (w_db w) (pw_pid pw)"] by (auto simp: left_over_def)
  ultimately show ?thesis using inv sy by (auto simp: run_inv_def Let_def)
qed

text \<open>A trade with an earlier time than the one already applied.\<close>

definition late_buy :: event_envelope where
  "late_buy = sample_envelope 2 500000 ''k2'' ten_shares"

definition late_row :: "time \<Rightarrow> event_row" where
  "late_row = sample_event_row 2 500000 ''k2''"

lemma late_ingested:
  assumes "healthy w" and "\<forall>r\<in>set (db_events (w_db w)). er_event_id r = 1 \<and> er_idempotency_key r = ''k1''"
  shows "\<exists>w' now. ingest ref_dec ref_json (append_event ref_uuid ref_pg) late_buy w =
      (Inr \<lparr>ar_event_id = 2, ar_inserted = True\<rparr>, w') \<and>
    w_db w' = (w_db w)\<lparr>db_events := db_events (w_db w) @ [late_row now]\<rparr>"
proof -
  have v: "validate_event_envelope (sample_envelope 2 500000 ''k2'' ten_shares) = Inr ()" by code_simp
  have k: "char_of (0::nat) \<notin> set ''k2''" by code_simp
  have t: "pg_time ref_pg 500000 = 500000" by (simp add: ref_pg_def)
  show ?thesis
    using ingest_sample [OF assms(1) v _ k t] assms(2) by (auto simp: late_buy_def late_row_def)
qed

lemma sample_tick:
  "\<exists>pw' w'. process_incremental ref_dec ref_json (postgres_repo ref_dec ref_json ref_uuid ref_pg)
      (sample_worker 0, sample_world (empty_db\<lparr>db_events := [sample_row]\<rparr>) []) = Some (Inr (), (pw', w')) \<and>
    consumed ref_uuid (sample_worker 0) pw' (sample_world (empty_db\<lparr>db_events := [sample_row]\<rparr>) []) =
      [scan_event_row ref_uuid sample_row] \<and>
    stream_of ref_uuid (w_db w') = stream_of ref_uuid (empty_db\<lparr>db_events := [sample_row]\<rparr>) \<and>
    pw_cur pw' = Cursor 1000000 1 \<and> pw_pid pw' = 7 \<and> healthy w'"
proof -
  let ?w = "sample_world (empty_db\<lparr>db_events := [sample_row]\<rparr>) []" and ?pw = "sample_worker 0"
  let ?ev = "scan_event_row ref_uuid sample_row"
  obtain pw' w' where run: "process_incremental ref_dec ref_json (postgres_repo ref_dec ref_json ref_uuid ref_pg)
      (?pw, ?w) = Some (Inr (), (pw', w'))"
    and ps: "positions_at (pw_agg pw') (pw_pid_str ?pw) = replay ref_dec ref_json [?ev] []"
    using trade_pump_catch_up_run [OF refp.pg_laws_axioms sample_synced [of 0 "[]"], of ref_json ref_uuid]
      sample_fits sample_db_typed
    unfolding sample_left_over by (auto simp: within_watermark_def simp del: replay.simps rejected.simps)
  have age: "pw_max_event_age ?pw \<le> 0" by simp
  obtain new where t: "left_over ref_uuid (?pw, ?w) = new @ left_over ref_uuid (pw', w')"
    "positions_at (pw_agg pw') (pw_pid_str ?pw) = replay ref_dec ref_json new (positions_at (pw_agg ?pw) (pw_pid_str ?pw))"
    "stream_of ref_uuid (w_db w') = stream_of ref_uuid (w_db ?w)" "same_config ?pw pw'"
    "pw_cur pw' = (if new = [] then pw_cur ?pw else cursor_from_event (last new))" "healthy w'"
    using tick_effect [OF refp.pg_laws_axioms sample_synced age run] healthy_sample by metis
  have "new \<noteq> []" using t(2) ps sample_replay by auto
  then have new: "new = [?ev]" "left_over ref_uuid (pw', w') = []"
    using t(1) unfolding sample_left_over by (simp_all add: Cons_eq_append_conv)
  have "left_over ref_uuid (pw', ?w) = []" using new(2) t(3) by (simp add: left_over_def)
  then have "consumed ref_uuid ?pw pw' ?w = [?ev]" by (simp add: consumed_def sample_left_over)
  then show ?thesis using run t new
    by (intro exI [of _ pw'] exI [of _ w']) (simp add: sample_row_def row_cursor_def same_config_def)
qed

theorem pipeline_exactly_once_witness:
  "\<exists>pw w missed. pipeline ref_dec ref_json ref_uuid ref_pg (sample_worker 0, sample_world empty_db [])
      [scan_event_row ref_uuid sample_row] missed (pw, w) \<and>
    set missed = {scan_event_row ref_uuid (late_row 0)} \<and>
    set (stream_of ref_uuid (w_db w) 7) = {scan_event_row ref_uuid sample_row, scan_event_row ref_uuid (late_row 0)} \<and>
    positions_at (pw_agg pw) (pw_pid_str (sample_worker 0)) =
      [(''AAPL'', \<lparr>lot_quantity = RDec 10 0, average_cost = RDec 50000000000000000 16, realized_pnl = RDec 0 0\<rparr>)] \<and>
    dead_of (w_db w) 7 = []"
proof -
  let ?w0 = "sample_world empty_db []" and ?pw = "sample_worker 0"
  let ?w1 = "sample_world (empty_db\<lparr>db_events := [sample_row]\<rparr>) []" and ?ev = "scan_event_row ref_uuid sample_row"
  let ?late = "scan_event_row ref_uuid (late_row 0)"
  let ?run = "pipeline ref_dec ref_json ref_uuid ref_pg (?pw, ?w0)"
  obtain r wB where B: "ingest ref_dec ref_json (append_event ref_uuid ref_pg) sample_buy ?w0 = (r, wB)"
    by (rule prod.exhaust)
  have dB: "w_db wB = empty_db\<lparr>db_events := [sample_row]\<rparr>" using sample_ingest(2) [OF refl] B by simp
  have "arrived_late ref_uuid ?pw ?w0 wB = []"
    by (simp add: arrived_late_def left_over_def events_after_def filter_empty_conv)
  then have "?run [] [] (?pw, wB)" using pipeline.submit [OF pipeline.start [of _ _ _ _ "(?pw, ?w0)"] B] by simp
  then have C: "?run [] [] (?pw, ?w1)" by (rule pipeline.rest_of_system) (simp add: elsewhere_def dB)
  obtain pw' w' where t: "process_incremental ref_dec ref_json (postgres_repo ref_dec ref_json ref_uuid ref_pg)
      (?pw, ?w1) = Some (Inr (), (pw', w'))" "consumed ref_uuid ?pw pw' ?w1 = [?ev]"
    "stream_of ref_uuid (w_db w') = stream_of ref_uuid (empty_db\<lparr>db_events := [sample_row]\<rparr>)"
    "pw_cur pw' = Cursor 1000000 1" "pw_pid pw' = 7" "healthy w'"
    using sample_tick by blast
  have D: "?run [?ev] [] (pw', w')" using pipeline.tick [OF C t(1)] t(2) by simp
  have "er_event_id r = 1 \<and> er_idempotency_key r = ''k1''" if "r \<in> set (db_events (w_db w'))" for r
  proof -
    have "scan_event_row ref_uuid r \<in> set (stream_of ref_uuid (w_db w') (er_portfolio_id r))"
      using that by (simp add: set_stream_of)
    then have "scan_event_row ref_uuid r = ?ev" unfolding t(3) by (auto simp: set_stream_of)
    then show ?thesis by (simp add: scan_event_row_def sample_row_def)
  qed
  then obtain w'' now where E: "ingest ref_dec ref_json (append_event ref_uuid ref_pg) late_buy w' =
      (Inr \<lparr>ar_event_id = 2, ar_inserted = True\<rparr>, w'')"
    "w_db w'' = (w_db w')\<lparr>db_events := db_events (w_db w') @ [late_row now]\<rparr>"
    using late_ingested [OF t(6)] by blast
  have l: "scan_event_row ref_uuid (late_row now) = ?late" by (simp add: scan_event_row_def late_row_def sample_event_row_def)
  have S: "set (stream_of ref_uuid (w_db w') 7) = {?ev}"
    unfolding t(3) by (auto simp: set_stream_of sample_row_def)
  have S': "set (stream_of ref_uuid (w_db w'') 7) = {?ev, ?late}"
  proof -
    have "{r \<in> set (db_events (w_db w'')). er_portfolio_id r = 7} =
        insert (late_row now) {r \<in> set (db_events (w_db w')). er_portfolio_id r = 7}"
      unfolding E(2) by (auto simp: late_row_def sample_event_row_def)
    then show ?thesis using S l by (simp add: set_stream_of insert_commute)
  qed
  have "?late \<noteq> ?ev" by (simp add: scan_event_row_def late_row_def sample_event_row_def sample_row_def)
  moreover have "?late \<notin> set (left_over ref_uuid (pw', w''))"
    by (simp add: left_over_def events_after_def t(4) zero_cursor_def row_cursor_def late_row_def sample_event_row_def less_cursor_def)
  ultimately have m: "set (arrived_late ref_uuid pw' w' w'') = {?late}"
    using S S' t(5) by (auto simp: arrived_late_def)
  have F: "?run [?ev] (arrived_late ref_uuid pw' w' w'') (pw', w'')" using pipeline.submit [OF D E(1)] by simp
  have rj: "rejected ref_dec ref_json [?ev] [] = []" by code_simp
  have d0: "dead_of empty_db 7 = []" by (simp add: dead_of_def dead_at_def empty_db_def)
  have "synced ref_dec rval ref_pg (?pw, ?w0)" by (rule sample_worker_synced) (simp_all add: empty_db_def store_inv_def)
  from pipeline_exactly_once [OF refp.pg_laws_axioms this _ F] show ?thesis
    using F m S' d0 rj
    by (intro exI [of _ pw'] exI [of _ w''] exI [of _ "arrived_late ref_uuid pw' w' w''"])
      (simp add: sample_replay del: replay.simps rejected.simps)
qed

end
