(* ===== verification/Pool_Properties.thy ===== *)
theory Pool_Properties
  imports Pipeline
begin

text \<open>
  Both worker pools together: \<^verbatim>\<open>Run\<close> and \<^verbatim>\<open>runShard\<close> of \<^verbatim>\<open>trade_worker_pool.go\<close> and \<^verbatim>\<open>price_worker_pool.go\<close>. Every
  shard is a goroutine with a map of workers of its own that ticks once at the start and then with
  its ticker, so a run of the pools is a sequence of shards, whose order the tickers decide. The
  theorem says that a partition belongs to one shard: whatever the others do, its cursor, its rows
  and its dead letters stay as they are.
\<close>

section \<open>Runs\<close>

datatype pool_step = TradeShard int | PriceShard int

type_synonym ('d, 'w) pools = "(int \<Rightarrow> 'd portfolio_workers) \<times> (int \<Rightarrow> price_workers) \<times> 'w"

definition trade_turn ::
  "'d decimal_api \<Rightarrow> 'd json_api \<Rightarrow> uuid_api \<Rightarrow> ('d, 'w) repo \<Rightarrow> trade_pool \<Rightarrow> int \<Rightarrow> ('d, 'w) pools \<Rightarrow>
   (unit res \<times> ('d, 'w) pools) option" where
  "trade_turn D J U R wk k = (\<lambda>(m, q, w).
     map_option (\<lambda>(r, mk, w'). (r, m(k := mk), q, w')) (shard_tick D J U R wk k (m k, w)))"

definition price_turn ::
  "'d decimal_api \<Rightarrow> 'd json_api \<Rightarrow> uuid_api \<Rightarrow> ('d, 'w) repo \<Rightarrow> price_pool \<Rightarrow> int \<Rightarrow> ('d, 'w) pools \<Rightarrow>
   (unit res \<times> ('d, 'w) pools) option" where
  "price_turn D J U R pl k = (\<lambda>(m, q, w).
     map_option (\<lambda>(r, qk, w'). (r, m, q(k := qk), w')) (price_shard_tick D J U R pl k (q k, w)))"

text \<open>A panic ends the process.\<close>

fun run_pools ::
  "'d decimal_api \<Rightarrow> 'd json_api \<Rightarrow> uuid_api \<Rightarrow> ('d, 'w) repo \<Rightarrow> trade_pool \<Rightarrow> price_pool \<Rightarrow> pool_step list \<Rightarrow>
   ('d, 'w) pools \<Rightarrow> (unit res \<times> ('d, 'w) pools) option" where
  "run_pools D J U R wk pl [] s = Some (Inr (), s)"
| "run_pools D J U R wk pl (step # steps) s =
     (case (case step of TradeShard k \<Rightarrow> trade_turn D J U R wk k s | PriceShard k \<Rightarrow> price_turn D J U R pl k s) of
        None \<Rightarrow> None
      | Some (Inl e, s') \<Rightarrow> Some (Inl e, s')
      | Some (Inr u, s') \<Rightarrow> run_pools D J U R wk pl steps s')"

definition new_pools :: "'w \<Rightarrow> ('d, 'w) pools" where
  "new_pools w = (\<lambda>_. [], \<lambda>_. [], w)"

text \<open>The shard of a partition, and the maps in which every worker sits in the shard of its partition.\<close>

definition owner_shard :: "trade_pool \<Rightarrow> price_pool \<Rightarrow> uuid \<Rightarrow> pool_step" where
  "owner_shard wk pl pid = (if pid \<in> set (pl_partitions pl) then PriceShard (worker_shard_for pid (pl_worker_count pl))
     else TradeShard (worker_shard_for pid (wk_shard_count wk)))"

definition workers_ok :: "uuid set \<Rightarrow> ('p \<Rightarrow> uuid) \<Rightarrow> (uuid \<times> 'p) list \<Rightarrow> bool" where
  "workers_ok S pid m \<longleftrightarrow> (\<forall>p pw. map_of m p = Some pw \<longrightarrow> p \<in> S \<and> pid pw = p)"

definition pools_ok :: "trade_pool \<Rightarrow> price_pool \<Rightarrow> ('d, 'w) pools \<Rightarrow> bool" where
  "pools_ok wk pl = (\<lambda>(m, q, w). (\<forall>k. workers_ok {pid. owner_shard wk pl pid = TradeShard k} pw_pid (m k)) \<and>
     (\<forall>k. workers_ok {pid. owner_shard wk pl pid = PriceShard k} pp_pid (q k)))"

section \<open>What a worker touches\<close>

locale pool_repository = price_repository D val J R V marks
  for D :: "'d decimal_api" and val :: "'d \<Rightarrow> rat" and J :: "'d json_api"
    and R :: "('d, 'w) repo" and V :: "'w views" and marks :: "'w \<Rightarrow> marks" +
  assumes fetch_stream: "v_inv V w \<Longrightarrow> fst (rp_fetch_after R pid c n w) = Inr evs \<Longrightarrow> set evs \<subseteq> set (v_stream V w pid)"
    and ids_not_in: "fst (rp_list_portfolio_ids_not_in R ex w) = Inr ids \<Longrightarrow> set ids \<inter> set ex = {}"
begin

definition touches :: "uuid set \<Rightarrow> 'w \<Rightarrow> 'w \<Rightarrow> bool" where
  "touches S w w' \<longleftrightarrow> v_stream V w' = v_stream V w \<and> (v_inv V w \<longrightarrow> v_inv V w') \<and>
     (\<forall>q. q \<notin> S \<longrightarrow> v_cursor V w' q = v_cursor V w q \<and> v_book V w' q = v_book V w q \<and>
       filter (\<lambda>p. fst p = q) (v_dead V w') = filter (\<lambda>p. fst p = q) (v_dead V w))"

lemma touches_same: "same_views V w w' \<Longrightarrow> touches S w w'"
  by (simp add: touches_def same_views_def)

lemma touches_refl [simp]: "touches S w w"
  by (simp add: touches_def)

lemma touches_trans: "touches S w w' \<Longrightarrow> touches S w' w'' \<Longrightarrow> touches S w w''"
  by (simp add: touches_def)

lemma touches_mono: "touches S w w' \<Longrightarrow> S \<subseteq> T \<Longrightarrow> touches T w w'"
  by (auto simp: touches_def)

lemma touches_write:
  "partition_write V pid w w' \<Longrightarrow> v_dead V w' = v_dead V w \<or> v_dead V w' = v_dead V w @ [(pid, ev)] \<Longrightarrow> touches {pid} w w'"
  by (auto simp: touches_def partition_write_def)

text \<open>What an operation of a worker does: it touches the partition of the worker, which stays its partition.\<close>

definition own :: "('p \<Rightarrow> uuid) \<Rightarrow> 'p \<times> 'w \<Rightarrow> 'p \<times> 'w \<Rightarrow> bool" where
  "own pid s s' \<longleftrightarrow> pid (fst s') = pid (fst s) \<and> touches {pid (fst s)} (snd s) (snd s')"

lemma own_trans: "own pid s s' \<Longrightarrow> own pid s' s'' \<Longrightarrow> own pid s s''"
  unfolding own_def using touches_trans by fastforce

lemma own_same: "same_views V w w' \<Longrightarrow> pid pw' = pid pw \<Longrightarrow> own pid (pw, w) (pw', w')"
  by (simp add: own_def touches_same)

lemma own_inv: "own pid s s' \<Longrightarrow> v_inv V (snd s) \<Longrightarrow> v_inv V (snd s')"
  by (simp add: own_def touches_def)

lemma flush_own:
  assumes "evs = [] \<or> v_key V (cursor_from_event (last evs))" and "flush_apply_batch D R evs s = (r, s')"
  shows "own pw_pid s s'"
  using flush_frame [of evs "fst s" "snd s" r s'] assms
  by (auto simp: own_def worker_frame_def same_config_def intro: touches_write)

lemma dead_letter_own:
  assumes "v_key V (cursor_from_event ev)" and "dead_letter R ev reason cause s = (r, s')"
  shows "own pw_pid s s'"
proof -
  obtain pw w where s: "s = (pw, w)" by (cases s)
  note f = dead_letter_frame [OF assms(1) assms(2) [unfolded s]]
  have "snd s' = snd (rp_persist_apply_dlq R (pw_pid pw) (pw_pid_str pw) ev reason cause w)"
    using assms(2) [unfolded s] by (cases rule: dead_letter_cases) simp_all
  from dlq_commit [OF assms(1) this] show ?thesis
    using f by (auto simp: s own_def worker_frame_def same_config_def intro: touches_write)
qed

lemma apply_eligible_own:
  assumes "\<forall>e\<in>set (okb @ evs). v_key V (cursor_from_event e)" and "apply_eligible D J R okb evs (pw, w) = (r, s')"
  shows "own pw_pid (pw, w) s'"
  using assms
proof (induction evs arbitrary: okb pw w)
  case Nil
  then show ?case using flush_own [of okb "(pw, w)" r s'] by (cases "okb = []") auto
next
  case (Cons ev evs)
  have kb: "okb = [] \<or> v_key V (cursor_from_event (last okb))" using Cons.prems(1) by auto
  have kev: "v_key V (cursor_from_event ev)" using Cons.prems(1) by simp
  have start: "own pw_pid (pw, w) (pw\<lparr>pw_agg := agg\<rparr>, w1)" if "same_views V w w1" for agg w1
    using that by (simp add: own_same)
  from Cons.prems(2) show ?case
  proof (cases rule: apply_eligible_step)
    case (joined w1 agg)
    then show ?thesis using Cons.IH [OF _ joined(3)] Cons.prems(1) own_trans [OF start [OF joined(1)]] by simp
  next
    case (aside w1 agg oc s1 s2 reason cause)
    have "own pw_pid s2 s'" using Cons.IH [of "[]" "fst s2" "snd s2"] aside(5) Cons.prems(1) by simp
    then show ?thesis
      using start [OF aside(1)] flush_own [OF kb aside(3)] dead_letter_own [OF kev aside(4)] own_trans by blast
  next
    case (flush_end w1 agg e)
    then show ?thesis using start [OF flush_end(1)] flush_own [OF kb] own_trans by blast
  next
    case (panic w1 agg e)
    then show ?thesis using start by simp
  next
    case (dead_end w1 agg oc s1 reason cause e)
    then show ?thesis
      using start [OF dead_end(1)] flush_own [OF kb dead_end(3)] dead_letter_own [OF kev dead_end(4)] own_trans by blast
  qed
qed

lemma stream_key: "v_inv V w \<Longrightarrow> set evs \<subseteq> set (v_stream V w pid) \<Longrightarrow> \<forall>e\<in>set evs. v_key V (cursor_from_event e)"
  by (meson stream_keys subsetD)

lemma fetched_key:
  assumes "v_inv V w" and "rp_fetch_after R pid c n w = (Inr evs, w')"
  shows "\<forall>e\<in>set evs. v_key V (cursor_from_event e)"
  using stream_key [OF assms(1) fetch_stream [OF assms(1), of pid c n evs]] assms(2) by simp

lemma eligible_subset: "set (eligible_batch_after_watermark b c wm n) \<subseteq> set b"
proof -
  have "set (eligible_prefix b c) \<subseteq> set b" by (induction b) auto
  then show ?thesis by (auto simp: eligible_batch_after_watermark_def Let_def)
qed

text \<open>One iteration of either pump, for the operation \<open>A\<close> that applies a page and the rest \<open>f\<close>.\<close>

lemma pump_own_step:
  assumes run: "(case rp_max_event_time R (pid (fst s)) (snd s) of
        (Inl e, w1) \<Rightarrow> Some (Inl e, (fst s, w1))
      | (Inr max_t, w1) \<Rightarrow>
        (case rp_fetch_after R (pid (fst s)) (cur (fst s)) fetch_after_page_limit w1 of
          (Inl e, w2) \<Rightarrow> Some (Inl e, (fst s, w2))
        | (Inr batch, w2) \<Rightarrow>
          (let eligible = eligible_batch_after_watermark batch (max_t - wm (fst s))
                 (wm (fst s)) fetch_after_page_limit
           in if batch = [] then Some (Inr (), (fst s, w2))
              else if eligible = [] then Some (Inr (), (fst s, w2))
              else case A eligible (fst s, w2) of
                  (Inl e, s') \<Rightarrow> Some (Inl e, s')
                | (Inr u, s') \<Rightarrow>
                  (if length eligible < length batch \<or> int (length batch) < fetch_after_page_limit
                   then Some (Inr (), s')
                   else f s')))) = Some y"
    and inv: "v_inv V (snd s)" and rec: "\<And>s' y. f s' = Some y \<Longrightarrow> v_inv V (snd s') \<Longrightarrow> own pid s' (snd y)"
    and app: "\<And>el pw w r s'. \<forall>e\<in>set el. v_key V (cursor_from_event e) \<Longrightarrow> A el (pw, w) = (r, s') \<Longrightarrow> own pid (pw, w) s'"
  shows "own pid s (snd y)"
proof -
  obtain pw w where s: "s = (pw, w)" by (cases s)
  obtain rm w1 where m: "rp_max_event_time R (pid pw) w = (rm, w1)" by (rule prod.exhaust)
  have v1: "same_views V w w1" using max_same [of w "pid pw"] m by simp
  obtain rf w2 where ft: "rp_fetch_after R (pid pw) (cur pw) fetch_after_page_limit w1 = (rf, w2)" by (rule prod.exhaust)
  have v2: "same_views V w w2" using same_views_trans [OF v1] fetch_same [of w1] ft by (metis snd_conv)
  have o: "own pid s (pw, w1)" "own pid s (pw, w2)" using v1 v2 by (simp_all add: s own_same)
  note run = run [unfolded s fst_conv snd_conv m prod.case ft]
  show ?thesis
  proof (cases rm)
    case (Inl e)
    then show ?thesis using run o by auto
  next
    case rm: (Inr max_t)
    show ?thesis
    proof (cases rf)
      case (Inl e)
      then show ?thesis using run rm o by auto
    next
      case rf: (Inr batch)
      define el where "el = eligible_batch_after_watermark batch (max_t - wm pw) (wm pw) fetch_after_page_limit"
      obtain ra sa where a: "A el (pw, w2) = (ra, sa)" by (rule prod.exhaust)
      have "v_inv V w1" using inv v1 by (simp add: s same_viewsD)
      from fetched_key [OF this] have "\<forall>e\<in>set batch. v_key V (cursor_from_event e)" using ft rf by blast
      then have "\<forall>e\<in>set el. v_key V (cursor_from_event e)" using eligible_subset unfolding el_def by blast
      then have oa: "own pid s sa" using own_trans [OF o(2) app [OF _ a]] by simp
      have ia: "v_inv V (snd sa)" using own_inv [OF oa inv] .
      note run = run [unfolded rm rf sum.case prod.case, folded el_def, unfolded Let_def a prod.case]
      show ?thesis using run o oa own_trans [OF oa rec [OF _ ia]] by (auto split: if_splits sum.splits)
    qed
  qed
qed

lemma pump_own:
  assumes "pump_after_cursor D J R s = Some (r, s')" and "v_inv V (snd s)"
  shows "own pw_pid s s'"
proof -
  have "D' = D \<longrightarrow> J' = J \<longrightarrow> R' = R \<longrightarrow> v_inv V (snd s) \<longrightarrow> own pw_pid s (snd y)"
    if "pump_after_cursor D' J' R' s = Some y" for D' J' s y and R' :: "('d, 'w) repo"
    by (rule pump_after_cursor.raw_induct [where P = "\<lambda>D' J' R' s y. D' = D \<longrightarrow> J' = J \<longrightarrow> R' = R \<longrightarrow>
        v_inv V (snd s) \<longrightarrow> own pw_pid s (snd y)", OF _ that], intro impI, hypsubst, rule pump_own_step)
      (assumption | blast | erule (1) apply_eligible_own [of "[]", simplified])+
  then show ?thesis using assms by fastforce
qed

lemma rebuild_own:
  assumes run: "rebuild D J R s = Some (r, s')" and inv: "v_inv V (snd s)"
  shows "own pw_pid s s'"
proof -
  obtain pw w where s: "s = (pw, w)" by (cases s)
  obtain rc w1 where c: "rp_load_projection_cursor R (pw_pid pw) w = (rc, w1)" by (rule prod.exhaust)
  have v1: "same_views V w w1" using cursor_same [of w "pw_pid pw"] c by simp
  obtain rs w2 where sn: "rp_load_latest_portfolio_snapshot R (pw_pid pw) w1 = (rs, w2)" by (rule prod.exhaust)
  have v2: "same_views V w w2" using same_views_trans [OF v1] snap_load_same [of w1 "pw_pid pw"] sn by simp
  obtain ra w3 where fa: "rp_fetch_all_for_portfolio R (pw_pid pw) w2 = (ra, w3)" by (rule prod.exhaust)
  have v3: "same_views V w w3" using same_views_trans [OF v2] fetch_all_same [of w2 "pw_pid pw"] fa by simp
  let ?p = "pw\<lparr>pw_agg := new_aggregate, pw_cur := zero_cursor\<rparr>"
  obtain rp w4 where lp: "rp_load_portfolio_positions R (pw_pid pw) (pw_pid_str pw) new_aggregate w2 = (rp, w4)" by (rule prod.exhaust)
  have v4: "same_views V w w4" using same_views_trans [OF v2] positions_same [of w2 "pw_pid pw"] lp by (metis snd_conv)
  have start: "own pw_pid (pw, w) (pw', w')" if "same_views V w w'" "pw_pid pw' = pw_pid pw" for pw' w'
    using that by (simp add: s own_same)
  have pump: "own pw_pid (pw, w) s'" if "pump_after_cursor D J R (pw', w') = Some (r, s')" "same_views V w w'" "pw_pid pw' = pw_pid pw" for pw' w'
    using own_trans [OF start [OF that(2,3)] pump_own [OF that(1)]] inv that(2) by (simp add: s same_viewsD)
  have all: "own pw_pid (pw, w) s'" if "apply_eligible D J R [] evs (?p, w3) = (r, s')" "ra = Inr evs" for evs
  proof -
    have "evs = v_stream V w2 (pw_pid pw)" using fetch_all [of "pw_pid pw" w2 evs] fa that(2) by simp
    then have "\<forall>e\<in>set ([] @ evs). v_key V (cursor_from_event e)"
      using stream_key [of w2 evs "pw_pid pw"] inv v2 by (simp add: s same_viewsD)
    from apply_eligible_own [OF this that(1)] show ?thesis by (rule own_trans [OF start [OF v3], rotated]) simp
  qed
  show ?thesis
    using run
    by (auto simp: rebuild_def s c sn fa lp Let_def split: sum.splits if_splits
        intro: start [OF v1] start [OF v3] start [OF v4] all pump [OF _ v2] pump [OF _ v4])
qed

section \<open>The price workers\<close>

lemma flush_price_own:
  assumes "\<forall>ev\<in>set evs. v_key V (cursor_from_event ev)" and "flush_price_batch R evs symbols s = (r, s')"
  shows "own pp_pid s s'"
proof (cases "evs = []")
  case True
  then show ?thesis using assms(2) by (simp add: flush_price_batch_def own_def)
next
  case False
  obtain pw w where s: "s = (pw, w)" by (cases s)
  show ?thesis
    using flush_price_cases [OF False assms(1) assms(2) [unfolded s]]
    by (auto simp: s own_def price_frame_def intro: touches_write)
qed

lemma price_dead_letter_own:
  assumes "v_key V (cursor_from_event ev)" and "price_dead_letter R ev reason cause s = (r, s')"
  shows "own pp_pid s s'"
proof -
  obtain pw w where s: "s = (pw, w)" by (cases s)
  show ?thesis
    using price_dead_letter_cases [OF assms(1) assms(2) [unfolded s]]
    by (auto simp: s own_def price_frame_def intro: touches_write)
qed

lemma flush_then_aside_own:
  assumes run: "andthen (flush_price_batch R okb symbols) (\<lambda>_. andthen (price_dead_letter R ev reason cause) (\<lambda>_. f)) s = (r, s')"
    and "\<forall>e\<in>set (ev # okb). v_key V (cursor_from_event e)" and "\<And>s2. f s2 = (r, s') \<Longrightarrow> own pp_pid s2 s'"
  shows "own pp_pid s s'"
proof -
  obtain r1 s1 where fl: "flush_price_batch R okb symbols s = (r1, s1)" by (rule prod.exhaust)
  obtain r2 s2 where dl: "price_dead_letter R ev reason cause s1 = (r2, s2)" by (rule prod.exhaust)
  have o1: "own pp_pid s s1" using flush_price_own [OF _ fl] assms(2) by simp
  have o2: "own pp_pid s s2" using own_trans [OF o1 price_dead_letter_own [OF _ dl]] assms(2) by simp
  have "own pp_pid s s'" if "f s2 = (r, s')" using own_trans [OF o2 assms(3) [OF that]] .
  then show ?thesis using run o1 o2 by (auto simp: andthen_def fl dl split: sum.splits)
qed

lemma apply_price_eligible_own:
  assumes "\<forall>e\<in>set (okb @ evs). v_key V (cursor_from_event e)" and "apply_price_eligible D J R okb symbols evs s = (r, s')"
  shows "own pp_pid s s'"
  using assms
proof (induction evs arbitrary: okb symbols s)
  case Nil
  then show ?case using flush_price_own [of okb symbols s r s'] by simp
next
  case (Cons ev evs)
  obtain pw w where s: "s = (pw, w)" by (cases s)
  obtain st w1 where st: "event_too_stale_for_apply R ev (pp_max_event_age pw) w = (st, w1)" by (rule prod.exhaust)
  have start: "own pp_pid s (pw, w1)"
    using price_stale_same [of w ev "pp_max_event_age pw"] st by (simp add: s own_same)
  have rest: "own pp_pid s2 s'" if "apply_price_eligible D J R [] [] evs s2 = (r, s')" for s2
    using Cons.IH [OF _ that] Cons.prems(1) by simp
  have k: "\<forall>e\<in>set (ev # okb). v_key V (cursor_from_event e)" using Cons.prems(1) by simp
  have aside: "own pp_pid (pw, w1) s'"
    if "andthen (flush_price_batch R okb symbols) (\<lambda>_. andthen (price_dead_letter R ev reason cause)
        (\<lambda>_. apply_price_eligible D J R [] [] evs)) (pw, w1) = (r, s')" for reason cause
    using flush_then_aside_own [OF that k rest] .
  have skip: "own pp_pid (pw, w1) s'" if "apply_price_eligible D J R okb symbols evs (pw, w1) = (r, s')"
    using Cons.IH [OF _ that] Cons.prems(1) by simp
  have take: "own pp_pid (pw, w1) s'" if "apply_price_eligible D J R (okb @ [ev]) symbols' evs (pw, w1) = (r, s')" for symbols'
    using Cons.IH [OF _ that] Cons.prems(1) by simp
  have "own pp_pid (pw, w1) s'"
    using Cons.prems(2)
    by (auto simp: s st split: if_splits option.splits intro: aside skip take)
  then show ?case by (rule own_trans [OF start])
qed

lemma price_pump_own:
  assumes "price_pump_after_cursor D J R s = Some (r, s')" and "v_inv V (snd s)"
  shows "own pp_pid s s'"
proof -
  have "D' = D \<longrightarrow> J' = J \<longrightarrow> R' = R \<longrightarrow> v_inv V (snd s) \<longrightarrow> own pp_pid s (snd y)"
    if "price_pump_after_cursor D' J' R' s = Some y" for D' J' s y and R' :: "('d, 'w) repo"
    by (rule price_pump_after_cursor.raw_induct [where P = "\<lambda>D' J' R' s y. D' = D \<longrightarrow> J' = J \<longrightarrow> R' = R \<longrightarrow>
        v_inv V (snd s) \<longrightarrow> own pp_pid s (snd y)", OF _ that], intro impI, hypsubst, rule pump_own_step)
      (assumption | blast | erule (1) apply_price_eligible_own [of "[]", simplified])+
  then show ?thesis using assms by fastforce
qed

lemma price_rebuild_own:
  assumes run: "price_rebuild D J R s = Some (r, s')" and inv: "v_inv V (snd s)"
  shows "own pp_pid s s'"
proof -
  obtain pw w where s: "s = (pw, w)" by (cases s)
  obtain rc w1 where c: "rp_load_projection_cursor R (pp_pid pw) w = (rc, w1)" by (rule prod.exhaust)
  have v1: "same_views V w w1" using cursor_same [of w "pp_pid pw"] c by simp
  obtain ra w2 where fa: "rp_fetch_all_for_portfolio R (pp_pid pw) w1 = (ra, w2)" by (rule prod.exhaust)
  have v2: "same_views V w w2" using same_views_trans [OF v1] fetch_all_same [of w1 "pp_pid pw"] fa by simp
  have start: "own pp_pid (pw, w) (pw\<lparr>pp_cur := c\<rparr>, w')" if "same_views V w w'" for w' c
    using that by (simp add: own_same)
  have all: "own pp_pid (pw, w) s'"
    if "apply_price_eligible D J R [] [] evs (pw\<lparr>pp_cur := zero_cursor\<rparr>, w2) = (r, s')" "ra = Inr evs" for evs
  proof -
    have "evs = v_stream V w1 (pp_pid pw)" using fetch_all [of "pp_pid pw" w1 evs] fa that(2) by simp
    then have "\<forall>e\<in>set ([] @ evs). v_key V (cursor_from_event e)"
      using stream_key [of w1 evs "pp_pid pw"] inv v1 by (simp add: s same_viewsD)
    from apply_price_eligible_own [OF this that(1)] show ?thesis by (rule own_trans [OF start [OF v2]])
  qed
  have pump: "own pp_pid (pw, w) s'" if "price_pump_after_cursor D J R (pw\<lparr>pp_cur := c\<rparr>, w1) = Some (r, s')" for c
    using own_trans [OF start [OF v1] price_pump_own [OF that]] inv v1 by (simp add: s same_viewsD)
  have same: "own pp_pid (pw, w) (pw, w1)" by (rule own_same [OF v1]) simp
  show ?thesis
    using run
    by (auto simp: price_rebuild_def s c fa split: sum.splits if_splits intro: same start [OF v2] all pump)
qed

section \<open>Ticks\<close>

text \<open>A tick for a partition touches it, and leaves the map of workers or replaces the worker of the partition.\<close>

definition ticked :: "('p \<Rightarrow> uuid) \<Rightarrow> uuid \<Rightarrow> (uuid \<times> 'p) list \<times> 'w \<Rightarrow> (uuid \<times> 'p) list \<times> 'w \<Rightarrow> bool" where
  "ticked pid p s s' \<longleftrightarrow> touches {p} (snd s) (snd s') \<and>
     (fst s' = fst s \<or> (\<exists>pw. pid pw = p \<and> fst s' = AList.update p pw (fst s)))"

lemma ticked_workers: "ticked pid p s s' \<Longrightarrow> p \<in> S \<Longrightarrow> workers_ok S pid (fst s) \<Longrightarrow> workers_ok S pid (fst s')"
  by (auto simp: ticked_def workers_ok_def update_conv' split: if_splits)

lemma ticked_touches: "ticked pid p s s' \<Longrightarrow> p \<in> S \<Longrightarrow> touches S (snd s) (snd s')"
  by (auto simp: ticked_def intro: touches_mono)

lemma own_ticked: "own pid (pw, w) (pw', w') \<Longrightarrow> pid pw = p \<Longrightarrow> ticked pid p (m, w) (AList.update p pw' m, w')"
  by (auto simp: own_def ticked_def)

lemma own_discarded: "own pid (pw, w) (pw', w') \<Longrightarrow> pid pw = p \<Longrightarrow> ticked pid p (m, w) (m, w')"
  by (simp add: own_def ticked_def)

lemma tick_known_ticked:
  assumes "tick_known D J R p pw s = Some (r, s')" and "pw_pid pw = p" and "v_inv V (snd s)"
  shows "ticked pw_pid p s s'"
proof -
  obtain m w where s: "s = (m, w)" by (cases s)
  obtain r1 pw' w' where t: "pump_after_cursor D J R (pw, w) = Some (r1, (pw', w'))" "s' = (AList.update p pw' m, w')"
    using assms(1) by (auto simp: tick_known_def process_incremental_def s split: option.splits)
  show ?thesis using own_ticked [OF pump_own [OF t(1)] assms(2)] assms(3) by (simp add: s t(2))
qed

lemma tick_new_ticked:
  assumes "tick_new D J U R wk p s = Some (r, s')" and inv: "v_inv V (snd s)"
  shows "ticked pw_pid p s s'"
proof -
  obtain m w where s: "s = (m, w)" by (cases s)
  obtain pw w1 where n: "new_partition_worker R U (wk_watermark wk) (wk_max_event_age wk) p
      (wk_snapshot_min_events wk) (wk_snapshot_min_interval wk) w = (pw, w1)" by (rule prod.exhaust)
  have pw: "pw_pid pw = p" and v1: "same_views V w w1"
    using n now_same [of w] by (auto simp: new_partition_worker_def split: prod.splits)
  let ?pw = "pw\<lparr>pw_risk_scheduler := wk_risk_scheduler wk\<rparr>"
  have i1: "v_inv V w1" using inv v1 by (simp add: s same_viewsD)
  obtain r1 pw' w2 where rb: "rebuild D J R (?pw, w1) = Some (r1, (pw', w2))"
    using assms(1) by (auto simp: tick_new_def s n split: option.splits)
  have o: "own pw_pid (?pw, w) (pw', w2)"
    by (rule own_trans [OF own_same [OF v1] rebuild_own [OF rb]]) (simp_all add: i1)
  then have t: "touches {p} w w2" and pid: "pw_pid pw' = p" using pw by (simp_all add: own_def)
  show ?thesis
  proof (cases r1)
    case (Inl e)
    then have "s' = (m, w2)" using assms(1) by (simp add: tick_new_def s n rb)
    then show ?thesis using own_discarded [OF o] pw by (simp add: s)
  next
    case (Inr u)
    then have k: "tick_known D J R p pw' (m, w2) = Some (r, s')" using assms(1) by (simp add: tick_new_def s n rb)
    have "v_inv V w2" using t inv by (simp add: s touches_def)
    then have "ticked pw_pid p (m, w2) s'" using tick_known_ticked [OF k pid] by simp
    then show ?thesis using t touches_trans by (auto simp: s ticked_def)
  qed
qed

lemma tick_portfolios_keeps:
  assumes "tick_portfolios D J U R wk k ids s = Some (r, s')" and "v_inv V (snd s)" and "workers_ok S pw_pid (fst s)"
    and "\<forall>p\<in>set ids. worker_shard_for p (wk_shard_count wk) = k \<longrightarrow> p \<in> S"
  shows "touches S (snd s) (snd s') \<and> workers_ok S pw_pid (fst s')"
  using assms
proof (induction ids arbitrary: s)
  case (Cons p ids)
  show ?case
  proof (cases "worker_shard_for p (wk_shard_count wk) = k")
    case False
    then show ?thesis using Cons by simp
  next
    case True
    then have pS: "p \<in> S" using Cons.prems(4) by simp
    obtain r1 s1 where t: "(case map_of (fst s) p of None \<Rightarrow> tick_new D J U R wk p s | Some pw \<Rightarrow> tick_known D J R p pw s) = Some (r1, s1)"
      and rest: "case r1 of Inl e \<Rightarrow> s' = s1 | Inr u \<Rightarrow> tick_portfolios D J U R wk k ids s1 = Some (r, s')"
      using Cons.prems(1) True by (auto split: option.splits sum.splits)
    have tk: "ticked pw_pid p s s1"
      using t Cons.prems(2,3) tick_new_ticked tick_known_ticked by (auto simp: workers_ok_def split: option.splits)
    have w1: "touches S (snd s) (snd s1)" "workers_ok S pw_pid (fst s1)"
      using ticked_touches [OF tk pS] ticked_workers [OF tk pS Cons.prems(3)] by simp_all
    have i1: "v_inv V (snd s1)" using w1(1) Cons.prems(2) by (simp add: touches_def)
    show ?thesis
    proof (cases r1)
      case (Inl e)
      then show ?thesis using rest w1 by simp
    next
      case (Inr u)
      then have "touches S (snd s1) (snd s') \<and> workers_ok S pw_pid (fst s')"
        using Cons.IH [OF _ i1 w1(2)] rest Cons.prems(4) by simp
      then show ?thesis using touches_trans [OF w1(1)] by blast
    qed
  qed
qed simp

lemma shard_tick_keeps:
  assumes "shard_tick D J U R wk k s = Some (r, s')" and "v_inv V (snd s)" and "workers_ok S pw_pid (fst s)"
    and "\<And>p. p \<notin> set (wk_exclude_price_partitions wk) \<Longrightarrow> worker_shard_for p (wk_shard_count wk) = k \<Longrightarrow> p \<in> S"
  shows "touches S (snd s) (snd s') \<and> workers_ok S pw_pid (fst s')"
proof -
  obtain m w where s: "s = (m, w)" by (cases s)
  obtain ri w1 where l: "rp_list_portfolio_ids_not_in R (wk_exclude_price_partitions wk) w = (ri, w1)" by (rule prod.exhaust)
  have v1: "same_views V w w1" using ids_same [of w "wk_exclude_price_partitions wk"] l by simp
  show ?thesis
  proof (cases ri)
    case (Inl e)
    then show ?thesis using assms(1,3) l v1 by (auto simp: shard_tick_def s touches_same)
  next
    case (Inr ids)
    then have run: "tick_portfolios D J U R wk k ids (m, w1) = Some (r, s')" using assms(1) l by (simp add: shard_tick_def s)
    have "set ids \<inter> set (wk_exclude_price_partitions wk) = {}" using ids_not_in [of "wk_exclude_price_partitions wk" w ids] l Inr by simp
    then have "\<forall>p\<in>set ids. worker_shard_for p (wk_shard_count wk) = k \<longrightarrow> p \<in> S" using assms(4) by blast
    with run have "touches S w1 (snd s') \<and> workers_ok S pw_pid (fst s')"
      using tick_portfolios_keeps [of U wk k ids "(m, w1)" r s' S] assms(2,3) v1 by (simp add: s same_viewsD)
    then show ?thesis using touches_trans [OF touches_same [OF v1]] by (auto simp: s)
  qed
qed

lemma price_tick_known_ticked:
  assumes "price_tick_known D J R p pw s = Some (r, s')" and "pp_pid pw = p" and "v_inv V (snd s)"
  shows "ticked pp_pid p s s'"
proof -
  obtain m w where s: "s = (m, w)" by (cases s)
  obtain r1 pw' w' where t: "price_pump_after_cursor D J R (pw, w) = Some (r1, (pw', w'))" "s' = (AList.update p pw' m, w')"
    using assms(1) by (auto simp: price_tick_known_def s split: option.splits)
  show ?thesis using own_ticked [OF price_pump_own [OF t(1)] assms(2)] assms(3) by (simp add: s t(2))
qed

lemma price_tick_new_ticked:
  assumes "price_tick_new D J U R pl p s = Some (r, s')" and inv: "v_inv V (snd s)"
  shows "ticked pp_pid p s s'"
proof -
  obtain m w where s: "s = (m, w)" by (cases s)
  let ?pw = "(new_price_partition_worker U (pl_watermark pl) (pl_max_event_age pl) p)\<lparr>pp_risk_scheduler := pl_risk_scheduler pl\<rparr>"
  have pw: "pp_pid ?pw = p" by (simp add: new_price_partition_worker_def)
  obtain r1 pw' w2 where rb: "price_rebuild D J R (?pw, w) = Some (r1, (pw', w2))"
    using assms(1) by (auto simp: price_tick_new_def s split: option.splits)
  have o: "own pp_pid (?pw, w) (pw', w2)" using price_rebuild_own [OF rb] inv by (simp add: s)
  then have t: "touches {p} w w2" and pid: "pp_pid pw' = p" using pw by (simp_all add: own_def)
  show ?thesis
  proof (cases r1)
    case (Inl e)
    then have "s' = (m, w2)" using assms(1) by (simp add: price_tick_new_def s rb)
    then show ?thesis using own_discarded [OF o pw] by (simp add: s)
  next
    case (Inr u)
    then have k: "price_tick_known D J R p pw' (m, w2) = Some (r, s')" using assms(1) by (simp add: price_tick_new_def s rb)
    have "v_inv V w2" using t inv by (simp add: s touches_def)
    then have "ticked pp_pid p (m, w2) s'" using price_tick_known_ticked [OF k pid] by simp
    then show ?thesis using t touches_trans by (auto simp: s ticked_def)
  qed
qed

lemma price_tick_partitions_keeps:
  assumes "price_tick_partitions D J U R pl k ids s = Some (r, s')" and "v_inv V (snd s)" and "workers_ok S pp_pid (fst s)"
    and "\<forall>p\<in>set ids. worker_shard_for p (pl_worker_count pl) = k \<longrightarrow> p \<in> S"
  shows "touches S (snd s) (snd s') \<and> workers_ok S pp_pid (fst s')"
  using assms
proof (induction ids arbitrary: s)
  case (Cons p ids)
  show ?case
  proof (cases "worker_shard_for p (pl_worker_count pl) = k")
    case False
    then show ?thesis using Cons by simp
  next
    case True
    then have pS: "p \<in> S" using Cons.prems(4) by simp
    obtain r1 s1 where t: "(case map_of (fst s) p of None \<Rightarrow> price_tick_new D J U R pl p s
        | Some pw \<Rightarrow> price_tick_known D J R p pw s) = Some (r1, s1)"
      and rest: "case r1 of Inl e \<Rightarrow> s' = s1 | Inr u \<Rightarrow> price_tick_partitions D J U R pl k ids s1 = Some (r, s')"
      using Cons.prems(1) True by (auto split: option.splits sum.splits)
    have tk: "ticked pp_pid p s s1"
      using t Cons.prems(2,3) price_tick_new_ticked price_tick_known_ticked by (auto simp: workers_ok_def split: option.splits)
    have w1: "touches S (snd s) (snd s1)" "workers_ok S pp_pid (fst s1)"
      using ticked_touches [OF tk pS] ticked_workers [OF tk pS Cons.prems(3)] by simp_all
    have i1: "v_inv V (snd s1)" using w1(1) Cons.prems(2) by (simp add: touches_def)
    show ?thesis
    proof (cases r1)
      case (Inl e)
      then show ?thesis using rest w1 by simp
    next
      case (Inr u)
      then have "touches S (snd s1) (snd s') \<and> workers_ok S pp_pid (fst s')"
        using Cons.IH [OF _ i1 w1(2)] rest Cons.prems(4) by simp
      then show ?thesis using touches_trans [OF w1(1)] by blast
    qed
  qed
qed simp

section \<open>Runs\<close>

lemma run_pools_keeps:
  assumes "run_pools D J U R wk pl steps s = Some (r, s')" and "pools_ok wk pl s" and "v_inv V (snd (snd s))"
    and ex: "set (wk_exclude_price_partitions wk) = set (pl_partitions pl)"
  shows "pools_ok wk pl s' \<and> touches {pid. owner_shard wk pl pid \<in> set steps} (snd (snd s)) (snd (snd s'))"
  using assms(1-3)
proof (induction steps arbitrary: s)
  case (Cons step steps)
  let ?T = "{pid. owner_shard wk pl pid \<in> set (step # steps)}" and ?S = "{pid. owner_shard wk pl pid = step}"
  obtain m q w where s: "s = (m, q, w)" by (cases s)
  have iw: "v_inv V w" using Cons.prems(3) by (simp add: s)
  have step: "\<exists>(r1 :: unit res) s1. pools_ok wk pl s1 \<and> touches ?S w (snd (snd s1)) \<and>
      (case r1 of Inl e \<Rightarrow> s' = s1 | Inr u \<Rightarrow> run_pools D J U R wk pl steps s1 = Some (r, s'))"
  proof (cases step)
    case (TradeShard k)
    obtain r1 mk w1 where t: "shard_tick D J U R wk k (m k, w) = Some (r1, (mk, w1))"
      using Cons.prems(1) by (auto simp: s TradeShard trade_turn_def split: option.splits)
    have a: "touches ?S w w1 \<and> workers_ok ?S pw_pid mk"
      using shard_tick_keeps [OF t, of ?S] iw Cons.prems(2) ex by (auto simp: s pools_ok_def owner_shard_def TradeShard)
    have b: "case r1 of Inl e \<Rightarrow> s' = (m(k := mk), q, w1)
        | Inr u \<Rightarrow> run_pools D J U R wk pl steps (m(k := mk), q, w1) = Some (r, s')"
      using Cons.prems(1) t by (auto simp: s TradeShard trade_turn_def split: sum.splits)
    show ?thesis
      by (rule exI [of _ r1], rule exI [of _ "(m(k := mk), q, w1)"]) (use a b Cons.prems(2) in \<open>simp add: s pools_ok_def TradeShard\<close>)
  next
    case (PriceShard k)
    obtain r1 qk w1 where t: "price_shard_tick D J U R pl k (q k, w) = Some (r1, (qk, w1))"
      using Cons.prems(1) by (auto simp: s PriceShard price_turn_def split: option.splits)
    have a: "touches ?S w w1 \<and> workers_ok ?S pp_pid qk"
      using price_tick_partitions_keeps [OF t [unfolded price_shard_tick_def], of ?S] iw Cons.prems(2)
      by (auto simp: s pools_ok_def owner_shard_def PriceShard)
    have b: "case r1 of Inl e \<Rightarrow> s' = (m, q(k := qk), w1)
        | Inr u \<Rightarrow> run_pools D J U R wk pl steps (m, q(k := qk), w1) = Some (r, s')"
      using Cons.prems(1) t by (auto simp: s PriceShard price_turn_def split: sum.splits)
    show ?thesis
      by (rule exI [of _ r1], rule exI [of _ "(m, q(k := qk), w1)"]) (use a b Cons.prems(2) in \<open>simp add: s pools_ok_def PriceShard\<close>)
  qed
  then obtain r1 :: "unit res" and s1 where s1: "pools_ok wk pl s1" "touches ?S w (snd (snd s1))"
    "case r1 of Inl e \<Rightarrow> s' = s1 | Inr u \<Rightarrow> run_pools D J U R wk pl steps s1 = Some (r, s')" by blast
  have t1: "touches ?T w (snd (snd s1))" by (rule touches_mono [OF s1(2)]) auto
  show ?case
  proof (cases r1)
    case (Inl e)
    then show ?thesis using s1 t1 by (simp add: s)
  next
    case (Inr u)
    have "v_inv V (snd (snd s1))" using t1 iw by (simp add: touches_def)
    then have ih: "pools_ok wk pl s' \<and> touches {pid. owner_shard wk pl pid \<in> set steps} (snd (snd s1)) (snd (snd s'))"
      using Cons.IH [OF _ s1(1)] s1(3) Inr by simp
    then have "touches ?T (snd (snd s1)) (snd (snd s'))" by (auto intro: touches_mono)
    then show ?thesis using touches_trans [OF t1] ih by (simp add: s)
  qed
qed simp

end

section \<open>On the tables\<close>

lemma pool_store:
  assumes "pg_laws D val P"
  shows "pool_repository D val J (postgres_repo D J U P) (postgres_views U P) (\<lambda>w. marks_at (w_db w))"
proof (intro pool_repository.intro [OF pg_laws.price_store [OF assms]] pool_repository_axioms.intro, goal_cases)
  case (1 w pid c n evs)
  let ?k = "nat (if n \<le> 0 then 100 else n)"
  have r: "fst (fetch_after U P pid c n w) = Inr evs" using 1(2) by simp
  show ?case
  proof (cases "cursor_is_zero c")
    case True
    then have "fst (db_query ''query events'' (\<lambda>now d. Inr (take ?k (stream_of U d pid))) w) = Inr evs"
      using r by (simp add: fetch_after_def Let_def)
    from db_query_result [OF this] show ?thesis by (auto dest: in_set_takeD)
  next
    case False
    let ?Q = "\<lambda>r. er_event_time r > pg_time P (cur_time c) \<or> er_event_time r = pg_time P (cur_time c) \<and> er_event_id r > cur_id c"
    have "fst (db_query ''query events'' (\<lambda>now d. Inr (map (scan_event_row U) (take ?k (sort_key row_cursor
        (filter (\<lambda>r. er_portfolio_id r = pid \<and> ?Q r) (db_events d)))))) w) = Inr evs"
      using r False by (simp add: fetch_after_def Let_def)
    from db_query_result [OF this] show ?thesis by (auto simp: set_stream_of intro!: imageI dest!: in_set_takeD)
  qed
next
  case (2 ex w ids)
  have r: "fst (list_portfolio_ids_not_in ex w) = Inr ids" using 2 by simp
  show ?case
  proof (cases "ex = []")
    case False
    then have "fst (db_query ''list portfolios not in exclude set'' (\<lambda>now d.
        Inr (remdups (map er_portfolio_id (filter (\<lambda>r. er_portfolio_id r \<notin> set ex) (db_events d))))) w) = Inr ids"
      using r by (simp add: list_portfolio_ids_not_in_def)
    from db_query_result [OF this] show ?thesis by auto
  qed simp
qed

interpretation refpools: pool_repository ref_dec rval ref_json
  "postgres_repo ref_dec ref_json ref_uuid ref_pg" "postgres_views ref_uuid ref_pg" "\<lambda>w. marks_at (w_db w)"
  by (rule pool_store [OF refp.pg_laws_axioms])

lemma touches_elsewhere:
  assumes "pg_laws D val P" and "pool_repository.touches (postgres_views U P) S w w'" and "pid \<notin> S"
  shows "elsewhere U P pid w w'"
  using assms(2,3) pool_repository.touches_def [OF pool_store [OF assms(1)], of U S w w']
  by (simp add: elsewhere_def dead_of_def)

lemma new_pools_ok: "pools_ok wk pl (new_pools w)"
  by (simp add: pools_ok_def new_pools_def workers_ok_def)

text \<open>
  (C4) Every partition has one writer. Take both pools in any state in which each worker sits in the
  shard of its partition, as it is when they start, and let any sequence of shards take their turns,
  whatever calls of the database fail. The workers stay in the shards of their partitions, so that no partition has two, in one
  pool or in both; and for a partition whose own shard had no turn, the events, the cursor, the
  position rows and the dead letters are untouched, a price partition being one for the trade shards as well.
\<close>

theorem pools_single_writer:
  assumes "pg_laws D val P" and "run_pools D J U (postgres_repo D J U P) wk pl steps s = Some (r, s')"
    and "pools_ok wk pl s" and "store_inv P (w_db (snd (snd s)))"
    and "set (wk_exclude_price_partitions wk) = set (pl_partitions pl)"
  shows "pools_ok wk pl s' \<and> store_inv P (w_db (snd (snd s'))) \<and>
    (\<forall>pid. owner_shard wk pl pid \<notin> set steps \<longrightarrow> elsewhere U P pid (snd (snd s)) (snd (snd s')))"
proof -
  note p = pool_store [OF assms(1), of J U]
  have "v_inv (postgres_views U P) (snd (snd s))" using assms(4) by simp
  from pool_repository.run_pools_keeps [OF p assms(2,3) this assms(5)]
  have k: "pools_ok wk pl s'"
    "pool_repository.touches (postgres_views U P) {pid. owner_shard wk pl pid \<in> set steps} (snd (snd s)) (snd (snd s'))"
    by simp_all
  have "store_inv P (w_db (snd (snd s')))"
    using k(2) assms(4) by (simp add: pool_repository.touches_def [OF p])
  then show ?thesis using k(1) touches_elsewhere [OF assms(1) k(2)] by simp
qed

text \<open>
  The pools of a small server: one trade shard, one price shard, the price partition 9. The turn of
  the trade shard leaves the price event of partition 9 to the price shard.
\<close>

definition sample_trade_pool :: trade_pool where
  "sample_trade_pool = new_worker 0 0 0 1 [9]"

definition sample_price_pool :: price_pool where
  "sample_price_pool = \<lparr>pl_tick = 0, pl_watermark = 0, pl_max_event_age = 0, pl_worker_count = 1, pl_partitions = [9],
     pl_risk_scheduler = True\<rparr>"

definition sample_pool_world :: world where
  "sample_pool_world = sample_world (empty_db\<lparr>db_events := [sample_row, sample_price_row 2 2000000 6]\<rparr>) []"

lemma sample_pool_inv: "store_inv ref_pg (w_db sample_pool_world)"
  by (simp add: sample_pool_world_def sample_world_def store_inv_def sample_row_def sample_price_row_def empty_db_def
      ref_pg_def uuid_nil_def event_key_def)

lemma one_shard: "owner_shard sample_trade_pool sample_price_pool pid = (if pid = 9 then PriceShard 0 else TradeShard 0)"
  by (simp add: owner_shard_def sample_trade_pool_def sample_price_pool_def worker_shard_for_def new_worker_def)

lemma sample_calls:
  "list_portfolio_ids_not_in [9] sample_pool_world = (Inr [7], sample_pool_world)"
  "read_clock sample_pool_world = (0, sample_pool_world)"
  "load_projection_cursor 7 sample_pool_world = (Inr zero_cursor, sample_pool_world)"
  "load_latest_portfolio_snapshot D U 7 sample_pool_world = (Inr no_snapshot, sample_pool_world)"
  "fetch_all_for_portfolio U 7 sample_pool_world = (Inr (stream_of U (w_db sample_pool_world) 7), sample_pool_world)"
  by (simp_all add: sample_pool_world_def sample_world_def list_portfolio_ids_not_in_def db_query_def next_call_def read_clock_def
      load_projection_cursor_def load_latest_portfolio_snapshot_def newest_snapshot_def fetch_all_for_portfolio_def empty_db_def sample_row_def
      sample_price_row_def)

lemma shard_tick_returns:
  "\<exists>r s. shard_tick ref_dec ref_json ref_uuid (postgres_repo ref_dec ref_json ref_uuid ref_pg) sample_trade_pool 0
    ([], sample_pool_world) = Some (r, s)"
proof -
  let ?R = "postgres_repo ref_dec ref_json ref_uuid ref_pg" and ?w = sample_pool_world and ?wk = sample_trade_pool
  have wk: "wk_exclude_price_partitions ?wk = [9]" "worker_shard_for 7 (wk_shard_count ?wk) = 0"
    by (simp_all add: sample_trade_pool_def new_worker_def worker_shard_for_def)
  obtain pw where n: "new_partition_worker ?R ref_uuid (wk_watermark ?wk) (wk_max_event_age ?wk) 7 (wk_snapshot_min_events ?wk)
      (wk_snapshot_min_interval ?wk) ?w = (pw, ?w)" and pid: "pw_pid pw = 7"
    by (simp add: new_partition_worker_def sample_calls)
  let ?p = "pw\<lparr>pw_risk_scheduler := wk_risk_scheduler ?wk, pw_agg := new_aggregate, pw_cur := zero_cursor\<rparr>"
  let ?evs = "stream_of ref_uuid (w_db ?w) 7"
  obtain r1 pw1 w1 where a: "apply_eligible ref_dec ref_json ?R [] ?evs (?p, ?w) = (r1, (pw1, w1))" by (metis prod.exhaust)
  have rb: "rebuild ref_dec ref_json ?R (pw\<lparr>pw_risk_scheduler := wk_risk_scheduler ?wk\<rparr>, ?w) = Some (r1, (pw1, w1))"
    using a by (simp add: rebuild_def sample_calls pid use_snapshot_def no_snapshot_def)
  have k: "\<forall>e\<in>set ([] @ ?evs). v_key (postgres_views ref_uuid ref_pg) (cursor_from_event e)"
    using refpools.stream_key [of ?w ?evs 7] sample_pool_inv by simp
  note f = refstore.apply_eligible_frame [OF k a]
  have "\<exists>y. tick_known ref_dec ref_json ?R 7 pw1 ([], w1) = Some y" if "r1 = Inr ()"
  proof -
    have "v_inv (postgres_views ref_uuid ref_pg) w1"
      using refstore.worker_frameD(6) [of "(?p, ?w)" "(pw1, w1)"] f sample_pool_inv by simp
    moreover have "v_key (postgres_views ref_uuid ref_pg) (pw_cur pw1)"
      using f k that refp.time_zero by (auto simp: zero_cursor_def split: if_splits)
    ultimately show ?thesis
      using refstore.pump_terminates [of w1 pw1] by (auto simp: tick_known_def process_incremental_def)
  qed
  then have "\<exists>y. tick_new ref_dec ref_json ref_uuid ?R ?wk 7 ([], ?w) = Some y"
    by (cases r1) (auto simp: tick_new_def n rb)
  then show ?thesis
    by (auto simp: shard_tick_def wk sample_calls split: sum.splits)
qed

theorem pools_single_writer_witness:
  "\<exists>r m q w. run_pools ref_dec ref_json ref_uuid (postgres_repo ref_dec ref_json ref_uuid ref_pg) sample_trade_pool
      sample_price_pool [TradeShard 0] (new_pools sample_pool_world) = Some (r, (m, q, w)) \<and>
    pools_ok sample_trade_pool sample_price_pool (m, q, w) \<and> elsewhere ref_uuid ref_pg 9 sample_pool_world w \<and> (\<forall>k. q k = [])"
proof -
  let ?run = "run_pools ref_dec ref_json ref_uuid (postgres_repo ref_dec ref_json ref_uuid ref_pg) sample_trade_pool
      sample_price_pool [TradeShard 0] (new_pools sample_pool_world)"
  obtain r mk w where t: "shard_tick ref_dec ref_json ref_uuid (postgres_repo ref_dec ref_json ref_uuid ref_pg)
      sample_trade_pool 0 ([], sample_pool_world) = Some (r, (mk, w))"
    using shard_tick_returns by auto
  have run: "?run = Some (r, ((\<lambda>_. [])(0 := mk), \<lambda>_. [], w))"
    by (cases r) (simp_all add: trade_turn_def new_pools_def t)
  have "pools_ok sample_trade_pool sample_price_pool ((\<lambda>_. [])(0 := mk), \<lambda>_. [], w) \<and>
      elsewhere ref_uuid ref_pg 9 sample_pool_world w"
    using pools_single_writer [OF refp.pg_laws_axioms run new_pools_ok] sample_pool_inv one_shard [of 9]
    by (simp add: new_pools_def sample_trade_pool_def sample_price_pool_def new_worker_def)
  then show ?thesis using run by blast
qed

end
