(* ===== verification/Portfolio_Api.thy ===== *)
theory Portfolio_Api
  imports Api_Ingest Scenario Risk_Engine Price_Store
begin

text \<open>
  The portfolio endpoints of \<^verbatim>\<open>internal/api\<close>: the catalog (\<^verbatim>\<open>portfolio_catalog_handler.go\<close>), the
  shared read path (\<^verbatim>\<open>portfolio_read_path.go\<close>), risk (\<^verbatim>\<open>risk_build.go\<close>, \<^verbatim>\<open>risk_handler.go\<close>) and
  scenarios (\<^verbatim>\<open>scenario_handler.go\<close>, \<^verbatim>\<open>scenario_http.go\<close>). A handler answers with an error response or
  the value it writes as JSON with the status of success; the writing is left out, and so is logging.
  The store is given by the programs the handler calls, the ownership check is optional as in the code.
\<close>

section \<open>The catalog\<close>

record create_portfolio_request =
  cp_name :: string
  cp_base_currency :: string

definition assign_create_field :: "string \<Rightarrow> json \<Rightarrow> create_portfolio_request \<Rightarrow> create_portfolio_request option" where
  "assign_create_field f j r =
     (if f = ''name'' then map_option (\<lambda>v. r\<lparr>cp_name := v\<rparr>) (decode_string j (cp_name r))
      else map_option (\<lambda>v. r\<lparr>cp_base_currency := v\<rparr>) (decode_string j (cp_base_currency r)))"

definition bind_create_portfolio :: "raw_message \<Rightarrow> create_portfolio_request option" where
  "bind_create_portfolio body =
     (case bind_body [''name'', ''base_currency''] assign_create_field body \<lparr>cp_name = [], cp_base_currency = []\<rparr> of
        None \<Rightarrow> None
      | Some r \<Rightarrow> (if cp_name r = [] then None else Some r))"

record portfolio_catalog_response =
  cr_portfolio_id :: string
  cr_name :: string
  cr_base_currency :: string
  cr_created_at :: time
  cr_updated_at :: time

definition to_portfolio_catalog_response :: "uuid_api \<Rightarrow> portfolio_catalog_entry \<Rightarrow> portfolio_catalog_response" where
  "to_portfolio_catalog_response U e = \<lparr>cr_portfolio_id = uuid_str U (pe_portfolio_id e), cr_name = pe_name e,
     cr_base_currency = pe_base_currency e, cr_created_at = pe_created_at e, cr_updated_at = pe_updated_at e\<rparr>"

definition unreserved :: "uuid_api \<Rightarrow> uuid list \<Rightarrow> portfolio_catalog_entry list \<Rightarrow> portfolio_catalog_response list" where
  "unreserved U partitions rows =
     map (to_portfolio_catalog_response U) (filter (\<lambda>r. pe_portfolio_id r \<notin> set partitions) rows)"

text \<open>The list of all portfolios is read first in either case; with a user its result is dropped.\<close>

definition list_portfolios_handler ::
  "uuid_api \<Rightarrow> ('w, portfolio_catalog_entry list) prog \<Rightarrow> (uuid \<Rightarrow> ('w, portfolio_catalog_entry list) prog) \<Rightarrow>
   uuid list \<Rightarrow> string \<Rightarrow> uuid option \<Rightarrow> 'w \<Rightarrow> (http_response + portfolio_catalog_response list) \<times> 'w" where
  "list_portfolios_handler U list_every list_by_owner partitions rid user w =
     (case list_every w of (rows, w1) \<Rightarrow>
       (case (case user of None \<Rightarrow> (rows, w1) | Some u \<Rightarrow> list_by_owner u w1) of
          (Inl e, w2) \<Rightarrow> (Inl (internal_error rid), w2)
        | (Inr rs, w2) \<Rightarrow> (Inr (unreserved U partitions rs), w2)))"

text \<open>A new id is drawn until it is none of the price partitions.\<close>

partial_function (option) draw_portfolio_id ::
  "('w \<Rightarrow> uuid \<times> 'w) \<Rightarrow> uuid list \<Rightarrow> 'w \<Rightarrow> (uuid \<times> 'w) option" where
  "draw_portfolio_id new partitions w =
     (case new w of (i, w1) \<Rightarrow> if i \<in> set partitions then draw_portfolio_id new partitions w1 else Some (i, w1))"

definition create_portfolio_handler ::
  "uuid_api \<Rightarrow> case_api \<Rightarrow> ('w \<Rightarrow> uuid \<times> 'w) \<Rightarrow> (uuid \<Rightarrow> string \<Rightarrow> string \<Rightarrow> ('w, portfolio_catalog_entry) prog) \<Rightarrow>
   (uuid \<Rightarrow> uuid \<Rightarrow> string \<Rightarrow> string \<Rightarrow> ('w, portfolio_catalog_entry) prog) \<Rightarrow> uuid list \<Rightarrow> string \<Rightarrow> uuid option \<Rightarrow>
   raw_message \<Rightarrow> 'w \<Rightarrow> ((http_response + portfolio_catalog_response) \<times> 'w) option" where
  "create_portfolio_handler U N new create create_for partitions rid user body w =
     (case bind_create_portfolio body of
        None \<Rightarrow> Some (Inl (validation_failed rid ''invalid request body including JSON shape''), w)
      | Some req \<Rightarrow>
        (let name = trim_space (cp_name req); ccy = to_upper N (trim_space (cp_base_currency req))
         in if name = [] then Some (Inl (validation_failed rid ''name is required''), w)
            else let ccy = (if ccy = [] then ''USD'' else ccy)
            in map_option (\<lambda>(pid, w1).
                 case (case user of Some u \<Rightarrow> create_for u pid name ccy w1 | None \<Rightarrow> create pid name ccy w1) of
                   (Inl e, w2) \<Rightarrow> (Inl (internal_error rid), w2)
                 | (Inr row, w2) \<Rightarrow> (Inr (to_portfolio_catalog_response U row), w2))
               (draw_portfolio_id new partitions w)))"

section \<open>The read path\<close>

record 'd portfolio_base_state =
  bs_portfolio_id :: uuid
  bs_input :: "'d portfolio_assembler_input"
  bs_view :: portfolio_view

definition validate_portfolio_path_id :: "uuid_api \<Rightarrow> uuid list \<Rightarrow> string \<Rightarrow> string \<Rightarrow> http_response + uuid" where
  "validate_portfolio_path_id U partitions rid raw_id =
     (case uuid_parse U raw_id of
        None \<Rightarrow> Inl (validation_failed rid ''portfolio id must be a UUID'')
      | Some pid \<Rightarrow>
        (if pid \<in> set partitions
         then Inl (validation_failed rid ''portfolio id is reserved for market price stream partitions'')
         else Inr pid))"

definition load_portfolio_base_state ::
  "'d decimal_api \<Rightarrow> uuid_api \<Rightarrow> (uuid \<Rightarrow> ('w, 'd portfolio_assembler_input option) prog) \<Rightarrow>
   (uuid \<Rightarrow> uuid \<Rightarrow> ('w, bool) prog) option \<Rightarrow> uuid list \<Rightarrow> string \<Rightarrow> uuid option \<Rightarrow> string \<Rightarrow> 'w \<Rightarrow>
   (http_response + 'd portfolio_base_state) \<times> 'w" where
  "load_portfolio_base_state D U load checker partitions rid user raw_id w =
     (case validate_portfolio_path_id U partitions rid raw_id of
        Inl r \<Rightarrow> (Inl r, w)
      | Inr pid \<Rightarrow> (case trade_access rid checker user pid w of
          (Some r, w1) \<Rightarrow> (Inl r, w1)
        | (None, w1) \<Rightarrow> (case load pid w1 of
            (Inl e, w2) \<Rightarrow> (Inl (internal_error rid), w2)
          | (Inr None, w2) \<Rightarrow> (Inl (api_error rid 404 err_code_not_found ''portfolio not found''), w2)
          | (Inr (Some input), w2) \<Rightarrow> (case assemble_portfolio_view D U input of
              Inl e \<Rightarrow> (Inl (internal_error rid), w2)
            | Inr view \<Rightarrow> (Inr \<lparr>bs_portfolio_id = pid, bs_input = input, bs_view = view\<rparr>, w2)))))"

definition get_portfolio_handler ::
  "'d decimal_api \<Rightarrow> uuid_api \<Rightarrow> (uuid \<Rightarrow> ('w, 'd portfolio_assembler_input option) prog) \<Rightarrow>
   (uuid \<Rightarrow> uuid \<Rightarrow> ('w, bool) prog) option \<Rightarrow> uuid list \<Rightarrow> string \<Rightarrow> uuid option \<Rightarrow> string \<Rightarrow> 'w \<Rightarrow>
   (http_response + portfolio_view) \<times> 'w" where
  "get_portfolio_handler D U load checker partitions rid user raw_id w =
     (case load_portfolio_base_state D U load checker partitions rid user raw_id w of
        (Inl r, w1) \<Rightarrow> (Inl r, w1)
      | (Inr base, w1) \<Rightarrow> (Inr (bs_view base), w1))"

section \<open>Risk\<close>

definition min_daily_returns_for_volatility :: int where
  "min_daily_returns_for_volatility = 2"

record risk_exposure_dto =
  re_symbol :: string
  re_exposure :: string
  re_weight :: string

record 'd risk_http_response =
  rr_portfolio_id :: string
  rr_exposure :: "risk_exposure_dto list"
  rr_top_n :: "risk_exposure_dto list"
  rr_hhi :: string
  rr_sigma_1d_portfolio :: string
  rr_sigma_by_symbol :: "(string \<times> string) list"
  rr_var_95_1d :: string
  rr_assumptions :: "'d risk_assumptions"
  rr_sigma_window_n :: int
  rr_min_daily_returns_required :: int
  rr_driving_event_ids :: "uuid list"
  rr_as_of_positions :: "read_as_of_ref option"
  rr_as_of_prices :: "price_mark_as_of list"
  rr_as_of_event_id :: "uuid option"
  rr_as_of_event_time :: "time option"
  rr_as_of_processing_time :: "time option"

datatype risk_error =
    RiskUnpricedPositions "string list"
  | RiskInsufficientReturnHistory "string list" int int
  | RiskFailed err

text \<open>The grounding of the input: open positions, their marks, and the open symbols without one.\<close>

definition risk_mark :: "'d decimal_api \<Rightarrow> 'd portfolio_assembler_input \<Rightarrow> string \<Rightarrow> 'd option" where
  "risk_mark D i s = (case map_of (in_price_by_symbol i) s of
     None \<Rightarrow> None | Some m \<Rightarrow> if d_is_zero D (pm_price m) then None else Some (pm_price m))"

definition open_positions :: "'d decimal_api \<Rightarrow> 'd portfolio_assembler_input \<Rightarrow> 'd projection_row list" where
  "open_positions D i = filter (\<lambda>p. \<not> d_is_zero D (pr_quantity p)) (in_positions i)"

definition risk_prices :: "'d decimal_api \<Rightarrow> 'd portfolio_assembler_input \<Rightarrow> (string \<times> 'd) list" where
  "risk_prices D i = fold (\<lambda>p out. case risk_mark D i (pr_symbol p) of
     None \<Rightarrow> out | Some x \<Rightarrow> AList.update (pr_symbol p) x out) (open_positions D i) []"

definition unpriced_open :: "'d decimal_api \<Rightarrow> 'd portfolio_assembler_input \<Rightarrow> string list" where
  "unpriced_open D i = map pr_symbol (filter (\<lambda>p. risk_mark D i (pr_symbol p) = None) (open_positions D i))"

definition exposure_dto :: "'d decimal_api \<Rightarrow> 'd symbol_risk \<Rightarrow> risk_exposure_dto" where
  "exposure_dto D r = \<lparr>re_symbol = sr_symbol r, re_exposure = d_string D (sr_exposure r), re_weight = d_string D (sr_weight r)\<rparr>"

definition risk_response ::
  "'d decimal_api \<Rightarrow> uuid_api \<Rightarrow> 'd portfolio_base_state \<Rightarrow> int \<Rightarrow> 'd risk_snapshot \<Rightarrow> 'd risk_http_response" where
  "risk_response D U base window_n snap = (let v = bs_view base in
     \<lparr>rr_portfolio_id = uuid_str U (bs_portfolio_id base),
      rr_exposure = map (exposure_dto D) (rs_exposure_by_symbol snap),
      rr_top_n = map (exposure_dto D) (rs_top_n snap), rr_hhi = d_string D (rs_hhi snap),
      rr_sigma_1d_portfolio = d_string D (rs_sigma_1d_portfolio snap),
      rr_sigma_by_symbol = map (\<lambda>r. (sr_symbol r, d_string D (sr_sigma_1d r))) (rs_exposure_by_symbol snap),
      rr_var_95_1d = d_string D (rs_var_95_1d snap), rr_assumptions = rs_assumptions snap,
      rr_sigma_window_n = window_n, rr_min_daily_returns_required = min_daily_returns_for_volatility,
      rr_driving_event_ids = pv_driving_event_ids v, rr_as_of_positions = pv_as_of_positions v,
      rr_as_of_prices = pv_as_of_prices v, rr_as_of_event_id = pv_as_of_event_id v,
      rr_as_of_event_time = pv_as_of_event_time v, rr_as_of_processing_time = pv_as_of_processing_time v\<rparr>)"

text \<open>
  \<open>iter\<close> is the order in which Go iterates over the map of prices. Counts and sigmas come from
  the store.
\<close>

definition load_sigmas ::
  "'d decimal_api \<Rightarrow> (string list \<Rightarrow> string list) \<Rightarrow> (string list \<Rightarrow> int \<Rightarrow> ('w, (string \<times> int) list) prog) \<Rightarrow>
   (string list \<Rightarrow> int \<Rightarrow> ('w, (string \<times> 'd) list) prog) \<Rightarrow> string list \<Rightarrow> int \<Rightarrow> 'w \<Rightarrow>
   (risk_error + (string \<times> 'd) list) \<times> 'w" where
  "load_sigmas D iter load_counts load_sigma symbols window_n w =
     (let priced = iter symbols in
      if priced = [] then (Inr [], w)
      else case load_counts priced window_n w of
          (Inl e, w1) \<Rightarrow> (Inl (RiskFailed e), w1)
        | (Inr counts, w1) \<Rightarrow>
          (let count = (\<lambda>s. case map_of counts s of None \<Rightarrow> 0 | Some n \<Rightarrow> n);
               insufficient = filter (\<lambda>s. count s < min_daily_returns_for_volatility) priced
           in if insufficient \<noteq> []
              then (Inl (RiskInsufficientReturnHistory insufficient min_daily_returns_for_volatility window_n), w1)
              else case load_sigma priced window_n w1 of
                  (Inl e, w2) \<Rightarrow> (Inl (RiskFailed e), w2)
                | (Inr sigmas, w2) \<Rightarrow>
                    (Inr (map (\<lambda>s. (s, case map_of sigmas s of None \<Rightarrow> d_zero D | Some x \<Rightarrow> x)) symbols), w2)))"

definition build_risk_http_response ::
  "'d decimal_api \<Rightarrow> 'd float_api \<Rightarrow> uuid_api \<Rightarrow> (string list \<Rightarrow> string list) \<Rightarrow>
   (string list \<Rightarrow> int \<Rightarrow> ('w, (string \<times> int) list) prog) \<Rightarrow> (string list \<Rightarrow> int \<Rightarrow> ('w, (string \<times> 'd) list) prog) \<Rightarrow>
   'd portfolio_base_state \<Rightarrow> int \<Rightarrow> 'w \<Rightarrow> (risk_error + 'd risk_http_response) \<times> 'w" where
  "build_risk_http_response D F U iter load_counts load_sigma base sigma_window_n w =
     (let window_n = (if sigma_window_n < 2 then 60 else sigma_window_n); i = bs_input base
      in if unpriced_open D i \<noteq> [] then (Inl (RiskUnpricedPositions (unpriced_open D i)), w)
         else case load_sigmas D iter load_counts load_sigma (map fst (risk_prices D i)) window_n w of
             (Inl e, w1) \<Rightarrow> (Inl e, w1)
           | (Inr sigmas, w1) \<Rightarrow>
             (case build_snapshot D F \<lparr>ri_positions = map (\<lambda>p. \<lparr>pi_symbol = pr_symbol p, pi_quantity = pr_quantity p\<rparr>)
                     (open_positions D i), ri_prices = risk_prices D i, ri_sigma_1d = sigmas, ri_top_n = 0\<rparr> of
                Inl e \<Rightarrow> (Inl (RiskFailed e), w1)
              | Inr snap \<Rightarrow> (Inr (risk_response D U base window_n snap), w1)))"

definition err_code_unpriced_positions :: string where
  "err_code_unpriced_positions = ''UNPRICED_POSITIONS_PRESENT''"

definition err_code_insufficient_data :: string where
  "err_code_insufficient_data = ''INSUFFICIENT_DATA''"

definition api_error_with :: "string \<Rightarrow> int \<Rightarrow> string \<Rightarrow> string \<Rightarrow> (string \<times> json) list \<Rightarrow> http_response" where
  "api_error_with rid st code msg details = \<lparr>rs_status = st, rs_body = JObj [(''error_code'', JStr code),
     (''message'', JStr msg), (''details'', JObj details), (''request_id'', JStr rid)]\<rparr>"

definition symbols_json :: "string list \<Rightarrow> json" where
  "symbols_json ss = JArr (map JStr ss)"

fun risk_error_response :: "string \<Rightarrow> risk_error \<Rightarrow> http_response" where
  "risk_error_response rid (RiskUnpricedPositions ss) = api_error_with rid 409 err_code_unpriced_positions
     ''one or more open positions lack a price mark'' [(''unpriced_symbols'', symbols_json ss)]"
| "risk_error_response rid (RiskInsufficientReturnHistory ss n window) = api_error_with rid 422 err_code_insufficient_data
     ''insufficient daily return history for volatility estimate''
     [(''symbols'', symbols_json ss), (''min_daily_returns_required'', JNum (int_literal n)),
      (''sigma_window_n'', JNum (int_literal window))]"
| "risk_error_response rid (RiskFailed e) = internal_error rid"

definition get_risk_handler ::
  "'d decimal_api \<Rightarrow> 'd float_api \<Rightarrow> uuid_api \<Rightarrow> (string list \<Rightarrow> string list) \<Rightarrow>
   (uuid \<Rightarrow> ('w, 'd portfolio_assembler_input option) prog) \<Rightarrow> (uuid \<Rightarrow> uuid \<Rightarrow> ('w, bool) prog) option \<Rightarrow>
   (string list \<Rightarrow> int \<Rightarrow> ('w, (string \<times> int) list) prog) \<Rightarrow> (string list \<Rightarrow> int \<Rightarrow> ('w, (string \<times> 'd) list) prog) \<Rightarrow>
   uuid list \<Rightarrow> int \<Rightarrow> string \<Rightarrow> uuid option \<Rightarrow> string \<Rightarrow> 'w \<Rightarrow> (http_response + 'd risk_http_response) \<times> 'w" where
  "get_risk_handler D F U iter load checker load_counts load_sigma partitions sigma_window_n rid user raw_id w =
     (let window_n = (if sigma_window_n < 2 then 60 else sigma_window_n)
      in case load_portfolio_base_state D U load checker partitions rid user raw_id w of
          (Inl r, w1) \<Rightarrow> (Inl r, w1)
        | (Inr base, w1) \<Rightarrow> (case build_risk_http_response D F U iter load_counts load_sigma base window_n w1 of
            (Inl e, w2) \<Rightarrow> (Inl (risk_error_response rid e), w2)
          | (Inr resp, w2) \<Rightarrow> (Inr resp, w2)))"

section \<open>Scenarios\<close>

record 'd scenario_shock_request =
  sq_symbol :: string
  sq_type :: string
  sq_kind :: string
  sq_value :: 'd

definition assign_shock_field ::
  "'d json_api \<Rightarrow> string \<Rightarrow> json \<Rightarrow> 'd scenario_shock_request \<Rightarrow> 'd scenario_shock_request option" where
  "assign_shock_field J f j r =
     (if f = ''symbol'' then map_option (\<lambda>v. r\<lparr>sq_symbol := v\<rparr>) (decode_string j (sq_symbol r))
      else if f = ''type'' then map_option (\<lambda>v. r\<lparr>sq_type := v\<rparr>) (decode_string j (sq_type r))
      else if f = ''kind'' then map_option (\<lambda>v. r\<lparr>sq_kind := v\<rparr>) (decode_string j (sq_kind r))
      else map_option (\<lambda>v. r\<lparr>sq_value := v\<rparr>) (d_unmarshal J j (sq_value r)))"

definition decode_shock :: "'d decimal_api \<Rightarrow> 'd json_api \<Rightarrow> json \<Rightarrow> 'd scenario_shock_request option" where
  "decode_shock D J j = bind_body [''symbol'', ''type'', ''kind'', ''value''] (assign_shock_field J) (RawDoc j)
     \<lparr>sq_symbol = [], sq_type = [], sq_kind = [], sq_value = d_zero D\<rparr>"

fun decode_shocks :: "'d decimal_api \<Rightarrow> 'd json_api \<Rightarrow> json list \<Rightarrow> 'd scenario_shock_request list option" where
  "decode_shocks D J [] = Some []"
| "decode_shocks D J (j # js) = (case decode_shock D J j of
     None \<Rightarrow> None | Some x \<Rightarrow> map_option (\<lambda>xs. x # xs) (decode_shocks D J js))"

text \<open>
  The slice of shocks: \<^verbatim>\<open>binding:"required"\<close> asks that it is not nil, and the tags inside the elements
  are not checked, because the field has no \<^verbatim>\<open>dive\<close>.
\<close>

fun assign_shocks ::
  "'d decimal_api \<Rightarrow> 'd json_api \<Rightarrow> string \<Rightarrow> json \<Rightarrow> 'd scenario_shock_request list option \<Rightarrow>
   'd scenario_shock_request list option option" where
  "assign_shocks D J f JNull r = Some None"
| "assign_shocks D J f (JArr js) r = map_option Some (decode_shocks D J js)"
| "assign_shocks D J f _ r = None"

definition bind_scenario :: "'d decimal_api \<Rightarrow> 'd json_api \<Rightarrow> raw_message \<Rightarrow> 'd scenario_shock_request list option" where
  "bind_scenario D J body = (case bind_body [''shocks''] (assign_shocks D J) body None of
     Some (Some shocks) \<Rightarrow> Some shocks | _ \<Rightarrow> None)"

definition request_type :: "'d scenario_shock_request \<Rightarrow> string" where
  "request_type r = (if sq_type r = [] then sq_kind r else sq_type r)"

definition map_scenario_run_error :: "err \<Rightarrow> int \<times> string \<times> string" where
  "map_scenario_run_error e = (case map_domain_errors e of
     Some r \<Rightarrow> r
   | None \<Rightarrow>
     (if e = EOther ''scenario: shocks must include at least one item''
      then (400, err_code_validation, ''shocks must include at least one item'')
      else if e = EOther ''scenario: shock symbol is required'' then (400, err_code_validation, ''shock symbol is required'')
      else if e = EOther ''scenario: shock type must be PCT'' then (400, err_code_validation, ''shock type must be PCT'')
      else if e = EOther ''scenario: duplicate shock symbol'' then (400, err_code_validation, ''duplicate shock symbol'')
      else (500, err_code_internal, ''internal error'')))"

definition scenario_error_response :: "string \<Rightarrow> err \<Rightarrow> http_response" where
  "scenario_error_response rid e = (case map_scenario_run_error e of (st, code, msg) \<Rightarrow> api_error rid st code msg)"

record scenario_base_metadata =
  sm_driving_event_ids :: "uuid list"
  sm_as_of_positions :: "read_as_of_ref option"
  sm_as_of_prices :: "price_mark_as_of list"
  sm_as_of_event_id :: "uuid option"
  sm_as_of_event_time :: "time option"
  sm_as_of_processing_time :: "time option"

definition scenario_base_metadata_from_view :: "portfolio_view \<Rightarrow> scenario_base_metadata" where
  "scenario_base_metadata_from_view v = \<lparr>sm_driving_event_ids = pv_driving_event_ids v,
     sm_as_of_positions = pv_as_of_positions v, sm_as_of_prices = pv_as_of_prices v,
     sm_as_of_event_id = pv_as_of_event_id v, sm_as_of_event_time = pv_as_of_event_time v,
     sm_as_of_processing_time = pv_as_of_processing_time v\<rparr>"

record scenario_http_response =
  so_portfolio_id :: string
  so_base_metadata :: scenario_base_metadata
  so_base :: portfolio_view
  so_shocked :: portfolio_view
  so_delta :: portfolio_totals_view
  so_shocks :: "(string \<times> string \<times> string) list"
  so_base_as_of_event_id :: "uuid option"
  so_base_as_of_event_time :: "time option"
  so_base_as_of_processing_time :: "time option"

text \<open>\<^verbatim>\<open>NewFromString\<close> with its error dropped.\<close>

definition parse_or_zero :: "'d decimal_api \<Rightarrow> string \<Rightarrow> 'd" where
  "parse_or_zero D s = (case d_parse D s of None \<Rightarrow> d_zero D | Some x \<Rightarrow> x)"

definition total_delta :: "'d decimal_api \<Rightarrow> string \<Rightarrow> string \<Rightarrow> string" where
  "total_delta D shocked base = d_string D (d_sub D (parse_or_zero D shocked) (parse_or_zero D base))"

definition scenario_response ::
  "'d decimal_api \<Rightarrow> uuid_api \<Rightarrow> 'd scenario_shock_request list \<Rightarrow> uuid \<Rightarrow> portfolio_view \<Rightarrow> portfolio_view \<Rightarrow>
   scenario_http_response" where
  "scenario_response D U req pid base_view shocked_view = (let b = pv_totals base_view; s = pv_totals shocked_view in
     \<lparr>so_portfolio_id = uuid_str U pid, so_base_metadata = scenario_base_metadata_from_view base_view,
      so_base = base_view, so_shocked = shocked_view,
      so_delta = \<lparr>tv_market_value = total_delta D (tv_market_value s) (tv_market_value b),
        tv_realized_pnl = total_delta D (tv_realized_pnl s) (tv_realized_pnl b),
        tv_unrealized_pnl = total_delta D (tv_unrealized_pnl s) (tv_unrealized_pnl b)\<rparr>,
      so_shocks = map (\<lambda>r. (sq_symbol r, request_type r, d_string D (sq_value r))) req,
      so_base_as_of_event_id = pv_as_of_event_id base_view, so_base_as_of_event_time = pv_as_of_event_time base_view,
      so_base_as_of_processing_time = pv_as_of_processing_time base_view\<rparr>)"

definition post_scenario_handler ::
  "'d decimal_api \<Rightarrow> 'd json_api \<Rightarrow> uuid_api \<Rightarrow> (uuid \<Rightarrow> ('w, 'd portfolio_assembler_input option) prog) \<Rightarrow>
   (uuid \<Rightarrow> uuid \<Rightarrow> ('w, bool) prog) option \<Rightarrow> uuid list \<Rightarrow> string \<Rightarrow> uuid option \<Rightarrow> string \<Rightarrow> raw_message \<Rightarrow>
   'w \<Rightarrow> (http_response + scenario_http_response) \<times> 'w" where
  "post_scenario_handler D J U load checker partitions rid user raw_id body w =
     (case bind_scenario D J body of
        None \<Rightarrow> (Inl (validation_failed rid ''invalid request body including JSON shape''), w)
      | Some req \<Rightarrow>
        (let shocks = map (\<lambda>r. \<lparr>sh_symbol = sq_symbol r, sh_type = request_type r, sh_value = sq_value r\<rparr>) req
         in case validate_shocks shocks of
             Inl e \<Rightarrow> (Inl (scenario_error_response rid e), w)
           | Inr u \<Rightarrow> (case load_portfolio_base_state D U load checker partitions rid user raw_id w of
               (Inl r, w1) \<Rightarrow> (Inl r, w1)
             | (Inr base, w1) \<Rightarrow> (case scenario_eval D U (bs_input base) shocks of
                 Inl e \<Rightarrow> (Inl (scenario_error_response rid e), w1)
               | Inr (MissingMarks ss) \<Rightarrow> (Inl (api_error_with rid 422 err_code_insufficient_data
                   ''one or more shocked symbols do not have a base price mark'' [(''symbols'', symbols_json ss)]), w1)
               | Inr (Shocked view) \<Rightarrow>
                   (Inr (scenario_response D U req (bs_portfolio_id base) (bs_view base) view), w1)))))"

end
