(* ===== verification/Watchlist_Api.thy ===== *)
theory Watchlist_Api
  imports Portfolio_Api Config Feed_Properties
begin

text \<open>
  The price feed over HTTP: the watchlist and status endpoints of
  \<^verbatim>\<open>internal/api/price_read_handler.go\<close>, the construction of the poller from the configuration
  (\<^verbatim>\<open>pricefeed/factory.go\<close>) and its start in \<^verbatim>\<open>cmd/server/main.go\<close>. The handlers reach the poller
  through a Go interface, which is nil or holds a pointer that may itself be nil: a value of type
  \<open>'d price_ingestor option option\<close>. Durations of an answer are durations here, their text and
  their seconds as a float are left out.
\<close>

section \<open>The poller of the configuration\<close>

definition new_from_config ::
  "'d decimal_api \<Rightarrow> case_api \<Rightarrow> ('w \<Rightarrow> time \<times> 'w) \<Rightarrow>
   (string \<Rightarrow> (string \<times> string) list \<Rightarrow> 'w \<Rightarrow> ((string \<times> bool) + int \<times> json option) \<times> 'w) \<Rightarrow> (health_metadata \<Rightarrow> 'w \<Rightarrow> 'w) \<Rightarrow>
   config \<Rightarrow> (('d, 'w) feed_config \<times> 'd price_ingestor) res" where
  "new_from_config D N clock http put_health cfg =
     new_price_ingestor (Some new_runtime_tracker)
       \<lparr>fc_interval = cf_price_feed_poll_interval cfg, fc_symbols = cf_price_feed_symbols cfg,
        fc_providers = [twelve_data D N clock http put_health (fst (new_twelve_data_provider
          (cf_twelve_data_api_key cfg) (cf_price_feed_http_timeout cfg) (cf_twelve_data_rate_limit_rpm cfg)))],
        fc_partitions = cf_price_stream_partitions cfg, fc_max_retries = cf_price_feed_max_retries cfg,
        fc_retry_delay = cf_price_feed_retry_delay cfg, fc_source_prefix = ''pricefeed'',
        fc_max_quote_age = cf_price_feed_max_quote_age cfg, fc_dedup_window = cf_price_feed_dedup_window cfg\<rparr>"

text \<open>
  The start of the server: without the feed, the variable of the poller stays the nil pointer and
  is handed to the router as an interface that is not nil.
\<close>

definition start_price_feed ::
  "(config \<Rightarrow> (('d, 'w) feed_config \<times> 'd price_ingestor) res) \<Rightarrow> ('w, string list option) prog \<Rightarrow> config \<Rightarrow>
   ('w, (('d, 'w) feed_config \<times> 'd price_ingestor) option) prog" where
  "start_price_feed new_feed load_watchlist cfg w =
     (if \<not> cf_price_feed_enabled cfg then (Inr None, w)
      else case load_watchlist w of
          (Inl e, w1) \<Rightarrow> (Inl e, w1)
        | (Inr found, w1) \<Rightarrow>
          (let symbols = (case found of None \<Rightarrow> cf_price_feed_symbols cfg | Some ss \<Rightarrow> ss)
           in case new_feed (cfg\<lparr>cf_price_feed_symbols := symbols\<rparr>) of
               Inl e \<Rightarrow> (Inl e, w1)
             | Inr f \<Rightarrow> (Inr (Some f), w1)))"

section \<open>Queries\<close>

definition clamp_int_query :: "(string \<Rightarrow> string) \<Rightarrow> string \<Rightarrow> int \<Rightarrow> int \<Rightarrow> int \<Rightarrow> int" where
  "clamp_int_query query name def lo hi =
     (let raw = trim_space (query name)
      in if raw = [] then def
         else case atoi raw of
             None \<Rightarrow> def
           | Some v \<Rightarrow> (if v < lo then lo else if v > hi then hi else v))"

section \<open>Status\<close>

record price_feed_status_response =
  fs_feed_enabled :: bool
  fs_configured_provider :: string
  fs_poll_interval_ms :: int
  fs_watchlist_count :: nat
  fs_watchlist_preview :: "string list"
  fs_stale_after :: duration
  fs_runtime :: runtime_tracker

definition manager_watchlist :: "'d price_ingestor option option \<Rightarrow> string list" where
  "manager_watchlist mgr = (case mgr of None \<Rightarrow> [] | Some r \<Rightarrow> watchlist r)"

definition get_price_feed_status_handler ::
  "runtime_tracker option \<Rightarrow> bool \<Rightarrow> string \<Rightarrow> duration \<Rightarrow> 'd price_ingestor option option \<Rightarrow> price_feed_status_response" where
  "get_price_feed_status_handler rt feed_enabled provider poll mgr =
     (let wl = manager_watchlist mgr
      in \<lparr>fs_feed_enabled = feed_enabled, fs_configured_provider = provider,
          fs_poll_interval_ms = (if poll < 0 then - ((- poll) div millisecond) else poll div millisecond),
          fs_watchlist_count = length wl, fs_watchlist_preview = take 12 wl,
          fs_stale_after = (if poll \<le> 0 then 5 * 60 * second else int64_wrap (3 * poll)),
          fs_runtime = runtime_snapshot rt\<rparr>)"

section \<open>The watchlist\<close>

fun assign_watchlist :: "string \<Rightarrow> json \<Rightarrow> string list \<Rightarrow> string list option" where
  "assign_watchlist f JNull r = Some []"
| "assign_watchlist f (JArr js) r = decode_strings js"
| "assign_watchlist f _ r = None"

definition bind_watchlist :: "raw_message \<Rightarrow> string list option" where
  "bind_watchlist body = bind_body [''watchlist''] assign_watchlist body []"

definition get_price_feed_watchlist_handler :: "'d price_ingestor option option \<Rightarrow> string list" where
  "get_price_feed_watchlist_handler mgr = manager_watchlist mgr"

definition put_price_feed_watchlist_handler ::
  "case_api \<Rightarrow> (string list \<Rightarrow> ('w, unit) prog) option \<Rightarrow> string \<Rightarrow> raw_message \<Rightarrow>
   'd price_ingestor option option \<Rightarrow> 'w \<Rightarrow> (http_response + string list) \<times> 'd price_ingestor option option \<times> 'w" where
  "put_price_feed_watchlist_handler N persist rid body mgr w =
     (case mgr of
        None \<Rightarrow> (Inl (api_error rid 503 err_code_insufficient_data ''price feed watchlist is unavailable''), mgr, w)
      | Some r \<Rightarrow> (case bind_watchlist body of
          None \<Rightarrow> (Inl (validation_failed rid ''invalid request body including JSON shape''), mgr, w)
        | Some ss \<Rightarrow>
          (let r' = set_watchlist N ss r; wl = watchlist r'
           in case persist of
               None \<Rightarrow> (Inr wl, Some r', w)
             | Some store \<Rightarrow> (case store wl w of
                 (Inl e, w1) \<Rightarrow> (Inl (api_error rid 500 err_code_internal ''failed to persist watchlist''), Some r', w1)
               | (Inr u, w1) \<Rightarrow> (Inr wl, Some r', w1)))))"

section \<open>What is stored\<close>

lemma set_watchlist_list:
  "watchlist (set_watchlist N ss r) = (if r = None then [] else normalize_symbols N ss)"
  by (cases r) (simp_all add: set_watchlist_def watchlist_def)

lemma normalized_stored:
  assumes "pg_laws D val P" and "healthy w"
    and "\<forall>s\<in>set ss. is_ascii s" and "\<forall>s\<in>set ss. pg_text_ok P (to_upper N (trim_space s))"
    and "wl = [] \<or> wl = normalize_symbols N ss"
    and "upsert_price_feed_watchlist N P wl w = (r, w1)"
  shows "r = Inr () \<and> fst (load_price_feed_watchlist N w1) = Inr (Some wl)"
proof -
  have n: "normalize_symbols N ss = normalize_watchlist_symbols N ss"
    by (simp add: normalize_symbols_def normalize_watchlist_symbols_def)
  have wl: "normalize_watchlist_symbols N wl = wl"
    using assms(5) n normalize_twice [OF assms(3), of N] by (auto simp: normalize_watchlist_symbols_def)
  have ok: "\<forall>s\<in>set wl. pg_text_ok P s"
    using assms(4,5) normalize_from_props [of N "[]" ss] by (fastforce simp: normalize_symbols_def)
  have "pg_jsonb P (JArr (map JStr wl)) = Some (JArr (map JStr wl))"
    using pg_laws.jsonb_arr [OF assms(1), of "map JStr wl"] pg_laws.jsonb_str [OF assms(1)] ok
    by (force simp: comp_def intro!: map_cong)
  then have "fst (upsert_price_feed_watchlist N P wl w) = Inr () \<and>
      w_db (snd (upsert_price_feed_watchlist N P wl w)) =
        (w_db w)\<lparr>db_settings := AList.update watchlist_key (JArr (map JStr wl)) (db_settings (w_db w))\<rparr>"
    unfolding upsert_price_feed_watchlist_def by (intro db_tx_healthy(3) [OF assms(2)]) (simp add: wl)
  moreover have "healthy (snd (upsert_price_feed_watchlist N P wl w))"
    unfolding upsert_price_feed_watchlist_def by (rule db_tx_healthy(1) [OF assms(2)])
  ultimately have "r = Inr ()" "healthy w1"
    "w_db w1 = (w_db w)\<lparr>db_settings := AList.update watchlist_key (JArr (map JStr wl)) (db_settings (w_db w))\<rparr>"
    using assms(6) by simp_all
  then show ?thesis
    using wl by (simp add: load_price_feed_watchlist_def db_query_healthy update_conv' normalize_watchlist_symbols_def)
qed

text \<open>
  (C39) A successful update of the watchlist with symbols in ASCII is durable: the answer is the normalized request when
  the poller runs, it is what the poller fetches from then on, and a restart loads exactly it.
  When the feed is switched off, the same request is answered with success, whatever it asked
  for, and the stored watchlist is replaced by the empty one.
\<close>

theorem put_watchlist_durable:
  assumes "pg_laws D val P" and "healthy w" and "bind_watchlist body = Some ss"
    and "\<forall>s\<in>set ss. is_ascii s \<and> pg_text_ok P (to_upper N (trim_space s))"
  shows "\<exists>w1. put_price_feed_watchlist_handler N (Some (upsert_price_feed_watchlist N P)) rid body (Some r) w =
      (Inr (if r = None then [] else normalize_symbols N ss), Some (set_watchlist N ss r), w1) \<and>
    get_price_feed_watchlist_handler (Some (set_watchlist N ss r)) = (if r = None then [] else normalize_symbols N ss) \<and>
    fst (load_price_feed_watchlist N w1) = Inr (Some (if r = None then [] else normalize_symbols N ss))"
proof -
  let ?wl = "if r = None then [] else normalize_symbols N ss"
  obtain x w1 where u: "upsert_price_feed_watchlist N P ?wl w = (x, w1)" by (rule prod.exhaust)
  have "x = Inr () \<and> fst (load_price_feed_watchlist N w1) = Inr (Some ?wl)"
    using assms(4) by (intro normalized_stored [OF assms(1,2) _ _ _ u]) auto
  then show ?thesis using u assms(3)
    by (intro exI [of _ w1])
      (simp add: put_price_feed_watchlist_handler_def get_price_feed_watchlist_handler_def manager_watchlist_def
        set_watchlist_list Let_def)
qed

text \<open>A server without the feed and a stored watchlist: the request asks for one symbol, the stored two are lost.\<close>

definition watchlist_body :: raw_message where
  "watchlist_body = RawDoc (JObj [(''watchlist'', JArr [JStr ''MSFT''])])"

definition stored_watchlist :: world where
  "stored_watchlist = sample_world (empty_db\<lparr>db_settings := [(watchlist_key, JArr [JStr ''AAPL'', JStr ''TSLA''])]\<rparr>) []"

theorem put_watchlist_durable_witness:
  "(\<exists>w1. put_price_feed_watchlist_handler ref_case (Some (upsert_price_feed_watchlist ref_case ref_pg)) ''r'' watchlist_body
      (Some (None :: rdec price_ingestor option)) stored_watchlist = (Inr [], Some None, w1) \<and>
    fst (load_price_feed_watchlist ref_case w1) = Inr (Some [])) \<and>
   (\<exists>w1. put_price_feed_watchlist_handler ref_case (Some (upsert_price_feed_watchlist ref_case ref_pg)) ''r'' watchlist_body
      (Some (Some sample_ingestor)) stored_watchlist = (Inr [''MSFT''], Some (Some (sample_ingestor\<lparr>pi_symbols := [''MSFT'']\<rparr>)), w1) \<and>
    fst (load_price_feed_watchlist ref_case w1) = Inr (Some [''MSFT'']))"
proof -
  have b: "bind_watchlist watchlist_body = Some [''MSFT'']" by code_simp
  have t: "to_upper ref_case (trim_space ''MSFT'') = ''MSFT''"
  proof -
    have "to_upper ref_case ''MSFT'' = ''MSFT''" by code_simp
    then show ?thesis using trim_plain(2) [of "''MSFT''"] by simp
  qed
  have n: "normalize_symbols ref_case [''MSFT''] = [''MSFT'']" by (simp add: normalize_symbols_def t)
  have a: "\<forall>s\<in>set [''MSFT'']. is_ascii s \<and> pg_text_ok ref_pg (to_upper ref_case (trim_space s))"
    using refp.text_ascii [of "''MSFT''"] by (simp add: t is_ascii_def)
  have h: "healthy stored_watchlist" by (simp add: stored_watchlist_def)
  note put = put_watchlist_durable [OF refp.pg_laws_axioms h b a, where rid = "''r''"]
  show ?thesis
    using put [where r = "None :: rdec price_ingestor option"] put [where r = "Some sample_ingestor"]
    by (simp add: n set_watchlist_def) blast
qed

end
