(* ===== verification/Go_Json.thy ===== *)
theory Go_Json
  imports Go_Text Go_Time
begin

text \<open>
  The text form of JSON, as \<^verbatim>\<open>encoding/json\<close> reads it: white space, literals, numbers, strings with
  their escapes (surrogate pairs joined, what is no UTF-8 replaced by U+FFFD), arrays and objects
  nested at most 10000 deep; and \<^verbatim>\<open>time.RFC3339Nano\<close>, the text of an instant. The recursion is
  over a list that is long enough: every call gets the tail of the list it was called with, a step
  into an element or member consumes a character before the second call, and the
  start has three list cells per character.
\<close>

section \<open>Strings\<close>

definition code_of :: "char \<Rightarrow> int" where
  "code_of c = of_char c"

text \<open>The length of the UTF-8 encoding at the head, if there is a valid one.\<close>

definition utf8_length :: "string \<Rightarrow> nat option" where
  "utf8_length s = (let n = map code_of (take 4 s); cont = (\<lambda>i. i < length n \<and> 128 \<le> n ! i \<and> n ! i \<le> 191)
     in if n = [] then None
        else let a = n ! 0; second = (\<lambda>lo hi. 1 < length n \<and> lo \<le> n ! 1 \<and> n ! 1 \<le> hi)
        in if a < 128 then Some 1
           else if 194 \<le> a \<and> a \<le> 223 then (if cont 1 then Some 2 else None)
           else if 224 \<le> a \<and> a \<le> 239 then
             (if second (if a = 224 then 160 else 128) (if a = 237 then 159 else 191) \<and> cont 2 then Some 3 else None)
           else if 240 \<le> a \<and> a \<le> 244 then
             (if second (if a = 240 then 144 else 128) (if a = 244 then 143 else 191) \<and> cont 2 \<and> cont 3 then Some 4 else None)
           else None)"

definition rune_bytes :: "int \<Rightarrow> string" where
  "rune_bytes r = map char_of
     (if r < 128 then [r]
      else if r < 2048 then [192 + r div 64, 128 + r mod 64]
      else if r < 65536 then [224 + r div 4096, 128 + r div 64 mod 64, 128 + r mod 64]
      else [240 + r div 262144, 128 + r div 4096 mod 64, 128 + r div 64 mod 64, 128 + r mod 64])"

definition replacement :: string where
  "replacement = rune_bytes 65533"

definition hex_digit :: "char \<Rightarrow> int option" where
  "hex_digit c = (let n = code_of c in if 48 \<le> n \<and> n \<le> 57 then Some (n - 48)
     else if 97 \<le> n \<and> n \<le> 102 then Some (n - 87) else if 65 \<le> n \<and> n \<le> 70 then Some (n - 55) else None)"

fun hex4 :: "string \<Rightarrow> int option" where
  "hex4 (a # b # c # d # s) = (case (hex_digit a, hex_digit b, hex_digit c, hex_digit d) of
     (Some w, Some x, Some y, Some z) \<Rightarrow> Some (((w * 16 + x) * 16 + y) * 16 + z) | _ \<Rightarrow> None)"
| "hex4 _ = None"

definition high_surrogate :: "int \<Rightarrow> bool" where "high_surrogate r \<longleftrightarrow> 55296 \<le> r \<and> r < 56320"
definition low_surrogate :: "int \<Rightarrow> bool" where "low_surrogate r \<longleftrightarrow> 56320 \<le> r \<and> r < 57344"

text \<open>The bytes of a \<^verbatim>\<open>\u\<close> escape and how many characters it takes, after its \<^verbatim>\<open>\u\<close>.\<close>

definition unicode_escape :: "string \<Rightarrow> (string \<times> nat) option" where
  "unicode_escape s = (case hex4 s of
     None \<Rightarrow> None
   | Some r \<Rightarrow>
     (if high_surrogate r \<or> low_surrogate r
      then (case (if take 2 (drop 4 s) = [char_of (92::int), CHR ''u''] then hex4 (drop 6 s) else None) of
          Some r2 \<Rightarrow> (if high_surrogate r \<and> low_surrogate r2
            then Some (rune_bytes (65536 + (r - 55296) * 1024 + (r2 - 56320)), 10) else Some (replacement, 4))
        | None \<Rightarrow> Some (replacement, 4))
      else Some (rune_bytes r, 4)))"

definition simple_escape :: "char \<Rightarrow> int option" where
  "simple_escape c = map_of [(34, 34), (92, 92), (47, 47), (98, 8), (102, 12), (110, 10), (114, 13), (116, 9)] (code_of c)"

text \<open>The next unit of a string: the bytes it stands for, and its length.\<close>

definition string_unit :: "string \<Rightarrow> (string \<times> nat) option" where
  "string_unit s = (case s of
     [] \<Rightarrow> None
   | c # r \<Rightarrow>
     (if code_of c = 92 then (case r of
          [] \<Rightarrow> None
        | e # t \<Rightarrow> (if e = CHR ''u'' then map_option (\<lambda>(b, n). (b, n + 2)) (unicode_escape t)
            else map_option (\<lambda>n. ([char_of n], 2)) (simple_escape e)))
      else if code_of c < 32 then None
      else (case utf8_length s of None \<Rightarrow> Some (replacement, 1) | Some n \<Rightarrow> Some (take n s, n))))"

fun json_chars :: "'f list \<Rightarrow> string \<Rightarrow> (string \<times> string) option" where
  "json_chars [] s = None"
| "json_chars (f # fs) s = (if s \<noteq> [] \<and> code_of (hd s) = 34 then Some ([], tl s)
     else case string_unit s of None \<Rightarrow> None
       | Some (b, n) \<Rightarrow> map_option (\<lambda>(t, r). (b @ t, r)) (json_chars fs (drop n s)))"

section \<open>Values\<close>

definition skip_space :: "string \<Rightarrow> string" where
  "skip_space s = dropWhile (\<lambda>c. code_of c \<in> {32, 9, 10, 13}) s"

definition digits :: "string \<Rightarrow> string \<times> string" where
  "digits s = (takeWhile is_digit s, dropWhile is_digit s)"

definition json_number :: "string \<Rightarrow> (string \<times> string) option" where
  "json_number s =
     (let (sign, s0) = (if s \<noteq> [] \<and> hd s = CHR ''-'' then (''-'', tl s) else ([], s));
          (ds, s1) = digits s0; whole = (if ds \<noteq> [] \<and> hd ds = CHR ''0'' then ''0'' else ds); s1 = drop (length whole) s0;
          (frac, s2) = (if s1 \<noteq> [] \<and> hd s1 = CHR ''.'' then (CHR ''.'' # fst (digits (tl s1)), snd (digits (tl s1))) else ([], s1));
          (expo, s3) = (if s2 \<noteq> [] \<and> hd s2 \<in> {CHR ''e'', CHR ''E''}
            then let sg = (if tl s2 \<noteq> [] \<and> hd (tl s2) \<in> {CHR ''+'', CHR ''-''} then [hd (tl s2)] else []);
                     t = drop (length sg) (tl s2)
                 in (hd s2 # sg @ fst (digits t), snd (digits t)) else ([], s2))
      in if whole = [] \<or> frac = ''.'' \<or> (expo \<noteq> [] \<and> \<not> is_digit (last expo)) then None
         else Some (sign @ whole @ frac @ expo, s3))"

definition json_literal :: "string \<Rightarrow> (json \<times> string) option" where
  "json_literal s = (if prefix ''true'' s then Some (JBool True, drop 4 s)
     else if prefix ''false'' s then Some (JBool False, drop 5 s)
     else if prefix ''null'' s then Some (JNull, drop 4 s)
     else map_option (\<lambda>(n, r). (JNum n, r)) (json_number s))"

text \<open>\<open>d\<close> is the nesting that is left. Elements and members are read after the opening bracket.\<close>

fun json_value :: "'f list \<Rightarrow> int \<Rightarrow> string \<Rightarrow> (json \<times> string) option"
  and json_elements :: "'f list \<Rightarrow> int \<Rightarrow> string \<Rightarrow> (json list \<times> string) option"
  and json_members :: "'f list \<Rightarrow> int \<Rightarrow> string \<Rightarrow> ((string \<times> json) list \<times> string) option" where
  "json_value [] d s = None"
| "json_value (f # fs) d s =
     (case skip_space s of
        [] \<Rightarrow> None
      | c # r \<Rightarrow>
        (if c = CHR ''['' then
           (if d = 0 then None
            else if skip_space r \<noteq> [] \<and> hd (skip_space r) = CHR '']'' then Some (JArr [], tl (skip_space r))
            else map_option (\<lambda>(js, t). (JArr js, t)) (json_elements fs (d - 1) r))
         else if c = CHR ''{'' then
           (if d = 0 then None
            else if skip_space r \<noteq> [] \<and> hd (skip_space r) = CHR ''}'' then Some (JObj [], tl (skip_space r))
            else map_option (\<lambda>(ms, t). (JObj ms, t)) (json_members fs (d - 1) r))
         else if code_of c = 34 then map_option (\<lambda>(b, t). (JStr b, t)) (json_chars fs r)
         else json_literal (c # r)))"
| "json_elements [] d s = None"
| "json_elements (f # fs) d s =
     (case json_value fs d s of
        None \<Rightarrow> None
      | Some (j, r) \<Rightarrow> (case skip_space r of
          [] \<Rightarrow> None
        | c # t \<Rightarrow> (if c = CHR '']'' then Some ([j], t)
            else if c = CHR '','' then map_option (\<lambda>(js, u). (j # js, u)) (json_elements fs d t) else None)))"
| "json_members [] d s = None"
| "json_members (f # fs) d s =
     (case skip_space s of
        [] \<Rightarrow> None
      | q # k \<Rightarrow> (if code_of q \<noteq> 34 then None else case json_chars fs k of
          None \<Rightarrow> None
        | Some (name, r) \<Rightarrow> (case skip_space r of
            [] \<Rightarrow> None
          | col # v \<Rightarrow> (if col \<noteq> CHR '':'' then None else case json_value fs d v of
              None \<Rightarrow> None
            | Some (j, u) \<Rightarrow> (case skip_space u of
                [] \<Rightarrow> None
              | c # t \<Rightarrow> (if c = CHR ''}'' then Some ([(name, j)], t)
                  else if c = CHR '','' then map_option (\<lambda>(ms, y). ((name, j) # ms, y)) (json_members fs d t) else None))))))"

definition max_nesting_depth :: int where
  "max_nesting_depth = 10000"

definition parse_json :: "string \<Rightarrow> raw_message" where
  "parse_json s = (if s = [] then RawEmpty
     else case json_value (s @ s @ s) max_nesting_depth s of
        None \<Rightarrow> RawMalformed
      | Some (j, r) \<Rightarrow> (if skip_space r = [] then RawDoc j else RawMalformed))"

section \<open>Slices\<close>

text \<open>
  An array decoded into a slice: the elements are decoded into the slots of the backing array in
  order, old values included, and the length becomes that of the array. A slice is its backing array
  and its length; \<open>dec\<close> says whether a value fits and what the slot holds then.
\<close>

type_synonym 'a slice = "'a list \<times> nat"

definition slice_elements :: "'a slice \<Rightarrow> 'a list" where
  "slice_elements s = take (snd s) (fst s)"

fun decode_elements :: "(json \<Rightarrow> 'a \<Rightarrow> bool \<times> 'a) \<Rightarrow> 'a \<Rightarrow> json list \<Rightarrow> 'a list \<Rightarrow> bool \<times> 'a list" where
  "decode_elements dec z [] bs = (True, bs)"
| "decode_elements dec z (j # js) bs =
     (case dec j (if bs = [] then z else hd bs) of (ok, b) \<Rightarrow>
       (case decode_elements dec z js (tl bs) of (ok', r) \<Rightarrow> (ok \<and> ok', b # r)))"

fun decode_slice :: "(json \<Rightarrow> 'a \<Rightarrow> bool \<times> 'a) \<Rightarrow> 'a \<Rightarrow> json \<Rightarrow> 'a slice \<Rightarrow> bool \<times> 'a slice" where
  "decode_slice dec z JNull s = (True, ([], 0))"
| "decode_slice dec z (JArr []) s = (True, ([], 0))"
| "decode_slice dec z (JArr js) s = (case decode_elements dec z js (fst s) of (ok, bs) \<Rightarrow> (ok, (bs, length js)))"
| "decode_slice dec z _ s = (False, s)"

text \<open>A member of the wrong type leaves its field alone; decoding goes on, and fails at the end.\<close>

definition decode_field :: "(json \<Rightarrow> 'a \<Rightarrow> 'a option) \<Rightarrow> json \<Rightarrow> 'a \<Rightarrow> bool \<times> 'a" where
  "decode_field dec j old = (case dec j old of None \<Rightarrow> (False, old) | Some v \<Rightarrow> (True, v))"

fun decode_struct ::
  "string list \<Rightarrow> (string \<Rightarrow> json \<Rightarrow> 'r \<Rightarrow> bool \<times> 'r) \<Rightarrow> json \<Rightarrow> 'r \<Rightarrow> bool \<times> 'r" where
  "decode_struct names assign (JObj ms) r = fold (\<lambda>m (ok, x). case field_match names (fst m) of
     None \<Rightarrow> (ok, x) | Some f \<Rightarrow> (case assign f (snd m) x of (ok', y) \<Rightarrow> (ok \<and> ok', y))) ms (True, r)"
| "decode_struct names assign JNull r = (True, r)"
| "decode_struct names assign _ r = (False, r)"

fun unmarshal_struct ::
  "string list \<Rightarrow> (string \<Rightarrow> json \<Rightarrow> 'r \<Rightarrow> bool \<times> 'r) \<Rightarrow> raw_message \<Rightarrow> 'r \<Rightarrow> bool \<times> 'r" where
  "unmarshal_struct names assign (RawDoc j) r = decode_struct names assign j r"
| "unmarshal_struct names assign _ r = (False, r)"

section \<open>Instants\<close>

definition civil_date :: "int \<Rightarrow> int \<times> int" where
  "civil_date d = (let n400 = d div 146097; d1 = d mod 146097; n100 = min 3 (d1 div 36524); d2 = d1 - n100 * 36524;
     n4 = d2 div 1461; d3 = d2 mod 1461; n1 = min 3 (d3 div 365)
     in (400 * n400 + 100 * n100 + 4 * n4 + n1 + 1, d3 - n1 * 365))"

fun month_day :: "int list \<Rightarrow> nat \<Rightarrow> int \<Rightarrow> nat \<times> int" where
  "month_day [] m d = (m, d + 1)"
| "month_day (n # ns) m d = (if d < n then (m, d + 1) else month_day ns (m + 1) (d - n))"

definition pad :: "nat \<Rightarrow> int \<Rightarrow> string" where
  "pad n i = (let ds = nat_string (nat \<bar>i\<bar>) in (if i < 0 then ''-'' else []) @ replicate (n - length ds) (CHR ''0'') @ ds)"

definition drop_zeros :: "string \<Rightarrow> string" where
  "drop_zeros s = rev (dropWhile (\<lambda>c. c = CHR ''0'') (rev s))"

definition format_rfc3339_nano :: "time \<Rightarrow> string" where
  "format_rfc3339_nano t =
     (let ns = t mod 1000000000; secs = t div 1000000000; sod = secs mod 86400; (y, yd) = civil_date (secs div 86400);
          (m, d) = month_day (month_days y) 1 yd; frac = drop_zeros (pad 9 ns)
      in pad 4 y @ ''-'' @ pad 2 (int m) @ ''-'' @ pad 2 d @ ''T'' @ pad 2 (sod div 3600) @ '':'' @ pad 2 (sod div 60 mod 60) @
         '':'' @ pad 2 (sod mod 60) @ (if frac = [] then [] else CHR ''.'' # frac) @ ''Z'')"

text \<open>\<^verbatim>\<open>time.Time.MarshalJSON\<close> refuses years outside four digits.\<close>

definition marshal_time :: "time \<Rightarrow> json option" where
  "marshal_time t = (let y = fst (civil_date (t div 86400000000000))
     in if 0 \<le> y \<and> y \<le> 9999 then Some (JStr (format_rfc3339_nano t)) else None)"

end
