(* ===== verification/Insights_Ai.thy ===== *)
theory Insights_Ai
  imports Go_Json Database
begin

text \<open>
  \<^verbatim>\<open>internal/ai\<close>: the narrative about a portfolio. The prompt (\<^verbatim>\<open>prompt.go\<close>), the call of the chat
  completion API (\<^verbatim>\<open>client.go\<close>), the check of the reply (\<^verbatim>\<open>validator.go\<close>, its three regular expressions
  written out), the server's list of metrics (\<^verbatim>\<open>used_metrics_fallback.go\<close>) and the whole
  (\<^verbatim>\<open>explain.go\<close>). The network is the parameter \<open>http\<close>; \<open>indent\<close> is \<^verbatim>\<open>json.MarshalIndent\<close> of a
  document read into \<^verbatim>\<open>any\<close>, which only the prompt contains; \<open>quote\<close> is the verb \<^verbatim>\<open>%q\<close>.
\<close>

section \<open>Regular expressions\<close>

definition is_upper :: "char \<Rightarrow> bool" where
  "is_upper c \<longleftrightarrow> 65 \<le> code_of c \<and> code_of c \<le> 90"

definition word_char :: "char \<Rightarrow> bool" where
  "word_char c \<longleftrightarrow> is_upper c \<or> 97 \<le> code_of c \<and> code_of c \<le> 122 \<or> is_digit c \<or> c = CHR ''_''"

text \<open>
  \<^verbatim>\<open>\b[A-Z]{1,5}\b\<close> at a position: the longest repetition first, as long as a word ends after it. The
  word boundary in front is that the character before is no word character.
\<close>

definition ticker_length :: "string \<Rightarrow> nat option" where
  "ticker_length s = find (\<lambda>k. k \<le> length s \<and> list_all is_upper (take k s) \<and>
     (drop k s = [] \<or> \<not> word_char (hd (drop k s)))) [5, 4, 3, 2, 1]"

text \<open>The text cut into its matches (\<open>Inr\<close>) and the characters between them.\<close>

function ticker_parts :: "bool \<Rightarrow> string \<Rightarrow> (char + string) list" where
  "ticker_parts after_word [] = []"
| "ticker_parts after_word (c # s) =
     (case (if after_word then None else ticker_length (c # s)) of
        None \<Rightarrow> Inl c # ticker_parts (word_char c) s
      | Some k \<Rightarrow> Inr (take k (c # s)) # ticker_parts True (drop k (c # s)))"
  by pat_completeness auto
termination
  by (relation "measure (length \<circ> snd)")
    (auto simp: ticker_length_def find_Some_iff nth_Cons' split: if_splits)

text \<open>\<^verbatim>\<open>FindAllString\<close> and \<^verbatim>\<open>ReplaceAllStringFunc\<close>.\<close>

definition find_tickers :: "string \<Rightarrow> string list" where
  "find_tickers s = List.map_filter (\<lambda>p. case p of Inl c \<Rightarrow> None | Inr t \<Rightarrow> Some t) (ticker_parts False s)"

definition replace_tickers :: "(string \<Rightarrow> string) \<Rightarrow> string \<Rightarrow> string" where
  "replace_tickers f s = concat (map (\<lambda>p. case p of Inl c \<Rightarrow> [c] | Inr t \<Rightarrow> f t) (ticker_parts False s))"

text \<open>The probe for SQL, without regard to case; \<^verbatim>\<open>s\<close> and \<^verbatim>\<open>k\<close> have a third form outside ASCII.\<close>

datatype piece = Lit char | Spaces | OptSpaces

definition literal :: "string \<Rightarrow> piece list" where
  "literal s = map Lit s"

definition case_forms :: "char \<Rightarrow> string list" where
  "case_forms c = [[c], [ascii_upper c]] @
     (if c = CHR ''s'' then [map char_of [197, 191 :: nat]]
      else if c = CHR ''k'' then [map char_of [226, 132, 170 :: nat]] else [])"

definition regex_space :: "char \<Rightarrow> bool" where
  "regex_space c \<longleftrightarrow> code_of c \<in> {9, 10, 12, 13, 32}"

function matches_here :: "piece list \<Rightarrow> string \<Rightarrow> bool" where
  "matches_here [] s = True"
| "matches_here (Lit c # ps) s = list_ex (\<lambda>v. prefix v s \<and> matches_here ps (drop (length v) s)) (case_forms c)"
| "matches_here (Spaces # ps) s = (case s of [] \<Rightarrow> False
     | c # r \<Rightarrow> if regex_space c then matches_here (OptSpaces # ps) r else False)"
| "matches_here (OptSpaces # ps) s = (if matches_here ps s then True
     else case s of [] \<Rightarrow> False | c # r \<Rightarrow> if regex_space c then matches_here (OptSpaces # ps) r else False)"
  by pat_completeness auto
termination
  by (relation "inv_image (less_than <*lex*> less_than) (\<lambda>(ps, s). (length ps, length s))") auto

fun matches_somewhere :: "piece list \<Rightarrow> string \<Rightarrow> bool" where
  "matches_somewhere ps [] = matches_here ps []"
| "matches_somewhere ps (c # s) = (matches_here ps (c # s) \<or> matches_somewhere ps s)"

definition sql_probes :: "piece list list" where
  "sql_probes =
    [literal ''union'' @ [Spaces] @ literal ''all'' @ [Spaces] @ literal ''select'',
     literal ''union'' @ [Spaces] @ literal ''select'',
     literal '';'' @ [OptSpaces] @ literal ''drop'' @ [Spaces] @ literal ''table'',
     literal '';'' @ [OptSpaces] @ literal ''delete'' @ [Spaces] @ literal ''from'',
     literal ''into'' @ [Spaces] @ literal ''outfile'',
     literal ''exec'' @ [OptSpaces] @ literal ''('',
     literal ''xp_cmdshell'']"

definition sql_probe :: "string \<Rightarrow> bool" where
  "sql_probe s = list_ex (\<lambda>ps. matches_somewhere ps s) sql_probes"

definition used_metric_allowed :: "string \<Rightarrow> bool" where
  "used_metric_allowed m = list_ex (\<lambda>p. prefix (p @ ''.'') m \<or> prefix (p @ ''['') m) [''portfolio'', ''risk'', ''recent_events'']"

section \<open>The check of a reply\<close>

record validation_error =
  ve_code :: string
  ve_detail :: string

definition val_reason_banned_phrase :: string where "val_reason_banned_phrase = ''BANNED_PHRASE''"
definition val_reason_unknown_symbol :: string where "val_reason_unknown_symbol = ''UNKNOWN_SYMBOL''"
definition val_reason_suspicious_sql :: string where "val_reason_suspicious_sql = ''SUSPICIOUS_SQL''"
definition val_reason_bad_used_metric :: string where "val_reason_bad_used_metric = ''BAD_USED_METRIC''"

definition default_banned_phrases :: "string list" where
  "default_banned_phrases = [''i updated your portfolio'', ''i placed'', ''i executed'', ''executed your trade'',
     ''placed your order'', ''i bought'', ''i sold'', ''i shorted'', ''you should buy'', ''you should sell'', ''go long'',
     ''go short'', ''wire transfer'', ''send me your'', ''your api key'', ''your password'']"

definition english_ticker_stoplist :: "string list" where
  "english_ticker_stoplist = [''THE'', ''AND'', ''FOR'', ''ARE'', ''BUT'', ''NOT'', ''YOU'', ''ALL'', ''CAN'',
     ''HER'', ''WAS'', ''ONE'', ''OUR'', ''OUT'', ''DAY'', ''GET'', ''HAS'', ''HIM'', ''HIS'', ''HOW'', ''ITS'', ''LET'',
     ''MAY'', ''NEW'', ''NOW'', ''OLD'', ''SEE'', ''TWO'', ''WHO'', ''BOY'', ''DID'', ''OWN'', ''SAY'', ''SHE'', ''TOO'',
     ''ANY'', ''HAD'', ''WAY'', ''USE'', ''IT'', ''OR'', ''IN'', ''ON'', ''AT'', ''BE'', ''DO'', ''IF'', ''IS'', ''NO'',
     ''OF'', ''TO'', ''UP'', ''AS'', ''AN'', ''AM'', ''WE'', ''ME'', ''US'', ''GO'', ''AI'', ''OK'', ''VS'', ''TV'',
     ''PC'', ''UK'', ''EU'', ''IM'', ''PM'']"

definition finance_ticker_stoplist :: "string list" where
  "finance_ticker_stoplist = [''CASH'', ''USD'', ''VAR'', ''MTM'', ''PNL'', ''ROI'', ''ETF'', ''IPO'', ''EPS'', ''YTD'',
     ''QTD'', ''MTD'', ''LLM'', ''API'']"

fun contains :: "string \<Rightarrow> string \<Rightarrow> bool" where
  "contains p [] \<longleftrightarrow> p = []"
| "contains p (c # s) \<longleftrightarrow> prefix p (c # s) \<or> contains p s"

definition is_known_ticker_token :: "string list \<Rightarrow> string \<Rightarrow> bool" where
  "is_known_ticker_token allow tok \<longleftrightarrow>
     tok \<in> set english_ticker_stoplist \<or> tok \<in> set finance_ticker_stoplist \<or> tok \<in> set allow"

definition banned :: "case_api \<Rightarrow> string \<Rightarrow> bool" where
  "banned N txt \<longleftrightarrow> list_ex (\<lambda>p. contains (to_lower N p) (to_lower N txt)) default_banned_phrases"

text \<open>The first metric that is refused: blank ones are passed over.\<close>

definition bad_used_metric :: "string list \<Rightarrow> string option" where
  "bad_used_metric ms = find (\<lambda>m. m \<noteq> [] \<and> \<not> used_metric_allowed m) (map trim_space ms)"

definition unknown_ticker :: "string list \<Rightarrow> string \<Rightarrow> string option" where
  "unknown_ticker allow txt = find (\<lambda>t. \<not> is_known_ticker_token allow t) (find_tickers txt)"

definition validate_insight_output ::
  "case_api \<Rightarrow> (string \<Rightarrow> string) \<Rightarrow> string list \<Rightarrow> string \<Rightarrow> string list \<Rightarrow> validation_error option" where
  "validate_insight_output N quote allow txt used_metrics =
     (if txt = [] then None
      else if banned N txt
        then Some \<lparr>ve_code = val_reason_banned_phrase, ve_detail = ''output contains disallowed phrasing''\<rparr>
      else if sql_probe txt
        then Some \<lparr>ve_code = val_reason_suspicious_sql, ve_detail = ''output contains disallowed SQL-like patterns''\<rparr>
      else case bad_used_metric used_metrics of
          Some m \<Rightarrow> Some \<lparr>ve_code = val_reason_bad_used_metric, ve_detail = ''used_metrics path not allowed: '' @ quote m\<rparr>
        | None \<Rightarrow> (case unknown_ticker allow txt of
            Some t \<Rightarrow> Some \<lparr>ve_code = val_reason_unknown_symbol, ve_detail = ''unknown ticker-like token '' @ quote t\<rparr>
          | None \<Rightarrow> None))"

definition sanitize_unknown_ticker_tokens :: "string \<Rightarrow> string list \<Rightarrow> string" where
  "sanitize_unknown_ticker_tokens txt allow =
     replace_tickers (\<lambda>t. if is_known_ticker_token allow t then t else ''asset'') txt"

section \<open>The metrics of the server\<close>

text \<open>What \<^verbatim>\<open>DefaultUsedMetricsFromContextJSON\<close> reads of the context: texts, and lengths of arrays.\<close>

record metrics_root =
  mx_market_value :: string
  mx_unrealized_pnl :: string
  mx_realized_pnl :: string
  mx_var_95_1d :: string
  mx_sigma_1d_portfolio :: string
  mx_by_symbol :: nat
  mx_exposure :: nat
  mx_recent_events :: nat

fun decode_length :: "json \<Rightarrow> nat \<Rightarrow> nat option" where
  "decode_length JNull n = Some 0"
| "decode_length (JArr js) n = Some (length js)"
| "decode_length _ n = None"

definition assign_totals :: "string \<Rightarrow> json \<Rightarrow> metrics_root \<Rightarrow> bool \<times> metrics_root" where
  "assign_totals f j r =
     (if f = ''market_value'' then map_prod id (\<lambda>v. r\<lparr>mx_market_value := v\<rparr>) (decode_field decode_string j (mx_market_value r))
      else if f = ''unrealized_pnl'' then map_prod id (\<lambda>v. r\<lparr>mx_unrealized_pnl := v\<rparr>) (decode_field decode_string j (mx_unrealized_pnl r))
      else map_prod id (\<lambda>v. r\<lparr>mx_realized_pnl := v\<rparr>) (decode_field decode_string j (mx_realized_pnl r)))"

definition assign_portfolio :: "string \<Rightarrow> json \<Rightarrow> metrics_root \<Rightarrow> bool \<times> metrics_root" where
  "assign_portfolio f = decode_struct [''market_value'', ''unrealized_pnl'', ''realized_pnl''] assign_totals"

definition assign_volatility :: "string \<Rightarrow> json \<Rightarrow> metrics_root \<Rightarrow> bool \<times> metrics_root" where
  "assign_volatility f j r =
     (if f = ''sigma_1d_portfolio'' then map_prod id (\<lambda>v. r\<lparr>mx_sigma_1d_portfolio := v\<rparr>) (decode_field decode_string j (mx_sigma_1d_portfolio r))
      else map_prod id (\<lambda>v. r\<lparr>mx_by_symbol := v\<rparr>) (decode_field decode_length j (mx_by_symbol r)))"

definition assign_risk :: "string \<Rightarrow> json \<Rightarrow> metrics_root \<Rightarrow> bool \<times> metrics_root" where
  "assign_risk f j r =
     (if f = ''var_95_1d'' then map_prod id (\<lambda>v. r\<lparr>mx_var_95_1d := v\<rparr>) (decode_field decode_string j (mx_var_95_1d r))
      else if f = ''volatility'' then decode_struct [''sigma_1d_portfolio'', ''by_symbol''] assign_volatility j r
      else map_prod id (\<lambda>v. r\<lparr>mx_exposure := v\<rparr>) (decode_field decode_length j (mx_exposure r)))"

definition assign_root :: "string \<Rightarrow> json \<Rightarrow> metrics_root \<Rightarrow> bool \<times> metrics_root" where
  "assign_root f j r =
     (if f = ''portfolio'' then decode_struct [''totals''] assign_portfolio j r
      else if f = ''risk'' then decode_struct [''var_95_1d'', ''volatility'', ''exposure''] assign_risk j r
      else map_prod id (\<lambda>v. r\<lparr>mx_recent_events := v\<rparr>) (decode_field decode_length j (mx_recent_events r)))"

definition zero_root :: metrics_root where
  "zero_root = \<lparr>mx_market_value = [], mx_unrealized_pnl = [], mx_realized_pnl = [], mx_var_95_1d = [],
     mx_sigma_1d_portfolio = [], mx_by_symbol = 0, mx_exposure = 0, mx_recent_events = 0\<rparr>"

definition default_used_metrics :: "raw_message \<Rightarrow> string list" where
  "default_used_metrics ctx =
     (case unmarshal_struct [''portfolio'', ''risk'', ''recent_events''] assign_root ctx zero_root of
        (ok, r) \<Rightarrow> if \<not> ok then []
          else sort (concat (map (\<lambda>(present, path). if present then [path] else [])
            [(mx_market_value r \<noteq> [], ''portfolio.totals.market_value''),
             (mx_unrealized_pnl r \<noteq> [], ''portfolio.totals.unrealized_pnl''),
             (mx_realized_pnl r \<noteq> [], ''portfolio.totals.realized_pnl''),
             (mx_var_95_1d r \<noteq> [], ''risk.var_95_1d''),
             (mx_sigma_1d_portfolio r \<noteq> [], ''risk.volatility.sigma_1d_portfolio''),
             (0 < mx_exposure r, ''risk.exposure''),
             (0 < mx_by_symbol r, ''risk.volatility.by_symbol''),
             (0 < mx_recent_events r, ''recent_events'')])))"

fun merge_paths :: "string list \<Rightarrow> string list \<Rightarrow> string list" where
  "merge_paths [] out = out"
| "merge_paths (p # ps) out = (let p = trim_space p
     in if p = [] \<or> p \<in> set out then merge_paths ps out else merge_paths ps (out @ [p]))"

definition merge_used_metrics :: "string list \<Rightarrow> raw_message \<Rightarrow> string list" where
  "merge_used_metrics model_paths ctx =
     (let out = merge_paths model_paths [] in if out \<noteq> [] then out else default_used_metrics ctx)"

section \<open>The call\<close>

record chat_message =
  cm_role :: string
  cm_content :: string

record chat_http_request =
  cq_url :: string
  cq_bearer :: string
  cq_body :: json

text \<open>A response is its status and its body, if the body could be read.\<close>

type_synonym 'w http = "chat_http_request \<Rightarrow> 'w \<Rightarrow> (string + (int \<times> string option)) \<times> 'w"

definition chat_completion_request :: "string \<Rightarrow> chat_message list \<Rightarrow> json" where
  "chat_completion_request model ms = JObj [(''model'', JStr model),
     (''messages'', JArr (map (\<lambda>m. JObj [(''role'', JStr (cm_role m)), (''content'', JStr (cm_content m))]) ms))]"

record chat_completion_response =
  cc_choices :: "string slice"
  cc_error :: "(string \<times> string) option"

definition decode_choice :: "json \<Rightarrow> string \<Rightarrow> bool \<times> string" where
  "decode_choice = decode_struct [''message''] (\<lambda>f. decode_struct [''content''] (\<lambda>f. decode_field decode_string))"

definition assign_api_error :: "string \<Rightarrow> json \<Rightarrow> string \<times> string \<Rightarrow> bool \<times> string \<times> string" where
  "assign_api_error f j e = (if f = ''message'' then map_prod id (\<lambda>v. (v, snd e)) (decode_field decode_string j (fst e))
     else map_prod id (\<lambda>v. (fst e, v)) (decode_field decode_string j (snd e)))"

fun decode_api_error :: "json \<Rightarrow> (string \<times> string) option \<Rightarrow> bool \<times> (string \<times> string) option" where
  "decode_api_error JNull e = (True, None)"
| "decode_api_error j e = map_prod id Some
     (decode_struct [''message'', ''type''] assign_api_error j (case e of None \<Rightarrow> ([], []) | Some x \<Rightarrow> x))"

definition assign_completion :: "string \<Rightarrow> json \<Rightarrow> chat_completion_response \<Rightarrow> bool \<times> chat_completion_response" where
  "assign_completion f j r = (if f = ''choices''
     then map_prod id (\<lambda>v. r\<lparr>cc_choices := v\<rparr>) (decode_slice decode_choice [] j (cc_choices r))
     else map_prod id (\<lambda>v. r\<lparr>cc_error := v\<rparr>) (decode_api_error j (cc_error r)))"

definition trim_slashes :: "string \<Rightarrow> string" where
  "trim_slashes s = rev (dropWhile (\<lambda>c. c = CHR ''/'') (rev s))"

definition read_completion :: "int \<Rightarrow> string \<Rightarrow> string + string" where
  "read_completion status body =
     (if status < 200 \<or> 300 \<le> status then Inl (''openai: http '' @ itoa status @ '': '' @ trim_space body)
      else case unmarshal_struct [''choices'', ''error''] assign_completion (parse_json body)
             \<lparr>cc_choices = ([], 0), cc_error = None\<rparr> of (ok, r) \<Rightarrow>
        (if \<not> ok then Inl ''openai decode''
         else case (case cc_error r of None \<Rightarrow> [] | Some (m, t) \<Rightarrow> m) of
             c # m \<Rightarrow> Inl (''openai api error: '' @ c # m)
           | [] \<Rightarrow> (case slice_elements (cc_choices r) of
               [] \<Rightarrow> Inl ''openai: empty choices''
             | content # _ \<Rightarrow> (let txt = trim_space content
                 in if txt = [] then Inl ''openai: empty message content'' else Inr txt))))"

definition create_chat_completion ::
  "'w http \<Rightarrow> string \<Rightarrow> string \<Rightarrow> string \<Rightarrow> chat_message list \<Rightarrow> 'w \<Rightarrow> (string + string) \<times> 'w" where
  "create_chat_completion http api_key base_url model ms w =
     (case http \<lparr>cq_url = trim_slashes (trim_space base_url) @ ''/chat/completions'', cq_bearer = trim_space api_key,
          cq_body = chat_completion_request model ms\<rparr> w of
        (Inl e, w') \<Rightarrow> (Inl (''openai http: '' @ e), w')
      | (Inr (status, None), w') \<Rightarrow> (Inl ''openai: read body'', w')
      | (Inr (status, Some body), w') \<Rightarrow> (read_completion status body, w'))"

end
