(* ===== verification/Insights_Explain.thy ===== *)
theory Insights_Explain
  imports Insights_Ai
begin

text \<open>
  \<^verbatim>\<open>explain.go\<close> and \<^verbatim>\<open>prompt.go\<close>: from the context and the client's request to the checked answer,
  and what the check of the reply guarantees of it.
\<close>

section \<open>The prompt\<close>

definition quoted :: "string \<Rightarrow> string" where
  "quoted s = char_of (34::nat) # s @ [char_of (34::nat)]"

definition explain_system_prompt :: string where
  "explain_system_prompt = join_with [char_of (10::nat)]
    [''You are a read-only analyst for a portfolio risk API.'', [],
     ''Rules:'',
     ''- Use only numeric and categorical facts that appear in the CONTEXT JSON provided in the user message.'',
     ''- When you state a number or derived quantity, cite the JSON field path you used (e.g. risk.var_95_1d, portfolio.totals.market_value).'',
     ''- Do not claim that trades were executed, orders were placed, or that you changed any state.'',
     ''- Do not give instructions to buy, sell, or trade; do not recommend specific orders.'',
     ''- You have no database, tools, or live market access beyond the JSON in the message.'', [],
     ''Output format (strict JSON object, no markdown fences):'',
     ''{'',
     ''  '' @ quoted ''narrative'' @ '': '' @ quoted ''<short plain-language summary>'' @ '','',
     ''  '' @ quoted ''used_metrics'' @ '': ['' @ quoted ''<json path>'' @ '', '' @ quoted ''...'' @ '']'',
     ''}'', [],
     ''The used_metrics array must list every JSON path whose numeric or string value you relied on for the narrative (audit trail).'',
     ''If you omit used_metrics or leave it empty, the server will attach a conservative default path list from the CONTEXT for auditability.'']"

text \<open>The member of a document read into a map: the last one of the name.\<close>

definition member_of :: "string \<Rightarrow> (string \<times> json) list \<Rightarrow> json option" where
  "member_of k ms = map_of (rev ms) k"

definition build_user_content :: "(json \<Rightarrow> string option) \<Rightarrow> raw_message \<Rightarrow> string + string" where
  "build_user_content indent ctx =
     (case (case ctx of RawDoc (JObj ms) \<Rightarrow> Some ms | RawDoc JNull \<Rightarrow> Some [] | _ \<Rightarrow> None) of
        None \<Rightarrow> Inl ''ai: context JSON''
      | Some full \<Rightarrow>
        (let pick = (\<lambda>k z. case member_of k full of None \<Rightarrow> z | Some j \<Rightarrow> j)
         in case indent (JObj [(''portfolio'', pick ''portfolio'' JNull), (''recent_events'', pick ''recent_events'' (JArr [])),
               (''risk'', pick ''risk'' JNull), (''scenario'', JNull)]) of
            None \<Rightarrow> Inl ''ai: context JSON'' | Some txt \<Rightarrow> Inr txt))"

section \<open>The reply\<close>

definition code_fence :: string where
  "code_fence = replicate 3 (char_of (96::nat))"

text \<open>\<^verbatim>\<open>strings.LastIndex\<close> of the fence, and the text before it.\<close>

fun before_last_fence :: "string \<Rightarrow> string option" where
  "before_last_fence [] = None"
| "before_last_fence (c # s) = (case before_last_fence s of
     Some t \<Rightarrow> Some (c # t) | None \<Rightarrow> if prefix code_fence (c # s) then Some [] else None)"

definition trim_prefix :: "string \<Rightarrow> string \<Rightarrow> string" where
  "trim_prefix p s = (if prefix p s then drop (length p) s else s)"

definition strip_markdown_code_fence :: "string \<Rightarrow> string" where
  "strip_markdown_code_fence s =
     (let s = trim_space s
      in if prefix code_fence s
         then let s = trim_space (trim_prefix ''json'' (trim_prefix code_fence s))
              in trim_space (case before_last_fence s of None \<Rightarrow> s | Some t \<Rightarrow> trim_space t)
         else trim_space s)"

record structured_reply =
  sr_narrative :: string
  sr_used_metrics :: "string slice"

definition assign_structured :: "string \<Rightarrow> json \<Rightarrow> structured_reply \<Rightarrow> bool \<times> structured_reply" where
  "assign_structured f j r = (if f = ''narrative''
     then map_prod id (\<lambda>v. r\<lparr>sr_narrative := v\<rparr>) (decode_field decode_string j (sr_narrative r))
     else map_prod id (\<lambda>v. r\<lparr>sr_used_metrics := v\<rparr>) (decode_slice (decode_field decode_string) [] j (sr_used_metrics r)))"

text \<open>The decoded reply, and whether it counts as structured.\<close>

definition read_structured :: "string \<Rightarrow> bool \<times> structured_reply" where
  "read_structured txt =
     (case unmarshal_struct [''narrative'', ''used_metrics''] assign_structured (parse_json txt)
        \<lparr>sr_narrative = [], sr_used_metrics = ([], 0)\<rparr> of
      (ok, r) \<Rightarrow> (ok \<and> (sr_narrative r \<noteq> [] \<or> slice_elements (sr_used_metrics r) \<noteq> []), r))"

section \<open>Explain\<close>

record explain_input =
  ei_context_json :: raw_message
  ei_client_payload :: string
  ei_allow_symbols :: "string list"
  ei_model :: string
  ei_base_url :: string

record explain_output =
  eo_explanation :: string
  eo_used_metrics :: "string list"
  eo_model :: string

datatype explain_error = ExplainInvalid validation_error | ExplainFailed string

definition explain_answer :: "explain_input \<Rightarrow> string \<Rightarrow> string list \<Rightarrow> explain_output" where
  "explain_answer i txt used =
     \<lparr>eo_explanation = (case read_structured txt of (ok, r) \<Rightarrow> if ok then sr_narrative r else txt),
      eo_used_metrics = used, eo_model = ei_model i\<rparr>"

definition explain_reply ::
  "case_api \<Rightarrow> (string \<Rightarrow> string) \<Rightarrow> explain_input \<Rightarrow> string \<Rightarrow> explain_error + explain_output" where
  "explain_reply N quote i reply =
     (let txt = strip_markdown_code_fence reply; allow = ei_allow_symbols i;
          used = merge_used_metrics (slice_elements (sr_used_metrics (snd (read_structured txt)))) (ei_context_json i)
      in case validate_insight_output N quote allow txt used of
          None \<Rightarrow> Inr (explain_answer i txt used)
        | Some e \<Rightarrow>
          (let sanitized = sanitize_unknown_ticker_tokens txt allow;
               txt = (if ve_code e = val_reason_unknown_symbol \<and> sanitized \<noteq> txt \<and>
                   validate_insight_output N quote allow sanitized used = None then sanitized else txt)
           in case validate_insight_output N quote allow txt used of
               Some e \<Rightarrow> Inl (ExplainInvalid e) | None \<Rightarrow> Inr (explain_answer i txt used)))"

definition explain_prompt :: "string \<Rightarrow> string \<Rightarrow> chat_message list" where
  "explain_prompt client_payload facts =
     (let payload = trim_space client_payload; payload = (if payload = [] then ''{}'' else payload); nl = char_of (10::nat)
      in [\<lparr>cm_role = ''system'', cm_content = explain_system_prompt\<rparr>,
          \<lparr>cm_role = ''user'', cm_content =
             ''OPTIONAL_CLIENT_REQUEST (non-authoritative; do not invent facts from unknown keys):'' @ [nl] @ payload @
             [nl, nl] @ ''CONTEXT:'' @ [nl] @ facts\<rparr>])"

definition explain ::
  "case_api \<Rightarrow> (string \<Rightarrow> string) \<Rightarrow> (json \<Rightarrow> string option) \<Rightarrow> 'w http \<Rightarrow> string \<Rightarrow> explain_input \<Rightarrow> 'w \<Rightarrow>
   (explain_error + explain_output) \<times> 'w" where
  "explain N quote indent http api_key i w =
     (if ei_context_json i = RawEmpty then (Inl (ExplainFailed ''ai explain: missing context JSON''), w)
      else case build_user_content indent (ei_context_json i) of
          Inl e \<Rightarrow> (Inl (ExplainFailed e), w)
        | Inr facts \<Rightarrow>
          (case create_chat_completion http api_key (ei_base_url i) (ei_model i)
              (explain_prompt (ei_client_payload i) facts) w of
             (Inl e, w') \<Rightarrow> (Inl (ExplainFailed e), w')
           | (Inr reply, w') \<Rightarrow> (explain_reply N quote i reply, w')))"

section \<open>Words\<close>

text \<open>A ticker-like token is a maximal run of word characters that are all capitals, five at most.\<close>

lemma is_upper_word: "is_upper c \<Longrightarrow> word_char c"
  by (simp add: word_char_def)

lemma ticker_length_run:
  "ticker_length s = (let run = takeWhile word_char s
     in if run \<noteq> [] \<and> length run \<le> 5 \<and> list_all is_upper run then Some (length run) else None)"
proof -
  let ?run = "takeWhile word_char s"
  have iff: "k \<le> length s \<and> list_all is_upper (take k s) \<and> (drop k s = [] \<or> \<not> word_char (hd (drop k s))) \<longleftrightarrow>
      k = length ?run \<and> list_all is_upper ?run" for k
  proof
    assume a: "k \<le> length s \<and> list_all is_upper (take k s) \<and> (drop k s = [] \<or> \<not> word_char (hd (drop k s)))"
    have "takeWhile word_char (take k s @ drop k s) = take k s"
      using a by (subst takeWhile_append2) (auto simp: list_all_iff takeWhile_eq_Nil_iff is_upper_word)
    then have "?run = take k s" by simp
    then show "k = length ?run \<and> list_all is_upper ?run" using a by simp
  next
    assume a: "k = length ?run \<and> list_all is_upper ?run"
    have "take k s = ?run" "drop k s = dropWhile word_char s"
      using a takeWhile_eq_take [of word_char s] dropWhile_eq_drop [of word_char s] by simp_all
    then show "k \<le> length s \<and> list_all is_upper (take k s) \<and> (drop k s = [] \<or> \<not> word_char (hd (drop k s)))"
      using a length_takeWhile_le [of word_char s] hd_dropWhile [of word_char s]
      by (simp del: dropWhile_eq_Nil_conv) blast
  qed
  have l: "find (\<lambda>k. k = n \<and> P) ns = (if n \<in> set ns \<and> P then Some n else None)" for n :: nat and P ns
    by (induction ns) auto
  have five: "n \<in> set [5, 4, 3, 2, 1] \<longleftrightarrow> n \<noteq> 0 \<and> n \<le> 5" for n :: nat
    by (simp, presburger)
  show ?thesis
    unfolding ticker_length_def iff l five by (simp only: Let_def length_0_conv conj_assoc)
qed

lemma ticker_length_cong: "takeWhile word_char s = takeWhile word_char t \<Longrightarrow> ticker_length s = ticker_length t"
  by (simp add: ticker_length_run)

text \<open>What a replacement that keeps the words does to the text: \<open>glue\<close> is the text of the parts.\<close>

definition glue :: "(string \<Rightarrow> string) \<Rightarrow> (char + string) list \<Rightarrow> string" where
  "glue f ps = concat (map (\<lambda>p. case p of Inl c \<Rightarrow> [c] | Inr t \<Rightarrow> f t) ps)"

lemma glue_simps [simp]: "glue f [] = []" "glue f (Inl c # ps) = c # glue f ps" "glue f (Inr t # ps) = f t @ glue f ps"
  by (simp_all add: glue_def)

definition tokens :: "(char + string) list \<Rightarrow> string list" where
  "tokens ps = List.map_filter (\<lambda>p. case p of Inl c \<Rightarrow> None | Inr t \<Rightarrow> Some t) ps"

lemma tokens_simps [simp]: "tokens [] = []" "tokens (Inl c # ps) = tokens ps" "tokens (Inr t # ps) = t # tokens ps"
  by (simp_all add: tokens_def List.map_filter_def)

lemma ticker_found:
  assumes "ticker_length s = Some k"
  shows "k = length (takeWhile word_char s)" "take k s = takeWhile word_char s" "drop k s = dropWhile word_char s"
    "takeWhile word_char s \<noteq> []" "ticker_length (takeWhile word_char s @ t) = Some k \<longleftrightarrow> takeWhile word_char t = []"
proof -
  let ?run = "takeWhile word_char s"
  have k: "?run \<noteq> []" "length ?run \<le> 5" "list_all is_upper ?run" "k = length ?run"
    using assms by (auto simp: ticker_length_run Let_def split: if_splits)
  then show "k = length ?run" "?run \<noteq> []" "take k s = ?run" "drop k s = dropWhile word_char s"
    using takeWhile_eq_take [of word_char s] dropWhile_eq_drop [of word_char s] by simp_all
  have "takeWhile word_char (?run @ t) = ?run @ takeWhile word_char t"
    by (rule takeWhile_append2) (auto dest: set_takeWhileD)
  then show "ticker_length (?run @ t) = Some k \<longleftrightarrow> takeWhile word_char t = []"
    using k by (auto simp: ticker_length_run Let_def)
qed

text \<open>Inside a word the text does not change; after it, at most what stands between blanks.\<close>

lemma glue_word: "takeWhile word_char (glue f (ticker_parts True s)) = takeWhile word_char s"
  by (induction s) auto

lemma hidden_word: "list_all word_char u \<Longrightarrow> ticker_parts True (u @ s) = map Inl u @ ticker_parts True s"
  by (induction u) auto

lemma ticker_parts_found:
  "ticker_length s = Some k \<Longrightarrow> ticker_parts False s = Inr (take k s) # ticker_parts True (drop k s)"
  by (cases s) (auto simp: ticker_length_run)

lemma asset_hidden: "tokens (ticker_parts False (''asset'' @ s)) = tokens (ticker_parts True s)"
proof -
  have w: "word_char CHR ''a''" "\<not> is_upper CHR ''a''" "list_all word_char ''sset''" by code_simp+
  then have "ticker_length (''asset'' @ s) = None" by (simp add: ticker_length_run)
  then have "ticker_parts False (''asset'' @ s) = Inl CHR ''a'' # ticker_parts True (''sset'' @ s)" using w by simp
  also have "ticker_parts True (''sset'' @ s) = map Inl ''sset'' @ ticker_parts True s" by (rule hidden_word [OF w(3)])
  finally show ?thesis by simp
qed

lemma takeWhile_dropWhile_same: "takeWhile P (dropWhile P xs) = []"
  by (induction xs) auto

lemma ticker_capitals: "ticker_length s = Some k \<Longrightarrow> list_all is_upper (take k s)"
  using ticker_found(2) [of s k] by (auto simp: ticker_length_run Let_def split: if_splits)

lemma no_capitals: "\<not> list_all is_upper ''asset''"
  by code_simp

lemma token_capitals: "t \<in> set (tokens (ticker_parts p s)) \<Longrightarrow> list_all is_upper t"
proof (induction p s rule: ticker_parts.induct)
  case (2 p c s)
  then show ?case by (auto simp del: take_Suc_Cons split: option.splits if_splits dest: ticker_capitals)
qed simp

text \<open>Replacing tokens by themselves or by a word in small letters leaves exactly the tokens that were kept.\<close>

lemma tokens_after_replacement:
  assumes "\<And>t. f t = t \<or> f t = ''asset''"
  shows "tokens (ticker_parts p (glue f (ticker_parts p s))) = filter (\<lambda>t. f t = t) (tokens (ticker_parts p s))"
proof (induction p s rule: ticker_parts.induct)
  case (1 p)
  then show ?case by simp
next
  case (2 p c s)
  show ?case
  proof (cases "if p then None else ticker_length (c # s)")
    case None
    let ?g = "glue f (ticker_parts (word_char c) s)"
    have "(if p then None else ticker_length (c # ?g)) = None"
    proof (cases "p \<or> \<not> word_char c")
      case True
      then show ?thesis by (auto simp: ticker_length_run)
    next
      case False
      then have "takeWhile word_char (c # ?g) = takeWhile word_char (c # s)" using glue_word [of f s] by simp
      then show ?thesis using None False ticker_length_cong by metis
    qed
    then show ?thesis using None 2(1) [OF None] by simp
  next
    case (Some k)
    then have np: "\<not> p" and k: "ticker_length (c # s) = Some k" by (auto split: if_splits)
    let ?run = "take k (c # s)" and ?rest = "glue f (ticker_parts True (drop k (c # s)))"
    have parts: "ticker_parts p (c # s) = Inr ?run # ticker_parts True (drop k (c # s))"
      using ticker_parts_found [OF k] np by simp
    note IH = 2(2) [OF Some]
    have end_of_word: "takeWhile word_char ?rest = []"
      unfolding glue_word ticker_found(3) [OF k] by (rule takeWhile_dropWhile_same)
    have na: "?run \<noteq> ''asset''" using ticker_capitals [OF k] no_capitals by metis
    show ?thesis
    proof (cases "f ?run = ?run")
      case True
      have "ticker_length (?run @ ?rest) = Some k"
        using ticker_found(2,5) [OF k] end_of_word by simp
      moreover have "take k (?run @ ?rest) = ?run" "drop k (?run @ ?rest) = ?rest"
        using ticker_found(1,2) [OF k] by (simp_all add: length_takeWhile_le)
      ultimately have "ticker_parts False (?run @ ?rest) = Inr ?run # ticker_parts True ?rest"
        using ticker_parts_found [of "?run @ ?rest" k] by simp
      then show ?thesis using parts np True IH by simp
    next
      case False
      then have "f ?run = ''asset''" using assms by metis
      then show ?thesis using parts np False IH na asset_hidden [of ?rest] by simp
    qed
  qed
qed

lemma find_tickers_replaced:
  "(\<And>t. f t = t \<or> f t = ''asset'') \<Longrightarrow> find_tickers (replace_tickers f s) = filter (\<lambda>t. f t = t) (find_tickers s)"
  using tokens_after_replacement [of f False s] by (simp add: find_tickers_def replace_tickers_def tokens_def glue_def)

lemma unknown_ticker_sanitized: "unknown_ticker allow (sanitize_unknown_ticker_tokens txt allow) = None"
proof -
  have "''asset'' \<notin> set (find_tickers txt)"
    using token_capitals [of "''asset''" False "txt"] no_capitals by (auto simp: find_tickers_def tokens_def)
  then show ?thesis
    unfolding unknown_ticker_def sanitize_unknown_ticker_tokens_def
    by (subst find_tickers_replaced) (auto simp: find_None_iff split: if_splits)
qed

section \<open>What an accepted reply satisfies\<close>

lemma validate_None:
  "validate_insight_output N quote allow txt used = None \<longleftrightarrow>
    txt = [] \<or> \<not> banned N txt \<and> \<not> sql_probe txt \<and> bad_used_metric used = None \<and> unknown_ticker allow txt = None"
  by (auto simp: validate_insight_output_def split: option.splits)

lemma bad_used_metric_None:
  "bad_used_metric ms = None \<longleftrightarrow> (\<forall>m\<in>set ms. trim_space m = [] \<or> used_metric_allowed (trim_space m))"
  by (auto simp: bad_used_metric_def find_None_iff)

lemma explain_reply_accepted:
  assumes "explain_reply N quote i reply = Inr out"
  obtains t used where "t = strip_markdown_code_fence reply \<or>
      t = sanitize_unknown_ticker_tokens (strip_markdown_code_fence reply) (ei_allow_symbols i)"
    "used = merge_used_metrics (slice_elements (sr_used_metrics (snd (read_structured (strip_markdown_code_fence reply)))))
      (ei_context_json i)"
    "validate_insight_output N quote (ei_allow_symbols i) t used = None" "out = explain_answer i t used"
  using assms by (auto simp: explain_reply_def Let_def split: option.splits if_splits)

text \<open>A path without a member or an index is refused, so is \<^verbatim>\<open>recent_events\<close> itself.\<close>

lemma recent_events_refused: "\<not> used_metric_allowed ''recent_events''"
  by code_simp

lemma recent_events_trimmed: "trim_space ''recent_events'' = ''recent_events''"
  by (rule trim_plain(2)) code_simp

lemma default_lists_events:
  assumes "unmarshal_struct [''portfolio'', ''risk'', ''recent_events''] assign_root ctx zero_root = (True, r)"
    and "0 < mx_recent_events r"
  shows "''recent_events'' \<in> set (default_used_metrics ctx)"
  using assms by (simp add: default_used_metrics_def)

lemma explain_cases:
  assumes "explain N quote indent http key i w = (Inr out, w')"
  obtains facts reply where "create_chat_completion http key (ei_base_url i) (ei_model i)
      (explain_prompt (ei_client_payload i) facts) w = (Inr reply, w')"
    "explain_reply N quote i reply = Inr out"
  using assms by (auto simp: explain_def split: if_splits sum.splits prod.splits)

definition context_has_events :: "raw_message \<Rightarrow> bool" where
  "context_has_events ctx \<longleftrightarrow> (case unmarshal_struct [''portfolio'', ''risk'', ''recent_events''] assign_root ctx zero_root of
     (ok, r) \<Rightarrow> ok \<and> 0 < mx_recent_events r)"


text \<open>
  The check is of the text: with an escape in it, a banned phrase is decoded after the check and
  returned. The reply here is \<^verbatim>\<open>{"narrative":"\u0049\u0020sold","used_metrics":["risk.var_95_1d"]}\<close>.
\<close>

definition sample_reply :: string where
  "sample_reply = (let bs = char_of (92::nat) in ''{'' @ quoted ''narrative'' @ '':'' @
     quoted (bs # ''u0049'' @ bs # ''u0020sold'') @ '','' @ quoted ''used_metrics'' @ '':['' @ quoted ''risk.var_95_1d'' @ '']}'')"

fun escaped :: "string \<Rightarrow> string" where
  "escaped [] = []"
| "escaped (c # s) = (if c \<in> {char_of (34::nat), char_of (92::nat)} then char_of (92::nat) # c # escaped s else c # escaped s)"

definition sample_completion :: string where
  "sample_completion = ''{'' @ quoted ''choices'' @ '':[{'' @ quoted ''message'' @ '':{'' @ quoted ''content'' @ '':'' @
     quoted (escaped sample_reply) @ ''}}]}''"

definition sample_input :: explain_input where
  "sample_input = \<lparr>ei_context_json = RawDoc (JObj [(''recent_events'', JArr [JObj []])]), ei_client_payload = ''{}'',
     ei_allow_symbols = [''AAPL''], ei_model = ''m'', ei_base_url = ''u''\<rparr>"

lemma sample_reply_plain: "list_all (\<lambda>c. 32 < (of_char c :: nat) \<and> (of_char c :: nat) < 128) sample_reply"
  by code_simp

lemma sample_completion_parsed: "parse_json sample_completion =
    RawDoc (JObj [(''choices'', JArr [JObj [(''message'', JObj [(''content'', JStr sample_reply)])]])])"
  by code_simp

lemma sample_reply_parsed: "parse_json sample_reply =
    RawDoc (JObj [(''narrative'', JStr ''I sold''), (''used_metrics'', JArr [JStr ''risk.var_95_1d''])])"
  by code_simp

definition feasible :: "piece list \<Rightarrow> char set \<Rightarrow> bool" where
  "feasible ps A \<longleftrightarrow> (Spaces \<in> set ps \<longrightarrow> (\<exists>c\<in>A. regex_space c)) \<and>
     (\<forall>c. Lit c \<in> set ps \<longrightarrow> (\<exists>v\<in>set (case_forms c). set v \<subseteq> A))"

lemma feasible_mono: "feasible ps A \<Longrightarrow> A \<subseteq> B \<Longrightarrow> feasible ps B"
  unfolding feasible_def by blast

lemma feasible_simps: "feasible [] A" "feasible (OptSpaces # ps) A = feasible ps A"
  "feasible (Spaces # ps) A = ((\<exists>c\<in>A. regex_space c) \<and> feasible ps A)"
  "feasible (Lit c # ps) A = ((\<exists>v\<in>set (case_forms c). set v \<subseteq> A) \<and> feasible ps A)"
  by (auto simp: feasible_def)

lemma matches_here_feasible: "matches_here ps s \<Longrightarrow> feasible ps (set s)"
proof (induction ps s rule: matches_here.induct)
  case (1 s)
  show ?case by (rule feasible_simps)
next
  case (2 c ps s)
  then obtain v where v: "v \<in> set (case_forms c)" "prefix v s" "matches_here ps (drop (length v) s)"
    by (auto simp: list_ex_iff)
  have "set (drop (length v) s) \<subseteq> set s" "set v \<subseteq> set s" using v(2) by (auto dest: in_set_dropD elim: prefixE)
  then show ?case using feasible_mono [OF 2(1) [OF v(1,3)]] v(1) by (auto simp: feasible_simps)
next
  case (3 ps s)
  then obtain c r where s: "s = c # r" "regex_space c" "matches_here (OptSpaces # ps) r"
    by (auto split: list.splits if_splits)
  have "feasible ps (set s)" using feasible_mono [OF 3(1) [OF s]] s(1) by (auto simp: feasible_simps)
  then show ?case using s(1,2) by (auto simp: feasible_simps)
next
  case (4 ps s)
  show ?case
  proof (cases "matches_here ps s")
    case True
    then show ?thesis using 4(1) by (simp add: feasible_simps)
  next
    case False
    then obtain c r where s: "s = c # r" "regex_space c" "matches_here (OptSpaces # ps) r"
      using 4(3) by (auto split: list.splits if_splits)
    show ?thesis using feasible_mono [OF 4(2) [OF False s]] s(1) by (auto simp: feasible_simps)
  qed
qed

lemma matches_somewhere_feasible: "matches_somewhere ps s \<Longrightarrow> feasible ps (set s)"
  by (induction s) (auto dest: matches_here_feasible elim: feasible_mono)

lemma sample_reply_chars: "list_all (\<lambda>c. \<not> regex_space c \<and> c \<noteq> CHR ''x'' \<and> c \<noteq> CHR ''X'') sample_reply"
  by code_simp

lemma sample_reply_no_sql: "\<not> sql_probe sample_reply"
proof -
  have x: "case_forms CHR ''x'' = [''x'', ''X'']" by code_simp
  have p: "list_all (\<lambda>ps. Spaces \<in> set ps \<or> Lit CHR ''x'' \<in> set ps) sql_probes" by code_simp
  have "\<not> feasible ps (set sample_reply)" if "ps \<in> set sql_probes" for ps
  proof
    assume f: "feasible ps (set sample_reply)"
    have "(\<exists>c\<in>set sample_reply. regex_space c) \<or> (\<exists>v\<in>{''x'', ''X''}. set v \<subseteq> set sample_reply)"
      using f p that x unfolding feasible_def list_all_iff by (metis list.set(1,2))
    then show False using sample_reply_chars by (auto simp: list_all_iff)
  qed
  then show ?thesis using matches_somewhere_feasible by (auto simp: sql_probe_def list_ex_iff)
qed

lemma sample_reply_checked:
  "find_tickers sample_reply = []" "\<not> prefix code_fence sample_reply" "sample_reply \<noteq> []" "\<not> banned ref_case sample_reply"
  by code_simp+

lemma sample_stripped: "strip_markdown_code_fence sample_reply = sample_reply"
  using trim_plain(2) [OF sample_reply_plain] sample_reply_checked(2) by (simp add: strip_markdown_code_fence_def)

lemma sample_read: "read_structured sample_reply =
    (True, \<lparr>sr_narrative = ''I sold'', sr_used_metrics = ([''risk.var_95_1d''], 1)\<rparr>)"
  by (simp add: read_structured_def sample_reply_parsed field_match_def assign_structured_def decode_field_def slice_elements_def)

lemma sample_completion_read: "read_completion 200 sample_completion = Inr sample_reply"
  using trim_plain(2) [OF sample_reply_plain] sample_reply_checked(3)
  by (simp add: read_completion_def sample_completion_parsed field_match_def assign_completion_def decode_choice_def
      decode_field_def slice_elements_def)

lemma sample_answered: "explain ref_case (\<lambda>s. s) (\<lambda>j. Some []) (\<lambda>q w. (Inr (200, Some sample_completion), w)) ''k'' sample_input w =
    (Inr \<lparr>eo_explanation = ''I sold'', eo_used_metrics = [''risk.var_95_1d''], eo_model = ''m''\<rparr>, w)"
proof -
  note r = sample_completion_read
  have m: "trim_space ''risk.var_95_1d'' = ''risk.var_95_1d''" by (rule trim_plain(2)) code_simp
  have a: "used_metric_allowed ''risk.var_95_1d''" by code_simp
  have v: "validate_insight_output ref_case (\<lambda>s. s) [''AAPL''] sample_reply [''risk.var_95_1d''] = None"
    using sample_reply_checked sample_reply_no_sql m a
    by (simp add: validate_None bad_used_metric_None unknown_ticker_def)
  show ?thesis using r m v
    by (simp add: explain_def sample_input_def build_user_content_def member_of_def create_chat_completion_def explain_reply_def
        sample_stripped sample_read slice_elements_def merge_used_metrics_def Let_def explain_answer_def)
qed


end
