(* ===== verification/Insights_Api.thy ===== *)
theory Insights_Api
  imports Insights_Explain Portfolio_Api
begin

text \<open>
  The insights endpoint: the context of a request (\<^verbatim>\<open>insights_contract.go\<close>) with its JSON, the redacted
  events (\<^verbatim>\<open>insights_redact.go\<close>), the symbols a reply may name (\<^verbatim>\<open>insights_allowlist.go\<close>), the service of
  \<^verbatim>\<open>internal/insights/openai.go\<close> and the handler (\<^verbatim>\<open>insights_handler.go\<close>).
\<close>

section \<open>The context\<close>

record insights_event_summary =
  ie_event_id :: string
  ie_event_type :: string
  ie_event_time :: string
  ie_source :: string
  ie_summary :: "(string \<times> string) list"

record 'd insights_explain_context =
  ic_portfolio_id :: string
  ic_portfolio :: portfolio_view
  ic_risk :: "'d risk_http_response"
  ic_recent_events :: "insights_event_summary list"
  ic_client_payload :: string

record 'd insights_explain_response =
  ix_context :: "'d insights_explain_context"
  ix_explanation :: string
  ix_used_metrics :: "string list"
  ix_model :: string

definition insights_recent_events_limit :: int where
  "insights_recent_events_limit = 20"

definition event_summary_for_insights ::
  "'d decimal_api \<Rightarrow> 'd json_api \<Rightarrow> uuid_api \<Rightarrow> event_envelope \<Rightarrow> insights_event_summary" where
  "event_summary_for_insights D J U ev = \<lparr>ie_event_id = uuid_str U (event_id ev), ie_event_type = event_type ev,
     ie_event_time = format_rfc3339_nano (event_time ev), ie_source = source ev,
     ie_summary =
       (if event_type ev = event_type_trade_executed then (case decode_trade D J (payload ev) of
            None \<Rightarrow> []
          | Some t \<Rightarrow> (if symbol t = [] then [] else [(''symbol'', symbol t)]) @ (if side t = [] then [] else [(''side'', side t)]))
        else if event_type ev = event_type_price_updated then (case decode_price D J (payload ev) of
            None \<Rightarrow> []
          | Some p \<Rightarrow> (if p_symbol p = [] then [] else [(''symbol'', p_symbol p)]))
        else [(''event_type'', event_type ev)])\<rparr>"

definition symbol_allowlist :: "case_api \<Rightarrow> 'd insights_explain_context \<Rightarrow> string list" where
  "symbol_allowlist N ctx = filter (\<lambda>s. s \<noteq> []) (map (\<lambda>s. to_upper N (trim_space s))
     (map pp_symbol (pv_positions (ic_portfolio ctx)) @ pv_unpriced_symbols (ic_portfolio ctx) @
      map re_symbol (rr_exposure (ic_risk ctx)) @ map re_symbol (rr_top_n (ic_risk ctx)) @
      map fst (rr_sigma_by_symbol (ic_risk ctx))))"

section \<open>Its JSON\<close>

text \<open>A value that cannot be written makes the whole document fail.\<close>

definition obj :: "(string \<times> json option) list \<Rightarrow> json option" where
  "obj ms = map_option JObj (those (map (\<lambda>(k, j). map_option (Pair k) j) ms))"

definition arr :: "json option list \<Rightarrow> json option" where
  "arr js = map_option JArr (those js)"

definition jstr :: "string \<Rightarrow> json option" where
  "jstr s = Some (JStr s)"

definition jnum :: "int \<Rightarrow> json option" where
  "jnum i = Some (JNum (int_literal i))"

text \<open>\<^verbatim>\<open>omitempty\<close> for pointers, slices and strings.\<close>

definition if_some :: "string \<Rightarrow> ('a \<Rightarrow> json option) \<Rightarrow> 'a option \<Rightarrow> (string \<times> json option) list" where
  "if_some k f x = (case x of None \<Rightarrow> [] | Some y \<Rightarrow> [(k, f y)])"

definition if_any :: "string \<Rightarrow> ('a \<Rightarrow> json option) \<Rightarrow> 'a list \<Rightarrow> (string \<times> json option) list" where
  "if_any k f xs = (if xs = [] then [] else [(k, arr (map f xs))])"

definition if_text :: "string \<Rightarrow> string \<Rightarrow> (string \<times> json option) list" where
  "if_text k s = (if s = [] then [] else [(k, jstr s)])"

definition uuid_json :: "uuid_api \<Rightarrow> uuid \<Rightarrow> json option" where
  "uuid_json U u = jstr (uuid_str U u)"

definition read_as_of_json :: "uuid_api \<Rightarrow> read_as_of_ref \<Rightarrow> json option" where
  "read_as_of_json U r = obj ([(''event_id'', uuid_json U (ra_event_id r)), (''event_time'', marshal_time (ra_event_time r))] @
     if_some ''processing_time'' marshal_time (ra_processing_time r))"

definition price_mark_as_of_json :: "uuid_api \<Rightarrow> price_mark_as_of \<Rightarrow> json option" where
  "price_mark_as_of_json U r = obj ([(''symbol'', jstr (pa_symbol r)), (''event_id'', uuid_json U (pa_event_id r)),
     (''event_time'', marshal_time (pa_event_time r))] @ if_some ''processing_time'' marshal_time (pa_processing_time r))"

definition position_json :: "portfolio_position \<Rightarrow> json option" where
  "position_json p = obj ([(''symbol'', jstr (pp_symbol p)), (''quantity'', jstr (pp_quantity p)),
     (''average_cost'', jstr (pp_average_cost p)), (''realized_pnl'', jstr (pp_realized_pnl p))] @
     if_text ''last_price'' (pp_last_price p) @ if_text ''market_value'' (pp_market_value p) @
     if_text ''unrealized_pnl'' (pp_unrealized_pnl p))"

definition totals_json :: "portfolio_totals_view \<Rightarrow> json option" where
  "totals_json t = obj [(''market_value'', jstr (tv_market_value t)), (''realized_pnl'', jstr (tv_realized_pnl t)),
     (''unrealized_pnl'', jstr (tv_unrealized_pnl t))]"

definition lineage_json ::
  "uuid_api \<Rightarrow> uuid list \<Rightarrow> read_as_of_ref option \<Rightarrow> price_mark_as_of list \<Rightarrow> uuid option \<Rightarrow> time option \<Rightarrow> time option \<Rightarrow>
   (string \<times> json option) list" where
  "lineage_json U drv pos prices eid et pt = if_any ''driving_event_ids'' (uuid_json U) drv @
     if_some ''as_of_positions'' (read_as_of_json U) pos @ if_any ''as_of_prices'' (price_mark_as_of_json U) prices @
     if_some ''as_of_event_id'' (uuid_json U) eid @ if_some ''as_of_event_time'' marshal_time et @
     if_some ''as_of_processing_time'' marshal_time pt"

definition portfolio_view_json :: "uuid_api \<Rightarrow> portfolio_view \<Rightarrow> json option" where
  "portfolio_view_json U v = obj ([(''portfolio_id'', jstr (pv_portfolio_id v)),
     (''positions'', arr (map position_json (pv_positions v))), (''unpriced_symbols'', arr (map jstr (pv_unpriced_symbols v))),
     (''totals'', totals_json (pv_totals v))] @
     lineage_json U (pv_driving_event_ids v) (pv_as_of_positions v) (pv_as_of_prices v) (pv_as_of_event_id v)
       (pv_as_of_event_time v) (pv_as_of_processing_time v))"

definition exposure_json :: "risk_exposure_dto \<Rightarrow> json option" where
  "exposure_json e = obj [(''symbol'', jstr (re_symbol e)), (''exposure'', jstr (re_exposure e)), (''weight'', jstr (re_weight e))]"

definition risk_json :: "'d json_api \<Rightarrow> uuid_api \<Rightarrow> 'd risk_http_response \<Rightarrow> json option" where
  "risk_json J U r = (let a = rr_assumptions r; dec = (\<lambda>x. Some (d_marshal J x)) in
     obj ([(''portfolio_id'', jstr (rr_portfolio_id r)), (''exposure'', arr (map exposure_json (rr_exposure r))),
       (''concentration'', obj (if_any ''top_n'' exposure_json (rr_top_n r) @ [(''hhi'', jstr (rr_hhi r))])),
       (''volatility'', obj ([(''sigma_1d_portfolio'', jstr (rr_sigma_1d_portfolio r))] @
         if_any ''by_symbol'' (\<lambda>(s, x). obj [(''symbol'', jstr s), (''sigma_1d'', jstr x)]) (rr_sigma_by_symbol r))),
       (''var_95_1d'', jstr (rr_var_95_1d r)),
       (''assumptions'', obj [(''confidence'', dec (as_confidence a)), (''horizon_days'', dec (as_horizon_days a)),
         (''z_score'', dec (as_z_score a)), (''volatility_convention'', jstr (as_volatility_convention a)),
         (''model'', jstr (as_model a))]),
       (''metadata'', obj [(''sigma_window_n'', jnum (rr_sigma_window_n r)),
         (''min_daily_returns_required'', jnum (rr_min_daily_returns_required r))])] @
      lineage_json U (rr_driving_event_ids r) (rr_as_of_positions r) (rr_as_of_prices r) (rr_as_of_event_id r)
        (rr_as_of_event_time r) (rr_as_of_processing_time r)))"

definition event_summary_json :: "insights_event_summary \<Rightarrow> json option" where
  "event_summary_json e = obj ([(''event_id'', jstr (ie_event_id e)), (''event_type'', jstr (ie_event_type e)),
     (''event_time'', jstr (ie_event_time e))] @ if_text ''source'' (ie_source e) @
     [(''summary'', obj (map (\<lambda>(k, v). (k, jstr v)) (sort_key fst (ie_summary e))))])"

text \<open>A raw message is written only if it is a document.\<close>

definition raw_json_text :: "string \<Rightarrow> json option" where
  "raw_json_text s = (case parse_json s of RawDoc j \<Rightarrow> Some j | _ \<Rightarrow> None)"

definition insights_context_json :: "'d json_api \<Rightarrow> uuid_api \<Rightarrow> 'd insights_explain_context \<Rightarrow> json option" where
  "insights_context_json J U c = obj ([(''portfolio_id'', jstr (ic_portfolio_id c)),
     (''portfolio'', portfolio_view_json U (ic_portfolio c)), (''risk'', risk_json J U (ic_risk c)),
     (''recent_events'', arr (map event_summary_json (ic_recent_events c)))] @
     (if ic_client_payload c = [] then [] else [(''client_payload'', raw_json_text (ic_client_payload c))]))"

section \<open>The service\<close>

record openai_service =
  os_api_key :: string
  os_base_url :: string
  os_model :: string

definition default_openai_base_url :: string where
  "default_openai_base_url = ''https://api.openai.com/v1''"

definition default_openai_model :: string where
  "default_openai_model = ''gpt-4o-mini''"

definition new_openai_service :: "string \<Rightarrow> string \<Rightarrow> string \<Rightarrow> openai_service" where
  "new_openai_service api_key base_url model =
     (let base_url = trim_space base_url; base_url = (if base_url = [] then default_openai_base_url else base_url);
          model = trim_space model
      in \<lparr>os_api_key = trim_space api_key, os_base_url = trim_slashes base_url,
          os_model = (if model = [] then default_openai_model else model)\<rparr>)"

record 'w ai_env =
  ai_quote :: "string \<Rightarrow> string"
  ai_indent :: "json \<Rightarrow> string option"
  ai_http :: "'w http"

definition service_explain ::
  "case_api \<Rightarrow> 'd json_api \<Rightarrow> uuid_api \<Rightarrow> 'w ai_env \<Rightarrow> openai_service \<Rightarrow> 'd insights_explain_context \<Rightarrow> 'w \<Rightarrow>
   (explain_error + explain_output) \<times> 'w" where
  "service_explain N J U E s ctx w =
     (if os_api_key s = [] then (Inl (ExplainFailed ''openai: missing api key''), w)
      else case insights_context_json J U ctx of
          None \<Rightarrow> (Inl (ExplainFailed ''json: cannot marshal''), w)
        | Some doc \<Rightarrow> explain N (ai_quote E) (ai_indent E) (ai_http E) (os_api_key s)
            \<lparr>ei_context_json = RawDoc doc, ei_client_payload = ic_client_payload ctx,
             ei_allow_symbols = symbol_allowlist N ctx, ei_model = os_model s, ei_base_url = os_base_url s\<rparr> w)"

section \<open>The handler\<close>

fun insights_risk_error :: "string \<Rightarrow> risk_error \<Rightarrow> http_response" where
  "insights_risk_error rid (RiskUnpricedPositions ss) = api_error_with rid 422 err_code_insufficient_data
     ''one or more open positions lack a price mark''
     [(''reason'', JStr ''UNPRICED_OPEN_POSITIONS''), (''unpriced_symbols'', symbols_json ss)]"
| "insights_risk_error rid (RiskInsufficientReturnHistory ss n window) = api_error_with rid 422 err_code_insufficient_data
     ''insufficient daily return history for volatility estimate''
     [(''reason'', JStr ''INSUFFICIENT_RETURN_HISTORY''), (''symbols'', symbols_json ss),
      (''min_daily_returns_required'', JNum (int_literal n)), (''sigma_window_n'', JNum (int_literal window))]"
| "insights_risk_error rid (RiskFailed e) = internal_error rid"

fun explain_error_response :: "string \<Rightarrow> explain_error \<Rightarrow> http_response" where
  "explain_error_response rid (ExplainInvalid e) = api_error_with rid 400 err_code_validation ''model output failed validation''
     [(''code'', JStr (ve_code e)), (''detail'', JStr (ve_detail e))]"
| "explain_error_response rid (ExplainFailed e) = api_error rid 502 err_code_internal ''upstream insights provider failed''"

record ('w, 'd) risk_read_store =
  rs_counts :: "string list \<Rightarrow> int \<Rightarrow> ('w, (string \<times> int) list) prog"
  rs_sigma :: "string list \<Rightarrow> int \<Rightarrow> ('w, (string \<times> 'd) list) prog"
  rs_recent :: "uuid \<Rightarrow> int \<Rightarrow> ('w, event_envelope list) prog"

definition post_insights_explain_handler ::
  "'d decimal_api \<Rightarrow> 'd float_api \<Rightarrow> 'd json_api \<Rightarrow> uuid_api \<Rightarrow> case_api \<Rightarrow> (string list \<Rightarrow> string list) \<Rightarrow> 'w ai_env \<Rightarrow>
   (uuid \<Rightarrow> ('w, 'd portfolio_assembler_input option) prog) \<Rightarrow> (uuid \<Rightarrow> uuid \<Rightarrow> ('w, bool) prog) option \<Rightarrow>
   ('w, 'd) risk_read_store option \<Rightarrow> openai_service option \<Rightarrow> uuid list \<Rightarrow> int \<Rightarrow> string \<Rightarrow> uuid option \<Rightarrow> string \<Rightarrow>
   string \<Rightarrow> 'w \<Rightarrow> (http_response + 'd insights_explain_response) \<times> 'w" where
  "post_insights_explain_handler D F J U N iter E load checker risk svc partitions sigma_window_n rid user raw_id body w =
     (let raw = (if body = [] then ''{}'' else body)
      in case load_portfolio_base_state D U load checker partitions rid user raw_id w of
        (Inl r, w1) \<Rightarrow> (Inl r, w1)
      | (Inr base, w1) \<Rightarrow> (case risk of
          None \<Rightarrow> (Inl (api_error_with rid 503 err_code_insufficient_data ''insights explain requires risk read support''
            [(''reason'', JStr ''INSIGHTS_RISK_READ_UNAVAILABLE'')]), w1)
        | Some store \<Rightarrow>
          (case build_risk_http_response D F U iter (rs_counts store) (rs_sigma store) base sigma_window_n w1 of
            (Inl e, w2) \<Rightarrow> (Inl (insights_risk_error rid e), w2)
          | (Inr dto, w2) \<Rightarrow>
            (case rs_recent store (bs_portfolio_id base) insights_recent_events_limit w2 of
              (Inl e, w3) \<Rightarrow> (Inl (internal_error rid), w3)
            | (Inr evs, w3) \<Rightarrow>
              (let ctx = \<lparr>ic_portfolio_id = uuid_str U (bs_portfolio_id base), ic_portfolio = bs_view base, ic_risk = dto,
                     ic_recent_events = map (event_summary_for_insights D J U) evs, ic_client_payload = raw\<rparr>
               in case svc of
                   None \<Rightarrow> (Inl (api_error_with rid 503 err_code_insufficient_data
                     ''AI insights are not configured for this deployment'' [(''reason'', JStr ''OPENAI_NOT_CONFIGURED'')]), w3)
                 | Some s \<Rightarrow> (case service_explain N J U E s ctx w3 of
                     (Inl e, w4) \<Rightarrow> (Inl (explain_error_response rid e), w4)
                   | (Inr out, w4) \<Rightarrow> (Inr \<lparr>ix_context = ctx, ix_explanation = eo_explanation out,
                       ix_used_metrics = eo_used_metrics out, ix_model = eo_model out\<rparr>, w4)))))))"

end
