(* ===== verification/Price_Directory.thy ===== *)
theory Price_Directory
  imports Watchlist_Api Go_Json
begin

text \<open>
  The price directory: the queries of \<^verbatim>\<open>internal/events/prices_ui_read.go\<close> and the handlers for
  \<^verbatim>\<open>GET /v1/prices\<close> and \<^verbatim>\<open>GET /v1/prices/:symbol\<close> in \<^verbatim>\<open>price_read_handler.go\<close>. The order of texts
  and the lower case of \<^verbatim>\<open>ILIKE\<close> belong to the collation of the database, a parameter. Rows that the
  \<^verbatim>\<open>ORDER BY\<close> does not separate come in the order of the table, where PostgreSQL leaves it open.
  The query string is the list of its parameters. As in the feed status, a time span of an answer is a
  duration, of which the code sends the seconds as a float.
\<close>

record collation =
  co_lower :: "string \<Rightarrow> string"
  co_less :: "string \<Rightarrow> string \<Rightarrow> bool"

section \<open>The queries\<close>

record list_price_marks_params =
  lp_query :: string
  lp_sort :: string
  lp_order :: string
  lp_limit :: int
  lp_offset :: int

record price_mark_list_row =
  ml_symbol :: string
  ml_price :: string
  ml_as_of :: time
  ml_updated_at :: time
  ml_source :: string
  ml_change_pct :: "string option"

record price_history_point =
  hp_return_date :: string
  hp_close_price :: string
  hp_daily_return :: "string option"
  hp_as_of_event_time :: time

record price_symbol_detail =
  sd_symbol :: string
  sd_price :: string
  sd_as_of :: time
  sd_updated_at :: time
  sd_source :: string
  sd_history :: "price_history_point list"

text \<open>The column of the \<^verbatim>\<open>ORDER BY\<close> and whether it is descending; \<^verbatim>\<open>NULL\<close> is last in both directions.\<close>

datatype sort_column = BySymbol | ByPrice | ByAsOf | ByUpdatedAt | ByChangePct

definition normalize_list_sort :: "case_api \<Rightarrow> string \<Rightarrow> string \<Rightarrow> sort_column \<times> bool" where
  "normalize_list_sort N srt order =
     (let s = to_lower N (trim_space srt)
      in (if s = ''price'' then ByPrice else if s = ''as_of'' then ByAsOf else if s = ''updated_at'' then ByUpdatedAt
          else if s = ''change_pct'' then ByChangePct else BySymbol,
        to_lower N (trim_space order) = ''desc''))"

definition query_char :: "char \<Rightarrow> bool" where
  "query_char c \<longleftrightarrow> (let n = (of_char c :: nat) in
     65 \<le> n \<and> n \<le> 90 \<or> 97 \<le> n \<and> n \<le> 122 \<or> 48 \<le> n \<and> n \<le> 57 \<or> n = 46 \<or> n = 95 \<or> n = 45)"

definition query_allowed :: "case_api \<Rightarrow> string \<Rightarrow> bool" where
  "query_allowed N q \<longleftrightarrow> q = [] \<or> is_valid_symbol (to_upper N q) \<or> list_all query_char q"

text \<open>
  \<^verbatim>\<open>ILIKE '%' || q || '%'\<close>: an underscore of the query stands for any character. The other
  special characters, the percent sign and the backslash, do not pass \<open>query_allowed\<close>.
\<close>

fun like_at :: "string \<Rightarrow> string \<Rightarrow> bool" where
  "like_at [] s \<longleftrightarrow> True"
| "like_at (c # p) [] \<longleftrightarrow> False"
| "like_at (c # p) (d # s) \<longleftrightarrow> (c = CHR ''_'' \<or> c = d) \<and> like_at p s"

fun like_somewhere :: "string \<Rightarrow> string \<Rightarrow> bool" where
  "like_somewhere p [] \<longleftrightarrow> like_at p []"
| "like_somewhere p (d # s) \<longleftrightarrow> like_at p (d # s) \<or> like_somewhere p s"

definition mark_matches :: "collation \<Rightarrow> string \<Rightarrow> string \<Rightarrow> bool" where
  "mark_matches C q s \<longleftrightarrow> q = [] \<or> like_somewhere (co_lower C q) (co_lower C s)"

text \<open>The text of the latest daily return, which is \<^verbatim>\<open>NULL\<close> without a row and in a first row.\<close>

definition latest_change :: "pg_api \<Rightarrow> db \<Rightarrow> string \<Rightarrow> string option" where
  "latest_change P d s = (case rev (returns_of d s) of
     [] \<Rightarrow> None | p # ps \<Rightarrow> map_option (pg_text P 10) (rr_daily_return (snd p)))"

definition event_source :: "db \<Rightarrow> uuid \<Rightarrow> string" where
  "event_source d i = (case find (\<lambda>e. er_event_id e = i) (db_events d) of None \<Rightarrow> [] | Some e \<Rightarrow> er_source e)"

definition order_before ::
  "collation \<Rightarrow> sort_column \<Rightarrow> bool \<Rightarrow> string \<times> price_row \<times> string option \<Rightarrow> string \<times> price_row \<times> string option \<Rightarrow> bool" where
  "order_before C col desc = (\<lambda>(s, r, c) (s', r', c').
     (case col of
        BySymbol \<Rightarrow> if desc then co_less C s' s else co_less C s s'
      | ByPrice \<Rightarrow> if desc then pc_price r' < pc_price r else pc_price r < pc_price r'
      | ByAsOf \<Rightarrow> if desc then pc_as_of r' < pc_as_of r else pc_as_of r < pc_as_of r'
      | ByUpdatedAt \<Rightarrow> if desc then pc_updated_at r' < pc_updated_at r else pc_updated_at r < pc_updated_at r'
      | ByChangePct \<Rightarrow> (case (c, c') of
          (Some x, Some y) \<Rightarrow> if desc then co_less C y x else co_less C x y
        | (Some x, None) \<Rightarrow> True | (None, _) \<Rightarrow> False)))"

definition non_empty :: "string option \<Rightarrow> string option" where
  "non_empty t = (if t = Some [] then None else t)"

definition mark_list_row :: "pg_api \<Rightarrow> db \<Rightarrow> string \<times> price_row \<times> string option \<Rightarrow> price_mark_list_row" where
  "mark_list_row P d = (\<lambda>(s, r, c). \<lparr>ml_symbol = s, ml_price = pg_text P 8 (pc_price r), ml_as_of = pc_as_of r,
     ml_updated_at = pc_updated_at r, ml_source = event_source d (pc_as_of_event_id r), ml_change_pct = non_empty c\<rparr>)"

definition matching_marks :: "collation \<Rightarrow> pg_api \<Rightarrow> string \<Rightarrow> db \<Rightarrow> (string \<times> price_row \<times> string option) list" where
  "matching_marks C P q d = map (\<lambda>(s, r). (s, r, latest_change P d s)) (filter (\<lambda>(s, r). mark_matches C q s) (db_prices d))"

definition list_price_marks ::
  "case_api \<Rightarrow> collation \<Rightarrow> pg_api \<Rightarrow> list_price_marks_params \<Rightarrow> (world, price_mark_list_row list \<times> int) prog" where
  "list_price_marks N C P p =
     (let limit = (if lp_limit p \<le> 0 then 50 else lp_limit p); limit = (if limit > 500 then 500 else limit);
          offset = (if lp_offset p < 0 then 0 else lp_offset p); q = trim_space (lp_query p)
      in if \<not> query_allowed N q then throw (EValidation ''invalid query characters'')
         else case normalize_list_sort N (lp_sort p) (lp_order p) of (col, desc) \<Rightarrow>
           andthen (db_query ''count prices_projection'' (\<lambda>now d. Inr (int (length (matching_marks C P q d))))) (\<lambda>n.
             andthen (db_query ''list prices_projection'' (\<lambda>now d. Inr (map (mark_list_row P d)
                 (take (nat limit) (drop (nat offset) (sort_by (order_before C col desc) (matching_marks C P q d)))))))
               (\<lambda>rows. ret (rows, n))))"

text \<open>\<^verbatim>\<open>return_date::text\<close>.\<close>

definition date_text :: "int \<Rightarrow> string" where
  "date_text dt = (let (y, yd) = civil_date dt; (m, d) = month_day (month_days y) 1 yd
     in pad 4 y @ ''-'' @ pad 2 (int m) @ ''-'' @ pad 2 d)"

definition history_point :: "pg_api \<Rightarrow> int \<times> return_row \<Rightarrow> price_history_point" where
  "history_point P = (\<lambda>(dt, r). \<lparr>hp_return_date = date_text dt, hp_close_price = pg_text P 8 (rr_close_price r),
     hp_daily_return = non_empty (map_option (pg_text P 10) (rr_daily_return r)), hp_as_of_event_time = return_row.rr_as_of_event_time r\<rparr>)"

definition get_price_symbol_detail :: "pg_api \<Rightarrow> string \<Rightarrow> int \<Rightarrow> (world, price_symbol_detail option) prog" where
  "get_price_symbol_detail P raw history_limit =
     (let s = trim_space raw
      in case validate_symbol s of
          Inl e \<Rightarrow> throw e
        | Inr u \<Rightarrow>
          (let limit = (if history_limit \<le> 0 then 10 else history_limit); limit = (if limit > 60 then 60 else limit)
           in andthen (db_query ''load price head'' (\<lambda>now d. Inr (map_option (\<lambda>r. \<lparr>sd_symbol = s,
                  sd_price = pg_text P 8 (pc_price r), sd_as_of = pc_as_of r, sd_updated_at = pc_updated_at r,
                  sd_source = event_source d (pc_as_of_event_id r), sd_history = []\<rparr>) (map_of (db_prices d) s)))) (\<lambda>head. case head of
                None \<Rightarrow> ret None
              | Some h \<Rightarrow> andthen (db_query ''load symbol_returns'' (\<lambda>now d.
                    Inr (map (history_point P) (take (nat limit) (rev (returns_of d s)))))) (\<lambda>points.
                  ret (Some (h\<lparr>sd_history := points\<rparr>))))))"

section \<open>The answers\<close>

record price_list_item =
  pi_list_symbol :: string
  pi_list_price :: string
  pi_change_pct :: "string option"
  pi_list_as_of :: string
  pi_list_updated_at :: string
  pi_list_source :: string
  pi_list_staleness :: duration
  pi_list_status :: string

record list_prices_response =
  lr_items :: "price_list_item list"
  lr_total :: int
  lr_limit :: int
  lr_offset :: int

record price_history_dto =
  ph_return_date :: string
  ph_close_price :: string
  ph_daily_return :: "string option"
  ph_as_of_event_time :: string

record price_detail_response =
  pd_symbol :: string
  pd_price :: string
  pd_as_of :: string
  pd_updated_at :: string
  pd_source :: string
  pd_history :: "price_history_dto list"
  pd_history_summary :: string
  pd_staleness :: duration
  pd_status :: string

definition data_status_from_staleness :: "duration \<Rightarrow> duration \<Rightarrow> string" where
  "data_status_from_staleness stale_after staleness =
     (if stale_after \<le> 0 then ''unknown'' else if staleness \<le> stale_after then ''fresh'' else ''stale'')"

text \<open>The em dash and the middle dot are written as their bytes.\<close>

definition summarize_history :: "price_history_point list \<Rightarrow> string" where
  "summarize_history points =
     (if points = [] then ''No stored daily returns yet for this symbol.''
      else let parts = map (\<lambda>p. hp_return_date p @ '': '' @
             (case hp_daily_return p of None \<Rightarrow> [CHR 0xE2, CHR 0x80, CHR 0x94] | Some x \<Rightarrow> x)) (take 5 points)
        in concat (hd parts # map (\<lambda>s. [CHR '' '', CHR 0xC2, CHR 0xB7, CHR '' ''] @ s) (tl parts)))"

text \<open>\<^verbatim>\<open>c.Query\<close> and \<^verbatim>\<open>c.DefaultQuery\<close>: the first value of a name; a parameter without value counts as given.\<close>

definition default_query :: "(string \<times> string) list \<Rightarrow> string \<Rightarrow> string \<Rightarrow> string" where
  "default_query query name def = (case map_of query name of None \<Rightarrow> def | Some v \<Rightarrow> v)"

section \<open>The handlers\<close>

text \<open>
  The only validation errors are those of the two queries. Their texts are the whole error, with the
  name of the sentinel.
\<close>

definition price_query_error :: "string \<Rightarrow> (string \<Rightarrow> string) \<Rightarrow> err \<Rightarrow> http_response" where
  "price_query_error rid txt e = (case e of EValidation m \<Rightarrow> api_error rid 400 err_code_validation (txt m) | _ \<Rightarrow> internal_error rid)"

definition list_prices_handler ::
  "(list_price_marks_params \<Rightarrow> ('w, price_mark_list_row list \<times> int) prog) \<Rightarrow> ('w \<Rightarrow> time \<times> 'w) \<Rightarrow> duration \<Rightarrow> string \<Rightarrow>
   (string \<times> string) list \<Rightarrow> 'w \<Rightarrow> (http_response + list_prices_response) \<times> 'w" where
  "list_prices_handler load clock stale_after rid query w =
     (let q = trim_space (default_query query ''q'' []); limit = clamp_int_query (\<lambda>n. default_query query n []) ''limit'' 50 1 500;
          offset = clamp_int_query (\<lambda>n. default_query query n []) ''offset'' 0 0 1000000000
      in case load \<lparr>lp_query = q, lp_sort = default_query query ''sort'' ''symbol'',
             lp_order = default_query query ''order'' ''asc'', lp_limit = limit, lp_offset = offset\<rparr> w of
          (Inl e, w1) \<Rightarrow> (Inl (price_query_error rid (\<lambda>m. m @ '': domain validation error'') e), w1)
        | (Inr (rows, n), w1) \<Rightarrow> (case clock w1 of (now, w2) \<Rightarrow>
            (Inr \<lparr>lr_items = map (\<lambda>r. let st = time_sub now (ml_updated_at r) in
                 \<lparr>pi_list_symbol = ml_symbol r, pi_list_price = ml_price r, pi_change_pct = ml_change_pct r,
                  pi_list_as_of = format_rfc3339_nano (ml_as_of r), pi_list_updated_at = format_rfc3339_nano (ml_updated_at r),
                  pi_list_source = ml_source r, pi_list_staleness = st,
                  pi_list_status = data_status_from_staleness stale_after st\<rparr>) rows,
               lr_total = n, lr_limit = limit, lr_offset = offset\<rparr>, w2)))"

definition get_price_symbol_handler ::
  "(string \<Rightarrow> int \<Rightarrow> ('w, price_symbol_detail option) prog) \<Rightarrow> ('w \<Rightarrow> time \<times> 'w) \<Rightarrow> duration \<Rightarrow> string \<Rightarrow> string \<Rightarrow>
   (string \<times> string) list \<Rightarrow> 'w \<Rightarrow> (http_response + price_detail_response) \<times> 'w" where
  "get_price_symbol_handler load clock stale_after rid raw query w =
     (let s = trim_space raw; hist_n = clamp_int_query (\<lambda>n. default_query query n []) ''history'' 10 1 60
      in case load s hist_n w of
          (Inl e, w1) \<Rightarrow> (Inl (price_query_error rid (\<lambda>m. ''domain validation error: '' @ m) e), w1)
        | (Inr None, w1) \<Rightarrow>
            (Inl (api_error_with rid 404 err_code_not_found ''symbol not found'' [(''symbol'', JStr s)]), w1)
        | (Inr (Some d), w1) \<Rightarrow> (case clock w1 of (now, w2) \<Rightarrow> (let st = time_sub now (sd_updated_at d) in
            (Inr \<lparr>pd_symbol = sd_symbol d, pd_price = sd_price d, pd_as_of = format_rfc3339_nano (sd_as_of d),
               pd_updated_at = format_rfc3339_nano (sd_updated_at d), pd_source = sd_source d,
               pd_history = map (\<lambda>h. \<lparr>ph_return_date = hp_return_date h, ph_close_price = hp_close_price h,
                 ph_daily_return = hp_daily_return h, ph_as_of_event_time = format_rfc3339_nano (hp_as_of_event_time h)\<rparr>) (sd_history d),
               pd_history_summary = summarize_history (sd_history d), pd_staleness = st,
               pd_status = data_status_from_staleness stale_after st\<rparr>, w2))))"

section \<open>Pages\<close>

text \<open>
  A page has at most \<open>limit\<close> rows, the total is the number of matching symbols, and the rows are those
  of matching symbols with their stored price.
\<close>

lemma list_price_marks_page:
  assumes "list_price_marks N C P p w = (Inr (rows, n), w')"
  shows "w_db w' = w_db w" and "n = int (length (matching_marks C P (trim_space (lp_query p)) (w_db w)))"
    and "0 < lp_limit p \<Longrightarrow> int (length rows) \<le> lp_limit p"
    and "r \<in> set rows \<Longrightarrow> \<exists>x. (ml_symbol r, x) \<in> set (db_prices (w_db w)) \<and> ml_price r = pg_text P 8 (pc_price x) \<and>
      mark_matches C (trim_space (lp_query p)) (ml_symbol r)"
proof -
  let ?q = "trim_space (lp_query p)"
  let ?before = "order_before C (fst (normalize_list_sort N (lp_sort p) (lp_order p))) (snd (normalize_list_sort N (lp_sort p) (lp_order p)))"
  define limit where "limit = (let n = (if lp_limit p \<le> 0 then 50 else lp_limit p) in if n > 500 then 500 else n)"
  define off where "off = (if lp_offset p < 0 then 0 else lp_offset p)"
  obtain n1 w1 where c: "db_query ''count prices_projection'' (\<lambda>now d. Inr (int (length (matching_marks C P ?q d)))) w = (Inr n1, w1)"
    and l: "db_query ''list prices_projection'' (\<lambda>now d. Inr (map (mark_list_row P d)
        (take (nat limit) (drop (nat off) (sort_by ?before (matching_marks C P ?q d)))))) w1 = (Inr rows, w')" and n: "n = n1"
    using assms by (auto simp: list_price_marks_def Let_def throw_def andthen_Inr ret_def limit_def off_def split_beta split: if_splits)
  have rows: "rows = map (mark_list_row P (w_db w)) (take (nat limit) (drop (nat off) (sort_by ?before (matching_marks C P ?q (w_db w)))))"
    and w: "w_db w' = w_db w" and n1: "n1 = int (length (matching_marks C P ?q (w_db w)))"
    using db_query_Inr [OF c] db_query_Inr [OF l] by auto
  show "w_db w' = w_db w" "n = int (length (matching_marks C P ?q (w_db w)))" by (simp_all add: w n n1)
  show "int (length rows) \<le> lp_limit p" if "0 < lp_limit p"
    using that by (auto simp: rows limit_def Let_def min_def)
  show "\<exists>x. (ml_symbol r, x) \<in> set (db_prices (w_db w)) \<and> ml_price r = pg_text P 8 (pc_price x) \<and> mark_matches C ?q (ml_symbol r)"
    if "r \<in> set rows"
  proof -
    obtain m where "r = mark_list_row P (w_db w) m" "m \<in> set (matching_marks C P ?q (w_db w))"
      using \<open>r \<in> set rows\<close> unfolding rows by (auto dest!: in_set_takeD in_set_dropD)
    then show ?thesis by (auto simp: mark_list_row_def matching_marks_def)
  qed
qed

text \<open>An underscore in a search stands for any character.\<close>

lemma underscore_matches_any: "mark_matches \<lparr>co_lower = (\<lambda>s. s), co_less = (<)\<rparr> ''A_C'' ''ABC''"
  by (simp add: mark_matches_def)

text \<open>Returns are ordered as texts: nine percent before ten.\<close>

lemma change_sorted_as_text:
  "order_before \<lparr>co_lower = (\<lambda>s. s), co_less = (<)\<rparr> ByChangePct False (s, r, Some ''10.2'') (s', r', Some ''9.5'')"
  by (simp add: order_before_def)

end
