(* ===== verification/Router.thy ===== *)
theory Router
  imports Watchlist_Api Auth_Properties Insights_Api Price_Directory
begin

text \<open>
  The HTTP surface as one function: the request id and the per-IP rate limiter
  (\<^verbatim>\<open>request_id_middleware.go\<close>, \<^verbatim>\<open>ratelimit.go\<close>), the routes and their middleware (\<^verbatim>\<open>router.go\<close>), with the
  dependencies that \<^verbatim>\<open>cmd/server/main.go\<close> passes: \<^verbatim>\<open>PostgresStore\<close> as every store, so that each
  optional one is there. Left out are \<^verbatim>\<open>/health\<close> and \<^verbatim>\<open>/metrics\<close>.
  The third-party packages are the fields of \<open>packages\<close>; \<^verbatim>\<open>uuid.New\<close> is drawn before a handler runs.
\<close>

section \<open>Rate limits\<close>

text \<open>The token bucket of \<^verbatim>\<open>golang.org/x/time/rate\<close>: its constructor, and \<^verbatim>\<open>Allow\<close>, which reads the clock.\<close>

record ('l, 'w) rate_api =
  rl_new :: "int \<Rightarrow> int \<Rightarrow> 'l"
  rl_allow :: "'l \<Rightarrow> 'w \<Rightarrow> bool \<times> 'l \<times> 'w"

record 'l per_ip_rate_limiter =
  ip_limit :: int
  ip_burst :: int
  ip_buckets :: "(string \<times> 'l) list"

definition new_per_ip_rate_limiter :: "int \<Rightarrow> int \<Rightarrow> 'l per_ip_rate_limiter" where
  "new_per_ip_rate_limiter rps burst = \<lparr>ip_limit = (if rps < 1 then 1 else rps),
     ip_burst = (if burst < 1 then 1 else burst), ip_buckets = []\<rparr>"

definition allow_ip ::
  "('l, 'w) rate_api \<Rightarrow> string \<Rightarrow> 'l per_ip_rate_limiter \<Rightarrow> 'w \<Rightarrow> bool \<times> 'l per_ip_rate_limiter \<times> 'w" where
  "allow_ip T ip p w =
     (let lim = (case map_of (ip_buckets p) ip of None \<Rightarrow> rl_new T (ip_limit p) (ip_burst p) | Some l \<Rightarrow> l)
      in case rl_allow T lim w of (ok, lim', w') \<Rightarrow>
          (ok, p\<lparr>ip_buckets := AList.update ip lim' (ip_buckets p)\<rparr>, w'))"

definition err_code_rate_limited :: string where
  "err_code_rate_limited = ''RATE_LIMITED''"

definition per_ip_rate_limit ::
  "('l, 'w) rate_api \<Rightarrow> string \<Rightarrow> string \<Rightarrow> 'l per_ip_rate_limiter option \<Rightarrow> 'w \<Rightarrow>
   http_response option \<times> 'l per_ip_rate_limiter option \<times> 'w" where
  "per_ip_rate_limit T rid ip limiter w = (case limiter of
     None \<Rightarrow> (None, None, w)
   | Some p \<Rightarrow> (case allow_ip T ip p w of (ok, p', w') \<Rightarrow>
       (if ok then None else Some (api_error_with rid 429 err_code_rate_limited ''rate limit exceeded''
          [(''retry_after_seconds'', JNum (int_literal 1))]), Some p', w')))"

section \<open>Requests\<close>

datatype api_call =
    PostTrade raw_message
  | PostPrice raw_message
  | ListPortfolios
  | CreatePortfolio raw_message
  | GetPortfolio string
  | GetRisk string
  | PostScenario string raw_message
  | PostExplain string string
  | ListPrices "(string \<times> string) list"
  | GetPrice string "(string \<times> string) list"
  | GetFeedStatus
  | GetWatchlist
  | PutWatchlist raw_message
  | Register raw_message
  | Login raw_message
  | Logout
  | Me

record api_request =
  rq_request_id :: string
  rq_client_ip :: string
  rq_cookie :: "string option"
  rq_call :: api_call

datatype 'd api_answer =
    NoRoute
  | Response http_response
  | SessionResponse auth_response
  | PortfolioList "portfolio_catalog_response list"
  | PortfolioCreated portfolio_catalog_response
  | PortfolioAnswer portfolio_view
  | RiskAnswer "'d risk_http_response"
  | ScenarioAnswer scenario_http_response
  | ExplainAnswer "'d insights_explain_response"
  | PriceList list_prices_response
  | PriceDetail price_detail_response
  | FeedStatus price_feed_status_response
  | WatchlistAnswer "string list"

record ('d, 'l) packages =
  pk_decimal :: "'d decimal_api"
  pk_json :: "'d json_api"
  pk_uuid :: uuid_api
  pk_case :: case_api
  pk_account :: account_api
  pk_pg :: pg_api
  pk_password :: password_api
  pk_float :: "'d float_api"
  pk_rate :: "('l, world) rate_api"
  pk_new_uuid :: "world \<Rightarrow> uuid \<times> world"
  pk_map_order :: "string list \<Rightarrow> string list"
  pk_ai :: "world ai_env"
  pk_collation :: collation

record router_config =
  rc_partitions :: "uuid list"
  rc_risk_sigma_window_n :: int
  rc_insights :: "openai_service option"
  rc_session_ttl :: duration
  rc_feed_enabled :: bool
  rc_feed_provider :: string
  rc_poll_interval :: duration

record ('d, 'l) server =
  sv_world :: world
  sv_manager :: "'d price_ingestor option option"
  sv_runtime :: "runtime_tracker option"
  sv_ingest_limiter :: "'l per_ip_rate_limiter option"
  sv_get_limiter :: "'l per_ip_rate_limiter option"

section \<open>Middleware\<close>

definition request_id :: "('d, 'l) packages \<Rightarrow> string \<Rightarrow> world \<Rightarrow> string \<times> world" where
  "request_id K header w = (if header = [] then case pk_new_uuid K w of (u, w') \<Rightarrow> (uuid_str (pk_uuid K) u, w')
     else (header, w))"

text \<open>A handler gets the user of the session, if the route asks for one, and the state of the server.\<close>

type_synonym ('d, 'l) step = "('d, 'l) server \<Rightarrow> ('d api_answer \<times> ('d, 'l) server) option"

definition rate_limited ::
  "('d, 'l) packages \<Rightarrow> bool \<Rightarrow> string \<Rightarrow> string \<Rightarrow> ('d, 'l) step \<Rightarrow> ('d, 'l) step" where
  "rate_limited K writes rid ip h s =
     (case per_ip_rate_limit (pk_rate K) rid ip (if writes then sv_ingest_limiter s else sv_get_limiter s) (sv_world s) of
        (refused, l, w) \<Rightarrow>
          (let s' = (if writes then s\<lparr>sv_world := w, sv_ingest_limiter := l\<rparr> else s\<lparr>sv_world := w, sv_get_limiter := l\<rparr>)
           in case refused of Some r \<Rightarrow> Some (Response r, s') | None \<Rightarrow> h s'))"

definition authenticated ::
  "('d, 'l) packages \<Rightarrow> string \<Rightarrow> string option \<Rightarrow> (auth_user \<Rightarrow> ('d, 'l) step) \<Rightarrow> ('d, 'l) step" where
  "authenticated K rid cookie h s =
     (case require_auth (pk_uuid K) rid cookie (sv_world s) of
        (Inl r, w) \<Rightarrow> Some (Response r, s\<lparr>sv_world := w\<rparr>)
      | (Inr u, w) \<Rightarrow> h u (s\<lparr>sv_world := w\<rparr>))"

text \<open>The groups for ingestion and for reading exist when there are price partitions.\<close>

definition v1_group ::
  "('d, 'l) packages \<Rightarrow> router_config \<Rightarrow> bool \<Rightarrow> string \<Rightarrow> api_request \<Rightarrow> (auth_user \<Rightarrow> ('d, 'l) step) \<Rightarrow> ('d, 'l) step" where
  "v1_group K C writes rid q h s =
     (if rc_partitions C = [] then Some (NoRoute, s)
      else rate_limited K writes rid (rq_client_ip q) (authenticated K rid (rq_cookie q) h) s)"

section \<open>Routes\<close>

definition stale_after :: "duration \<Rightarrow> duration" where
  "stale_after poll_interval = (let s = int64_wrap (3 * poll_interval) in if s \<le> 0 then 15 * 60 * second else s)"

definition on_world :: "(world \<Rightarrow> 'a \<times> world) \<Rightarrow> ('a \<Rightarrow> 'd api_answer) \<Rightarrow> ('d, 'l) step" where
  "on_world f answer s = (case f (sv_world s) of (a, w) \<Rightarrow> Some (answer a, s\<lparr>sv_world := w\<rparr>))"

definition either :: "('a \<Rightarrow> 'd api_answer) \<Rightarrow> http_response + 'a \<Rightarrow> 'd api_answer" where
  "either f r = (case r of Inl e \<Rightarrow> Response e | Inr x \<Rightarrow> f x)"

definition drawing :: "('d, 'l) packages \<Rightarrow> (uuid \<Rightarrow> world \<Rightarrow> 'a \<times> world) \<Rightarrow> world \<Rightarrow> 'a \<times> world" where
  "drawing K f w = (case pk_new_uuid K w of (fresh, w') \<Rightarrow> f fresh w')"

definition serve_ingest :: "('d, 'l) packages \<Rightarrow> router_config \<Rightarrow> string \<Rightarrow> auth_user \<Rightarrow> api_call \<Rightarrow> ('d, 'l) step" where
  "serve_ingest K C rid user c =
     (let D = pk_decimal K; J = pk_json K; U = pk_uuid K; svc = ingest D J (append_event U (pk_pg K))
      in case c of
        PostTrade body \<Rightarrow> on_world (drawing K (\<lambda>fresh. post_trade_handler D J U svc read_clock (rc_partitions C)
          (Some portfolio_owned_by_user) rid (Some (au_user_id user)) fresh body)) Response
      | PostPrice body \<Rightarrow> on_world (drawing K (\<lambda>fresh. post_price_handler D J U svc read_clock (rc_partitions C)
          rid fresh body)) Response
      | _ \<Rightarrow> (\<lambda>s. Some (NoRoute, s)))"

definition serve_read :: "('d, 'l) packages \<Rightarrow> router_config \<Rightarrow> string \<Rightarrow> auth_user \<Rightarrow> api_call \<Rightarrow> ('d, 'l) step" where
  "serve_read K C rid user c =
     (let D = pk_decimal K; U = pk_uuid K; A = pk_account K; P = pk_pg K; parts = rc_partitions C;
          load = load_portfolio_assembler_input D P; owned = Some portfolio_owned_by_user; u = Some (au_user_id user)
      in case c of
        ListPortfolios \<Rightarrow> on_world (list_portfolios_handler U (list_portfolios A) (list_portfolios_by_owner A) parts rid u)
          (either PortfolioList)
      | CreatePortfolio body \<Rightarrow> (\<lambda>s. map_option (\<lambda>(a, w). (either PortfolioCreated a, s\<lparr>sv_world := w\<rparr>))
          (create_portfolio_handler U (pk_case K) (pk_new_uuid K) (create_portfolio A P)
            (create_portfolio_for_owner A P) parts rid u body (sv_world s)))
      | GetPortfolio i \<Rightarrow> on_world (get_portfolio_handler D U load owned parts rid u i) (either PortfolioAnswer)
      | GetRisk i \<Rightarrow> on_world (get_risk_handler D (pk_float K) U (pk_map_order K) load owned
          load_symbol_return_sample_counts (load_symbol_sigma_1d D P) parts (rc_risk_sigma_window_n C) rid u i)
          (either RiskAnswer)
      | PostScenario i body \<Rightarrow> on_world (post_scenario_handler D (pk_json K) U load owned parts rid u i body)
          (either ScenarioAnswer)
      | PostExplain i body \<Rightarrow> on_world (post_insights_explain_handler D (pk_float K) (pk_json K) U (pk_case K) (pk_map_order K)
          (pk_ai K) load owned (Some \<lparr>rs_counts = load_symbol_return_sample_counts, rs_sigma = load_symbol_sigma_1d D P,
            rs_recent = list_recent_events U\<rparr>) (rc_insights C) parts (rc_risk_sigma_window_n C) rid u i body)
          (either ExplainAnswer)
      | ListPrices query \<Rightarrow> on_world (list_prices_handler (list_price_marks (pk_case K) (pk_collation K) P) read_clock
          (stale_after (rc_poll_interval C)) rid query) (either PriceList)
      | GetPrice raw query \<Rightarrow> on_world (get_price_symbol_handler (get_price_symbol_detail P) read_clock
          (stale_after (rc_poll_interval C)) rid raw query) (either PriceDetail)
      | GetFeedStatus \<Rightarrow> (\<lambda>s. Some (FeedStatus (get_price_feed_status_handler (sv_runtime s) (rc_feed_enabled C)
          (rc_feed_provider C) (rc_poll_interval C) (sv_manager s)), s))
      | GetWatchlist \<Rightarrow> (\<lambda>s. Some (WatchlistAnswer (get_price_feed_watchlist_handler (sv_manager s)), s))
      | PutWatchlist body \<Rightarrow> (\<lambda>s. case put_price_feed_watchlist_handler (pk_case K)
            (Some (upsert_price_feed_watchlist (pk_case K) P)) rid body (sv_manager s) (sv_world s) of
          (a, m, w) \<Rightarrow> Some (either WatchlistAnswer a, s\<lparr>sv_world := w, sv_manager := m\<rparr>))
      | _ \<Rightarrow> (\<lambda>s. Some (NoRoute, s)))"

definition serve_auth :: "('d, 'l) packages \<Rightarrow> router_config \<Rightarrow> string \<Rightarrow> string option \<Rightarrow> api_call \<Rightarrow> ('d, 'l) step" where
  "serve_auth K C rid cookie c =
     (let U = pk_uuid K; N = pk_case K; A = pk_account K; P = pk_pg K; B = pk_password K
      in case c of
        Register body \<Rightarrow> on_world (drawing K (\<lambda>fresh. register_handler U N A P B rid fresh body)) SessionResponse
      | Login body \<Rightarrow> on_world (drawing K (\<lambda>fresh. login_handler U N A P B (rc_session_ttl C) rid fresh body)) SessionResponse
      | Logout \<Rightarrow> authenticated K rid cookie (\<lambda>user. on_world (logout_handler U P cookie) SessionResponse)
      | Me \<Rightarrow> authenticated K rid cookie (\<lambda>user s. Some (Response (me_handler U rid (Some user)), s))
      | _ \<Rightarrow> (\<lambda>s. Some (NoRoute, s)))"

text \<open>\<open>None\<close> stands for a request whose handler does not return.\<close>

definition serve :: "('d, 'l) packages \<Rightarrow> router_config \<Rightarrow> api_request \<Rightarrow> ('d, 'l) step" where
  "serve K C q s =
     (case request_id K (rq_request_id q) (sv_world s) of (rid, w) \<Rightarrow>
       (let s = s\<lparr>sv_world := w\<rparr>; c = rq_call q
        in case c of
            PostTrade body \<Rightarrow> v1_group K C True rid q (\<lambda>user. serve_ingest K C rid user c) s
          | PostPrice body \<Rightarrow> v1_group K C True rid q (\<lambda>user. serve_ingest K C rid user c) s
          | Register body \<Rightarrow> rate_limited K True rid (rq_client_ip q) (serve_auth K C rid (rq_cookie q) c) s
          | Login body \<Rightarrow> rate_limited K True rid (rq_client_ip q) (serve_auth K C rid (rq_cookie q) c) s
          | Logout \<Rightarrow> rate_limited K True rid (rq_client_ip q) (serve_auth K C rid (rq_cookie q) c) s
          | Me \<Rightarrow> rate_limited K True rid (rq_client_ip q) (serve_auth K C rid (rq_cookie q) c) s
          | _ \<Rightarrow> v1_group K C False rid q (\<lambda>user. serve_read K C rid user c) s))"

end
