(* ===== verification/Router_Properties.thy ===== *)
theory Router_Properties
  imports Router
begin

text \<open>
  What holds of every request: which rows of the event table it can add, and to whom it shows the
  data of a portfolio. The lemmas say of each operation and handler that it only reads the
  database, or that it leaves the event table alone.
\<close>

section \<open>Programs that only read\<close>

definition only_reads :: "(world \<Rightarrow> 'a \<times> world) \<Rightarrow> bool" where
  "only_reads m \<longleftrightarrow> (\<forall>w. w_db (snd (m w)) = w_db w)"

definition no_event :: "(world \<Rightarrow> 'a \<times> world) \<Rightarrow> bool" where
  "no_event m \<longleftrightarrow> (\<forall>w. db_events (w_db (snd (m w))) = db_events (w_db w))"

named_theorems frames

lemma only_readsD: "only_reads m \<Longrightarrow> m w = (x, w') \<Longrightarrow> w_db w' = w_db w"
  by (metis only_reads_def snd_conv)

lemma no_eventD: "no_event m \<Longrightarrow> m w = (x, w') \<Longrightarrow> db_events (w_db w') = db_events (w_db w)"
  by (metis no_event_def snd_conv)

lemma only_reads_no_event: "only_reads m \<Longrightarrow> no_event m"
  by (simp add: only_reads_def no_event_def)

lemma only_reads_basic [frames]: "only_reads (db_query what q)" "only_reads (ret x)" "only_reads read_clock"
  by (simp_all add: only_reads_def db_query_def ret_def split_beta)

lemma only_reads_andthen [frames]: "only_reads m \<Longrightarrow> (\<And>x. only_reads (f x)) \<Longrightarrow> only_reads (andthen m f)"
  unfolding only_reads_def andthen_def by (auto split: prod.splits sum.splits) (metis snd_conv)+

lemma no_event_tx:
  assumes "\<And>now d x d'. body now d = Inr (x, d') \<Longrightarrow> db_events d' = db_events d"
  shows "no_event (db_tx what body)"
  unfolding no_event_def
proof
  fix w
  show "db_events (w_db (snd (db_tx what body w))) = db_events (w_db w)"
    using db_tx_db [of what body w] assms by auto
qed

lemma store_reads [frames]:
  "only_reads (list_portfolios A)" "only_reads (list_portfolios_by_owner A u)" "only_reads (portfolio_owned_by_user pid u)"
  "only_reads (get_user_by_email N A m)" "only_reads (get_user_by_id u)" "only_reads (get_session_by_id sid)"
  "only_reads (load_symbol_return_sample_counts ss n)" "only_reads (load_symbol_sigma_1d D P ss n)"
  by (simp_all add: list_portfolios_def list_portfolios_by_owner_def portfolio_owned_by_user_def get_user_by_email_def
      get_user_by_id_def get_session_by_id_def load_symbol_return_sample_counts_def load_symbol_sigma_1d_def Let_def frames)

lemma trade_apply_meta_reads [frames]: "only_reads (trade_apply_meta cur)"
  by (simp add: only_reads_def trade_apply_meta_def ret_def db_query_def split_beta)

lemma load_input_reads [frames]: "only_reads (load_portfolio_assembler_input D P pid)"
  unfolding load_portfolio_assembler_input_def load_positions_for_portfolio_def load_price_marks_by_symbol_def
    load_projection_cursor_def
  by (auto intro!: frames split: prod.splits)

lemma store_writes [frames]:
  "no_event (create_portfolio_for_owner A P u pid name ccy)" "no_event (create_user N A P acc)"
  "no_event (create_session P sess)" "no_event (revoke_session P sid)" "no_event (upsert_price_feed_watchlist N P ss)"
proof -
  have "no_event (db_tx what (insert_portfolio A P owner pid name ccy))" for what owner
    by (rule no_event_tx) (auto simp: insert_portfolio_def Let_def split: if_splits)
  then show "no_event (create_portfolio_for_owner A P u pid name ccy)"
    unfolding no_event_def create_portfolio_for_owner_def create_portfolio_row_def
    by (auto split: prod.splits sum.splits) (metis snd_conv)+
  show "no_event (create_user N A P acc)" "no_event (create_session P sess)" "no_event (revoke_session P sid)"
    "no_event (upsert_price_feed_watchlist N P ss)"
    unfolding create_user_def create_session_def revoke_session_def upsert_price_feed_watchlist_def
    by (rule no_event_tx, auto simp: Let_def split: if_splits option.splits)+
qed

section \<open>Handlers\<close>

lemma require_auth_reads [frames]: "only_reads (require_auth U rid cookie)"
  unfolding only_reads_def
proof
  fix w
  show "w_db (snd (require_auth U rid cookie w)) = w_db w"
    by (auto simp: require_auth_def split: option.splits prod.splits sum.splits
        dest!: only_readsD [OF store_reads(5)] only_readsD [OF store_reads(6)] only_readsD [OF only_reads_basic(3)])
qed

lemma list_portfolios_reads [frames]:
  "only_reads (list_portfolios_handler U (list_portfolios A) (list_portfolios_by_owner A) parts rid (Some u))"
  unfolding only_reads_def list_portfolios_handler_def
  by (auto split: prod.splits sum.splits dest!: only_readsD [OF store_reads(1)] only_readsD [OF store_reads(2)])

lemma trade_access_reads [frames]: "only_reads (trade_access rid (Some portfolio_owned_by_user) user pid)"
  unfolding only_reads_def trade_access_def
  by (auto split: prod.splits sum.splits option.splits bool.splits dest!: only_readsD [OF store_reads(3)])

lemma base_state_reads [frames]:
  "only_reads (load_portfolio_base_state D U (load_portfolio_assembler_input D P) (Some portfolio_owned_by_user) parts rid user i)"
  unfolding only_reads_def load_portfolio_base_state_def
  by (auto split: prod.splits sum.splits option.splits
      dest!: only_readsD [OF trade_access_reads] only_readsD [OF load_input_reads])

lemma get_portfolio_reads [frames]:
  "only_reads (get_portfolio_handler D U (load_portfolio_assembler_input D P) (Some portfolio_owned_by_user) parts rid user i)"
  unfolding only_reads_def get_portfolio_handler_def
  by (auto split: prod.splits sum.splits dest!: only_readsD [OF base_state_reads])

lemma scenario_reads [frames]:
  "only_reads (post_scenario_handler D J U (load_portfolio_assembler_input D P) (Some portfolio_owned_by_user) parts rid user i body)"
  unfolding only_reads_def post_scenario_handler_def
  by (auto simp: Let_def split: prod.splits sum.splits option.splits shocked.splits
      dest!: only_readsD [OF base_state_reads])

lemma load_sigmas_reads [frames]:
  "only_reads (load_sigmas D iter load_symbol_return_sample_counts (load_symbol_sigma_1d D P) ss n)"
  unfolding only_reads_def load_sigmas_def
  by (auto simp: Let_def split: prod.splits sum.splits
      dest!: only_readsD [OF store_reads(7)] only_readsD [OF store_reads(8)])

lemma build_risk_reads [frames]:
  "only_reads (build_risk_http_response D F U iter load_symbol_return_sample_counts (load_symbol_sigma_1d D P) base n)"
  unfolding only_reads_def build_risk_http_response_def
  by (auto simp: Let_def split: prod.splits sum.splits dest!: only_readsD [OF load_sigmas_reads])

lemma get_risk_reads [frames]:
  "only_reads (get_risk_handler D F U iter (load_portfolio_assembler_input D P) (Some portfolio_owned_by_user)
    load_symbol_return_sample_counts (load_symbol_sigma_1d D P) parts n rid user i)"
  unfolding only_reads_def get_risk_handler_def
  by (auto simp: Let_def split: prod.splits sum.splits
      dest!: only_readsD [OF base_state_reads] only_readsD [OF build_risk_reads])

lemma explain_reads:
  assumes "\<And>q. only_reads (http q)"
  shows "only_reads (explain N quote indent http key i)"
proof -
  have "only_reads (create_chat_completion http key url model ms)" for url model ms
    unfolding only_reads_def create_chat_completion_def
    by (auto split: prod.splits sum.splits option.splits dest!: only_readsD [OF assms])
  then show ?thesis unfolding only_reads_def explain_def
    by (auto split: prod.splits sum.splits) (metis snd_conv)+
qed

lemma throw_reads [frames]: "only_reads (throw e)"
  by (simp add: only_reads_def throw_def)

lemma price_queries_read [frames]:
  "only_reads (list_price_marks N C P p)" "only_reads (get_price_symbol_detail P raw n)"
  unfolding list_price_marks_def get_price_symbol_detail_def Let_def
  by (auto split: prod.splits sum.splits option.splits intro!: frames)

lemma price_directory_reads [frames]:
  "only_reads (list_prices_handler (list_price_marks N C P) read_clock stale rid query)"
  "only_reads (get_price_symbol_handler (get_price_symbol_detail P) read_clock stale rid raw query)"
  unfolding only_reads_def list_prices_handler_def get_price_symbol_handler_def
  by (auto simp: Let_def split: prod.splits sum.splits option.splits
      dest!: only_readsD [OF price_queries_read(1)] only_readsD [OF price_queries_read(2)] only_readsD [OF only_reads_basic(3)])

lemma recent_events_reads [frames]: "only_reads (list_recent_events U pid n)"
  by (simp add: list_recent_events_def Let_def frames)

lemma insights_reads [frames]:
  assumes "\<And>q. only_reads (ai_http E q)"
  shows "only_reads (post_insights_explain_handler D F J U N iter E (load_portfolio_assembler_input D P)
    (Some portfolio_owned_by_user) (Some \<lparr>rs_counts = load_symbol_return_sample_counts, rs_sigma = load_symbol_sigma_1d D P,
      rs_recent = list_recent_events U\<rparr>) svc parts n rid user i body)"
proof -
  have s: "only_reads (service_explain N J U E s ctx)" for s ctx
    using explain_reads [OF assms] by (auto simp: only_reads_def service_explain_def Let_def split: option.splits)
  show ?thesis
    unfolding only_reads_def post_insights_explain_handler_def
    by (auto simp: Let_def split: prod.splits sum.splits option.splits
        dest!: only_readsD [OF base_state_reads] only_readsD [OF build_risk_reads] only_readsD [OF recent_events_reads]
          only_readsD [OF s])
qed

lemma account_handlers_no_event [frames]:
  "no_event (register_handler U N A P B rid fresh body)" "no_event (login_handler U N A P B ttl rid fresh body)"
  "no_event (logout_handler U P cookie)"
proof -
  note d = only_readsD [OF store_reads(4)] only_readsD [OF only_reads_basic(3)] no_eventD [OF store_writes(2)]
    no_eventD [OF store_writes(3)]
  show "no_event (register_handler U N A P B rid fresh body)" "no_event (login_handler U N A P B ttl rid fresh body)"
    unfolding no_event_def register_handler_def login_handler_def
    by (auto simp: Let_def split: option.splits prod.splits sum.splits dest!: d)
  show "no_event (logout_handler U P cookie)"
    using store_writes(4) [of P] by (auto simp: no_event_def logout_handler_def Let_def split: option.splits)
qed

section \<open>The two writers\<close>

lemma ingest_row:
  assumes "ingest D J (append_event U P) e w = (r, w')" and "db_events (w_db w') \<noteq> db_events (w_db w)"
  shows "\<exists>pid row. uuid_parse U (portfolio_id e) = Some pid \<and> db_events (w_db w') = db_events (w_db w) @ [row] \<and>
    er_portfolio_id row = pid \<and> er_event_type row = event_type e"
proof (cases D J "append_event U P" e rule: ingest_cases)
  case (refused x)
  then show ?thesis using assms by simp
next
  case passed
  have w': "w' = snd (append_event U P e w)" using assms(1) passed(1) [of w] by simp
  show ?thesis
  proof (cases U P e w rule: append_event_db)
    case same
    then show ?thesis using w' assms(2) by simp
  next
    case (wrote pid res)
    from wrote(2) show ?thesis
      by (cases rule: append_body_cases) (use w' wrote(1) assms(2) in auto)
  qed
qed

lemma event_clock_reads: "event_clock read_clock given w = (t, u, w') \<Longrightarrow> w_db w' = w_db w"
  by (auto simp: event_clock_def split: prod.splits dest!: only_readsD [OF only_reads_basic(3)])

lemma owned_by_user_sound:
  assumes "portfolio_owned_by_user pid u w = (Inr True, w')"
  shows "\<exists>p\<in>set (db_portfolios (w_db w)). pf_portfolio_id p = pid \<and> pf_owner_user_id p = Some u"
  using db_query_Inr [OF assms [unfolded portfolio_owned_by_user_def]] by blast

lemma trade_access_sound:
  assumes "trade_access rid (Some portfolio_owned_by_user) (Some u) pid w = (None, w')"
  shows "w_db w' = w_db w \<and> (\<exists>p\<in>set (db_portfolios (w_db w)). pf_portfolio_id p = pid \<and> pf_owner_user_id p = Some u)"
  using assms owned_by_user_sound only_readsD [OF trade_access_reads assms]
  by (auto simp: trade_access_def split: prod.splits sum.splits bool.splits)

definition owns :: "db \<Rightarrow> uuid \<Rightarrow> uuid \<Rightarrow> bool" where
  "owns d u pid \<longleftrightarrow> (\<exists>p\<in>set (db_portfolios d). pf_portfolio_id p = pid \<and> pf_owner_user_id p = Some u)"

lemma post_trade_row:
  assumes "post_trade_handler D J U (ingest D J (append_event U P)) read_clock parts (Some portfolio_owned_by_user)
      rid (Some u) fresh body w = (r, w')"
    and "db_events (w_db w') \<noteq> db_events (w_db w)"
  shows "\<exists>row. db_events (w_db w') = db_events (w_db w) @ [row] \<and> er_event_type row = event_type_trade_executed \<and>
    er_portfolio_id row \<notin> set parts \<and> owns (w_db w) u (er_portfolio_id row)"
proof -
  let ?svc = "ingest D J (append_event U P)"
  obtain req where req: "bind_post_trade body = Some req"
    using assms by (cases "bind_post_trade body") (auto simp: post_trade_handler_def)
  obtain pid where pid: "uuid_parse U (tr_portfolio_id req) = Some pid" "pid \<notin> set parts"
    using assms req
    by (cases "uuid_parse U (tr_portfolio_id req)") (auto simp: post_trade_handler_def split: if_splits)
  obtain x w1 where acc: "trade_access rid (Some portfolio_owned_by_user) (Some u) pid w = (x, w1)" by (rule prod.exhaust)
  have w1: "w_db w1 = w_db w" by (rule only_readsD [OF trade_access_reads acc])
  note unf = assms(1) [unfolded post_trade_handler_def req option.case pid(1)]
  have "x = None" using unf pid(2) acc w1 assms(2) by (cases x) auto
  then have own: "owns (w_db w) u pid" using trade_access_sound acc unfolding owns_def by blast
  obtain t where t: "decode_trade D J (tr_trade req) = Some t"
    using unf pid(2) acc w1 assms(2) \<open>x = None\<close> by (cases "decode_trade D J (tr_trade req)") auto
  obtain et tn w2 where c: "event_clock read_clock (tr_event_time req) w1 = (et, tn, w2)" by (metis prod_cases3)
  obtain y w3 where sv: "?svc (trade_event J req t fresh et tn) w2 = (y, w3)" by (rule prod.exhaust)
  have w3: "w' = w3" using unf pid(2) acc \<open>x = None\<close> t c sv by simp
  have w2: "w_db w2 = w_db w" using event_clock_reads [OF c] w1 by simp
  obtain row where "db_events (w_db w') = db_events (w_db w) @ [row]" "er_portfolio_id row = pid"
    "er_event_type row = event_type_trade_executed"
    using ingest_row [OF sv] assms(2) w3 w2 pid(1) by (auto simp: trade_event_def)
  then show ?thesis using own pid(2) by blast
qed

lemma post_price_row:
  assumes "post_price_handler D J U (ingest D J (append_event U P)) read_clock parts rid fresh body w = (r, w')"
    and "db_events (w_db w') \<noteq> db_events (w_db w)" and "uuid_laws U" and "parts \<noteq> []" and "length parts < 2 ^ 32"
  shows "\<exists>row. db_events (w_db w') = db_events (w_db w) @ [row] \<and> er_event_type row = event_type_price_updated \<and>
    er_portfolio_id row \<in> set parts"
proof -
  let ?svc = "ingest D J (append_event U P)"
  obtain req where req: "bind_post_price body = Some req"
    using assms by (cases "bind_post_price body") (auto simp: post_price_handler_def)
  obtain p where p: "decode_price D J (pr_price req) = Some p"
    using assms req by (cases "decode_price D J (pr_price req)") (auto simp: post_price_handler_def)
  obtain target where tg: "price_partition_for_symbol parts (p_symbol p) = Inr target" "target \<in> set parts"
    using price_partition_member [OF assms(4,5)] by blast
  obtain et tn w1 where c: "event_clock read_clock (pr_event_time req) w = (et, tn, w1)" by (metis prod_cases3)
  obtain y w2 where sv: "?svc (price_event J U req p target fresh et tn) w1 = (y, w2)" by (rule prod.exhaust)
  have "w' = w2" using assms(1) req p tg c sv by (simp add: post_price_handler_def)
  then show ?thesis
    using ingest_row [OF sv] assms(2) event_clock_reads [OF c] tg(2) uuid_laws.parse_str [OF assms(3)]
    by (auto simp: price_event_def)
qed

section \<open>The middleware\<close>

text \<open>The packages read clocks, random numbers and the network, not the database.\<close>

definition packages_quiet :: "('d, 'l) packages \<Rightarrow> bool" where
  "packages_quiet K \<longleftrightarrow> only_reads (pk_new_uuid K) \<and> (\<forall>q. only_reads (ai_http (pk_ai K) q)) \<and> (\<forall>l. only_reads (\<lambda>w. case rl_allow (pk_rate K) l w of (b, l', w') \<Rightarrow> (b, w')))"

text \<open>The user of an open session whose id is in the cookie.\<close>

definition session_user :: "('d, 'l) packages \<Rightarrow> api_request \<Rightarrow> db \<Rightarrow> uuid \<Rightarrow> bool" where
  "session_user K q d u \<longleftrightarrow> (\<exists>c se. rq_cookie q = Some c \<and> uuid_parse (pk_uuid K) (trim_space c) = Some (se_session_id se) \<and>
     se \<in> set (db_sessions d) \<and> se_revoked_at se = None \<and> se_user_id se = u)"

definition same_db :: "('d, 'l) server \<Rightarrow> ('d, 'l) server \<Rightarrow> bool" where
  "same_db s s' \<longleftrightarrow> w_db (sv_world s') = w_db (sv_world s)"

lemma rate_limit_reads:
  assumes "packages_quiet K" and "per_ip_rate_limit (pk_rate K) rid ip l w = (x, l', w')"
  shows "w_db w' = w_db w"
proof (cases l)
  case None
  then show ?thesis using assms(2) by (simp add: per_ip_rate_limit_def)
next
  case (Some p)
  let ?lim = "case map_of (ip_buckets p) ip of None \<Rightarrow> rl_new (pk_rate K) (ip_limit p) (ip_burst p) | Some l \<Rightarrow> l"
  obtain ok lim' w1 where a: "rl_allow (pk_rate K) ?lim w = (ok, lim', w1)" by (metis prod_cases3)
  have "only_reads (\<lambda>w. case rl_allow (pk_rate K) ?lim w of (b, l', w') \<Rightarrow> (b, w'))"
    using assms(1) unfolding packages_quiet_def by blast
  then have "w_db w1 = w_db w" using a only_readsD [of _ w ok w1] by simp
  then show ?thesis using assms(2) Some a by (simp add: per_ip_rate_limit_def allow_ip_def)
qed

lemma request_id_reads: "packages_quiet K \<Longrightarrow> request_id K h w = (rid, w') \<Longrightarrow> w_db w' = w_db w"
  by (auto simp: request_id_def packages_quiet_def split: if_splits prod.splits dest!: only_readsD [of "pk_new_uuid K"])

lemma rate_limited_cases:
  assumes "packages_quiet K" and "rate_limited K b rid ip h s = Some (a, s')"
  obtains (refused) r where "a = Response r" "same_db s s'"
    | (passed) s1 where "same_db s s1" "h s1 = Some (a, s')"
proof -
  obtain x l w where p: "per_ip_rate_limit (pk_rate K) rid ip (if b then sv_ingest_limiter s else sv_get_limiter s) (sv_world s) =
      (x, l, w)" by (metis prod_cases3)
  have w: "w_db w = w_db (sv_world s)" by (rule rate_limit_reads [OF assms(1) p])
  let ?s1 = "if b then s\<lparr>sv_world := w, sv_ingest_limiter := l\<rparr> else s\<lparr>sv_world := w, sv_get_limiter := l\<rparr>"
  have same: "same_db s ?s1" using w by (simp add: same_db_def)
  have run: "(case x of Some r \<Rightarrow> Some (Response r, ?s1) | None \<Rightarrow> h ?s1) = Some (a, s')"
    using assms(2) p by (simp add: rate_limited_def Let_def)
  show thesis
  proof (cases x)
    case None
    then show thesis using run by (intro passed [OF same]) simp
  next
    case (Some r)
    then show thesis using run same by (intro refused [of r]) auto
  qed
qed

lemma authenticated_cases:
  assumes "authenticated K rid (rq_cookie q) h s = Some (a, s')"
  obtains (refused) r where "a = Response r" "same_db s s'"
    | (passed) u s1 where "same_db s s1" "session_user K q (w_db (sv_world s)) (au_user_id u)" "h u s1 = Some (a, s')"
proof -
  obtain x w where p: "require_auth (pk_uuid K) rid (rq_cookie q) (sv_world s) = (x, w)" by (rule prod.exhaust)
  have w: "w_db w = w_db (sv_world s)" by (rule only_readsD [OF require_auth_reads p])
  show thesis
  proof (cases x)
    case (Inl r)
    then show thesis using assms p w by (intro refused [of r]) (auto simp: authenticated_def same_db_def)
  next
    case (Inr u)
    have "session_user K q (w_db (sv_world s)) (au_user_id u)"
      using require_auth_facts [OF p [unfolded Inr]]
      by (auto simp: session_user_def auth_user_of_def scan_user_def)
    then show thesis using Inr assms p w
      by (intro passed [of "s\<lparr>sv_world := w\<rparr>" u]) (auto simp: authenticated_def same_db_def)
  qed
qed

lemma v1_group_cases:
  assumes "packages_quiet K" and "v1_group K C b rid q h s = Some (a, s')"
  obtains (refused) r where "a = NoRoute \<or> a = Response r" "same_db s s'"
    | (passed) u s1 where "same_db s s1" "session_user K q (w_db (sv_world s)) (au_user_id u)" "h u s1 = Some (a, s')"
      "rc_partitions C \<noteq> []"
proof (cases "rc_partitions C = []")
  case True
  then show thesis using assms(2) by (intro refused) (auto simp: v1_group_def same_db_def)
next
  case False
  then have "rate_limited K b rid (rq_client_ip q) (authenticated K rid (rq_cookie q) h) s = Some (a, s')"
    using assms(2) by (simp add: v1_group_def)
  with assms(1) show thesis
  proof (cases rule: rate_limited_cases)
    case (refused r)
    then show thesis using that(1) by blast
  next
    case (passed s1)
    from passed(2) show thesis
    proof (cases rule: authenticated_cases)
      case (refused r)
      then show thesis using that(1) [of r] passed(1) by (simp add: same_db_def)
    next
      case (passed u s2)
      then show thesis using that(2) [of s2 u] \<open>same_db s s1\<close> False by (simp add: same_db_def)
    qed
  qed
qed

section \<open>Routes\<close>

lemma drawing_cases:
  assumes "packages_quiet K" and "on_world (drawing K f) answer s = Some (a, s')"
  obtains fresh w x w' where "w_db w = w_db (sv_world s)" "f fresh w = (x, w')" "a = answer x" "s' = s\<lparr>sv_world := w'\<rparr>"
proof -
  obtain fresh w where n: "pk_new_uuid K (sv_world s) = (fresh, w)" by (rule prod.exhaust)
  have w: "w_db w = w_db (sv_world s)" using assms(1) n unfolding packages_quiet_def by (blast dest: only_readsD)
  obtain x w' where "f fresh w = (x, w')" by (rule prod.exhaust)
  then show thesis using that [OF w] assms(2) n by (simp add: on_world_def drawing_def)
qed

lemma on_world_reads: "only_reads f \<Longrightarrow> on_world f answer s = Some (a, s') \<Longrightarrow> same_db s s'"
  by (auto simp: on_world_def same_db_def split: prod.splits dest: only_readsD)

lemma draw_portfolio_id_reads:
  assumes "only_reads new" and "draw_portfolio_id new parts w = Some y"
  shows "w_db (snd y) = w_db w"
proof -
  have "only_reads new \<longrightarrow> w_db (snd y) = w_db w"
    by (rule draw_portfolio_id.raw_induct [OF _ assms(2), where P = "\<lambda>n p w y. only_reads n \<longrightarrow> w_db (snd y) = w_db w"])
      (auto split: prod.splits if_splits dest: only_readsD)
  then show ?thesis using assms(1) by blast
qed

lemma create_portfolio_no_event:
  assumes new: "only_reads new" and run: "create_portfolio_handler U N new (create_portfolio A P)
    (create_portfolio_for_owner A P) parts rid (Some u) body w = Some (x, w')"
  shows "db_events (w_db w') = db_events (w_db w)"
proof (cases "bind_create_portfolio body")
  case None
  then show ?thesis using run by (simp add: create_portfolio_handler_def)
next
  case (Some req)
  let ?name = "trim_space (cp_name req)" and ?c = "to_upper N (trim_space (cp_base_currency req))"
  let ?ccy = "if ?c = [] then ''USD'' else ?c"
  show ?thesis
  proof (cases "?name = []")
    case True
    then show ?thesis using run Some by (simp add: create_portfolio_handler_def Let_def)
  next
    case False
    then obtain pid w1 where d: "draw_portfolio_id new parts w = Some (pid, w1)"
      "(case create_portfolio_for_owner A P u pid ?name ?ccy w1 of
         (Inl e, w2) \<Rightarrow> (Inl (internal_error rid), w2)
       | (Inr row, w2) \<Rightarrow> (Inr (to_portfolio_catalog_response U row), w2)) = (x, w')"
      using run Some by (auto simp: create_portfolio_handler_def Let_def)
    obtain r w2 where c: "create_portfolio_for_owner A P u pid ?name ?ccy w1 = (r, w2)" by (rule prod.exhaust)
    have "w' = w2" using d(2) c by (cases r) simp_all
    then show ?thesis using draw_portfolio_id_reads [OF new d(1)] no_eventD [OF store_writes(1) c] by simp
  qed
qed

lemma on_world_no_event:
  "no_event f \<Longrightarrow> on_world f answer s = Some (a, s') \<Longrightarrow> db_events (w_db (sv_world s')) = db_events (w_db (sv_world s))"
  by (auto simp: on_world_def split: prod.splits dest: no_eventD)

lemma put_watchlist_no_event:
  assumes "put_price_feed_watchlist_handler N (Some (upsert_price_feed_watchlist N P)) rid body m w = (x, m', w')"
  shows "db_events (w_db w') = db_events (w_db w)"
  using assms
  by (auto simp: put_price_feed_watchlist_handler_def Let_def split: option.splits prod.splits sum.splits
      dest!: no_eventD [OF store_writes(5)])

lemma serve_read_no_event:
  assumes "packages_quiet K" and "serve_read K C rid user c s = Some (a, s')"
  shows "db_events (w_db (sv_world s')) = db_events (w_db (sv_world s))"
proof -
  have new: "only_reads (pk_new_uuid K)" using assms(1) by (simp add: packages_quiet_def)
  note unf = assms(2) [unfolded serve_read_def Let_def]
  show ?thesis
  proof (cases c)
    case (CreatePortfolio body)
    then show ?thesis using unf create_portfolio_no_event [OF new] by auto
  next
    case (PutWatchlist body)
    then show ?thesis using unf by (auto split: prod.splits dest!: put_watchlist_no_event)
  next
    case (PostExplain i body)
    have http: "only_reads (ai_http (pk_ai K) q)" for q using assms(1) by (simp add: packages_quiet_def)
    show ?thesis using on_world_no_event [OF only_reads_no_event [OF insights_reads [OF http]]] unf PostExplain by simp
  qed (use unf in \<open>auto dest!: on_world_no_event [rotated] intro: only_reads_no_event frames\<close>)
qed

lemma drawing_no_event:
  assumes "packages_quiet K" and "\<And>fresh. no_event (f fresh)" and "on_world (drawing K f) answer s = Some (a, s')"
  shows "db_events (w_db (sv_world s')) = db_events (w_db (sv_world s))"
proof -
  obtain fresh w x w' where d: "w_db w = w_db (sv_world s)" "f fresh w = (x, w')" "s' = s\<lparr>sv_world := w'\<rparr>"
    using assms(1,3) by (rule drawing_cases)
  then show ?thesis using no_eventD [OF assms(2) d(2)] by simp
qed

lemma serve_auth_no_event:
  fixes q :: api_request
  assumes "packages_quiet K" and "serve_auth K C rid (rq_cookie q) c s = Some (a, s')"
  shows "db_events (w_db (sv_world s')) = db_events (w_db (sv_world s))"
proof -
  note unf = assms(2) [unfolded serve_auth_def Let_def]
  have logged: "db_events (w_db (sv_world s')) = db_events (w_db (sv_world s))"
    if "authenticated K rid (rq_cookie q) h s = Some (a, s')"
      "\<And>u s1. h u s1 = Some (a, s') \<Longrightarrow> db_events (w_db (sv_world s')) = db_events (w_db (sv_world s1))" for h
    using that(1) by (cases rule: authenticated_cases) (auto simp: same_db_def dest: that(2))
  show ?thesis
  proof (cases c)
    case (Register body)
    then show ?thesis using unf
      by (auto intro!: drawing_no_event [OF assms(1) account_handlers_no_event(1)])
  next
    case (Login body)
    then show ?thesis using unf
      by (auto intro!: drawing_no_event [OF assms(1) account_handlers_no_event(2)])
  next
    case Logout
    then show ?thesis using unf
      by (auto intro!: logged dest: on_world_no_event [OF account_handlers_no_event(3)])
  next
    case Me
    then show ?thesis using unf by (auto intro!: logged)
  qed (use unf in auto)
qed

lemma serve_routes:
  assumes "packages_quiet K" and "serve K C q s = Some (a, s')"
  obtains (auth) rid s1 where "same_db s s1" "rate_limited K True rid (rq_client_ip q) (serve_auth K C rid (rq_cookie q) (rq_call q)) s1 = Some (a, s')"
    | (writer) rid s1 where "same_db s s1" "(\<exists>b. rq_call q = PostTrade b) \<or> (\<exists>b. rq_call q = PostPrice b)"
      "v1_group K C True rid q (\<lambda>user. serve_ingest K C rid user (rq_call q)) s1 = Some (a, s')"
    | (reader) rid s1 where "same_db s s1"
      "v1_group K C False rid q (\<lambda>user. serve_read K C rid user (rq_call q)) s1 = Some (a, s')"
proof -
  obtain rid w where r: "request_id K (rq_request_id q) (sv_world s) = (rid, w)" by (rule prod.exhaust)
  have sd: "same_db s (s\<lparr>sv_world := w\<rparr>)" using request_id_reads [OF assms(1) r] by (simp add: same_db_def)
  show thesis
    using assms(2) r auth [OF sd, of rid] writer [OF sd, of rid] reader [OF sd, of rid]
    by (cases "rq_call q") (simp_all add: serve_def Let_def)
qed

section \<open>Who writes events\<close>

text \<open>
  (C2) Events come only from sessions that may write them. Whatever the request: if it changes the
  event table, it adds exactly one row, its cookie names an open session, and either it is a trade
  in a portfolio that the user of the session owns and that is no price partition, or it is a
  price in a price partition.
\<close>

theorem events_written_by_owners:
  assumes "packages_quiet K" and "uuid_laws (pk_uuid K)" and "length (rc_partitions C) < 2 ^ 32"
    and "serve K C q s = Some (a, s')"
    and "db_events (w_db (sv_world s')) \<noteq> db_events (w_db (sv_world s))"
  shows "\<exists>row u. db_events (w_db (sv_world s')) = db_events (w_db (sv_world s)) @ [row] \<and>
    session_user K q (w_db (sv_world s)) u \<and>
    ((\<exists>body. rq_call q = PostTrade body) \<and> er_event_type row = event_type_trade_executed \<and>
        er_portfolio_id row \<notin> set (rc_partitions C) \<and> owns (w_db (sv_world s)) u (er_portfolio_id row) \<or>
     (\<exists>body. rq_call q = PostPrice body) \<and> er_event_type row = event_type_price_updated \<and>
        er_portfolio_id row \<in> set (rc_partitions C))"
  using assms(1,4)
proof (cases rule: serve_routes)
  case (auth rid s1)
  from assms(1) auth(2) have "db_events (w_db (sv_world s')) = db_events (w_db (sv_world s1))"
    by (cases rule: rate_limited_cases) (auto simp: same_db_def dest: serve_auth_no_event [OF assms(1)])
  then show ?thesis using auth(1) assms(5) by (simp add: same_db_def)
next
  case (reader rid s1)
  from assms(1) reader(2) have "db_events (w_db (sv_world s')) = db_events (w_db (sv_world s1))"
    by (cases rule: v1_group_cases) (auto simp: same_db_def dest: serve_read_no_event [OF assms(1)])
  then show ?thesis using reader(1) assms(5) by (simp add: same_db_def)
next
  case (writer rid s1)
  let ?d = "w_db (sv_world s)"
  from assms(1) writer(3) show ?thesis
  proof (cases rule: v1_group_cases)
    case (refused r)
    then show ?thesis using writer(1) assms(5) by (simp add: same_db_def)
  next
    case (passed u s2)
    have d: "w_db (sv_world s1) = ?d" "w_db (sv_world s2) = ?d" using writer(1) passed(1) by (simp_all add: same_db_def)
    note unf = passed(3) [unfolded serve_ingest_def Let_def]
    show ?thesis
    proof (cases "\<exists>b. rq_call q = PostTrade b")
      case True
      then obtain b where b: "rq_call q = PostTrade b" by blast
      show ?thesis
      proof (rule drawing_cases [OF assms(1), of _ _ s2 a s'])
        show "on_world (drawing K (\<lambda>fresh. post_trade_handler (pk_decimal K) (pk_json K) (pk_uuid K)
            (ingest (pk_decimal K) (pk_json K) (append_event (pk_uuid K) (pk_pg K))) read_clock (rc_partitions C)
            (Some portfolio_owned_by_user) rid (Some (au_user_id u)) fresh b)) Response s2 = Some (a, s')"
          using unf b by simp
      qed (use d b passed(2) assms(5) in \<open>auto dest!: post_trade_row\<close>)
    next
      case False
      then obtain b where b: "rq_call q = PostPrice b" using writer(2) by blast
      show ?thesis
      proof (rule drawing_cases [OF assms(1), of _ _ s2 a s'])
        show "on_world (drawing K (\<lambda>fresh. post_price_handler (pk_decimal K) (pk_json K) (pk_uuid K)
            (ingest (pk_decimal K) (pk_json K) (append_event (pk_uuid K) (pk_pg K))) read_clock (rc_partitions C)
            rid fresh b)) Response s2 = Some (a, s')"
          using unf b by simp
      qed (use d b passed(2,4) assms(2,3,5) in \<open>auto dest!: post_price_row\<close>)
    qed
  qed
qed

text \<open>Ann owns portfolio 7, has an open session, and buys ten shares.\<close>

definition sample_packages :: "(rdec, unit) packages" where
  "sample_packages = \<lparr>pk_decimal = ref_dec, pk_json = ref_json, pk_uuid = ref_uuid, pk_case = ref_case,
     pk_account = ref_account, pk_pg = ref_pg, pk_password = ref_password, pk_float = ref_float,
     pk_rate = \<lparr>rl_new = (\<lambda>l b. ()), rl_allow = (\<lambda>l w. (True, l, w))\<rparr>, pk_new_uuid = (\<lambda>w. (9, w)),
     pk_map_order = (\<lambda>ss. ss),
     pk_ai = \<lparr>ai_quote = (\<lambda>s. s), ai_indent = (\<lambda>j. None), ai_http = (\<lambda>q w. (Inl ''no network'', w))\<rparr>,
     pk_collation = \<lparr>co_lower = (\<lambda>s. s), co_less = (<)\<rparr>\<rparr>"

definition sample_router :: router_config where
  "sample_router = \<lparr>rc_partitions = [1], rc_risk_sigma_window_n = 60, rc_insights = None, rc_session_ttl = 0, rc_feed_enabled = False,
     rc_feed_provider = ''twelvedata'', rc_poll_interval = 60 * second\<rparr>"

definition sample_server :: "(rdec, unit) server" where
  "sample_server = \<lparr>sv_world = \<lparr>w_db = empty_db\<lparr>
       db_users := [\<lparr>us_user_id = 3, us_display_name = ''Ann'', us_work_email = ''ann@x.io'',
         us_password_hash = ''h'', us_created_at = 0, us_updated_at = 0\<rparr>],
       db_sessions := [\<lparr>se_session_id = 5, se_user_id = 3, se_expires_at = 2000000, se_revoked_at = None, se_created_at = 0\<rparr>],
       db_portfolios := [\<lparr>pf_portfolio_id = 7, pf_owner_user_id = Some 3, pf_name = ''P'', pf_base_currency = ''USD'',
         pf_created_at = 0, pf_updated_at = 0\<rparr>]\<rparr>,
     w_now = 1000000, w_ticks = [], w_db_now = 0, w_db_ticks = [], w_faults = [], w_risk = []\<rparr>,
     sv_manager = Some None, sv_runtime = None, sv_ingest_limiter = Some (new_per_ip_rate_limiter 20 40), sv_get_limiter = None\<rparr>"

definition sample_request :: "api_call \<Rightarrow> api_request" where
  "sample_request c = \<lparr>rq_request_id = ''r'', rq_client_ip = ''10.0.0.1'', rq_cookie = Some (uuid_str ref_uuid 5), rq_call = c\<rparr>"

definition trade_body :: raw_message where
  "trade_body = RawDoc (JObj [(''portfolio_id'', JStr (uuid_str ref_uuid 7)), (''idempotency_key'', JStr ''k1''),
     (''source'', JStr ''api''), (''trade'', JObj (trade_members ref_json ten_shares))])"

lemma sample_quiet: "packages_quiet sample_packages"
  by (simp add: packages_quiet_def sample_packages_def only_reads_def)

lemma sample_limited:
  "rate_limited sample_packages True rid ip h sample_server =
    h (sample_server\<lparr>sv_ingest_limiter := Some ((new_per_ip_rate_limiter 20 40)\<lparr>ip_buckets := [(ip, ())]\<rparr>)\<rparr>)"
  by (simp add: rate_limited_def per_ip_rate_limit_def allow_ip_def sample_packages_def sample_server_def Let_def
      new_per_ip_rate_limiter_def)

abbreviation sample_world_now :: world where
  "sample_world_now \<equiv> sv_world sample_server"

lemma sample_call: "next_call sample_world_now = (NoFault, sample_world_now)"
  "read_clock sample_world_now = (1000000, sample_world_now)" "healthy sample_world_now"
  by (simp_all add: next_call_def read_clock_def sample_server_def healthy_def)

lemma sample_authenticated: "require_auth ref_uuid rid (Some (uuid_str ref_uuid 5)) sample_world_now =
    (Inr \<lparr>au_user_id = 3, au_display_name = ''Ann'', au_work_email = ''ann@x.io''\<rparr>, sample_world_now)"
  by (simp add: require_auth_def account_query_defs db_query_def next_call_def read_clock_def refu.parse_str
      refut.str_nonempty sample_server_def scan_session_def auth_user_of_def scan_user_def)

lemma sample_access: "trade_access rid (Some portfolio_owned_by_user) (Some 3) 7 sample_world_now = (None, sample_world_now)"
  by (simp add: trade_access_def portfolio_owned_by_user_def db_query_def next_call_def sample_server_def)

lemma sample_bind: "bind_post_trade trade_body = Some \<lparr>tr_portfolio_id = uuid_str ref_uuid 7, tr_idempotency_key = ''k1'',
    tr_source = ''api'', tr_event_time = None, tr_trade = RawDoc (JObj (trade_members ref_json ten_shares))\<rparr>"
  by (simp add: bind_post_trade_def trade_body_def bind_members_def field_match_def post_trade_fields_def
      assign_trade_field_def refut.str_nonempty)

lemma sample_trade_posted:
  "\<exists>r w' created. post_trade_handler ref_dec ref_json ref_uuid (ingest ref_dec ref_json (append_event ref_uuid ref_pg))
      read_clock [1] (Some portfolio_owned_by_user) ''r'' (Some 3) 9 trade_body sample_world_now = (r, w') \<and>
    db_events (w_db w') = [sample_event_row 9 1000000 ''k1'' created]"
proof -
  have v: "validate_event_envelope (sample_envelope 9 1000000 ''k1'' ten_shares) = Inr ()" by code_simp
  have k: "char_of (0::nat) \<notin> set ''k1''" by code_simp
  have t: "pg_time ref_pg 1000000 = 1000000" by (simp add: ref_pg_def)
  have e: "db_events (w_db sample_world_now) = []" by (simp add: sample_server_def empty_db_def)
  obtain w' created where i: "ingest ref_dec ref_json (append_event ref_uuid ref_pg)
      (sample_envelope 9 1000000 ''k1'' ten_shares) sample_world_now = (Inr \<lparr>ar_event_id = 9, ar_inserted = True\<rparr>, w')"
    "db_events (w_db w') = [sample_event_row 9 1000000 ''k1'' created]"
    using ingest_sample [OF sample_call(3) v _ k t] e by auto
  have p: "encode_trade ref_json ten_shares = RawDoc (JObj (trade_members ref_json ten_shares))"
    by (rule encode_trade_members)
  have "decode_trade ref_dec ref_json (RawDoc (JObj (trade_members ref_json ten_shares))) = Some ten_shares"
    using sample_buy_decodes p by (simp add: sample_buy_def sample_envelope_def)
  moreover have "trade_event ref_json \<lparr>tr_portfolio_id = uuid_str ref_uuid 7, tr_idempotency_key = ''k1'', tr_source = ''api'',
      tr_event_time = None, tr_trade = RawDoc (JObj (trade_members ref_json ten_shares))\<rparr> ten_shares 9 1000000 1000000 =
      sample_envelope 9 1000000 ''k1'' ten_shares"
    by (simp add: trade_event_def sample_envelope_def ref_uuid_def)
  ultimately show ?thesis using i
    by (auto simp: post_trade_handler_def sample_bind refu.parse_str sample_access event_clock_def sample_call)
qed

theorem events_written_by_owners_witness:
  "\<exists>a s' row u. serve sample_packages sample_router (sample_request (PostTrade trade_body)) sample_server = Some (a, s') \<and>
    db_events (w_db (sv_world s')) = [row] \<and> session_user sample_packages (sample_request (PostTrade trade_body))
      (w_db sample_world_now) u \<and> owns (w_db sample_world_now) u (er_portfolio_id row)"
proof -
  let ?q = "sample_request (PostTrade trade_body)"
  obtain r w' created where h: "post_trade_handler ref_dec ref_json ref_uuid
      (ingest ref_dec ref_json (append_event ref_uuid ref_pg)) read_clock [1] (Some portfolio_owned_by_user) ''r'' (Some 3)
      9 trade_body sample_world_now = (r, w')" "db_events (w_db w') = [sample_event_row 9 1000000 ''k1'' created]"
    using sample_trade_posted by blast
  have k: "pk_uuid sample_packages = ref_uuid" "pk_decimal sample_packages = ref_dec" "pk_json sample_packages = ref_json"
    "pk_pg sample_packages = ref_pg" "pk_new_uuid sample_packages = (\<lambda>w. (9, w))"
    by (simp_all add: sample_packages_def)
  obtain s' where s': "serve sample_packages sample_router ?q sample_server = Some (Response r, s')" "sv_world s' = w'"
    by (simp add: serve_def sample_request_def request_id_def v1_group_def sample_router_def sample_limited
        authenticated_def sample_authenticated serve_ingest_def on_world_def drawing_def k h Let_def)
  have e: "db_events (w_db sample_world_now) = []" by (simp add: sample_server_def empty_db_def)
  have n: "db_events (w_db (sv_world s')) \<noteq> db_events (w_db sample_world_now)" using s'(2) h(2) e by simp
  have U: "uuid_laws (pk_uuid sample_packages)" using refu.uuid_laws_axioms k by simp
  show ?thesis
    using events_written_by_owners [OF sample_quiet U _ s'(1) n] s' h(2) e
    by (auto simp: sample_router_def sample_event_row_def sample_request_def)
qed

end
