(* ===== verification/Portfolio_Privacy.thy ===== *)
theory Portfolio_Privacy
  imports Router_Properties
begin

text \<open>
  To whom the server shows the data of a portfolio: every portfolio id that an answer names, with all the
  symbols and events shown of it, belongs to the user of the session. The first part follows the rows
  from the tables through the read path into a view, a risk snapshot, a scenario and an explanation.
\<close>

section \<open>From the tables to the input\<close>

definition stored_symbols :: "db \<Rightarrow> uuid \<Rightarrow> string set" where
  "stored_symbols d pid = {s. (pid, s) \<in> fst ` set (db_positions d)}"

lemma parse_position_rows_symbols:
  "parse_position_rows D P rs = Inr ls \<Longrightarrow> map fst ls = map fst rs"
  by (induction rs arbitrary: ls) (auto split: option.splits sum.splits)

lemma rows_of_symbols: "fst ` set (rows_of d pid) = stored_symbols d pid"
  by (force simp: rows_of_def stored_symbols_def image_iff)

lemma loaded_positions:
  assumes "load_positions_for_portfolio D P pid w = (Inr (rows, open_symbols), w')"
  shows "pr_symbol ` set rows = stored_symbols (w_db w) pid" and "set open_symbols \<subseteq> stored_symbols (w_db w) pid"
proof -
  obtain ls where ls: "parse_position_rows D P (sort_key fst (rows_of (w_db w) pid)) = Inr ls"
    "rows = map (\<lambda>(s, l). \<lparr>pr_symbol = s, pr_quantity = lot_quantity l,
       pr_average_cost = average_cost l, pr_realized_pnl = realized_pnl l\<rparr>) ls"
    "open_symbols = map fst (filter (\<lambda>(s, l). \<not> d_is_zero D (lot_quantity l)) ls)"
    using db_query_Inr [OF assms [unfolded load_positions_for_portfolio_def]] by (auto split: sum.splits)
  have stored: "fst ` set ls = stored_symbols (w_db w) pid"
    using parse_position_rows_symbols [OF ls(1)] by (metis image_set rows_of_symbols set_sort)
  have "map pr_symbol rows = map fst ls" using ls(2) by (auto simp: split_beta)
  then show "pr_symbol ` set rows = stored_symbols (w_db w) pid" unfolding stored [symmetric] by (metis image_set)
  show "set open_symbols \<subseteq> stored_symbols (w_db w) pid" unfolding stored [symmetric] ls(3) by auto
qed

lemma parse_price_marks_symbols: "parse_price_marks D P d rs = Inr ms \<Longrightarrow> map fst ms = map fst rs"
  by (induction rs arbitrary: ms) (auto split: option.splits sum.splits)

lemma loaded_marks:
  assumes "(if ss = [] then ret [] else load_price_marks_by_symbol D P ss) w = (Inr marks, w')"
  shows "fst ` set marks \<subseteq> set ss"
proof (cases "ss = []")
  case True
  then show ?thesis using assms by (simp add: ret_def)
next
  case False
  then have "parse_price_marks D P (w_db w) (filter (\<lambda>(s, r). s \<in> set ss) (db_prices (w_db w))) = Inr marks"
    using assms by (auto simp: load_price_marks_by_symbol_def dest!: db_query_Inr)
  then have "fst ` set marks = fst ` set (filter (\<lambda>(s, r). s \<in> set ss) (db_prices (w_db w)))"
    using parse_price_marks_symbols by (metis image_set)
  then show ?thesis by auto
qed

lemma loaded_input:
  assumes "load_portfolio_assembler_input D P pid w = (Inr (Some i), w')"
  shows "in_portfolio_id i = pid \<and> pr_symbol ` set (in_positions i) = stored_symbols (w_db w) pid \<and>
    fst ` set (in_price_by_symbol i) \<subseteq> stored_symbols (w_db w) pid"
proof -
  obtain known w1 where k: "db_query ''check portfolio exists'' (\<lambda>now d. Inr (portfolio_known pid d)) w = (Inr known, w1)"
    and known: "known"
    and rest: "andthen (load_positions_for_portfolio D P pid) (\<lambda>(pos_rows, open_symbols).
         andthen (if open_symbols = [] then ret [] else load_price_marks_by_symbol D P open_symbols) (\<lambda>marks.
           andthen (load_projection_cursor pid) (\<lambda>cur.
             andthen (trade_apply_meta cur) (\<lambda>meta.
               ret (Some \<lparr>in_portfolio_id = pid, in_positions = pos_rows, in_price_by_symbol = marks,
                 in_trade_apply = meta\<rparr>))))) w1 = (Inr (Some i), w')"
    using assms by (auto simp: load_portfolio_assembler_input_def andthen_Inr ret_def split: if_splits)
  obtain rows os w2 marks w3 where r: "load_positions_for_portfolio D P pid w1 = (Inr (rows, os), w2)"
    and m: "(if os = [] then ret [] else load_price_marks_by_symbol D P os) w2 = (Inr marks, w3)"
    and i: "in_portfolio_id i = pid" "in_positions i = rows" "in_price_by_symbol i = marks"
    using rest by (auto simp: andthen_Inr ret_def)
  show ?thesis using loaded_positions [OF r] loaded_marks [OF m] db_query_Inr [OF k] i by auto
qed

section \<open>From the input to the answers\<close>

definition input_symbols :: "'d portfolio_assembler_input \<Rightarrow> string set" where
  "input_symbols i = pr_symbol ` set (in_positions i) \<union> fst ` set (in_price_by_symbol i)"

text \<open>All the symbols in a view and in a risk report.\<close>

definition view_symbols :: "portfolio_view \<Rightarrow> string list" where
  "view_symbols v = map pp_symbol (pv_positions v) @ pv_unpriced_symbols v @ map pa_symbol (pv_as_of_prices v)"

definition risk_symbols :: "'d risk_http_response \<Rightarrow> string list" where
  "risk_symbols r = map re_symbol (rr_exposure r @ rr_top_n r) @ map fst (rr_sigma_by_symbol r) @ map pa_symbol (rr_as_of_prices r)"

lemma base_state_owned:
  assumes "load_portfolio_base_state D U (load_portfolio_assembler_input D P) (Some portfolio_owned_by_user) parts rid
      (Some u) i w = (Inr b, w')"
  shows "bs_portfolio_id b \<notin> set parts" "owns (w_db w) u (bs_portfolio_id b)"
    "in_portfolio_id (bs_input b) = bs_portfolio_id b"
    "input_symbols (bs_input b) \<subseteq> stored_symbols (w_db w) (bs_portfolio_id b)"
    "assemble_portfolio_view D U (bs_input b) = Inr (bs_view b)"
proof -
  obtain pid where v: "validate_portfolio_path_id U parts rid i = Inr pid"
    using assms by (auto simp: load_portfolio_base_state_def split: sum.splits)
  obtain w1 where acc: "trade_access rid (Some portfolio_owned_by_user) (Some u) pid w = (None, w1)"
    using assms v by (auto simp: load_portfolio_base_state_def split: prod.splits option.splits)
  obtain inp w2 where l: "load_portfolio_assembler_input D P pid w1 = (Inr (Some inp), w2)"
    and a: "assemble_portfolio_view D U inp = Inr (bs_view b)" "bs_portfolio_id b = pid" "bs_input b = inp"
    using assms v acc by (auto simp: load_portfolio_base_state_def split: prod.splits option.splits sum.splits)
  have "pid \<notin> set parts" using v by (auto simp: validate_portfolio_path_id_def split: option.splits if_splits)
  then show "bs_portfolio_id b \<notin> set parts" "owns (w_db w) u (bs_portfolio_id b)"
    "in_portfolio_id (bs_input b) = bs_portfolio_id b"
    "input_symbols (bs_input b) \<subseteq> stored_symbols (w_db w) (bs_portfolio_id b)"
    "assemble_portfolio_view D U (bs_input b) = Inr (bs_view b)"
    using a trade_access_sound [OF acc] loaded_input [OF l] by (auto simp: owns_def input_symbols_def)
qed

lemma as_of_symbols: "pa_symbol ` set (as_of_prices_list ps) \<subseteq> fst ` set ps"
  by (force simp: as_of_prices_list_def)

lemma view_shows:
  assumes "assemble_portfolio_view D U i = Inr v"
  shows "pv_portfolio_id v = uuid_str U (in_portfolio_id i)"
    and "set (view_symbols v) \<subseteq> input_symbols i"
proof -
  show "pv_portfolio_id v = uuid_str U (in_portfolio_id i)"
    using assms by (auto simp: assemble_portfolio_view_def Let_def split: if_splits prod.splits)
  have "set (map pp_symbol (pv_positions v)) = pr_symbol ` set (in_positions i)"
    by (simp add: assemble_positions(1) [OF assms] image_image)
  moreover have "set (pv_unpriced_symbols v) \<subseteq> pr_symbol ` set (in_positions i)"
    using assms by (auto simp: assemble_portfolio_view_def Let_def split: if_splits prod.splits)
  moreover have "pv_as_of_prices v = as_of_prices_list (in_price_by_symbol i)"
    using assms by (auto simp: assemble_portfolio_view_def Let_def split: if_splits prod.splits)
  ultimately show "set (view_symbols v) \<subseteq> input_symbols i"
    using as_of_symbols [of "in_price_by_symbol i"] by (auto simp: view_symbols_def input_symbols_def)
qed

lemma clone_symbols: "fst ` set (clone_price_by_symbol ps) = fst ` set ps"
proof -
  have "fst ` set (fold (\<lambda>(k, v) out. AList.update k v out) ps acc) = fst ` set ps \<union> fst ` set acc" for acc
    by (induction ps arbitrary: acc) (auto simp: dom_update split_beta)
  then show ?thesis by (simp add: clone_price_by_symbol_def)
qed

lemma shocked_symbols: "fst ` set (fst (fold (shock_step D) shs st)) = fst ` set (fst st)"
proof (induction shs arbitrary: st)
  case (Cons sh shs)
  have "fst ` set (fst (shock_step D sh st)) = fst ` set (fst st)"
  proof (cases "map_of (fst st) (sh_symbol sh)")
    case None
    then show ?thesis by (simp add: shock_step_def split_beta)
  next
    case (Some pm)
    then have "sh_symbol sh \<in> fst ` set (fst st)" by (metis domI dom_map_of_conv_image_fst)
    then show ?thesis using Some by (simp add: shock_step_def split_beta dom_update insert_absorb)
  qed
  then show ?case using Cons by simp
qed simp

lemma scenario_shows:
  assumes "scenario_eval D U base shocks = Inr (Shocked v)"
  shows "pv_portfolio_id v = uuid_str U (in_portfolio_id base)"
    and "set (view_symbols v) \<subseteq> input_symbols base"
proof -
  obtain i where i: "shocked_portfolio_input D base shocks = Inr (Shocked i)" "assemble_portfolio_view D U i = Inr v"
    using assms by (rule scenario_eval_shocked)
  have p: "in_portfolio_id i = in_portfolio_id base" "in_positions i = in_positions base"
    "in_price_by_symbol i = fst (fold (shock_step D) shocks (clone_price_by_symbol (in_price_by_symbol base), []))"
    using i(1) by (auto simp: shocked_portfolio_input_def split: sum.splits if_splits prod.splits)
  have "input_symbols i = input_symbols base"
    by (simp add: input_symbols_def p(2,3) shocked_symbols clone_symbols)
  then show "pv_portfolio_id v = uuid_str U (in_portfolio_id base)" "set (view_symbols v) \<subseteq> input_symbols base"
    using view_shows [OF i(2)] p(1) by simp_all
qed

lemma collect_exposure_symbols:
  "collect_exposure D i ps st = Inr st' \<Longrightarrow>
    sr_symbol ` set (es_exposure st') \<subseteq> sr_symbol ` set (es_exposure st) \<union> pi_symbol ` set ps"
proof (induction ps arbitrary: st)
  case (Cons p ps)
  show ?case
  proof (cases "map_of (ri_prices i) (pi_symbol p)")
    case None
    then show ?thesis using Cons.prems Cons.IH [of "st\<lparr>es_unpriced := es_unpriced st @ [pi_symbol p]\<rparr>"] by auto
  next
    case (Some price)
    then obtain sigma where "map_of (ri_sigma_1d i) (pi_symbol p) = Some sigma"
      using Cons.prems by (cases "map_of (ri_sigma_1d i) (pi_symbol p)") simp_all
    then show ?thesis using Cons.prems Some by (auto simp: Let_def dest!: Cons.IH) blast
  qed
qed simp

lemma set_weights_symbols: "set_weights D mv rows = Inr rows' \<Longrightarrow> map sr_symbol rows' = map sr_symbol rows"
  by (induction rows arbitrary: rows') (auto split: option.splits sum.splits)

lemma snapshot_symbols:
  assumes "build_snapshot D F i = Inr s"
  shows "sr_symbol ` set (rs_exposure_by_symbol s) \<subseteq> pi_symbol ` set (ri_positions i)"
proof -
  obtain st where st: "collect_exposure D i (ri_positions i) \<lparr>es_exposure = [], es_unpriced = [], es_total = d_zero D\<rparr> = Inr st"
    using assms by (auto simp: build_snapshot_def Let_def split: sum.splits)
  let ?sorted = "sort_by (\<lambda>a b. sr_symbol a < sr_symbol b) (es_exposure st)"
  have "map sr_symbol (rs_exposure_by_symbol s) = map sr_symbol ?sorted"
    using assms st
    by (auto simp: build_snapshot_def Let_def split: sum.splits if_splits dest: set_weights_symbols)
  then have "sr_symbol ` set (rs_exposure_by_symbol s) = sr_symbol ` set (es_exposure st)"
    by (metis image_set set_sort_by)
  then show ?thesis using collect_exposure_symbols [OF st] by simp
qed

lemma top_symbols:
  assumes "build_snapshot D F i = Inr s"
  shows "set (rs_top_n s) \<subseteq> set (rs_exposure_by_symbol s)"
proof -
  have "set (top_by_weight D rows n) \<subseteq> set rows" for rows n
    using set_take_subset [of _ "sort_by (weight_before D) rows"]
    by (auto simp: top_by_weight_def Let_def set_sort_by split: if_splits)
  moreover have "rs_top_n s = top_by_weight D (rs_exposure_by_symbol s) (normalize_top_n (ri_top_n i))"
    using assms by (auto simp: build_snapshot_def Let_def split: sum.splits)
  ultimately show ?thesis by simp
qed

section \<open>Handlers\<close>

lemma built_risk_shows:
  assumes "build_risk_http_response D F U iter load_counts load_sigma b n w = (Inr r, w')"
    and view: "set (view_symbols (bs_view b)) \<subseteq> input_symbols (bs_input b)"
  shows "rr_portfolio_id r = uuid_str U (bs_portfolio_id b)"
    and "set (risk_symbols r) \<subseteq> input_symbols (bs_input b)"
proof -
  obtain snap sigmas m where s: "build_snapshot D F \<lparr>ri_positions = map (\<lambda>p. \<lparr>pi_symbol = pr_symbol p, pi_quantity = pr_quantity p\<rparr>)
       (open_positions D (bs_input b)), ri_prices = risk_prices D (bs_input b), ri_sigma_1d = sigmas, ri_top_n = 0\<rparr> = Inr snap"
    and resp: "r = risk_response D U b m snap"
    using assms(1) by (auto simp: build_risk_http_response_def Let_def split: prod.splits sum.splits if_splits)
  have "pi_symbol ` set (map (\<lambda>p. \<lparr>pi_symbol = pr_symbol p, pi_quantity = pr_quantity p\<rparr>) (open_positions D (bs_input b)))
      \<subseteq> input_symbols (bs_input b)"
    by (auto simp: open_positions_def input_symbols_def)
  then have "sr_symbol ` set (rs_exposure_by_symbol snap @ rs_top_n snap) \<subseteq> input_symbols (bs_input b)"
    using snapshot_symbols [OF s] top_symbols [OF s] by fastforce
  then show "rr_portfolio_id r = uuid_str U (bs_portfolio_id b)" "set (risk_symbols r) \<subseteq> input_symbols (bs_input b)"
    using resp view
    by (auto simp: risk_response_def Let_def exposure_dto_def risk_symbols_def view_symbols_def)
qed

lemma base_view_symbols:
  assumes "load_portfolio_base_state D U (load_portfolio_assembler_input D P) (Some portfolio_owned_by_user)
      parts rid (Some u) i w = (Inr b, w1)"
  shows "pv_portfolio_id (bs_view b) = uuid_str U (bs_portfolio_id b)"
    and "set (view_symbols (bs_view b)) \<subseteq> input_symbols (bs_input b)"
  using view_shows [OF base_state_owned(5) [OF assms]] base_state_owned(3) [OF assms] by simp_all

lemma risk_shows:
  assumes "get_risk_handler D F U iter (load_portfolio_assembler_input D P) (Some portfolio_owned_by_user) load_counts
      load_sigma parts n rid (Some u) i w = (Inr r, w')"
  obtains b w1 where "load_portfolio_base_state D U (load_portfolio_assembler_input D P) (Some portfolio_owned_by_user)
      parts rid (Some u) i w = (Inr b, w1)"
    "rr_portfolio_id r = uuid_str U (bs_portfolio_id b)"
    "set (risk_symbols r) \<subseteq> input_symbols (bs_input b)"
proof -
  obtain b w1 where b: "load_portfolio_base_state D U (load_portfolio_assembler_input D P) (Some portfolio_owned_by_user)
      parts rid (Some u) i w = (Inr b, w1)"
    and r: "build_risk_http_response D F U iter load_counts load_sigma b (if n < 2 then 60 else n) w1 = (Inr r, w')"
    using assms by (auto simp: get_risk_handler_def Let_def split: prod.splits sum.splits)
  show thesis by (rule that [OF b built_risk_shows [OF r base_view_symbols(2) [OF b]]])
qed

text \<open>The summaries of the events stored for a portfolio.\<close>

definition stored_summaries :: "'d decimal_api \<Rightarrow> 'd json_api \<Rightarrow> uuid_api \<Rightarrow> db \<Rightarrow> uuid \<Rightarrow> insights_event_summary set" where
  "stored_summaries D J U d pid = event_summary_for_insights D J U ` set (stream_of U d pid)"

lemma recent_events_stored:
  assumes "list_recent_events U pid n w = (Inr evs, w')"
  shows "set evs \<subseteq> set (stream_of U (w_db w) pid)"
proof -
  obtain m where "evs = map (scan_event_row U) (sort_key row_cursor (take m (rev (partition_rows (w_db w) pid))))"
    using db_query_Inr [OF assms [unfolded list_recent_events_def Let_def]] by auto
  then show ?thesis using set_take_subset [of m "rev (partition_rows (w_db w) pid)"] by (auto simp: stream_of_def)
qed

lemma explain_shows:
  assumes "post_insights_explain_handler D F J U N iter E (load_portfolio_assembler_input D P) (Some portfolio_owned_by_user)
      (Some \<lparr>rs_counts = load_symbol_return_sample_counts, rs_sigma = load_symbol_sigma_1d D P,
        rs_recent = list_recent_events U\<rparr>) svc parts n rid (Some u) i body w = (Inr r, w')"
  obtains b w1 where "load_portfolio_base_state D U (load_portfolio_assembler_input D P) (Some portfolio_owned_by_user)
      parts rid (Some u) i w = (Inr b, w1)"
    "ic_portfolio_id (ix_context r) = uuid_str U (bs_portfolio_id b)" "ic_portfolio (ix_context r) = bs_view b"
    "rr_portfolio_id (ic_risk (ix_context r)) = uuid_str U (bs_portfolio_id b)"
    "set (risk_symbols (ic_risk (ix_context r))) \<subseteq> input_symbols (bs_input b)"
    "set (ic_recent_events (ix_context r)) \<subseteq> stored_summaries D J U (w_db w) (bs_portfolio_id b)"
proof -
  note unf = assms [unfolded post_insights_explain_handler_def Let_def, simplified]
  obtain b w1 where b: "load_portfolio_base_state D U (load_portfolio_assembler_input D P) (Some portfolio_owned_by_user)
      parts rid (Some u) i w = (Inr b, w1)"
    using unf by (auto split: prod.splits sum.splits)
  obtain dto w2 where dto: "build_risk_http_response D F U iter load_symbol_return_sample_counts (load_symbol_sigma_1d D P)
      b n w1 = (Inr dto, w2)"
    using unf b by (auto split: prod.splits sum.splits)
  obtain evs w3 where evs: "list_recent_events U (bs_portfolio_id b) insights_recent_events_limit w2 = (Inr evs, w3)"
    using unf b dto by (auto split: prod.splits sum.splits)
  have ctx: "ic_portfolio_id (ix_context r) = uuid_str U (bs_portfolio_id b) \<and> ic_portfolio (ix_context r) = bs_view b \<and>
      ic_risk (ix_context r) = dto \<and> ic_recent_events (ix_context r) = map (event_summary_for_insights D J U) evs"
    using unf b dto evs by (auto split: prod.splits sum.splits option.splits)
  have "w_db w2 = w_db w"
    using only_readsD [OF base_state_reads b] only_readsD [OF build_risk_reads dto] by simp
  then have "set (ic_recent_events (ix_context r)) \<subseteq> stored_summaries D J U (w_db w) (bs_portfolio_id b)"
    using recent_events_stored [OF evs] ctx by (auto simp: stored_summaries_def)
  then show thesis using built_risk_shows [OF dto base_view_symbols(2) [OF b]] ctx by (intro that [OF b]) simp_all
qed

lemma scenario_answer_shows:
  assumes "post_scenario_handler D J U (load_portfolio_assembler_input D P) (Some portfolio_owned_by_user) parts rid
      (Some u) i body w = (Inr r, w')"
  obtains b w1 shocks where "load_portfolio_base_state D U (load_portfolio_assembler_input D P)
      (Some portfolio_owned_by_user) parts rid (Some u) i w = (Inr b, w1)"
    "so_portfolio_id r = uuid_str U (bs_portfolio_id b)" "so_base r = bs_view b"
    "so_base_metadata r = scenario_base_metadata_from_view (bs_view b)"
    "scenario_eval D U (bs_input b) shocks = Inr (Shocked (so_shocked r))"
  using assms
  by (auto simp: post_scenario_handler_def scenario_response_def Let_def split: option.splits sum.splits prod.splits shocked.splits)

lemma scan_portfolios_ids:
  "scan_portfolios A rs = Inr es \<Longrightarrow> map pe_portfolio_id es = map pf_portfolio_id rs"
  by (induction rs arbitrary: es) (auto simp: scan_portfolio_def split: sum.splits option.splits)

lemma list_shows:
  assumes "list_portfolios_handler U (list_portfolios A) (list_portfolios_by_owner A) parts rid (Some u) w = (Inr rs, w')"
    and "r \<in> set rs"
  shows "\<exists>pid. cr_portfolio_id r = uuid_str U pid \<and> pid \<notin> set parts \<and> owns (w_db w) u pid"
proof -
  obtain x w1 where l: "list_portfolios A w = (x, w1)" by (rule prod.exhaust)
  obtain es where es: "list_portfolios_by_owner A u w1 = (Inr es, w')" "rs = unreserved U parts es"
    using assms(1) l by (auto simp: list_portfolios_handler_def split: prod.splits sum.splits)
  let ?mine = "filter (\<lambda>r. pf_owner_user_id r = Some u) (db_portfolios (w_db w1))"
  have "scan_portfolios A (catalog_order ?mine) = Inr es"
    using db_query_Inr [OF es(1) [unfolded list_portfolios_by_owner_def]] by simp
  then have "pe_portfolio_id ` set es = pf_portfolio_id ` set (catalog_order ?mine)"
    using scan_portfolios_ids [THEN arg_cong [of _ _ set]] by fastforce
  moreover have "set (catalog_order ?mine) = set ?mine" by (simp add: catalog_order_def)
  moreover have "w_db w1 = w_db w" by (rule only_readsD [OF store_reads(1) l])
  ultimately have ids: "pe_portfolio_id ` set es = pf_portfolio_id ` {p \<in> set (db_portfolios (w_db w)). pf_owner_user_id p = Some u}"
    by simp
  have own: "owns (w_db w) u (pe_portfolio_id e)" if "e \<in> set es" for e
  proof -
    have "pe_portfolio_id e \<in> pe_portfolio_id ` set es" using that by (rule imageI)
    then show ?thesis unfolding ids owns_def by auto
  qed
  show ?thesis using assms(2) es(2) own by (auto simp: unreserved_def to_portfolio_catalog_response_def)
qed

lemma inserted_row:
  "insert_portfolio A P (Some u) pid name ccy now d = Inr (Inr e, d') \<Longrightarrow> pe_portfolio_id e = pid \<and> owns d' u pid"
  by (auto simp: insert_portfolio_def scan_portfolio_def owns_def Let_def split: if_splits)

lemma created_row:
  assumes "create_portfolio_for_owner A P u pid name ccy w = (Inr e, w')"
  shows "pe_portfolio_id e = pid \<and> owns (w_db w') u pid"
proof -
  have "db_tx ''create portfolio'' (insert_portfolio A P (Some u) pid name ccy) w = (Inr (Inr e), w')"
    using assms by (auto simp: create_portfolio_for_owner_def create_portfolio_row_def split: prod.splits sum.splits)
  then show ?thesis using db_tx_result [of "''create portfolio''" "insert_portfolio A P (Some u) pid name ccy" w "Inr e"]
    by (auto dest: inserted_row)
qed

lemma drawn_unreserved:
  assumes "draw_portfolio_id new parts w = Some y"
  shows "fst y \<notin> set parts"
  by (rule draw_portfolio_id.raw_induct [OF _ assms, where P = "\<lambda>n p w y. fst y \<notin> set p"])
    (auto split: prod.splits if_splits)

lemma create_shows:
  assumes "create_portfolio_handler U N new (create_portfolio A P) (create_portfolio_for_owner A P) parts rid (Some u)
      body w = Some (Inr r, w')"
  shows "\<exists>pid. cr_portfolio_id r = uuid_str U pid \<and> pid \<notin> set parts \<and> owns (w_db w') u pid"
proof -
  obtain name ccy where "map_option (\<lambda>(pid, w1). case create_portfolio_for_owner A P u pid name ccy w1 of
        (Inl e, w2) \<Rightarrow> (Inl (internal_error rid), w2)
      | (Inr row, w2) \<Rightarrow> (Inr (to_portfolio_catalog_response U row), w2)) (draw_portfolio_id new parts w) = Some (Inr r, w')"
    using assms by (auto simp: create_portfolio_handler_def Let_def split: option.splits if_splits)
  then obtain pid w1 where d: "draw_portfolio_id new parts w = Some (pid, w1)"
    and c: "(case create_portfolio_for_owner A P u pid name ccy w1 of
        (Inl e, w2) \<Rightarrow> (Inl (internal_error rid), w2)
      | (Inr row, w2) \<Rightarrow> (Inr (to_portfolio_catalog_response U row), w2)) = (Inr r, w')"
    by auto
  obtain row where row: "create_portfolio_for_owner A P u pid name ccy w1 = (Inr row, w')" "r = to_portfolio_catalog_response U row"
    using c by (auto split: prod.splits sum.splits)
  show ?thesis using drawn_unreserved [OF d] created_row [OF row(1)] row(2)
    by (auto simp: to_portfolio_catalog_response_def)
qed

section \<open>Whose portfolios an answer shows\<close>

text \<open>
  The portfolio ids that an answer names, each with all the symbols and events it shows of it. What
  a scenario repeats of the request (\<open>so_shocks\<close>) and the text of the model are not data of the portfolio.
\<close>

type_synonym shown_portfolio = "string \<times> string list \<times> insights_event_summary list"

fun shown :: "'d api_answer \<Rightarrow> shown_portfolio list" where
  "shown (PortfolioList rs) = map (\<lambda>r. (cr_portfolio_id r, [], [])) rs"
| "shown (PortfolioCreated r) = [(cr_portfolio_id r, [], [])]"
| "shown (PortfolioAnswer v) = [(pv_portfolio_id v, view_symbols v, [])]"
| "shown (RiskAnswer r) = [(rr_portfolio_id r, risk_symbols r, [])]"
| "shown (ScenarioAnswer r) = [(so_portfolio_id r, map pa_symbol (sm_as_of_prices (so_base_metadata r)), []),
     (pv_portfolio_id (so_base r), view_symbols (so_base r), []),
     (pv_portfolio_id (so_shocked r), view_symbols (so_shocked r), [])]"
| "shown (ExplainAnswer r) = (let c = ix_context r in [(ic_portfolio_id c, [], ic_recent_events c),
     (pv_portfolio_id (ic_portfolio c), view_symbols (ic_portfolio c), []),
     (rr_portfolio_id (ic_risk c), risk_symbols (ic_risk c), [])])"
| "shown _ = []"

abbreviation base_of :: "('d, 'l) packages \<Rightarrow> router_config \<Rightarrow> string \<Rightarrow> auth_user \<Rightarrow> string \<Rightarrow> world \<Rightarrow>
    (http_response + 'd portfolio_base_state) \<times> world" where
  "base_of K C rid user i \<equiv> load_portfolio_base_state (pk_decimal K) (pk_uuid K)
     (load_portfolio_assembler_input (pk_decimal K) (pk_pg K)) (Some portfolio_owned_by_user) (rc_partitions C) rid
     (Some (au_user_id user)) i"

text \<open>The user owns the portfolio of that id, the symbols are those of rows of it, the events those stored for it.\<close>

definition shown_of_owner :: "('d, 'l) packages \<Rightarrow> uuid list \<Rightarrow> db \<Rightarrow> uuid \<Rightarrow> shown_portfolio \<Rightarrow> bool" where
  "shown_of_owner K parts d u x \<longleftrightarrow> (\<exists>pid. fst x = uuid_str (pk_uuid K) pid \<and> pid \<notin> set parts \<and> owns d u pid \<and>
     set (fst (snd x)) \<subseteq> stored_symbols d pid \<and>
     set (snd (snd x)) \<subseteq> stored_summaries (pk_decimal K) (pk_json K) (pk_uuid K) d pid)"

lemma base_shows:
  fixes K :: "('d, 'l) packages" and C :: router_config and user :: auth_user
  assumes "base_of K C rid user j w = (Inr b, w1)" and "i = uuid_str (pk_uuid K) (bs_portfolio_id b)"
    and "set ss \<subseteq> input_symbols (bs_input b)"
    and "set es \<subseteq> stored_summaries (pk_decimal K) (pk_json K) (pk_uuid K) (w_db w) (bs_portfolio_id b)"
  shows "shown_of_owner K (rc_partitions C) (w_db w) (au_user_id user) (i, ss, es)"
  using base_state_owned [OF assms(1)] assms(2-4) unfolding shown_of_owner_def by auto

lemma portfolio_route:
  fixes K :: "('d, 'l) packages" and C :: router_config and user :: auth_user
  assumes "on_world (get_portfolio_handler (pk_decimal K) (pk_uuid K) (load_portfolio_assembler_input (pk_decimal K) (pk_pg K))
      (Some portfolio_owned_by_user) (rc_partitions C) rid (Some (au_user_id user)) j) (either PortfolioAnswer) s = Some (a, s')"
    and "x \<in> set (shown a)"
  shows "shown_of_owner K (rc_partitions C) (w_db (sv_world s)) (au_user_id user) x"
proof -
  obtain b w where b: "base_of K C rid user j (sv_world s) = (Inr b, w)" "a = PortfolioAnswer (bs_view b)"
    using assms by (auto simp: on_world_def either_def get_portfolio_handler_def split: prod.splits sum.splits)
  then show ?thesis using base_view_symbols [OF b(1)] assms(2) by (auto intro!: base_shows [OF b(1)])
qed

lemma risk_route:
  fixes K :: "('d, 'l) packages" and C :: router_config and user :: auth_user
  assumes "on_world (get_risk_handler (pk_decimal K) (pk_float K) (pk_uuid K) (pk_map_order K)
      (load_portfolio_assembler_input (pk_decimal K) (pk_pg K)) (Some portfolio_owned_by_user) load_counts load_sigma
      (rc_partitions C) n rid (Some (au_user_id user)) j) (either RiskAnswer) s = Some (a, s')"
    and "x \<in> set (shown a)"
  shows "shown_of_owner K (rc_partitions C) (w_db (sv_world s)) (au_user_id user) x"
proof -
  obtain r w where r: "get_risk_handler (pk_decimal K) (pk_float K) (pk_uuid K) (pk_map_order K)
      (load_portfolio_assembler_input (pk_decimal K) (pk_pg K)) (Some portfolio_owned_by_user) load_counts load_sigma
      (rc_partitions C) n rid (Some (au_user_id user)) j (sv_world s) = (Inr r, w)" "a = RiskAnswer r"
    using assms by (auto simp: on_world_def either_def split: prod.splits sum.splits)
  obtain b w1 where b: "base_of K C rid user j (sv_world s) = (Inr b, w1)"
    "rr_portfolio_id r = uuid_str (pk_uuid K) (bs_portfolio_id b)"
    "set (risk_symbols r) \<subseteq> input_symbols (bs_input b)"
    using r(1) by (rule risk_shows)
  then show ?thesis using r(2) assms(2) by (auto intro!: base_shows [OF b(1)])
qed

lemma scenario_route:
  fixes K :: "('d, 'l) packages" and C :: router_config and user :: auth_user
  assumes "on_world (post_scenario_handler (pk_decimal K) (pk_json K) (pk_uuid K)
      (load_portfolio_assembler_input (pk_decimal K) (pk_pg K)) (Some portfolio_owned_by_user) (rc_partitions C) rid
      (Some (au_user_id user)) j body) (either ScenarioAnswer) s = Some (a, s')"
    and "x \<in> set (shown a)"
  shows "shown_of_owner K (rc_partitions C) (w_db (sv_world s)) (au_user_id user) x"
proof -
  obtain r w where r: "post_scenario_handler (pk_decimal K) (pk_json K) (pk_uuid K)
      (load_portfolio_assembler_input (pk_decimal K) (pk_pg K)) (Some portfolio_owned_by_user) (rc_partitions C) rid
      (Some (au_user_id user)) j body (sv_world s) = (Inr r, w)" "a = ScenarioAnswer r"
    using assms by (auto simp: on_world_def either_def split: prod.splits sum.splits)
  obtain b w1 shocks where b: "base_of K C rid user j (sv_world s) = (Inr b, w1)"
    "so_portfolio_id r = uuid_str (pk_uuid K) (bs_portfolio_id b)" "so_base r = bs_view b"
    "so_base_metadata r = scenario_base_metadata_from_view (bs_view b)"
    "scenario_eval (pk_decimal K) (pk_uuid K) (bs_input b) shocks = Inr (Shocked (so_shocked r))"
    using r(1) by (rule scenario_answer_shows)
  have "set (map pa_symbol (sm_as_of_prices (so_base_metadata r))) \<subseteq> input_symbols (bs_input b)"
    using base_view_symbols(2) [OF b(1)] by (auto simp: b(4) scenario_base_metadata_from_view_def view_symbols_def)
  then show ?thesis
    using base_state_owned(3) [OF b(1)] base_view_symbols [OF b(1)] scenario_shows [OF b(5)] b(2,3) r(2) assms(2)
    by (auto intro!: base_shows [OF b(1)])
qed

lemma explain_route:
  fixes K :: "('d, 'l) packages" and C :: router_config and user :: auth_user
  assumes "on_world (post_insights_explain_handler (pk_decimal K) (pk_float K) (pk_json K) (pk_uuid K) (pk_case K)
      (pk_map_order K) (pk_ai K) (load_portfolio_assembler_input (pk_decimal K) (pk_pg K)) (Some portfolio_owned_by_user)
      (Some \<lparr>rs_counts = load_symbol_return_sample_counts, rs_sigma = load_symbol_sigma_1d (pk_decimal K) (pk_pg K),
        rs_recent = list_recent_events (pk_uuid K)\<rparr>) svc (rc_partitions C) n rid (Some (au_user_id user)) j body) (either ExplainAnswer) s = Some (a, s')"
    and "x \<in> set (shown a)"
  shows "shown_of_owner K (rc_partitions C) (w_db (sv_world s)) (au_user_id user) x"
proof -
  obtain r w where r: "post_insights_explain_handler (pk_decimal K) (pk_float K) (pk_json K) (pk_uuid K) (pk_case K)
      (pk_map_order K) (pk_ai K) (load_portfolio_assembler_input (pk_decimal K) (pk_pg K)) (Some portfolio_owned_by_user)
      (Some \<lparr>rs_counts = load_symbol_return_sample_counts, rs_sigma = load_symbol_sigma_1d (pk_decimal K) (pk_pg K),
        rs_recent = list_recent_events (pk_uuid K)\<rparr>) svc (rc_partitions C) n rid (Some (au_user_id user)) j body (sv_world s) = (Inr r, w)" "a = ExplainAnswer r"
    using assms by (auto simp: on_world_def either_def split: prod.splits sum.splits)
  obtain b w1 where b: "base_of K C rid user j (sv_world s) = (Inr b, w1)"
    "ic_portfolio_id (ix_context r) = uuid_str (pk_uuid K) (bs_portfolio_id b)" "ic_portfolio (ix_context r) = bs_view b"
    "rr_portfolio_id (ic_risk (ix_context r)) = uuid_str (pk_uuid K) (bs_portfolio_id b)"
    "set (risk_symbols (ic_risk (ix_context r))) \<subseteq> input_symbols (bs_input b)"
    "set (ic_recent_events (ix_context r)) \<subseteq>
      stored_summaries (pk_decimal K) (pk_json K) (pk_uuid K) (w_db (sv_world s)) (bs_portfolio_id b)"
    using r(1) by (rule explain_shows)
  then show ?thesis
    using base_view_symbols [OF b(1)] r(2) assms(2) by (auto simp: Let_def intro!: base_shows [OF b(1)])
qed

lemma list_route:
  assumes "on_world (list_portfolios_handler (pk_uuid K) (list_portfolios A) (list_portfolios_by_owner A) parts rid (Some u))
      (either PortfolioList) s = Some (a, s')"
    and "x \<in> set (shown a)"
  shows "shown_of_owner K parts (w_db (sv_world s)) u x"
proof -
  obtain rs w where r: "list_portfolios_handler (pk_uuid K) (list_portfolios A) (list_portfolios_by_owner A) parts rid (Some u)
      (sv_world s) = (Inr rs, w)" "a = PortfolioList rs"
    using assms by (auto simp: on_world_def either_def split: prod.splits sum.splits)
  then show ?thesis using list_shows [OF r(1)] assms(2) by (auto simp: shown_of_owner_def)
qed

lemma create_route:
  assumes "map_option (\<lambda>(a, w). (either PortfolioCreated a, s\<lparr>sv_world := w\<rparr>)) (create_portfolio_handler (pk_uuid K) N new
      (create_portfolio A P) (create_portfolio_for_owner A P) parts rid (Some u) body (sv_world s)) = Some (a, s')"
    and "x \<in> set (shown a)"
  shows "shown_of_owner K parts (w_db (sv_world s')) u x"
proof -
  obtain y w where r: "create_portfolio_handler (pk_uuid K) N new (create_portfolio A P) (create_portfolio_for_owner A P) parts rid
      (Some u) body (sv_world s) = Some (y, w)" "a = either PortfolioCreated y" "s' = s\<lparr>sv_world := w\<rparr>"
    using assms(1) by auto
  then obtain z where "y = Inr z" using assms(2) by (cases y) (simp_all add: either_def)
  then show ?thesis using r create_shows [of "pk_uuid K" N new A P parts rid u body "sv_world s" z w] assms(2)
    by (auto simp: shown_of_owner_def either_def)
qed

lemma read_shows:
  assumes "packages_quiet K" and "serve_read K C rid user c s = Some (a, s')" and "x \<in> set (shown a)"
  shows "shown_of_owner K (rc_partitions C) (w_db (sv_world s')) (au_user_id user) x"
proof -
  note unf = assms(2) [unfolded serve_read_def Let_def]
  have same: "w_db (sv_world s') = w_db (sv_world s)"
    if "on_world f answer s = Some (a, s')" "only_reads f" for f :: "world \<Rightarrow> 'x \<times> world" and answer
    using on_world_reads [OF that(2,1)] by (simp add: same_db_def)
  show ?thesis
  proof (cases c)
    case ListPortfolios
    note run = unf [unfolded ListPortfolios api_call.case]
    show ?thesis using list_route [OF run assms(3)] same [OF run list_portfolios_reads] by simp
  next
    case (CreatePortfolio body)
    show ?thesis using create_route [OF unf [unfolded CreatePortfolio api_call.case] assms(3)] by simp
  next
    case (GetPortfolio j)
    note run = unf [unfolded GetPortfolio api_call.case]
    show ?thesis using portfolio_route [OF run assms(3)] same [OF run get_portfolio_reads] by simp
  next
    case (GetRisk j)
    note run = unf [unfolded GetRisk api_call.case]
    show ?thesis using risk_route [OF run assms(3)] same [OF run get_risk_reads] by simp
  next
    case (PostScenario j body)
    note run = unf [unfolded PostScenario api_call.case]
    show ?thesis using scenario_route [OF run assms(3)] same [OF run scenario_reads] by simp
  next
    case (PostExplain j body)
    note run = unf [unfolded PostExplain api_call.case]
    have http: "only_reads (ai_http (pk_ai K) q)" for q using assms(1) by (simp add: packages_quiet_def)
    show ?thesis using explain_route [OF run assms(3)] same [OF run insights_reads [OF http]] by simp
  next
    case (ListPrices query)
    have "shown a = []" using unf [unfolded ListPrices api_call.case]
      by (auto simp: on_world_def either_def split: prod.splits sum.splits)
    then show ?thesis using assms(3) by simp
  next
    case (GetPrice raw query)
    have "shown a = []" using unf [unfolded GetPrice api_call.case]
      by (auto simp: on_world_def either_def split: prod.splits sum.splits)
    then show ?thesis using assms(3) by simp
  qed (use unf assms(3) in \<open>auto simp: either_def split: prod.splits sum.splits\<close>)
qed

lemma other_routes_show_nothing:
  fixes q :: api_request
  shows "serve_auth K C rid (rq_cookie q) c s = Some (a, s') \<Longrightarrow> shown a = []"
    and "serve_ingest K C rid user c s = Some (a, s') \<Longrightarrow> shown a = []"
proof -
  assume "serve_auth K C rid (rq_cookie q) c s = Some (a, s')"
  note unf = this [unfolded serve_auth_def Let_def]
  have logged: "shown a = []" if "authenticated K rid (rq_cookie q) h s = Some (a, s')"
    "\<And>u s1. h u s1 = Some (a, s') \<Longrightarrow> shown a = []" for h
    using that(1) by (cases rule: authenticated_cases) (auto dest: that(2))
  show "shown a = []"
  proof (cases c)
    case Logout
    show ?thesis by (rule logged [OF unf [unfolded Logout api_call.case]]) (auto simp: on_world_def split: prod.splits)
  next
    case Me
    show ?thesis by (rule logged [OF unf [unfolded Me api_call.case]]) auto
  qed (use unf in \<open>auto simp: on_world_def split: prod.splits\<close>)
next
  assume "serve_ingest K C rid user c s = Some (a, s')"
  then show "shown a = []"
    by (cases c) (auto simp: serve_ingest_def Let_def on_world_def split: prod.splits)
qed

text \<open>
  (C3) The data of a portfolio goes to its owner only. Whatever the request: every portfolio id that an
  answer other than an error names, in the list, a view, a risk report, a scenario or an explanation, is the id of a
  portfolio of the user whose open session the cookie names, none is a price partition, every symbol shown
  with it (positions, unpriced symbols, price marks, exposures, volatilities) is that of a row of this
  portfolio, and every event shown with it is the summary of an event stored for this portfolio.
\<close>

theorem portfolio_data_only_to_owner:
  assumes "packages_quiet K" and "serve K C q s = Some (a, s')" and "(i, symbols, events) \<in> set (shown a)"
  shows "\<exists>u pid. session_user K q (w_db (sv_world s)) u \<and> i = uuid_str (pk_uuid K) pid \<and>
    pid \<notin> set (rc_partitions C) \<and> owns (w_db (sv_world s')) u pid \<and>
    set symbols \<subseteq> stored_symbols (w_db (sv_world s')) pid \<and>
    set events \<subseteq> event_summary_for_insights (pk_decimal K) (pk_json K) (pk_uuid K) `
      set (stream_of (pk_uuid K) (w_db (sv_world s')) pid)"
  using assms(1,2)
proof (cases rule: serve_routes)
  case (auth rid s1)
  from assms(1) auth(2) have "shown a = []"
    by (cases rule: rate_limited_cases) (auto dest: other_routes_show_nothing(1))
  then show ?thesis using assms(3) by simp
next
  case (writer rid s1)
  from assms(1) writer(3) have "shown a = []"
    by (cases rule: v1_group_cases) (auto dest: other_routes_show_nothing(2))
  then show ?thesis using assms(3) by simp
next
  case (reader rid s1)
  from assms(1) reader(2) show ?thesis
  proof (cases rule: v1_group_cases)
    case (refused r)
    then show ?thesis using assms(3) by auto
  next
    case (passed u s2)
    then show ?thesis using read_shows [OF assms(1) passed(3) assms(3)] reader(1)
      by (auto simp: shown_of_owner_def stored_summaries_def same_db_def)
  qed
qed

text \<open>Ann asks for her portfolio 7, which holds ten shares.\<close>

definition sample_holdings :: "(rdec, unit) server" where
  "sample_holdings = sample_server\<lparr>sv_world := sample_world_now\<lparr>w_db := (w_db sample_world_now)\<lparr>
     db_positions := [((7, ''AAPL''), \<lparr>po_quantity = 10, po_cost_basis = 150, po_realized_pnl = 0\<rparr>)]\<rparr>\<rparr>\<rparr>"

lemma holdings_authenticated: "require_auth ref_uuid rid (Some (uuid_str ref_uuid 5)) (sv_world sample_holdings) =
    (Inr \<lparr>au_user_id = 3, au_display_name = ''Ann'', au_work_email = ''ann@x.io''\<rparr>, sv_world sample_holdings)"
  by (simp add: require_auth_def account_query_defs db_query_def next_call_def read_clock_def refu.parse_str
      refut.str_nonempty sample_holdings_def sample_server_def scan_session_def auth_user_of_def scan_user_def)

lemma holdings_loaded:
  "\<exists>i. load_portfolio_assembler_input ref_dec ref_pg 7 (sv_world sample_holdings) = (Inr (Some i), sv_world sample_holdings) \<and>
    in_portfolio_id i = 7 \<and> map pr_symbol (in_positions i) = [''AAPL'']"
  by (simp add: load_portfolio_assembler_input_def load_positions_for_portfolio_def load_price_marks_by_symbol_def
      load_projection_cursor_def trade_apply_meta_def andthen_def ret_def db_query_def next_call_def portfolio_known_def
      rows_of_def sample_holdings_def sample_server_def empty_db_def ref_dec_def ref_pg_def rparse_fixed_string
      cursor_is_zero_def)

lemma holdings_access:
  "trade_access rid (Some portfolio_owned_by_user) (Some 3) 7 (sv_world sample_holdings) = (None, sv_world sample_holdings)"
  by (simp add: trade_access_def portfolio_owned_by_user_def db_query_def next_call_def sample_holdings_def sample_server_def)

lemma holdings_base:
  "\<exists>b. load_portfolio_base_state ref_dec ref_uuid (load_portfolio_assembler_input ref_dec ref_pg)
      (Some portfolio_owned_by_user) [1] rid (Some 3) (uuid_str ref_uuid 7) (sv_world sample_holdings) =
    (Inr b, sv_world sample_holdings) \<and> map pp_symbol (pv_positions (bs_view b)) = [''AAPL''] \<and>
    pv_portfolio_id (bs_view b) = uuid_str ref_uuid 7"
proof -
  obtain i where i: "load_portfolio_assembler_input ref_dec ref_pg 7 (sv_world sample_holdings) =
      (Inr (Some i), sv_world sample_holdings)" "in_portfolio_id i = 7" "map pr_symbol (in_positions i) = [''AAPL'']"
    using holdings_loaded by (elim exE conjE)
  have "in_portfolio_id i \<noteq> uuid_nil" "distinct (map pr_symbol (in_positions i))" using i by (simp_all add: uuid_nil_def)
  then obtain v where v: "assemble_portfolio_view ref_dec ref_uuid i = Inr v" using assemble_total by blast
  obtain p where p: "in_positions i = [p]" "pr_symbol p = ''AAPL''" using i(3) by auto
  have "map pp_symbol (pv_positions v) = [''AAPL'']" using assemble_positions(1) [OF v] p by simp
  moreover have "validate_portfolio_path_id ref_uuid [1] rid (uuid_str ref_uuid 7) = Inr 7"
    by (simp add: validate_portfolio_path_id_def refu.parse_str)
  ultimately show ?thesis using i v view_shows(1) [OF v] by (simp add: load_portfolio_base_state_def holdings_access)
qed

theorem portfolio_data_only_to_owner_witness:
  "\<exists>v s' pid. serve sample_packages sample_router (sample_request (GetPortfolio (uuid_str ref_uuid 7))) sample_holdings =
      Some (PortfolioAnswer v, s') \<and> map pp_symbol (pv_positions v) = [''AAPL''] \<and>
    pv_portfolio_id v = uuid_str ref_uuid pid \<and> set (view_symbols v) \<subseteq> stored_symbols (w_db (sv_world s')) pid"
proof -
  let ?q = "sample_request (GetPortfolio (uuid_str ref_uuid 7))"
  have k: "pk_uuid sample_packages = ref_uuid" "pk_decimal sample_packages = ref_dec" "pk_pg sample_packages = ref_pg"
    by (simp_all add: sample_packages_def)
  obtain b where b: "load_portfolio_base_state ref_dec ref_uuid (load_portfolio_assembler_input ref_dec ref_pg)
      (Some portfolio_owned_by_user) [1] ''r'' (Some 3) (uuid_str ref_uuid 7) (sv_world sample_holdings) =
    (Inr b, sv_world sample_holdings)" "map pp_symbol (pv_positions (bs_view b)) = [''AAPL'']"
    using holdings_base [of "''r''"] by (elim exE conjE)
  have n: "sv_get_limiter sample_holdings = None" by (simp add: sample_holdings_def sample_server_def)
  obtain s' where s': "serve sample_packages sample_router ?q sample_holdings = Some (PortfolioAnswer (bs_view b), s')"
    by (simp add: serve_def sample_request_def request_id_def v1_group_def sample_router_def rate_limited_def n
        per_ip_rate_limit_def authenticated_def holdings_authenticated serve_read_def on_world_def k Let_def
        get_portfolio_handler_def b either_def)
  show ?thesis
    using portfolio_data_only_to_owner [OF sample_quiet s', of "pv_portfolio_id (bs_view b)" "view_symbols (bs_view b)" "[]"]
      s' b k by auto
qed

end
