(* ===== verification/Server.thy ===== *)
theory Server
  imports Router_Properties Worker_Pool
begin

text \<open>
  \<^verbatim>\<open>cmd/server/main.go\<close>: what the process builds from its configuration before it serves (the pools
  of workers, the poller, the limiters, the insights service and the router), and the recomputation
  of a portfolio's risk that the debounced scheduler calls. Goroutines, signals and the shutdown
  are not modelled: the workers, the poller and the requests take their steps in the other theories.
\<close>

section \<open>Recomputed risk\<close>

definition symbol_risk_json :: "'d json_api \<Rightarrow> 'd symbol_risk \<Rightarrow> json" where
  "symbol_risk_json J s = JObj [(''symbol'', JStr (sr_symbol s)), (''exposure'', d_marshal J (sr_exposure s)),
     (''weight'', d_marshal J (sr_weight s)), (''sigma_1d'', d_marshal J (sr_sigma_1d s))]"

definition assumptions_json :: "'d json_api \<Rightarrow> 'd risk_assumptions \<Rightarrow> json" where
  "assumptions_json J a = JObj [(''confidence'', d_marshal J (as_confidence a)), (''horizon_days'', d_marshal J (as_horizon_days a)),
     (''z_score'', d_marshal J (as_z_score a)), (''volatility_convention'', JStr (as_volatility_convention a)),
     (''model'', JStr (as_model a))]"

text \<open>The largest weights of no rows are a nil slice, the other lists are never nil.\<close>

definition risk_snapshot_json :: "'d json_api \<Rightarrow> 'd risk_snapshot \<Rightarrow> json" where
  "risk_snapshot_json J s = JObj [(''exposure_by_symbol'', JArr (map (symbol_risk_json J) (rs_exposure_by_symbol s))),
     (''total_market_value'', d_marshal J (rs_total_market_value s)),
     (''sigma_1d_portfolio'', d_marshal J (rs_sigma_1d_portfolio s)), (''var_95_1d'', d_marshal J (rs_var_95_1d s)),
     (''concentration'', JObj [(''top_n'', if rs_top_n s = [] then JNull else JArr (map (symbol_risk_json J) (rs_top_n s))),
       (''hhi'', d_marshal J (rs_hhi s))]),
     (''assumptions'', assumptions_json J (rs_assumptions s)),
     (''unpriced_symbols'', JArr (map JStr (rs_unpriced_symbols s)))]"

definition open_rows :: "'d decimal_api \<Rightarrow> 'd portfolio_assembler_input \<Rightarrow> 'd projection_row list" where
  "open_rows D i = filter (\<lambda>p. \<not> d_is_zero D (pr_quantity p)) (in_positions i)"

definition recompute_prices :: "'d decimal_api \<Rightarrow> 'd portfolio_assembler_input \<Rightarrow> (string \<times> 'd) list" where
  "recompute_prices D i = List.map_filter (\<lambda>p. case map_of (in_price_by_symbol i) (pr_symbol p) of
     None \<Rightarrow> None | Some m \<Rightarrow> if d_is_zero D (pm_price m) then None else Some (pr_symbol p, pm_price m)) (open_rows D i)"

definition recompute_input ::
  "'d decimal_api \<Rightarrow> 'd portfolio_assembler_input \<Rightarrow> (string \<times> 'd) list \<Rightarrow> 'd risk_input" where
  "recompute_input D i sigmas = \<lparr>ri_positions = map (\<lambda>p. \<lparr>pi_symbol = pr_symbol p, pi_quantity = pr_quantity p\<rparr>) (open_rows D i),
     ri_prices = recompute_prices D i,
     ri_sigma_1d = map (\<lambda>(s, x). (s, case map_of sigmas s of Some v \<Rightarrow> v | None \<Rightarrow> d_zero D)) (recompute_prices D i),
     ri_top_n = 0\<rparr>"

definition recompute_and_maybe_persist_risk ::
  "'d decimal_api \<Rightarrow> 'd float_api \<Rightarrow> 'd json_api \<Rightarrow> (uuid \<Rightarrow> ('w, 'd portfolio_assembler_input option) prog) \<Rightarrow>
   (string list \<Rightarrow> int \<Rightarrow> ('w, (string \<times> 'd) list) prog) \<Rightarrow> (uuid \<Rightarrow> time \<Rightarrow> uuid \<Rightarrow> raw_message \<Rightarrow> ('w, unit) prog) \<Rightarrow>
   uuid \<Rightarrow> config \<Rightarrow> ('w, unit) prog" where
  "recompute_and_maybe_persist_risk D F J load load_sigma upsert pid cfg =
     andthen (load pid) (\<lambda>found. case found of
       None \<Rightarrow> ret ()
     | Some i \<Rightarrow> andthen (load_sigma (map pr_symbol (open_rows D i)) (cf_risk_sigma_window_n cfg)) (\<lambda>sigmas.
         case build_snapshot D F (recompute_input D i sigmas) of
           Inl e \<Rightarrow> throw e
         | Inr snap \<Rightarrow>
           (if \<not> cf_risk_snapshot_write_enabled cfg then ret ()
            else case in_trade_apply i of
                None \<Rightarrow> ret ()
              | Some m \<Rightarrow> (if am_event_id m = uuid_nil \<or> am_event_time m = 0 then ret ()
                  else upsert pid (am_event_time m) (am_event_id m) (RawDoc (risk_snapshot_json J snap))))))"

section \<open>Start\<close>

text \<open>The pool of price workers panics without price partitions.\<close>

definition start_workers :: "config \<Rightarrow> (trade_pool \<times> price_pool) res" where
  "start_workers cfg =
     (let trade_w = with_portfolio_snapshot_policy (cf_portfolio_snapshot_min_events cfg) (cf_portfolio_snapshot_interval cfg)
            (with_risk_scheduler True (new_worker (cf_apply_worker_tick cfg) (cf_ordering_watermark cfg)
              (cf_ordering_max_event_age cfg) (cf_apply_worker_count cfg) (cf_price_stream_partitions cfg)))
      in case new_price_pool (cf_apply_worker_tick cfg) (cf_ordering_watermark cfg) (cf_ordering_max_event_age cfg)
             (cf_price_apply_worker_count cfg) (cf_price_stream_partitions cfg) of
           Inl e \<Rightarrow> Inl e
         | Inr price_w \<Rightarrow> Inr (trade_w, price_w\<lparr>pl_risk_scheduler := True\<rparr>))"

definition router_config_of :: "config \<Rightarrow> router_config" where
  "router_config_of cfg = \<lparr>rc_partitions = cf_price_stream_partitions cfg, rc_risk_sigma_window_n = cf_risk_sigma_window_n cfg,
     rc_insights = (if cf_openai_api_key cfg = [] then None
       else Some (new_openai_service (cf_openai_api_key cfg) (cf_openai_base_url cfg) (cf_openai_model cfg))),
     rc_session_ttl = cf_auth_session_ttl cfg, rc_feed_enabled = cf_price_feed_enabled cfg,
     rc_feed_provider = cf_price_feed_provider cfg, rc_poll_interval = cf_price_feed_poll_interval cfg\<rparr>"

definition new_server ::
  "config \<Rightarrow> (('d, world) feed_config \<times> 'd price_ingestor) option \<Rightarrow> world \<Rightarrow> ('d, 'l) server" where
  "new_server cfg feed w = \<lparr>sv_world = w, sv_manager = Some (map_option snd feed),
     sv_runtime = (case feed of None \<Rightarrow> None | Some f \<Rightarrow> pi_runtime (snd f)),
     sv_ingest_limiter = (if cf_rate_limit_ingest_enabled cfg
       then Some (new_per_ip_rate_limiter (cf_rate_limit_ingest_rps cfg) (cf_rate_limit_ingest_burst cfg)) else None),
     sv_get_limiter = (if cf_rate_limit_get_enabled cfg
       then Some (new_per_ip_rate_limiter (cf_rate_limit_get_rps cfg) (cf_rate_limit_get_burst cfg)) else None)\<rparr>"

text \<open>An error of the configuration, of the workers or of the feed ends the process.\<close>

definition start_server ::
  "config res \<Rightarrow> (config \<Rightarrow> (('d, world) feed_config \<times> 'd price_ingestor) res) \<Rightarrow> (world, string list option) prog \<Rightarrow>
   (world, (trade_pool \<times> price_pool) \<times> router_config \<times> ('d, 'l) server) prog" where
  "start_server loaded new_feed load_watchlist w = (case loaded of
     Inl e \<Rightarrow> (Inl e, w)
   | Inr cfg \<Rightarrow> (case start_workers cfg of
       Inl e \<Rightarrow> (Inl e, w)
     | Inr pools \<Rightarrow> (case start_price_feed new_feed load_watchlist cfg w of
         (Inl e, w1) \<Rightarrow> (Inl e, w1)
       | (Inr feed, w1) \<Rightarrow> (Inr (pools, router_config_of cfg, new_server cfg feed w1), w1))))"

section \<open>What they keep\<close>

text \<open>
  A recomputation changes the table of risk snapshots only, by at most one row of its portfolio. The
  cursor of the row is that of the portfolio's positions when they were read.
\<close>

lemma upsert_risk_snapshot_row:
  "w_db (snd (upsert_risk_snapshot P pid t eid doc w)) = w_db w \<or>
    (\<exists>row. w_db (snd (upsert_risk_snapshot P pid t eid doc w)) =
        w_db w\<lparr>db_risk_snapshots := db_risk_snapshots (w_db w) @ [row]\<rparr> \<and>
      sn_portfolio_id row = pid \<and> sn_as_of row = Cursor (pg_time P t) eid \<and> eid \<noteq> uuid_nil)"
  by (auto simp: upsert_risk_snapshot_def throw_def db_tx_def next_call_def Let_def split: if_splits option.splits sum.splits)

lemma recompute_writes_snapshot:
  assumes "recompute_and_maybe_persist_risk D F J (load_portfolio_assembler_input D P) (load_symbol_sigma_1d D P)
      (upsert_risk_snapshot P) pid cfg w = (r, w')"
  shows "w_db w' = w_db w \<or> cf_risk_snapshot_write_enabled cfg \<and>
    (\<exists>row t eid. w_db w' = w_db w\<lparr>db_risk_snapshots := db_risk_snapshots (w_db w) @ [row]\<rparr> \<and>
      sn_portfolio_id row = pid \<and> sn_as_of row = Cursor (pg_time P t) eid \<and> eid \<noteq> uuid_nil)"
proof -
  let ?load = "load_portfolio_assembler_input D P pid w"
  let ?same = "w_db w' = w_db w"
  obtain a w1 where l: "?load = (a, w1)" by force
  have w1: "w_db w1 = w_db w" by (rule only_readsD [OF load_input_reads l])
  note run = assms [unfolded recompute_and_maybe_persist_risk_def andthen_def l prod.case]
  show ?thesis
  proof (cases "\<exists>i. a = Inr (Some i)")
    case False
    then have ?same using run w1 by (auto simp: ret_def split: sum.splits option.splits)
    then show ?thesis ..
  next
    case True
    then obtain i where a: "a = Inr (Some i)" ..
    obtain b w2 where sg: "load_symbol_sigma_1d D P (map pr_symbol (open_rows D i)) (cf_risk_sigma_window_n cfg) w1 = (b, w2)"
      by force
    have w2: "w_db w2 = w_db w" using only_readsD [OF store_reads(8) sg] w1 by simp
    note run = run [unfolded a sum.case option.case sg prod.case]
    consider (quiet) "w' = w2" | (stored) t eid doc where "upsert_risk_snapshot P pid t eid doc w2 = (r, w')"
        "cf_risk_snapshot_write_enabled cfg"
      using run by (auto simp: throw_def ret_def split: sum.splits option.splits if_splits)
    then show ?thesis
    proof cases
      case quiet
      then show ?thesis using w2 by simp
    next
      case (stored t eid doc)
      show ?thesis
        using upsert_risk_snapshot_row [of P pid t eid doc w2, unfolded stored(1) snd_conv w2] stored(2) by blast
    qed
  qed
qed

text \<open>A started server has price partitions, hence all its routes, a pool for prices and a scheduler in both pools.\<close>

lemma started_server:
  assumes "start_server loaded new_feed load_watchlist w = (Inr ((trade_w, price_w), C, s), w')"
  shows "rc_partitions C \<noteq> []" and "pl_partitions price_w = rc_partitions C"
    and "wk_exclude_price_partitions trade_w = rc_partitions C" and "1 \<le> wk_shard_count trade_w" and "1 \<le> pl_worker_count price_w"
    and "sv_manager s \<noteq> None"
proof -
  obtain cfg feed where cfg: "loaded = Inr cfg" "start_workers cfg = Inr (trade_w, price_w)"
    "C = router_config_of cfg" "s = new_server cfg feed w'"
    using assms by (auto simp: start_server_def split: sum.splits prod.splits)
  note w = cfg(2) [unfolded start_workers_def Let_def new_price_pool_def]
  show "rc_partitions C \<noteq> []" "pl_partitions price_w = rc_partitions C" "1 \<le> pl_worker_count price_w"
    using w by (auto simp: cfg(3) router_config_of_def split: if_splits)
  show "wk_exclude_price_partitions trade_w = rc_partitions C" "1 \<le> wk_shard_count trade_w"
    using w by (auto simp: cfg(3) router_config_of_def with_portfolio_snapshot_policy_def with_risk_scheduler_def new_worker_def
        split: if_splits)
  show "sv_manager s \<noteq> None" by (simp add: cfg(4) new_server_def)
qed

end
