(* ===== verification/Spec2Isabelle.thy ===== *)
theory Spec2Isabelle
  imports Decimal_Ref Positions Uuid Aggregate Portfolio_View Scenario Risk_Engine Worker_Properties Auth_Properties Feed_Properties Config_Properties Pipeline Pool_Properties Portfolio_Privacy Server
begin

text \<open>
  The real-time portfolio risk engine.

  The program is a server in Go. Clients submit trades and prices over HTTP; a poller submits the
  prices of a provider. Every submission becomes an event in one PostgreSQL table, keyed by
  portfolio (for prices: by one of a fixed number of price partitions) and made idempotent by a client key.
  Apply workers read the events of a partition in the order of (event time, event id), behind a
  cursor stored with what they write: the positions of a portfolio, or the price marks and daily
  returns of the symbols. Read endpoints mark positions to market, compute parametric risk, shock
  prices in scenarios and ask a language model to explain the result. Accounts with sessions own portfolios.

  \<^bold>\<open>The model.\<close> Every Go function is a function here, with its source file named at the head of its
  theory; a method that mutates its receiver returns the new value, an error is the left side of a
  sum, a panic the error \<open>EPanic\<close>, a call that may not return is an option. Strings are lists
  of bytes, instants and durations nanoseconds, UUIDs 128-bit words. Calls of the store and of the
  clock go through a \<open>world\<close>: the tables as lists of rows, the clocks of the process and of the
  database server, and a list of faults. A fault makes a call fail before or after its
  commit, so that every result below covers connections that break at any point. Goroutines are
  not threads of the model: concurrent parts take turns, in any order, at the granularity of a call of the
  database for requests and of a tick for the workers (\<open>Pipeline\<close>).

  \<^bold>\<open>Parameters.\<close> What is not under \<^verbatim>\<open>src/\<close> is an argument: the decimal package (\<open>decimal_api\<close> with
  \<open>decimal_laws\<close>), its JSON methods (\<open>json_api\<close>) and conversions to floats (\<open>float_api\<close>), UUID text
  (\<open>uuid_api\<close>), the scalar types of PostgreSQL (\<open>pg_api\<close> with \<open>pg_laws\<close>, \<open>account_api\<close>, \<open>collation\<close>),
  case mapping outside ASCII (\<open>case_api\<close>), bcrypt (\<open>password_api\<close>), the token buckets of the rate limiter
  (\<open>rate_api\<close>), the HTTP clients of the price provider and of the language model, and the iteration order of Go maps
  where it can be seen. The laws are documented behaviour of these packages, and each set of laws is proved for a reference
  instance (\<open>Decimal_Ref\<close>, \<open>ref_json\<close>, \<open>ref_uuid\<close>, \<open>ref_pg\<close> and so on), on which the witnesses run the model.

  \<^bold>\<open>Theories and source files.\<close>

  \<^item> Vocabulary: \<open>Prelude\<close>, \<open>Decimal\<close>, \<open>Decimal_Ref\<close>, \<open>Float64\<close> (IEEE binary64), \<open>Uuid\<close>; and of Go's standard library
    \<open>Go_Strings\<close>, \<open>Go_Text\<close>, \<open>Go_Time\<close>, \<open>Go_Json\<close> (the parser of \<^verbatim>\<open>encoding/json\<close>).
  \<^item> \<^verbatim>\<open>internal/domain\<close>: \<open>Domain_Model\<close> (events, payloads, validation), \<open>Payload_Json\<close>, \<open>Positions\<close> (\<^verbatim>\<open>positions.go\<close>).
  \<^item> \<^verbatim>\<open>internal/portfolio\<close>: \<open>Aggregate\<close> (aggregate and checkpoint document), \<open>Portfolio_View\<close>.
    \<^verbatim>\<open>internal/scenario\<close>: \<open>Scenario\<close>. \<^verbatim>\<open>internal/risk\<close>: \<open>Risk_Engine\<close>.
  \<^item> \<^verbatim>\<open>internal/events\<close>: \<open>Cursor\<close>; the tables and the state-passing in \<open>Database\<close>; \<^verbatim>\<open>postgres.go\<close> in \<open>Event_Store\<close>,
    \<open>Price_Store\<close> (with \<^verbatim>\<open>symbol_returns.go\<close>) and \<open>Account_Store\<close>; \<^verbatim>\<open>prices_ui_read.go\<close> in \<open>Price_Directory\<close>; the interface of the
    workers in \<open>Repository\<close>; the workers in \<open>Trade_Worker\<close>, \<open>Price_Worker\<close> and \<open>Worker_Pool\<close> (with the risk trigger); the shards of
    both pools as sequences of turns in \<open>Pool_Properties\<close>.
  \<^item> \<^verbatim>\<open>internal/ingestion\<close>: \<open>Ingestion\<close>; \<^verbatim>\<open>pricefeed\<close> in \<open>Price_Feed\<close>. \<^verbatim>\<open>internal/pricesource\<close>: \<open>Price_Source\<close>.
  \<^item> \<^verbatim>\<open>internal/ai\<close> and \<^verbatim>\<open>internal/insights\<close>: \<open>Insights_Ai\<close>, \<open>Insights_Explain\<close>, \<open>Insights_Api\<close>.
  \<^item> \<^verbatim>\<open>internal/api\<close>: \<open>Http_Api\<close> (errors, binding of bodies), \<open>Api_Ingest\<close>, \<open>Auth_Api\<close>, \<open>Portfolio_Api\<close>, \<open>Watchlist_Api\<close>,
    \<open>Price_Directory\<close>, and \<open>Router\<close>, which puts the handlers behind their middleware as one function \<open>serve\<close> of a request.
  \<^item> \<^verbatim>\<open>internal/config\<close>: \<open>Config\<close>. \<^verbatim>\<open>cmd/server/main.go\<close>: \<open>Server\<close> (start, recomputation of risk) and \<open>Watchlist_Api\<close> (start of the poller).

  \<^bold>\<open>Interfaces.\<close> The workers are verified against a contract of the store, a locale of \<open>Repository\<close> extended
  per worker (\<open>Trade_Worker_Laws\<close>, \<open>Price_Worker_Laws\<close>): what each call does to the views of a partition (stream,
  cursor, rows, dead letters), failures included. \<open>Postgres_Repository\<close> and \<open>Postgres_Prices\<close> interpret it for the model of
  \<^verbatim>\<open>PostgresStore\<close>, so that the properties of the pumps speak of the tables; \<open>Pool_Properties\<close> extends it by what the pools need.
\<close>

text \<open>
  \<^bold>\<open>What is shown.\<close>

  \<^item> The pipeline: an accepted submission is stored once and read back as sent (\<open>Store_Properties\<close>); a tick of
    a worker always returns, leaves the database at the end of a prefix of its events whatever failed, and in a
    healthy world catches up to the watermark (\<open>Worker_Properties\<close>, from the abstract log of \<open>Apply_Log\<close> and \<open>Trade_Pump\<close>); in every
    interleaving of submissions and successful ticks each event is consumed exactly once, except those
    that arrive behind the cursor, which are lost (\<open>Pipeline\<close>). A failed commit is shown to count a batch twice.
    Each partition has one writer among the shards of both pools (\<open>Pool_Properties\<close>).
  \<^item> The numbers: \<open>ApplyTrade\<close> refines a weighted-average-cost rule, never goes short and keeps the books balanced up to the
    rounding of averages; the view, the scenarios and the risk snapshot compute the sums they are documented to compute, in any
    order of rows and map entries; the checkpoint document is read back.
  \<^item> The surface: which requests can write an event, and that the data of a portfolio goes to its owner only, for every request
    \<open>serve\<close> takes (\<open>Router_Properties\<close>, \<open>Portfolio_Privacy\<close>); sessions and passwords (\<open>Auth_Properties\<close>); the watchlist; what an
    explanation of the language model has passed, and what not (\<open>Insights_Explain\<close>).
  \<^item> The edges: sequence numbers in any run of the poller's loop and its lost prices (\<open>Feed_Properties\<close>), and the ranges of a loaded configuration
    (\<open>Config_Properties\<close>).

  \<^bold>\<open>Bounds and fuel.\<close> The loops of the pumps over pages of events are partial functions: not returning is the value \<open>None\<close>,
  and \<open>trade_pump_terminates\<close> and \<open>price_pump_applies_prices\<close> show that it does not happen, because the cursor passes at least one
  stored event in each iteration that goes on. The creation of a portfolio draws identifiers until one is not reserved, a partial
  function too, whose \<open>None\<close> is a generator that repeats reserved ones for ever. The JSON parser recurses over a list with three cells per
  character, because between two characters there are at most three nested calls (value, element, member); nesting is limited
  to 10000 as in Go. The bound of a billion on the integers of the environment in \<open>load_config_in_range\<close> keeps products within 64 bits,
  beyond which the code wraps. The risk theorems ask for sigmas up to \<open>sigma_bound\<close>, far above any market, so that no float overflows.

  \<^bold>\<open>Not modelled.\<close> Metrics and logging, because nothing reads them back. The tickers, whose turns are the arguments of the loops, the signals and the shutdown of the
  process: waits with no state of their own. Cancellation of contexts, except where the poller sees it. The texts that
  PostgreSQL, \<^verbatim>\<open>encoding/json\<close> and the network give their errors, what is put around a sentinel error, fused
  multiply-add of floats, and the headers of responses except the session
  cookie. The JSON text of successful answers, except the context sent to the language model, which the program reads again,
  and the stored risk document. Staleness is a duration where the answer has seconds as a float. The web client is in another language.
\<close>

end
